(* ===== verification/Prelude.thy ===== *)
theory Prelude
  imports Main "HOL-Library.Char_ord" "HOL-Library.List_Lexorder" "HOL-Library.Monad_Syntax"
    "HOL-Library.Code_Target_Nat"
begin

text \<open>
  Shared vocabulary of the development: byte strings, byte classes, the bounded folds the Go
  loops become, and generic lemmas on lists and association lists. A Go \<open>[]byte\<close> or
  \<open>string\<close> is a \<open>string\<close> (a list of 8-bit characters); a Go \<open>map\<close> whose iteration order
  is irrelevant is an association list with distinct keys or a partial function.
\<close>

named_theorems broker_defs \<open>operations of the relay broker\<close>
named_theorems pool_defs \<open>operations of the ACP pool\<close>

type_synonym bytes = string

definition byte :: "char \<Rightarrow> nat" where
  "byte c = of_char c"

lemma byte_less [simp]: "byte c < 256"
  by (simp add: byte_def)

lemma byte_char_of [simp]: "n < 256 \<Longrightarrow> byte (char_of n) = n"
  by (simp add: byte_def)

lemma char_of_byte [simp]: "char_of (byte c) = c"
  by (simp add: byte_def)

lemma byte_inject [simp]: "byte c = byte d \<longleftrightarrow> c = d"
  by (metis char_of_byte)

subsection \<open>Byte classes\<close>

definition is_digit :: "char \<Rightarrow> bool" where
  "is_digit c \<longleftrightarrow> 48 \<le> byte c \<and> byte c \<le> 57"

definition is_lower :: "char \<Rightarrow> bool" where
  "is_lower c \<longleftrightarrow> 97 \<le> byte c \<and> byte c \<le> 122"

definition is_upper :: "char \<Rightarrow> bool" where
  "is_upper c \<longleftrightarrow> 65 \<le> byte c \<and> byte c \<le> 90"

text \<open>The identifier alphabet that several validators of the code spell out byte by byte.\<close>

definition is_ident_byte :: "char \<Rightarrow> bool" where
  "is_ident_byte c \<longleftrightarrow> is_lower c \<or> is_upper c \<or> is_digit c \<or> c = CHR ''_'' \<or> c = CHR ''-''"

definition is_space :: "char \<Rightarrow> bool" where
  "is_space c \<longleftrightarrow> c = CHR '' '' \<or> c = CHR 0x09 \<or> c = CHR 0x0A \<or> c = CHR 0x0D"

subsection \<open>Association lists as finite Go maps\<close>

definition keys :: "('k \<times> 'v) list \<Rightarrow> 'k list" where
  "keys m = map fst m"

definition has_key :: "('k \<times> 'v) list \<Rightarrow> 'k \<Rightarrow> bool" where
  "has_key m k \<longleftrightarrow> map_of m k \<noteq> None"

fun aset :: "'k \<Rightarrow> 'v \<Rightarrow> ('k \<times> 'v) list \<Rightarrow> ('k \<times> 'v) list" where
  "aset k v [] = [(k, v)]"
| "aset k v ((k', v') # m) = (if k = k' then (k, v) # m else (k', v') # aset k v m)"

definition adel :: "'k \<Rightarrow> ('k \<times> 'v) list \<Rightarrow> ('k \<times> 'v) list" where
  "adel k m = filter (\<lambda>(k', _). k' \<noteq> k) m"

lemma map_of_aset [simp]: "map_of (aset k v m) = (map_of m)(k \<mapsto> v)"
  by (induction m) (auto simp: fun_eq_iff)

lemma set_keys_aset [simp]: "fst ` set (aset k v m) = insert k (fst ` set m)"
  by (induction m) (force split: if_splits)+

lemma distinct_aset [simp]: "distinct (map fst m) \<Longrightarrow> distinct (map fst (aset k v m))"
  by (induction m) auto

lemma map_of_adel [simp]: "map_of (adel k m) = (map_of m)(k := None)"
  by (induction m) (auto simp: adel_def fun_eq_iff)

lemma set_keys_adel [simp]: "fst ` set (adel k m) = fst ` set m - {k}"
  by (auto simp: adel_def)

lemma distinct_adel [simp]: "distinct (map fst m) \<Longrightarrow> distinct (map fst (adel k m))"
  by (induction m) (auto simp: adel_def)

lemma length_aset: "length (aset k v m) = (if has_key m k then length m else Suc (length m))"
  by (induction m) (auto simp: has_key_def)

lemma has_key_iff: "has_key m k \<longleftrightarrow> k \<in> fst ` set m"
  by (auto simp: has_key_def map_of_eq_None_iff)

lemma adel_absent: "\<not> has_key m k \<Longrightarrow> adel k m = m"
  by (induction m) (auto simp: adel_def has_key_def split: if_splits)

lemma length_adel:
  "distinct (map fst m) \<Longrightarrow> length (adel k m) = (if has_key m k then length m - 1 else length m)"
proof (induction m)
  case Nil
  then show ?case by (simp add: adel_def has_key_def)
next
  case (Cons p m)
  obtain a b where p: "p = (a, b)" by (cases p)
  show ?case
  proof (cases "a = k")
    case True
    with Cons.prems p have "\<not> has_key m k" by (auto simp: has_key_iff)
    then have "adel k m = m" by (rule adel_absent)
    with True p show ?thesis by (simp add: adel_def has_key_def)
  next
    case False
    have "has_key m k \<Longrightarrow> 0 < length m" by (cases m) (auto simp: has_key_def)
    with False Cons p show ?thesis by (auto simp: adel_def has_key_def)
  qed
qed

lemma map_of_filter_keys:
  "map_of (filter (\<lambda>(i, _). P i) m) k = (if P k then map_of m k else None)"
  by (induction m) auto

subsection \<open>Sums over association lists\<close>

definition asum :: "('v \<Rightarrow> nat) \<Rightarrow> ('k \<times> 'v) list \<Rightarrow> nat" where
  "asum f m = sum_list (map (\<lambda>(_, v). f v) m)"

lemma asum_Nil [simp]: "asum f [] = 0"
  by (simp add: asum_def)

lemma asum_Cons [simp]: "asum f ((k, v) # m) = f v + asum f m"
  by (simp add: asum_def)

lemma asum_fresh: "\<not> has_key m k \<Longrightarrow> asum f (aset k v m) = asum f m + f v"
  by (induction m) (auto simp: has_key_def split: if_splits)

lemma asum_adel:
  "distinct (map fst m) \<Longrightarrow> map_of m k = Some v \<Longrightarrow> asum f m = f v + asum f (adel k m)"
proof (induction m)
  case Nil
  then show ?case by simp
next
  case (Cons p m)
  obtain a b where p: "p = (a, b)" by (cases p)
  show ?case
  proof (cases "a = k")
    case True
    with Cons.prems p have "\<not> has_key m k" by (auto simp: has_key_iff)
    then have "adel k m = m" by (rule adel_absent)
    with True p Cons.prems show ?thesis by (simp add: adel_def)
  next
    case False
    with Cons p show ?thesis by (auto simp: adel_def)
  qed
qed

subsection \<open>Lists\<close>

lemma takeWhile_dropWhile_cons:
  "dropWhile P xs = y # ys \<Longrightarrow> xs = takeWhile P xs @ y # ys"
  by (metis takeWhile_dropWhile_id)

lemma length_dropWhile_less: "dropWhile P xs = y # ys \<Longrightarrow> length ys < length xs"
  by (metis length_Cons length_dropWhile_le not_less_eq less_Suc_eq_le)

lemma sum_list_take_le: "sum_list (take n (xs :: nat list)) \<le> sum_list xs"
  by (metis append_take_drop_id le_add1 sum_list_append)

subsection \<open>Invariants of state machines\<close>

text \<open>
  The contract every stateful component meets: an invariant that holds initially and that each step
  keeps. What follows for all reachable states is proved here once.
\<close>

locale invariant_machine =
  fixes initial :: "'s \<Rightarrow> bool" and step :: "'s \<Rightarrow> 's \<Rightarrow> bool" and inv :: "'s \<Rightarrow> bool"
  assumes initial_inv: "initial s \<Longrightarrow> inv s"
    and step_inv: "inv s \<Longrightarrow> step s t \<Longrightarrow> inv t"
begin

lemma steps_inv: "step\<^sup>*\<^sup>* s t \<Longrightarrow> inv s \<Longrightarrow> inv t"
  by (induction rule: rtranclp_induct) (auto intro: step_inv)

lemma reachable_inv: "initial s \<Longrightarrow> step\<^sup>*\<^sup>* s t \<Longrightarrow> inv t"
  using steps_inv initial_inv by blast

end

subsection \<open>Rate-limited refreshes\<close>

text \<open>
  The contract of a cache that starts refreshes of its own: a step at some time may start one, only when the state
  is ready, and then it is not ready again before the gap has passed. That the starts of a whole run are at least the
  gap apart is proved here once.
\<close>

inductive timed_run :: "('s \<Rightarrow> int \<Rightarrow> bool \<Rightarrow> 's \<Rightarrow> bool) \<Rightarrow> 's \<Rightarrow> int list \<Rightarrow> 's \<Rightarrow> bool" for step where
  stop: "timed_run step s [] s"
| start: "step s now True t \<Longrightarrow> timed_run step t ts u \<Longrightarrow> timed_run step s (now # ts) u"
| go: "step s now False t \<Longrightarrow> timed_run step t ts u \<Longrightarrow> timed_run step s ts u"

locale rate_limited =
  fixes step :: "'s \<Rightarrow> int \<Rightarrow> bool \<Rightarrow> 's \<Rightarrow> bool" and ok :: "'s \<Rightarrow> bool" and ready_at :: "'s \<Rightarrow> int" and gap :: "'s \<Rightarrow> int"
  assumes starts: "ok s \<Longrightarrow> step s now True t \<Longrightarrow> ok t \<and> ready_at s \<le> now \<and> now + gap s \<le> ready_at t \<and> gap t = gap s"
    and waits: "ok s \<Longrightarrow> step s now False t \<Longrightarrow> ok t \<and> ready_at s \<le> ready_at t \<and> gap t = gap s"
    and gap_pos: "ok s \<Longrightarrow> 0 \<le> gap s"
begin

lemma starts_spaced:
  "timed_run step s ts u \<Longrightarrow> ok s \<Longrightarrow> sorted_wrt (\<lambda>a b. a + gap s \<le> b) ts \<and> (\<forall>a\<in>set ts. ready_at s \<le> a) \<and> ok u"
proof (induction rule: timed_run.induct)
  case (start s now t ts u)
  from starts [OF start.prems start.hyps(1)] start.IH gap_pos [OF start.prems] show ?case by fastforce
next
  case (go s now t ts u)
  from waits [OF go.prems go.hyps(1)] go.IH show ?case by fastforce
qed simp

end

end
