(* ===== verification/GoText.thy ===== *)
theory GoText
  imports Prelude
begin

text \<open>
  The parts of Go's standard library on byte strings that the proxy uses: UTF-8 (\<open>unicode/utf8\<close>),
  hexadecimal and base64 encodings, trimming and searching (\<open>strings\<close>, \<open>bytes\<close>), and the
  decimal readers of \<open>strconv\<close>.
\<close>

subsection \<open>UTF-8\<close>

definition is_cont :: "char \<Rightarrow> bool" where
  "is_cont c \<longleftrightarrow> 128 \<le> byte c \<and> byte c \<le> 191"

definition in_range :: "nat \<Rightarrow> nat \<Rightarrow> char \<Rightarrow> bool" where
  "in_range lo hi c \<longleftrightarrow> lo \<le> byte c \<and> byte c \<le> hi"

text \<open>
  The length of the well-formed UTF-8 sequence at the head of the string, 0 where there is none:
  the accept ranges of Go's \<open>utf8\<close> tables, so overlong forms, surrogates and code points above
  U+10FFFF are rejected.
\<close>

definition rune_len :: "bytes \<Rightarrow> nat" where
  "rune_len s = (case s of
     [] \<Rightarrow> 0
   | a # t \<Rightarrow>
      if byte a < 128 then 1
      else case t of
        [] \<Rightarrow> 0
      | b # u \<Rightarrow>
         if in_range 194 223 a then (if is_cont b then 2 else 0)
         else case u of
           [] \<Rightarrow> 0
         | c # v \<Rightarrow>
            if in_range 224 239 a then
              (if (if byte a = 224 then in_range 160 191 b
                   else if byte a = 237 then in_range 128 159 b else is_cont b) \<and> is_cont c
               then 3 else 0)
            else case v of
              [] \<Rightarrow> 0
            | d # _ \<Rightarrow>
               if in_range 240 244 a then
                 (if (if byte a = 240 then in_range 144 191 b
                      else if byte a = 244 then in_range 128 143 b else is_cont b)
                     \<and> is_cont c \<and> is_cont d
                  then 4 else 0)
               else 0)"

definition rune_val :: "bytes \<Rightarrow> nat" where
  "rune_val s = (case rune_len s of
     0 \<Rightarrow> 65533
   | n \<Rightarrow>
      if n = 1 then byte (s ! 0)
      else if n = 2 then (byte (s ! 0) - 192) * 64 + (byte (s ! 1) - 128)
      else if n = 3 then (byte (s ! 0) - 224) * 4096 + (byte (s ! 1) - 128) * 64 + (byte (s ! 2) - 128)
      else (byte (s ! 0) - 240) * 262144 + (byte (s ! 1) - 128) * 4096
           + (byte (s ! 2) - 128) * 64 + (byte (s ! 3) - 128))"

lemma rune_len_le: "rune_len s \<le> length s"
  by (auto simp: rune_len_def split: list.splits)

lemma rune_len_ascii [simp]: "byte c < 128 \<Longrightarrow> rune_len (c # s) = 1"
  by (simp add: rune_len_def)

lemma rune_len_append: "0 < rune_len s \<Longrightarrow> rune_len (s @ t) = rune_len s"
proof -
  assume pos: "0 < rune_len s"
  consider "s = []" | a where "s = [a]" | a b where "s = [a, b]" | a b c where "s = [a, b, c]"
    | a b c d r where "s = a # b # c # d # r"
    by (metis list.exhaust)
  then show ?thesis
    using pos by cases (simp_all add: rune_len_def split: if_splits)
qed

function utf8_valid :: "bytes \<Rightarrow> bool" where
  "utf8_valid s =
     (if s = [] then True
      else if rune_len s = 0 then False
      else utf8_valid (drop (rune_len s) s))"
  by pat_completeness auto
termination
  by (relation "measure length") auto

declare utf8_valid.simps [simp del]

lemma utf8_valid_Nil [simp]: "utf8_valid []"
  by (simp add: utf8_valid.simps)

lemma utf8_valid_ascii [simp]: "byte c < 128 \<Longrightarrow> utf8_valid (c # s) = utf8_valid s"
  by (simp add: utf8_valid.simps [of "c # s"])

lemma utf8_valid_all_ascii: "(\<forall>c \<in> set s. byte c < 128) \<Longrightarrow> utf8_valid s"
  by (induction s) auto

lemma utf8_valid_append: "utf8_valid s \<Longrightarrow> utf8_valid (s @ t) = utf8_valid t"
proof (induction s rule: utf8_valid.induct)
  case (1 s)
  show ?case
  proof (cases "s = []")
    case False
    with "1.prems" have n: "0 < rune_len s" and v: "utf8_valid (drop (rune_len s) s)"
      by (auto simp: utf8_valid.simps [of s] split: if_splits)
    have "utf8_valid (s @ t) = utf8_valid (drop (rune_len s) s @ t)"
      using False n rune_len_le [of s]
      by (simp add: utf8_valid.simps [of "s @ t"] rune_len_append)
    with "1.IH" False n v show ?thesis by simp
  qed simp
qed

text \<open>\<open>utf8.AppendRune\<close>: surrogates and values above U+10FFFF become U+FFFD.\<close>

definition encode_rune :: "nat \<Rightarrow> bytes" where
  "encode_rune r =
     (if r < 128 then [char_of r]
      else if r < 2048 then [char_of (192 + r div 64), char_of (128 + r mod 64)]
      else if (55296 \<le> r \<and> r \<le> 57343) \<or> 1114111 < r then [CHR 0xEF, CHR 0xBF, CHR 0xBD]
      else if r < 65536 then
        [char_of (224 + r div 4096), char_of (128 + r div 64 mod 64), char_of (128 + r mod 64)]
      else
        [char_of (240 + r div 262144), char_of (128 + r div 4096 mod 64),
         char_of (128 + r div 64 mod 64), char_of (128 + r mod 64)])"

subsection \<open>Hexadecimal\<close>

definition hex_val :: "char \<Rightarrow> nat option" where
  "hex_val c =
     (if is_digit c then Some (byte c - 48)
      else if 97 \<le> byte c \<and> byte c \<le> 102 then Some (byte c - 87)
      else if 65 \<le> byte c \<and> byte c \<le> 70 then Some (byte c - 55)
      else None)"

definition hex_digit :: "nat \<Rightarrow> char" where
  "hex_digit n = char_of (if n < 10 then 48 + n else 87 + n)"

text \<open>\<open>hex.EncodeToString\<close> and \<open>hex.DecodeString\<close>.\<close>

fun hex_encode :: "bytes \<Rightarrow> bytes" where
  "hex_encode [] = []"
| "hex_encode (c # s) = hex_digit (byte c div 16) # hex_digit (byte c mod 16) # hex_encode s"

fun hex_decode :: "bytes \<Rightarrow> bytes option" where
  "hex_decode [] = Some []"
| "hex_decode [c] = None"
| "hex_decode (a # b # s) =
     (case (hex_val a, hex_val b) of
        (Some x, Some y) \<Rightarrow> map_option ((#) (char_of (16 * x + y))) (hex_decode s)
      | _ \<Rightarrow> None)"

lemma length_hex_encode [simp]: "length (hex_encode s) = 2 * length s"
  by (induction s) auto

lemma hex_val_digit [simp]: "n < 16 \<Longrightarrow> hex_val (hex_digit n) = Some n"
  by (auto simp: hex_val_def hex_digit_def is_digit_def)

lemma hex_decode_encode [simp]: "hex_decode (hex_encode s) = Some s"
proof (induction s)
  case (Cons c s)
  have "byte c div 16 < 16" using byte_less [of c] by (simp add: less_mult_imp_div_less)
  with Cons show ?case by simp
qed simp

subsection \<open>Trimming, searching, prefixes\<close>

definition trim_space :: "bytes \<Rightarrow> bytes" where
  "trim_space s = rev (dropWhile is_space (rev (dropWhile is_space s)))"

definition contains_any :: "bytes \<Rightarrow> bytes \<Rightarrow> bool" where
  "contains_any s chars \<longleftrightarrow> list_ex (\<lambda>c. c \<in> set chars) s"

definition has_prefix :: "bytes \<Rightarrow> bytes \<Rightarrow> bool" where
  "has_prefix s p \<longleftrightarrow> take (length p) s = p"

definition has_suffix :: "bytes \<Rightarrow> bytes \<Rightarrow> bool" where
  "has_suffix s p \<longleftrightarrow> has_prefix (rev s) (rev p)"

definition ascii_lower :: "char \<Rightarrow> char" where
  "ascii_lower c = (if is_upper c then char_of (byte c + 32) else c)"

subsection \<open>Decimal integers\<close>

definition digits_val :: "bytes \<Rightarrow> nat" where
  "digits_val s = foldl (\<lambda>n c. 10 * n + (byte c - 48)) 0 s"

text \<open>
  \<open>strconv.ParseInt(s, 10, 64)\<close> and \<open>strconv.Atoi\<close> on a 64-bit target: an optional sign and at
  least one digit, with the range of a signed 64-bit integer.
\<close>

definition parse_int64 :: "bytes \<Rightarrow> int option" where
  "parse_int64 s =
     (let (neg, d) = (case s of [] \<Rightarrow> (False, [])
                      | c # r \<Rightarrow> if c = CHR ''-'' then (True, r)
                                 else if c = CHR ''+'' then (False, r) else (False, s))
      in if d = [] \<or> \<not> list_all is_digit d then None
         else let n = int (digits_val d); v = (if neg then - n else n)
              in if - (2 ^ 63) \<le> v \<and> v < 2 ^ 63 then Some v else None)"

lemma parse_int64_bounds: "parse_int64 s = Some v \<Longrightarrow> - (2 ^ 63) \<le> v \<and> v < 2 ^ 63"
  by (auto simp: parse_int64_def Let_def split: list.splits if_splits)

subsection \<open>Strict base64\<close>

text \<open>
  \<open>base64.StdEncoding.Strict().DecodeString\<close> on input without line breaks (every caller rejects
  \<open>\\r\<close> and \<open>\\n\<close> first): groups of four alphabet bytes, padding only in the last group, and
  the unused low bits of a padded group zero.
\<close>

definition b64_val :: "char \<Rightarrow> nat option" where
  "b64_val c =
     (if is_upper c then Some (byte c - 65)
      else if is_lower c then Some (byte c - 71)
      else if is_digit c then Some (byte c + 4)
      else if c = CHR ''+'' then Some 62
      else if c = CHR ''/'' then Some 63
      else None)"

fun b64_decode :: "bytes \<Rightarrow> bytes option" where
  "b64_decode [] = Some []"
| "b64_decode (a # b # c # d # s) =
     (case (b64_val a, b64_val b) of
        (Some x, Some y) \<Rightarrow>
          (if c = CHR ''='' then
             (if d = CHR ''='' \<and> s = [] \<and> y mod 16 = 0 then Some [char_of (4 * x + y div 16)] else None)
           else (case b64_val c of
               None \<Rightarrow> None
             | Some z \<Rightarrow>
                 (if d = CHR ''='' then
                    (if s = [] \<and> z mod 4 = 0
                     then Some [char_of (4 * x + y div 16), char_of (16 * (y mod 16) + z div 4)] else None)
                  else (case b64_val d of
                      None \<Rightarrow> None
                    | Some w \<Rightarrow>
                        map_option (\<lambda>r. char_of (4 * x + y div 16) # char_of (16 * (y mod 16) + z div 4)
                                         # char_of (64 * (z mod 4) + w) # r) (b64_decode s)))))
      | _ \<Rightarrow> None)"
| "b64_decode _ = None"

text \<open>\<open>EncodedLen\<close> of the padded standard encoding.\<close>

definition b64_encoded_len :: "nat \<Rightarrow> nat" where
  "b64_encoded_len n = (n + 2) div 3 * 4"

lemma b64_decode_length: "b64_decode s = Some t \<Longrightarrow> 4 * length t \<le> 3 * length s"
proof (induction s arbitrary: t rule: b64_decode.induct)
  case (2 a b c d s)
  show ?case
  proof (cases "\<exists>r. b64_decode s = Some r \<and> length t = length r + 3")
    case True
    then obtain r where "b64_decode s = Some r" "length t = length r + 3" by blast
    with 2 show ?thesis by (fastforce split: option.splits if_splits)
  next
    case False
    with "2.prems" have "length t \<le> 2" by (auto split: option.splits if_splits)
    then show ?thesis by simp
  qed
qed auto

end
