(* ===== verification/GoJson.thy ===== *)
theory GoJson
  imports GoText
begin

text \<open>
  The part of Go's \<open>encoding/json\<close> that the proxy relies on. A document is read by a lexer and a
  pushdown parser (one step per token, so reading always terminates); a parsed value keeps the exact
  bytes it was read from, because \<open>json.RawMessage\<close> hands them to later code. Writing covers string
  quoting with HTML escaping, maps with sorted keys and the compaction of raw messages.
\<close>

datatype json =
    JNull
  | JBool bool
  | JNum bytes
  | JStr bytes bytes          \<comment> \<open>raw text with quotes, decoded text\<close>
  | JArr bytes "json list"
  | JObj bytes "(bytes \<times> json) list"

fun raw_of :: "json \<Rightarrow> bytes" where
  "raw_of JNull = ''null''"
| "raw_of (JBool True) = ''true''"
| "raw_of (JBool False) = ''false''"
| "raw_of (JNum r) = r"
| "raw_of (JStr r _) = r"
| "raw_of (JArr r _) = r"
| "raw_of (JObj r _) = r"

subsection \<open>Strings\<close>

definition replacement :: bytes where
  "replacement = [CHR 0xEF, CHR 0xBF, CHR 0xBD]"

fun u4 :: "bytes \<Rightarrow> (nat \<times> bytes) option" where
  "u4 (a # b # c # d # r) =
     (case (hex_val a, hex_val b, hex_val c, hex_val d) of
        (Some w, Some x, Some y, Some z) \<Rightarrow> Some (4096 * w + 256 * x + 16 * y + z, r)
      | _ \<Rightarrow> None)"
| "u4 _ = None"

fun u4_escape :: "bytes \<Rightarrow> (nat \<times> bytes) option" where
  "u4_escape (a # b # r) = (if a = CHR 0x5C \<and> b = CHR ''u'' then u4 r else None)"
| "u4_escape _ = None"

definition is_surrogate :: "nat \<Rightarrow> bool" where
  "is_surrogate x \<longleftrightarrow> 55296 \<le> x \<and> x \<le> 57343"

text \<open>The code point at a \<open>\\u\<close> escape, with the second half of a surrogate pair consumed.\<close>

definition unicode_escape :: "bytes \<Rightarrow> (bytes \<times> bytes) option" where
  "unicode_escape s = (case u4 s of
     None \<Rightarrow> None
   | Some (x, r) \<Rightarrow>
       if \<not> is_surrogate x then Some (encode_rune x, r)
       else (case u4_escape r of
           None \<Rightarrow> Some (replacement, r)
         | Some (y, r') \<Rightarrow>
             if x \<le> 56319 \<and> 56320 \<le> y \<and> y \<le> 57343
             then Some (encode_rune (65536 + (x - 55296) * 1024 + (y - 56320)), r')
             else Some (replacement, r)))"

definition simple_escape :: "char \<Rightarrow> char option" where
  "simple_escape e =
     (if e = CHR 0x22 \<or> e = CHR 0x5C \<or> e = CHR ''/'' then Some e
      else if e = CHR ''b'' then Some (CHR 0x08)
      else if e = CHR ''f'' then Some (CHR 0x0C)
      else if e = CHR ''n'' then Some (CHR 0x0A)
      else if e = CHR ''r'' then Some (CHR 0x0D)
      else if e = CHR ''t'' then Some (CHR 0x09)
      else None)"

lemma u4_length: "u4 s = Some (x, r) \<Longrightarrow> length s = length r + 4"
  by (induction s rule: u4.induct) (auto split: option.splits)

lemma u4_escape_length: "u4_escape s = Some (x, r) \<Longrightarrow> length s = length r + 6"
  by (induction s rule: u4_escape.induct) (auto dest: u4_length split: if_splits)

lemma unicode_escape_length: "unicode_escape s = Some (t, r) \<Longrightarrow> length r < length s"
  by (auto simp: unicode_escape_def dest!: u4_length u4_escape_length split: option.splits if_splits)

definition prepend :: "bytes \<Rightarrow> (bytes \<times> 'r) option \<Rightarrow> (bytes \<times> 'r) option" where
  "prepend t p = map_option (\<lambda>(d, r). (t @ d, r)) p"

lemma prepend_simps [simp]:
  "prepend t None = None" "prepend t (Some (d, r)) = Some (t @ d, r)"
  "prepend t p = Some (d', r') \<longleftrightarrow> (\<exists>d. p = Some (d, r') \<and> d' = t @ d)"
  "Some (d', r') = prepend t p \<longleftrightarrow> (\<exists>d. p = Some (d, r') \<and> d' = t @ d)"
  by (cases p; force simp: prepend_def)+

text \<open>
  Decode a string from just after its opening quote: the decoded text and what follows the closing
  quote. Control bytes and unknown escapes are errors; bytes that are not UTF-8 decode to U+FFFD.
\<close>

function unquote :: "bytes \<Rightarrow> (bytes \<times> bytes) option" where
  "unquote [] = None"
| "unquote (c # r) =
     (if c = CHR 0x22 then Some ([], r)
      else if c = CHR 0x5C then
        (case r of
           [] \<Rightarrow> None
         | e # r2 \<Rightarrow>
             (case simple_escape e of
                Some b \<Rightarrow> prepend [b] (unquote r2)
              | None \<Rightarrow>
                  if e = CHR ''u'' then
                    (case unicode_escape r2 of
                       None \<Rightarrow> None
                     | Some (t, r3) \<Rightarrow> prepend t (unquote r3))
                  else None))
      else if byte c < 32 then None
      else if rune_len (c # r) = 0 then prepend replacement (unquote r)
      else prepend (take (rune_len (c # r)) (c # r)) (unquote (drop (rune_len (c # r)) (c # r))))"
  by pat_completeness auto
termination
  by (relation "measure length") (auto dest: unicode_escape_length)

declare unquote.simps(2) [simp del]

lemma unquote_length: "unquote s = Some (d, r) \<Longrightarrow> length r < length s"
proof (induction s arbitrary: d r rule: unquote.induct)
  case (2 c s)
  note u = unquote.simps(2) [of c s]
  consider (quote) "c = CHR 0x22"
    | (esc) "c = CHR 0x5C"
    | (bad) "c \<noteq> CHR 0x22" "c \<noteq> CHR 0x5C" "\<not> byte c < 32" "rune_len (c # s) = 0"
    | (rune) "c \<noteq> CHR 0x22" "c \<noteq> CHR 0x5C" "\<not> byte c < 32" "rune_len (c # s) \<noteq> 0"
    using "2.prems" u by (force split: if_splits)
  then show ?case
  proof cases
    case quote
    with "2.prems" u show ?thesis by simp
  next
    case esc
    with "2.prems" u obtain e r2 where s: "s = e # r2" by (auto split: list.splits)
    show ?thesis
    proof (cases "simple_escape e")
      case None
      with "2.prems" u esc s obtain t r3 d' where
        "e = CHR ''u''" "unicode_escape r2 = Some (t, r3)" "unquote r3 = Some (d', r)"
        by (auto split: if_splits option.splits)
      with "2.IH"(1) [OF _ esc s None] esc s unicode_escape_length [of r2 t r3] show ?thesis
        by fastforce
    next
      case (Some b)
      with "2.prems" u esc s obtain d' where "unquote r2 = Some (d', r)" by auto
      with "2.IH"(2) [OF _ esc s Some] esc s show ?thesis by fastforce
    qed
  next
    case bad
    with "2.prems" u obtain d' where "unquote s = Some (d', r)" by auto
    with "2.IH"(3) bad show ?thesis by fastforce
  next
    case rune
    with "2.prems" u obtain d' where "unquote (drop (rune_len (c # s)) (c # s)) = Some (d', r)" by auto
    with "2.IH"(4) rune show ?thesis by fastforce
  qed
qed simp

subsection \<open>Numbers\<close>

text \<open>The integer, fraction and exponent parts of the JSON number grammar.\<close>

definition num_int :: "bytes \<Rightarrow> (bytes \<times> bytes) option" where
  "num_int s = (case s of
     [] \<Rightarrow> None
   | c # r \<Rightarrow> if c = CHR ''0'' then Some ([c], r)
             else if is_digit c then Some (c # takeWhile is_digit r, dropWhile is_digit r)
             else None)"

definition num_frac :: "bytes \<Rightarrow> (bytes \<times> bytes) option" where
  "num_frac s = (case s of
     [] \<Rightarrow> Some ([], s)
   | c # r \<Rightarrow> if c \<noteq> CHR ''.'' then Some ([], s)
             else if takeWhile is_digit r = [] then None
             else Some (c # takeWhile is_digit r, dropWhile is_digit r))"

definition exp_sign :: "bytes \<Rightarrow> bytes" where
  "exp_sign r = (case r of
     [] \<Rightarrow> []
   | g # _ \<Rightarrow> if g = CHR ''+'' \<or> g = CHR ''-'' then [g] else [])"

definition num_exp :: "bytes \<Rightarrow> (bytes \<times> bytes) option" where
  "num_exp s = (case s of
     [] \<Rightarrow> Some ([], s)
   | c # r \<Rightarrow>
       if c \<noteq> CHR ''e'' \<and> c \<noteq> CHR ''E'' then Some ([], s)
       else let sg = exp_sign r; r' = drop (length sg) r
            in if takeWhile is_digit r' = [] then None
               else Some (c # sg @ takeWhile is_digit r', dropWhile is_digit r'))"

definition num_sign :: "bytes \<Rightarrow> bytes" where
  "num_sign s = (case s of [] \<Rightarrow> [] | c # _ \<Rightarrow> if c = CHR ''-'' then [c] else [])"

definition lex_number :: "bytes \<Rightarrow> (bytes \<times> bytes) option" where
  "lex_number s =
     do {
       (i, r1) \<leftarrow> num_int (drop (length (num_sign s)) s);
       (f, r2) \<leftarrow> num_frac r1;
       (e, r3) \<leftarrow> num_exp r2;
       Some (num_sign s @ i @ f @ e, r3)
     }"

lemma num_parts_split:
  "num_int s = Some (t, r) \<Longrightarrow> s = t @ r \<and> t \<noteq> []"
  "num_frac s = Some (t, r) \<Longrightarrow> s = t @ r"
  "num_exp s = Some (t, r) \<Longrightarrow> s = t @ r"
  by (auto simp: num_int_def num_frac_def num_exp_def exp_sign_def Let_def
      split: list.splits if_splits)

lemma num_sign_split: "s = num_sign s @ drop (length (num_sign s)) s"
  by (auto simp: num_sign_def split: list.splits)

lemma lex_number_split:
  assumes "lex_number s = Some (t, r)"
  shows "s = t @ r \<and> t \<noteq> []"
proof -
  from assms obtain i r1 f r2 e where
    i: "num_int (drop (length (num_sign s)) s) = Some (i, r1)" and
    f: "num_frac r1 = Some (f, r2)" and e: "num_exp r2 = Some (e, r)" and
    t: "t = num_sign s @ i @ f @ e"
    by (auto simp: lex_number_def Option.bind_eq_Some_conv)
  have "drop (length (num_sign s)) s = i @ f @ e @ r" and "i \<noteq> []"
    using num_parts_split i f e by force+
  then show ?thesis using num_sign_split [of s] t by simp
qed

subsection \<open>Tokens\<close>

datatype tok =
    TLBrace | TRBrace | TLBrack | TRBrack | TColon | TComma
  | TLit json                  \<comment> \<open>a scalar: null, true, false, a number or a string\<close>

definition lex_string :: "bytes \<Rightarrow> (tok \<times> bytes) option" where
  "lex_string s = (case unquote s of
     None \<Rightarrow> None
   | Some (d, r) \<Rightarrow> Some (TLit (JStr (CHR 0x22 # take (length s - length r) s) d), r))"

definition lex_tok :: "bytes \<Rightarrow> (tok \<times> bytes) option" where
  "lex_tok s = (case s of
     [] \<Rightarrow> None
   | c # r \<Rightarrow>
       if c = CHR 0x7B then Some (TLBrace, r)
       else if c = CHR 0x7D then Some (TRBrace, r)
       else if c = CHR 0x5B then Some (TLBrack, r)
       else if c = CHR 0x5D then Some (TRBrack, r)
       else if c = CHR 0x3A then Some (TColon, r)
       else if c = CHR 0x2C then Some (TComma, r)
       else if c = CHR 0x22 then lex_string r
       else if c = CHR ''n'' then (if take 4 s = ''null'' then Some (TLit JNull, drop 4 s) else None)
       else if c = CHR ''t'' then (if take 4 s = ''true'' then Some (TLit (JBool True), drop 4 s) else None)
       else if c = CHR ''f'' then (if take 5 s = ''false'' then Some (TLit (JBool False), drop 5 s) else None)
       else map_option (\<lambda>(t, r'). (TLit (JNum t), r')) (lex_number s))"

lemma lex_string_length: "lex_string s = Some (t, r) \<Longrightarrow> length r < length s"
  by (auto simp: lex_string_def dest: unquote_length split: option.splits)

lemma lex_number_length: "lex_number s = Some (t, r) \<Longrightarrow> length r < length s"
  using lex_number_split [of s t r] by auto

lemma lex_tok_length: "lex_tok s = Some (t, r) \<Longrightarrow> length r < length s"
proof (cases s)
  case (Cons c s')
  assume "lex_tok s = Some (t, r)"
  with Cons show ?thesis
    using lex_string_length [of s' t r] lex_number_length [of s _ r]
    by (auto simp: lex_tok_def split: if_splits)
qed (simp add: lex_tok_def)

text \<open>All tokens, each with the white space before it, and the white space after the last.\<close>

function lex :: "bytes \<Rightarrow> ((bytes \<times> tok) list \<times> bytes) option" where
  "lex s =
     (case dropWhile is_space s of
        [] \<Rightarrow> Some ([], s)
      | c # r \<Rightarrow>
          (case lex_tok (c # r) of
             None \<Rightarrow> None
           | Some (t, r') \<Rightarrow>
               map_option (\<lambda>(ts, e). ((takeWhile is_space s, t) # ts, e)) (lex r')))"
  by pat_completeness auto
termination
proof (relation "measure length")
  fix s c r x t r'
  assume "dropWhile is_space s = c # r" "lex_tok (c # r) = Some x" "(t, r') = x"
  then have "length r' < length (dropWhile is_space s)"
    using lex_tok_length by (metis)
  then show "(r', s) \<in> measure length"
    using length_dropWhile_le [of is_space s] by simp
qed simp

declare lex.simps [simp del]

subsection \<open>The pushdown parser\<close>

text \<open>
  An open array or object: the white space before its opening bracket, the bytes read so far from
  that bracket on, and the parts already complete (last first). \<open>FKey\<close> is an object between a key and
  the end of that key's value.
\<close>

datatype frame =
    FArr bytes bytes "json list"
  | FObj bytes bytes "(bytes \<times> json) list"
  | FKey bytes bytes "(bytes \<times> json) list" bytes

datatype pstate =
    PVal "frame list"          \<comment> \<open>a value must follow\<close>
  | PFirst "frame list"        \<comment> \<open>after an opening square bracket\<close>
  | PKeyFirst "frame list"     \<comment> \<open>after an opening brace\<close>
  | PKey "frame list"          \<comment> \<open>after a comma in an object\<close>
  | PColon "frame list"        \<comment> \<open>after a key\<close>
  | PAfter "frame list"        \<comment> \<open>after a value inside an array or object\<close>
  | PDone json                 \<comment> \<open>the document is complete\<close>

definition max_nesting :: nat where
  "max_nesting = 10000"

fun push_val :: "bytes \<Rightarrow> json \<Rightarrow> frame list \<Rightarrow> pstate option" where
  "push_val w v [] = Some (PDone v)"
| "push_val w v (FArr u t vs # st) = Some (PAfter (FArr u (t @ w @ raw_of v) (v # vs) # st))"
| "push_val w v (FKey u t ms k # st) = Some (PAfter (FObj u (t @ w @ raw_of v) ((k, v) # ms) # st))"
| "push_val w v (FObj u t ms # st) = None"

definition start_val :: "bytes \<Rightarrow> tok \<Rightarrow> frame list \<Rightarrow> pstate option" where
  "start_val w t st = (case t of
     TLit v \<Rightarrow> push_val w v st
   | TLBrack \<Rightarrow> if length st < max_nesting then Some (PFirst (FArr w ''['' [] # st)) else None
   | TLBrace \<Rightarrow> if length st < max_nesting then Some (PKeyFirst (FObj w ''{'' [] # st)) else None
   | _ \<Rightarrow> None)"

fun close_frame :: "bytes \<Rightarrow> tok \<Rightarrow> frame list \<Rightarrow> pstate option" where
  "close_frame w TRBrack (FArr u t vs # st) = push_val u (JArr (t @ w @ '']'') (rev vs)) st"
| "close_frame w TRBrace (FObj u t ms # st) = push_val u (JObj (t @ w @ ''}'') (rev ms)) st"
| "close_frame _ _ _ = None"

fun take_key :: "bytes \<Rightarrow> tok \<Rightarrow> frame list \<Rightarrow> pstate option" where
  "take_key w (TLit (JStr r d)) (FObj u t ms # st) = Some (PColon (FKey u (t @ w @ r) ms d # st))"
| "take_key _ _ _ = None"

fun take_colon :: "bytes \<Rightarrow> tok \<Rightarrow> frame list \<Rightarrow> pstate option" where
  "take_colon w TColon (FKey u t ms k # st) = Some (PVal (FKey u (t @ w @ '':'') ms k # st))"
| "take_colon _ _ _ = None"

fun take_comma :: "bytes \<Rightarrow> frame list \<Rightarrow> pstate option" where
  "take_comma w (FArr u t vs # st) = Some (PVal (FArr u (t @ w @ '','') vs # st))"
| "take_comma w (FObj u t ms # st) = Some (PKey (FObj u (t @ w @ '','') ms # st))"
| "take_comma _ _ = None"

fun pstep :: "pstate \<Rightarrow> bytes \<times> tok \<Rightarrow> pstate option" where
  "pstep (PVal st) (w, t) = start_val w t st"
| "pstep (PFirst st) (w, t) = (if t = TRBrack then close_frame w t st else start_val w t st)"
| "pstep (PKeyFirst st) (w, t) = (if t = TRBrace then close_frame w t st else take_key w t st)"
| "pstep (PKey st) (w, t) = take_key w t st"
| "pstep (PColon st) (w, t) = take_colon w t st"
| "pstep (PAfter st) (w, t) = (if t = TComma then take_comma w st else close_frame w t st)"
| "pstep (PDone _) _ = None"

fun prun :: "pstate \<Rightarrow> (bytes \<times> tok) list \<Rightarrow> pstate option" where
  "prun s [] = Some s"
| "prun s (t # ts) = Option.bind (pstep s t) (\<lambda>s'. prun s' ts)"

definition parse :: "bytes \<Rightarrow> json option" where
  "parse s = (case lex s of
     None \<Rightarrow> None
   | Some (ts, _) \<Rightarrow> (case prun (PVal []) ts of Some (PDone v) \<Rightarrow> Some v | _ \<Rightarrow> None))"

lemma prun_append: "prun s (xs @ ys) = Option.bind (prun s xs) (\<lambda>s'. prun s' ys)"
  by (induction xs arbitrary: s) (auto simp: Option.bind_assoc)

subsection \<open>Unmarshal into Go targets\<close>

text \<open>\<open>var s string; json.Unmarshal(raw, &s)\<close>: null leaves the zero value.\<close>

definition unmarshal_string :: "bytes \<Rightarrow> bytes option" where
  "unmarshal_string raw = (case parse raw of
     Some (JStr _ d) \<Rightarrow> Some d | Some JNull \<Rightarrow> Some [] | _ \<Rightarrow> None)"

text \<open>
  \<open>stringField\<close>, \<open>readString\<close>, \<open>strictString\<close>, \<open>stringIs\<close> of the code: a raw value that starts with a
  quote and unmarshals as a string.
\<close>

definition string_field :: "bytes \<Rightarrow> bytes option" where
  "string_field raw = (case raw of
     c # _ \<Rightarrow> if c = CHR 0x22 then unmarshal_string raw else None
   | [] \<Rightarrow> None)"

fun string_elem :: "json \<Rightarrow> bytes option" where
  "string_elem (JStr _ d) = Some d"
| "string_elem JNull = Some []"
| "string_elem _ = None"

fun all_some :: "'a option list \<Rightarrow> 'a list option" where
  "all_some [] = Some []"
| "all_some (x # xs) = (case x of None \<Rightarrow> None | Some y \<Rightarrow> map_option ((#) y) (all_some xs))"

definition unmarshal_strings :: "bytes \<Rightarrow> bytes list option" where
  "unmarshal_strings raw = (case parse raw of
     Some (JArr _ vs) \<Rightarrow> all_some (map string_elem vs) | Some JNull \<Rightarrow> Some [] | _ \<Rightarrow> None)"

definition unmarshal_raws :: "bytes \<Rightarrow> bytes list option" where
  "unmarshal_raws raw = (case parse raw of
     Some (JArr _ vs) \<Rightarrow> Some (map raw_of vs) | Some JNull \<Rightarrow> Some [] | _ \<Rightarrow> None)"

text \<open>\<open>map[string]json.RawMessage\<close>: a repeated key keeps the last value; null is the nil map.\<close>

definition last_wins :: "('k \<times> 'v) list \<Rightarrow> ('k \<times> 'v) list" where
  "last_wins ms = fold (\<lambda>(k, v) m. aset k v m) ms []"

definition unmarshal_fields :: "bytes \<Rightarrow> (bytes \<times> bytes) list option" where
  "unmarshal_fields raw = (case parse raw of
     Some (JObj _ ms) \<Rightarrow> Some (last_wins (map (\<lambda>(k, v). (k, raw_of v)) ms))
   | Some JNull \<Rightarrow> Some [] | _ \<Rightarrow> None)"

text \<open>\<open>var n int64; json.Unmarshal(raw, &n)\<close>: only an integer spelling in range is accepted.\<close>

definition unmarshal_int :: "bytes \<Rightarrow> int option" where
  "unmarshal_int raw = (case parse raw of
     Some (JNum t) \<Rightarrow> parse_int64 t | Some JNull \<Rightarrow> Some 0 | _ \<Rightarrow> None)"

text \<open>Indexing a Go map of raw messages: the empty slice where the key is absent.\<close>

definition field :: "(bytes \<times> bytes) list \<Rightarrow> bytes \<Rightarrow> bytes" where
  "field m k = (case map_of m k of None \<Rightarrow> [] | Some v \<Rightarrow> v)"

subsection \<open>Marshal\<close>

definition u_escape :: "nat \<Rightarrow> bytes" where
  "u_escape n = [CHR 0x5C, CHR ''u'', hex_digit (n div 4096 mod 16), hex_digit (n div 256 mod 16),
                 hex_digit (n div 16 mod 16), hex_digit (n mod 16)]"

text \<open>One byte below 0x80 with HTML escaping on, as \<open>json.Marshal\<close> writes it.\<close>

definition quote_byte :: "char \<Rightarrow> bytes" where
  "quote_byte c =
     (if c = CHR 0x22 \<or> c = CHR 0x5C then [CHR 0x5C, c]
      else if c = CHR 0x08 then [CHR 0x5C, CHR ''b'']
      else if c = CHR 0x0C then [CHR 0x5C, CHR ''f'']
      else if c = CHR 0x0A then [CHR 0x5C, CHR ''n'']
      else if c = CHR 0x0D then [CHR 0x5C, CHR ''r'']
      else if c = CHR 0x09 then [CHR 0x5C, CHR ''t'']
      else if byte c < 32 \<or> c = CHR ''<'' \<or> c = CHR ''>'' \<or> c = CHR ''&'' then u_escape (byte c)
      else [c])"

function quote_body :: "bytes \<Rightarrow> bytes" where
  "quote_body [] = []"
| "quote_body (c # r) =
     (if byte c < 128 then quote_byte c @ quote_body r
      else if rune_len (c # r) = 0 then u_escape 65533 @ quote_body r
      else if rune_val (c # r) = 8232 \<or> rune_val (c # r) = 8233
        then u_escape (rune_val (c # r)) @ quote_body (drop (rune_len (c # r)) (c # r))
      else take (rune_len (c # r)) (c # r) @ quote_body (drop (rune_len (c # r)) (c # r)))"
  by pat_completeness auto
termination
  by (relation "measure length") auto

declare quote_body.simps(2) [simp del]

definition quote :: "bytes \<Rightarrow> bytes" where
  "quote s = CHR 0x22 # quote_body s @ [CHR 0x22]"

fun join :: "bytes \<Rightarrow> bytes list \<Rightarrow> bytes" where
  "join sep [] = []"
| "join sep [x] = x"
| "join sep (x # y # ys) = x @ sep @ join sep (y # ys)"

definition obj_text :: "(bytes \<times> bytes) list \<Rightarrow> bytes" where
  "obj_text ms = ''{'' @ join '','' (map (\<lambda>(k, v). quote k @ '':'' @ v) ms) @ ''}''"

definition arr_text :: "bytes list \<Rightarrow> bytes" where
  "arr_text vs = ''['' @ join '','' vs @ '']''"

text \<open>A Go map is written with its keys in byte order.\<close>

definition sort_keys :: "(bytes \<times> 'v) list \<Rightarrow> (bytes \<times> 'v) list" where
  "sort_keys ms = sort_key fst ms"

fun marshal :: "json \<Rightarrow> bytes" where
  "marshal JNull = ''null''"
| "marshal (JBool b) = (if b then ''true'' else ''false'')"
| "marshal (JNum t) = t"
| "marshal (JStr _ d) = quote d"
| "marshal (JArr _ vs) = arr_text (map marshal vs)"
| "marshal (JObj _ ms) = obj_text (sort_keys (map (\<lambda>(k, v). (k, marshal v)) ms))"

text \<open>
  \<open>json.RawMessage\<close> inside a marshalled value is compacted: white space outside strings is dropped and
  the HTML bytes and U+2028/U+2029 are escaped.
\<close>

definition in_string :: "bool \<Rightarrow> bool \<Rightarrow> char \<Rightarrow> bool" where
  "in_string str esc c = (if str then (c = CHR 0x22 \<longrightarrow> esc) else c = CHR 0x22)"

definition in_escape :: "bool \<Rightarrow> bool \<Rightarrow> char \<Rightarrow> bool" where
  "in_escape str esc c = (str \<and> \<not> esc \<and> c = CHR 0x5C)"

definition line_separator :: "char \<Rightarrow> bytes \<Rightarrow> bool" where
  "line_separator c r = (c = CHR 0xE2 \<and> (take 2 r = [CHR 0x80, CHR 0xA8] \<or> take 2 r = [CHR 0x80, CHR 0xA9]))"

function compact_raw :: "bool \<Rightarrow> bool \<Rightarrow> bytes \<Rightarrow> bytes" where
  "compact_raw str esc [] = []"
| "compact_raw str esc (c # r) =
     (if \<not> str \<and> is_space c then compact_raw False False r
      else if c = CHR ''<'' \<or> c = CHR ''>'' \<or> c = CHR ''&''
        then u_escape (byte c) @ compact_raw (in_string str esc c) (in_escape str esc c) r
      else if line_separator c r
        then u_escape (if take 2 r = [CHR 0x80, CHR 0xA8] then 8232 else 8233)
             @ compact_raw (in_string str esc c) (in_escape str esc c) (drop 2 r)
      else c # compact_raw (in_string str esc c) (in_escape str esc c) r)"
  by pat_completeness auto
termination
  by (relation "measure (\<lambda>(_, _, s). length s)") auto

definition compact :: "bytes \<Rightarrow> bytes" where
  "compact raw = compact_raw False False raw"

fun digits_of :: "nat \<Rightarrow> bytes" where
  "digits_of n = (if n < 10 then [char_of (48 + n)] else digits_of (n div 10) @ [char_of (48 + n mod 10)])"

declare digits_of.simps [simp del]

definition bool_text :: "bool \<Rightarrow> bytes" where
  "bool_text b = (if b then ''true'' else ''false'')"

end
