(* ===== verification/Wire.thy ===== *)
theory Wire
  imports GoJson
begin

text \<open>
  The wire layer: the bounded frame reader and document check of \<open>internal/ndjson/frame.go\<close>, the
  canonical form of \<open>internal/jsoncanon/object.go\<close> and the schema input policy of
  \<open>internal/schemawire/input.go\<close>.
\<close>

subsection \<open>ndjson: frames\<close>

datatype read_error = ErrTooLarge | ErrInvalid | EOF | ErrRead

text \<open>
  What is left of the input: its bytes and what the stream reports once they are used up. The reader's
  buffer holds 4096 bytes, so \<open>ReadSlice\<close> hands out a longer line in pieces.
\<close>

record reader =
  input :: bytes
  at_end :: read_error
  limit :: nat

definition buf_size :: nat where
  "buf_size = 4096"

datatype slice_end = Delim | BufferFull | Failed

text \<open>\<open>bufio.Reader.ReadSlice\<close> with the newline as delimiter: the part, why it ended, what is left.\<close>

definition read_slice :: "bytes \<Rightarrow> bytes \<times> slice_end \<times> bytes" where
  "read_slice s =
     (let head = takeWhile (\<lambda>c. c \<noteq> CHR 0x0A) (take buf_size s); n = length head
      in if n < length (take buf_size s) then (take (Suc n) s, Delim, drop (Suc n) s)
         else if buf_size \<le> length s then (take buf_size s, BufferFull, drop buf_size s)
         else (s, Failed, []))"

definition drop_newline :: "bytes \<Rightarrow> bytes" where
  "drop_newline part = (if part \<noteq> [] \<and> last part = CHR 0x0A then butlast part else part)"

text \<open>The loop of \<open>Reader.Read\<close>; \<open>frame\<close> is the part of the line read so far.\<close>

function read_loop :: "reader \<Rightarrow> bytes \<Rightarrow> read_error + (bytes \<times> reader)" where
  "read_loop r frame =
     (case read_slice (input r) of
        (part, why, rest) \<Rightarrow>
          let terminated = (part \<noteq> [] \<and> last part = CHR 0x0A); body = drop_newline part
          in if limit r - length frame < length body \<or> limit r < length frame then Inl ErrTooLarge
             else if terminated then Inr (frame @ body, r\<lparr>input := rest\<rparr>)
             else if why = BufferFull then read_loop (r\<lparr>input := rest\<rparr>) (frame @ body)
             else if at_end r = EOF then (if frame @ body = [] then Inl EOF else Inl ErrInvalid)
             else Inl (at_end r))"
  by pat_completeness auto
termination
  by (relation "measure (\<lambda>(r, _). length (input r))")
     (auto simp: read_slice_def buf_size_def Let_def split: if_splits)

declare read_loop.simps [simp del]

definition Read :: "reader \<Rightarrow> read_error + (bytes \<times> reader)" where
  "Read r = read_loop r []"

subsection \<open>ndjson: documents\<close>

text \<open>
  The token walk of \<open>members\<close>: nesting at most 64 deep, and no key twice in one object (keys compared
  after decoding). Scalars need no check.
\<close>

fun members :: "nat \<Rightarrow> json \<Rightarrow> bool" where
  "members depth (JObj _ ms) =
     (depth \<le> 64 \<and> distinct (map fst ms) \<and> list_all (\<lambda>v. members (Suc depth) v) (map snd ms))"
| "members depth (JArr _ vs) = (depth \<le> 64 \<and> list_all (\<lambda>v. members (Suc depth) v) vs)"
| "members _ _ = True"

definition ndjson_Object :: "bytes \<Rightarrow> (bytes \<times> bytes) list option" where
  "ndjson_Object frame =
     (if \<not> utf8_valid frame then None
      else case parse frame of
          Some (JObj r ms) \<Rightarrow>
            if members 1 (JObj r ms) then unmarshal_fields frame else None
        | _ \<Rightarrow> None)"

subsection \<open>jsoncanon\<close>

definition jsoncanon_Object :: "bytes \<Rightarrow> bytes option" where
  "jsoncanon_Object raw =
     (if ndjson_Object raw = None then None else map_option marshal (parse raw))"

subsection \<open>schemawire\<close>

definition MaxSchemaBytes :: nat where "MaxSchemaBytes = 65536"
definition MaxArgumentBytes :: nat where "MaxArgumentBytes = 1048576"

text \<open>
  The node budget of \<open>bounded\<close>: the counter after the walk, or \<open>None\<close> where the code answers false.
  Go visits the members of an object in an unspecified order; the answer does not depend on it.
\<close>

definition bounded_number :: "bytes \<Rightarrow> bool" where
  "bounded_number s =
     (if 128 < length s then False
      else case dropWhile (\<lambda>c. c \<noteq> CHR ''e'' \<and> c \<noteq> CHR ''E'') s of
          [] \<Rightarrow> True
        | _ # e \<Rightarrow> (case parse_int64 e of None \<Rightarrow> False | Some x \<Rightarrow> x \<le> 1000 \<and> - 1000 \<le> x))"

fun bounded :: "json \<Rightarrow> nat \<Rightarrow> nat option"
  and bounded_list :: "json list \<Rightarrow> nat \<Rightarrow> nat option" where
  "bounded v 0 = None"
| "bounded v (Suc nodes) = (case v of
     JObj _ ms \<Rightarrow> bounded_list (map snd ms) nodes
   | JArr _ vs \<Rightarrow> bounded_list vs nodes
   | JNum t \<Rightarrow> if bounded_number t then Some nodes else None
   | _ \<Rightarrow> Some nodes)"
| "bounded_list [] nodes = Some nodes"
| "bounded_list (v # vs) nodes =
     (case bounded v nodes of None \<Rightarrow> None | Some n \<Rightarrow> bounded_list vs n)"

definition schemawire_object :: "bytes \<Rightarrow> nat \<Rightarrow> nat \<Rightarrow> json option" where
  "schemawire_object raw lim nodes =
     (if lim < length raw then None
      else if ndjson_Object raw = None then None
      else case parse raw of
          None \<Rightarrow> None
        | Some v \<Rightarrow> if bounded v nodes = None then None else Some v)"

definition Arguments :: "bytes \<Rightarrow> json option" where
  "Arguments raw = schemawire_object raw MaxArgumentBytes 65536"

definition cut_prefix :: "bytes \<Rightarrow> bytes \<Rightarrow> bytes option" where
  "cut_prefix s p = (if has_prefix s p then Some (drop (length p) s) else None)"

definition trim_suffix :: "bytes \<Rightarrow> bytes \<Rightarrow> bytes" where
  "trim_suffix s p = (if has_suffix s p then take (length s - length p) s else s)"

definition supportedDialect :: "json \<Rightarrow> bool" where
  "supportedDialect v = (case v of
     JStr _ d \<Rightarrow>
       (let uri = trim_suffix d ''#'';
            rest = (case cut_prefix uri ''https://'' of
                Some r \<Rightarrow> Some r | None \<Rightarrow> cut_prefix uri ''http://'')
        in case rest of
            None \<Rightarrow> False
          | Some r \<Rightarrow> r \<in> {''json-schema.org/draft-07/schema'',
                          ''json-schema.org/draft/2019-09/schema'',
                          ''json-schema.org/draft/2020-12/schema''})
   | _ \<Rightarrow> False)"

fun json_fields :: "json \<Rightarrow> (bytes \<times> json) list" where
  "json_fields (JObj _ ms) = ms"
| "json_fields _ = []"

definition is_string :: "json option \<Rightarrow> bytes \<Rightarrow> bool" where
  "is_string v s = (case v of Some (JStr _ d) \<Rightarrow> d = s | _ \<Rightarrow> False)"

definition Schema :: "bytes \<Rightarrow> json option" where
  "Schema raw = (case schemawire_object raw MaxSchemaBytes 8192 of
     None \<Rightarrow> None
   | Some v \<Rightarrow>
       (if \<not> is_string (map_of (json_fields v) ''type'') ''object'' then None
        else case map_of (json_fields v) ''$schema'' of
            None \<Rightarrow> Some v
          | Some draft \<Rightarrow> if supportedDialect draft then Some v else None))"

end
