(* ===== verification/Toolregistry.thy ===== *)
theory Toolregistry
  imports Wire
begin

text \<open>
  The session's tool registry, \<open>internal/toolregistry/registry.go\<close>: declarations are decoded, sorted by
  name, given collision-free aliases from a digest of their names, and looked up by alias only.
  The digest (SHA-256 in \<open>Build\<close>) and the schema validator are arguments.
\<close>

definition MaxTools :: nat where "MaxTools = 128"
definition MaxBytes :: nat where "MaxBytes = 1048576"

datatype registry_error = ErrRegistry | ErrRegistryCheck | ErrAlias | ErrArguments | ErrValidate

record validator =
  Check :: "bytes \<Rightarrow> bool"
  Validate :: "bytes \<Rightarrow> bytes \<Rightarrow> bool"

record tool =
  Name :: bytes
  Alias :: bytes
  Description :: bytes
  ToolSchema :: bytes

record registry =
  tools :: "tool list"
  aliases :: "(bytes \<times> nat) list"
  fingerprint :: bytes
  reg_validator :: validator

definition validName :: "bytes \<Rightarrow> bool" where
  "validName s \<longleftrightarrow> 1 \<le> length s \<and> length s \<le> 64 \<and> list_all is_ident_byte s"

text \<open>The running byte total that stops at the first declaration over the bound.\<close>

fun total_within :: "nat \<Rightarrow> bytes list \<Rightarrow> bool" where
  "total_within tot [] = True"
| "total_within tot (d # ds) =
     (if MaxBytes < tot + length d then False else total_within (tot + length d) ds)"

text \<open>The \<open>switch\<close> over the declaration's keys.\<close>

definition field_ok :: "bytes \<Rightarrow> bytes \<Rightarrow> bool" where
  "field_ok key value =
     (if key \<in> {''name'', ''description'', ''input_schema'', ''cache_control'', ''input_examples''} then True
      else if key = ''type'' then value = [CHR 0x22] @ ''custom'' @ [CHR 0x22]
      else if key = ''strict'' then value = ''true'' \<or> value = ''false''
      else if key = ''defer_loading'' then value = ''false''
      else if key = ''allowed_callers'' then unmarshal_strings value = Some [''direct'']
      else False)"

definition decode_tool :: "bytes list \<Rightarrow> bytes \<Rightarrow> tool option" where
  "decode_tool names declaration =
     do {
       fields \<leftarrow> ndjson_Object declaration;
       name \<leftarrow> string_field (field fields ''name'');
       (if validName name \<and> name \<notin> set names then Some () else None);
       descr \<leftarrow> (case map_of fields ''description'' of
           None \<Rightarrow> Some []
         | Some v \<Rightarrow> (case string_field v of
             Some d \<Rightarrow> if length d \<le> 8192 then Some d else None
           | None \<Rightarrow> None));
       (if list_all (\<lambda>(k, v). field_ok k v) fields then Some () else None);
       Schema (field fields ''input_schema'');
       schema \<leftarrow> jsoncanon_Object (field fields ''input_schema'');
       Some \<lparr>Name = name, Alias = [], Description = descr, ToolSchema = schema\<rparr>
     }"

fun decode_tools :: "bytes list \<Rightarrow> bytes list \<Rightarrow> tool list option" where
  "decode_tools names [] = Some []"
| "decode_tools names (d # ds) = (case decode_tool names d of
     None \<Rightarrow> None
   | Some t \<Rightarrow> map_option ((#) t) (decode_tools (Name t # names) ds))"

subsection \<open>Alias lengths\<close>

definition alias_key :: "bytes list \<Rightarrow> nat list \<Rightarrow> nat \<Rightarrow> bytes" where
  "alias_key hashes lens i = take (lens ! i) (hashes ! i)"

definition collides :: "bytes list \<Rightarrow> nat list \<Rightarrow> nat \<Rightarrow> bool" where
  "collides hashes lens i =
     list_ex (\<lambda>j. j \<noteq> i \<and> alias_key hashes lens j = alias_key hashes lens i) [0..<length hashes]"

definition lengthen :: "bytes list \<Rightarrow> nat list \<Rightarrow> nat list" where
  "lengthen hashes lens =
     map (\<lambda>i. if collides hashes lens i then lens ! i + 2 else lens ! i) [0..<length hashes]"

definition any_collides :: "bytes list \<Rightarrow> nat list \<Rightarrow> bool" where
  "any_collides hashes lens = list_ex (collides hashes lens) [0..<length hashes]"

text \<open>A colliding alias already uses the whole digest (64 hexadecimal digits).\<close>

definition exhausted :: "bytes list \<Rightarrow> nat list \<Rightarrow> bool" where
  "exhausted hashes lens =
     list_ex (\<lambda>i. collides hashes lens i \<and> 64 \<le> lens ! i) [0..<length hashes]"

lemma lengthen_decreases:
  assumes "length lens = length hashes" "any_collides hashes lens" "\<not> exhausted hashes lens"
  shows "(\<Sum>l \<leftarrow> lengthen hashes lens. 64 - l) < (\<Sum>l \<leftarrow> lens. 64 - l)"
proof -
  let ?n = "length hashes"
  let ?f = "\<lambda>i. 64 - lens ! i"
  let ?g = "\<lambda>i. 64 - (if collides hashes lens i then lens ! i + 2 else lens ! i)"
  have s1: "(\<Sum>l \<leftarrow> lens. 64 - l) = sum ?f {0..<?n}"
    using assms(1) by (simp add: sum_list_sum_nth)
  have s2: "(\<Sum>l \<leftarrow> lengthen hashes lens. 64 - l) = sum ?g {0..<?n}"
    by (simp add: sum_list_sum_nth lengthen_def)
  from assms(2) obtain i where i: "i < ?n" "collides hashes lens i"
    by (auto simp: any_collides_def list_ex_iff)
  with assms(3) have "lens ! i < 64" by (auto simp: exhausted_def list_ex_iff not_le)
  with i have "?g i < ?f i" by simp
  moreover have "\<And>j. j \<in> {0..<?n} \<Longrightarrow> ?g j \<le> ?f j" by (simp, arith)
  ultimately have "sum ?g {0..<?n} < sum ?f {0..<?n}"
    using i by (intro sum_strict_mono_ex1) auto
  with s1 s2 show ?thesis by simp
qed

function resolve_lengths :: "bytes list \<Rightarrow> nat list \<Rightarrow> nat list option" where
  "resolve_lengths hashes lens =
     (if length lens \<noteq> length hashes then None
      else if \<not> any_collides hashes lens then Some lens
      else if exhausted hashes lens then None
      else resolve_lengths hashes (lengthen hashes lens))"
  by pat_completeness auto
termination
  by (relation "measure (\<lambda>(hashes, lens). \<Sum>l \<leftarrow> lens. 64 - l)")
     (use lengthen_decreases in auto)

declare resolve_lengths.simps [simp del]

subsection \<open>Build\<close>

definition assign_aliases :: "tool list \<Rightarrow> bytes list \<Rightarrow> nat list \<Rightarrow> tool list" where
  "assign_aliases ts hashes lens =
     map (\<lambda>i. (ts ! i)\<lparr>Alias := ''relay_'' @ alias_key hashes lens i\<rparr>) [0..<length ts]"

definition tool_text :: "tool \<Rightarrow> bytes" where
  "tool_text t = obj_text [(''name'', quote (Name t)), (''alias'', quote (Alias t)),
     (''description'', quote (Description t)), (''input_schema'', compact (ToolSchema t))]"

definition identity_text :: "tool list \<Rightarrow> bytes" where
  "identity_text ts = obj_text [(''Version'', ''2''), (''Tools'', arr_text (map tool_text ts)),
     (''Native'', ''[]'')]"

definition index_aliases :: "tool list \<Rightarrow> (bytes \<times> nat) list" where
  "index_aliases ts = fold (\<lambda>i m. aset (Alias (ts ! i)) i m) [0..<length ts] []"

definition build :: "(bytes \<Rightarrow> bytes) \<Rightarrow> bytes list \<Rightarrow> bytes list \<Rightarrow> validator option \<Rightarrow> (bytes \<Rightarrow> bytes)
    \<Rightarrow> registry_error + registry" where
  "build sha256 raw native validator digest =
     (case validator of
        None \<Rightarrow> Inl ErrRegistry
      | Some v \<Rightarrow>
          if MaxTools < length raw \<or> native \<noteq> [] then Inl ErrRegistry
          else if \<not> total_within 0 raw then Inl ErrRegistry
          else case decode_tools [] raw of
              None \<Rightarrow> Inl ErrRegistry
            | Some decoded \<Rightarrow>
                let ts = sort_key Name decoded; hashes = map (\<lambda>t. hex_encode (digest (Name t))) ts
                in case resolve_lengths hashes (replicate (length ts) 16) of
                    None \<Rightarrow> Inl ErrRegistry
                  | Some lens \<Rightarrow>
                      let named = assign_aliases ts hashes lens; identity = identity_text named
                      in if MaxBytes < length identity then Inl ErrRegistry
                         else if \<not> list_all (\<lambda>t. Check v (ToolSchema t)) named then Inl ErrRegistryCheck
                         else Inr \<lparr>tools = named, aliases = index_aliases named,
                                   fingerprint = hex_encode (sha256 identity), reg_validator = v\<rparr>)"

definition tool_name_prefix :: bytes where
  "tool_name_prefix = ''dax-tool-name-v1'' @ [CHR 0x00]"

definition Build :: "(bytes \<Rightarrow> bytes) \<Rightarrow> bytes list \<Rightarrow> bytes list \<Rightarrow> validator option
    \<Rightarrow> registry_error + registry" where
  "Build sha256 raw native validator =
     build sha256 raw native validator (\<lambda>name. sha256 (tool_name_prefix @ name))"

subsection \<open>Lookup and validation\<close>

definition Lookup :: "registry \<Rightarrow> bytes \<Rightarrow> tool option" where
  "Lookup r alias = map_option (\<lambda>i. tools r ! i) (map_of (aliases r) alias)"

definition ValidateCall :: "registry \<Rightarrow> bytes \<Rightarrow> bytes \<Rightarrow> registry_error + tool" where
  "ValidateCall r alias arguments = (case map_of (aliases r) alias of
     None \<Rightarrow> Inl ErrAlias
   | Some i \<Rightarrow>
       if Arguments arguments = None then Inl ErrArguments
       else if \<not> Validate (reg_validator r) (ToolSchema (tools r ! i)) arguments then Inl ErrValidate
       else Inr (tools r ! i))"


subsection \<open>Alias resolution\<close>

lemma collides_iff:
  "collides hashes lens i \<longleftrightarrow>
     (\<exists>j < length hashes. j \<noteq> i \<and> alias_key hashes lens j = alias_key hashes lens i)"
  by (auto simp: collides_def list_ex_iff)

lemma any_collides_iff:
  "any_collides hashes lens \<longleftrightarrow> (\<exists>i < length hashes. collides hashes lens i)"
  by (auto simp: any_collides_def list_ex_iff)

lemma length_lengthen [simp]: "length (lengthen hashes lens) = length hashes"
  by (simp add: lengthen_def)

lemma nth_lengthen:
  "i < length hashes \<Longrightarrow>
     lengthen hashes lens ! i = (if collides hashes lens i then lens ! i + 2 else lens ! i)"
  by (simp add: lengthen_def)

lemma resolve_lengths_Some:
  "resolve_lengths hashes lens = Some out \<Longrightarrow> length out = length hashes \<and> \<not> any_collides hashes out"
proof (induction hashes lens rule: resolve_lengths.induct)
  case (1 hashes lens)
  then show ?case
    by (auto simp: resolve_lengths.simps [of hashes lens] split: if_splits)
qed

text \<open>With digests of full length, an alias that collides at 64 digits repeats a digest.\<close>

definition lens_ok :: "bytes list \<Rightarrow> nat list \<Rightarrow> bool" where
  "lens_ok hashes lens \<longleftrightarrow> length lens = length hashes \<and> (\<forall>l \<in> set lens. even l \<and> l \<le> 64)"

lemma lens_ok_lengthen:
  assumes "lens_ok hashes lens" "\<not> exhausted hashes lens"
  shows "lens_ok hashes (lengthen hashes lens)"
proof -
  have "even (lengthen hashes lens ! i) \<and> lengthen hashes lens ! i \<le> 64" if i: "i < length hashes" for i
  proof -
    from assms(1) i have l: "even (lens ! i)" "lens ! i \<le> 64" by (auto simp: lens_ok_def)
    show ?thesis
    proof (cases "collides hashes lens i")
      case True
      with assms(2) i have "lens ! i < 64" by (auto simp: exhausted_def list_ex_iff not_le)
      with l have "lens ! i + 2 \<le> 64" by presburger
      with True l i show ?thesis by (simp add: nth_lengthen)
    qed (use l i in \<open>simp add: nth_lengthen\<close>)
  qed
  then show ?thesis by (auto simp: lens_ok_def in_set_conv_nth)
qed

lemma exhausted_imp_repeat:
  assumes "\<forall>h \<in> set hashes. length h = 64" "lens_ok hashes lens" "exhausted hashes lens"
  shows "\<not> distinct hashes"
proof -
  from assms(3) obtain i where i: "i < length hashes" "collides hashes lens i" "64 \<le> lens ! i"
    by (auto simp: exhausted_def list_ex_iff)
  then obtain j where j: "j < length hashes" "j \<noteq> i" "alias_key hashes lens j = alias_key hashes lens i"
    by (auto simp: collides_iff)
  from assms(1) i j have len: "length (hashes ! i) = 64" "length (hashes ! j) = 64" by auto
  from i len have ki: "alias_key hashes lens i = hashes ! i" by (simp add: alias_key_def)
  with j len have "min 64 (lens ! j) = 64" by (metis alias_key_def length_take)
  with len have "alias_key hashes lens j = hashes ! j" by (simp add: alias_key_def)
  with ki j have "hashes ! j = hashes ! i" by simp
  with i j show ?thesis by (auto simp: distinct_conv_nth)
qed

lemma resolve_lengths_total:
  assumes "\<forall>h \<in> set hashes. length h = 64" "lens_ok hashes lens" "distinct hashes"
  shows "\<exists>out. resolve_lengths hashes lens = Some out"
  using assms
proof (induction hashes lens rule: resolve_lengths.induct)
  case (1 hashes lens)
  have len: "length lens = length hashes" using "1.prems"(2) by (simp add: lens_ok_def)
  have ex: "\<not> exhausted hashes lens" using exhausted_imp_repeat "1.prems" by blast
  with len "1.IH" "1.prems" lens_ok_lengthen [OF _ ex] show ?case
    by (auto simp: resolve_lengths.simps [of hashes lens])
qed

lemma resolve_lengths_repeat:
  assumes "i < length hashes" "j < length hashes" "i \<noteq> j" "hashes ! i = hashes ! j" "lens ! i = lens ! j"
  shows "resolve_lengths hashes lens = None"
  using assms
proof (induction hashes lens rule: resolve_lengths.induct)
  case (1 hashes lens)
  have k: "alias_key hashes lens i = alias_key hashes lens j"
    using "1.prems" by (simp add: alias_key_def)
  with "1.prems" have c: "collides hashes lens i" "collides hashes lens j"
    by (metis collides_iff)+
  then have "any_collides hashes lens" using "1.prems" by (auto simp: any_collides_iff)
  with "1.IH" "1.prems" c show ?case
    by (auto simp: resolve_lengths.simps [of hashes lens] nth_lengthen)
qed

text \<open>
  C6: alias resolution fails exactly when two tools have the same digest; with pairwise different
  64-digit digests the loop always ends with pairwise different aliases.
\<close>

theorem alias_resolution_complete:
  assumes "\<forall>h \<in> set hashes. length h = 64"
  shows "resolve_lengths hashes (replicate (length hashes) 16) \<noteq> None \<longleftrightarrow> distinct hashes"
proof
  assume r: "resolve_lengths hashes (replicate (length hashes) 16) \<noteq> None"
  show "distinct hashes"
    unfolding distinct_conv_nth using r resolve_lengths_repeat by (metis nth_replicate)
next
  assume "distinct hashes"
  moreover have "lens_ok hashes (replicate (length hashes) 16)" by (simp add: lens_ok_def)
  ultimately show "resolve_lengths hashes (replicate (length hashes) 16) \<noteq> None"
    using resolve_lengths_total assms by blast
qed

theorem alias_resolution_complete_witness:
  "resolve_lengths [hex_encode (replicate 32 (CHR ''a'')), hex_encode (replicate 32 (CHR ''a''))] [16, 16] = None"
proof -
  have "\<forall>h \<in> set [hex_encode (replicate 32 (CHR ''a'')), hex_encode (replicate 32 (CHR ''a''))]. length h = 64"
    by simp
  from alias_resolution_complete [OF this] show ?thesis by (simp add: numeral_2_eq_2)
qed

subsection \<open>A built registry\<close>

lemma decode_tool_valid:
  "decode_tool names d = Some t \<Longrightarrow> validName (Name t) \<and> Name t \<notin> set names \<and> Alias t = []"
  by (auto simp: decode_tool_def Option.bind_eq_Some_conv split: if_splits)

lemma decode_tools_names:
  "decode_tools names ds = Some ts \<Longrightarrow>
     distinct (map Name ts) \<and> set (map Name ts) \<inter> set names = {} \<and> (\<forall>t \<in> set ts. validName (Name t))
     \<and> length ts = length ds"
proof (induction ds arbitrary: names ts)
  case (Cons d ds)
  then obtain t ts' where "decode_tool names d = Some t" "decode_tools (Name t # names) ds = Some ts'"
    "ts = t # ts'" by (auto split: option.splits)
  with Cons.IH [of "Name t # names" ts'] decode_tool_valid [of names d t] show ?case by auto
qed simp

lemma assign_aliases_simps [simp]:
  "length (assign_aliases ts hashes lens) = length ts"
  "i < length ts \<Longrightarrow> assign_aliases ts hashes lens ! i = (ts ! i)\<lparr>Alias := ''relay_'' @ alias_key hashes lens i\<rparr>"
  by (auto simp: assign_aliases_def)

lemma assign_aliases_names: "map Name (assign_aliases ts hashes lens) = map Name ts"
  by (rule nth_equalityI) auto

lemma assign_aliases_distinct:
  assumes "length hashes = length ts" "\<not> any_collides hashes lens"
  shows "distinct (map Alias (assign_aliases ts hashes lens))"
proof -
  have "alias_key hashes lens i \<noteq> alias_key hashes lens j" if "i < length ts" "j < length ts" "i \<noteq> j" for i j
    using assms that by (metis any_collides_iff collides_iff)
  then show ?thesis by (auto simp: distinct_conv_nth)
qed

lemma index_aliases_Some:
  assumes "distinct (map Alias ts)"
  shows "map_of (index_aliases ts) a = Some i \<longleftrightarrow> i < length ts \<and> Alias (ts ! i) = a"
proof -
  have "map_of (fold (\<lambda>i m. aset (Alias (ts ! i)) i m) [0..<n] []) a = Some i
      \<longleftrightarrow> i < n \<and> Alias (ts ! i) = a" if "n \<le> length ts" for n
    using that
  proof (induction n)
    case (Suc n)
    have "\<And>j. j < n \<Longrightarrow> Alias (ts ! j) \<noteq> Alias (ts ! n)"
      using assms Suc.prems by (auto simp: distinct_conv_nth)
    with Suc show ?case by (auto simp: less_Suc_eq)
  qed simp
  then show ?thesis by (simp add: index_aliases_def)
qed

definition registry_wf :: "registry \<Rightarrow> bool" where
  "registry_wf r \<longleftrightarrow>
     distinct (map Alias (tools r)) \<and> distinct (map Name (tools r)) \<and> sorted (map Name (tools r))
     \<and> length (tools r) \<le> MaxTools \<and> (\<forall>t \<in> set (tools r). validName (Name t))
     \<and> aliases r = index_aliases (tools r)"

lemma build_wf:
  assumes "build sha256 raw native validator digest = Inr r"
  shows "registry_wf r"
proof -
  from assms obtain v decoded lens where
    d: "decode_tools [] raw = Some decoded" "length raw \<le> MaxTools" and
    l: "resolve_lengths (map (\<lambda>t. hex_encode (digest (Name t))) (sort_key Name decoded))
          (replicate (length decoded) 16) = Some lens" and
    r: "tools r = assign_aliases (sort_key Name decoded)
          (map (\<lambda>t. hex_encode (digest (Name t))) (sort_key Name decoded)) lens"
       "aliases r = index_aliases (tools r)"
    by (auto simp: build_def Let_def split: option.splits if_splits)
  from decode_tools_names [OF d(1)] have n: "distinct (map Name decoded)"
    "\<forall>t \<in> set decoded. validName (Name t)" "length decoded = length raw" by auto
  have names: "map Name (tools r) = map Name (sort_key Name decoded)"
    using r by (simp add: assign_aliases_names)
  then have "distinct (map Name (tools r))" using n by (simp add: distinct_map)
  moreover have "sorted (map Name (tools r))" using names by simp
  moreover have "distinct (map Alias (tools r))"
    using assign_aliases_distinct resolve_lengths_Some [OF l] r by simp
  moreover have "length (tools r) \<le> MaxTools" using r n d by simp
  moreover have "\<forall>t \<in> set (tools r). validName (Name t)"
    using n(2) names by (metis (no_types, lifting) image_iff list.set_map set_sort)
  ultimately show ?thesis using r by (simp add: registry_wf_def)
qed

lemma Lookup_wf:
  assumes "registry_wf r"
  shows "Lookup r a = Some t \<longleftrightarrow> t \<in> set (tools r) \<and> Alias t = a"
proof -
  have idx: "map_of (aliases r) a = Some i \<longleftrightarrow> i < length (tools r) \<and> Alias (tools r ! i) = a" for i
    using assms index_aliases_Some by (simp add: registry_wf_def)
  have "Lookup r a = Some t \<longleftrightarrow> (\<exists>i. map_of (aliases r) a = Some i \<and> t = tools r ! i)"
    by (auto simp: Lookup_def)
  also have "\<dots> \<longleftrightarrow> (\<exists>i < length (tools r). tools r ! i = t \<and> Alias t = a)"
    unfolding idx by blast
  finally show ?thesis by (auto simp: in_set_conv_nth)
qed

text \<open>
  C5: a registry that \<open>Build\<close> accepts has pairwise different aliases and names in sorted order, and
  looking up an alias returns exactly the declared tool that carries it (and nothing for any other alias).
\<close>

theorem build_lookup_roundtrip:
  assumes "Build sha256 raw native validator = Inr r"
  shows "distinct (map Alias (tools r)) \<and> distinct (map Name (tools r)) \<and> sorted (map Name (tools r))
    \<and> (\<forall>a t. Lookup r a = Some t \<longleftrightarrow> t \<in> set (tools r) \<and> Alias t = a)"
proof -
  have "registry_wf r" using assms build_wf by (simp add: Build_def)
  then show ?thesis using Lookup_wf by (simp add: registry_wf_def)
qed

definition sample_declaration :: "bytes \<Rightarrow> bytes" where
  "sample_declaration name = ''{'' @ quote ''name'' @ '':'' @ quote name @ '','' @ quote ''input_schema'' @ '':{''
     @ quote ''type'' @ '':'' @ quote ''object'' @ ''}}''"

definition sample_sha256 :: "bytes \<Rightarrow> bytes" where
  "sample_sha256 s = take 32 (rev s @ replicate 32 (CHR ''.''))"

definition sample_validator :: validator where
  "sample_validator = \<lparr>Check = (\<lambda>_. True), Validate = (\<lambda>_ _. True)\<rparr>"

definition sample_tool :: tool where
  "sample_tool = \<lparr>Name = ''Read'', Alias = [], Description = [],
     ToolSchema = ''{'' @ quote ''type'' @ '':'' @ quote ''object'' @ ''}''\<rparr>"

definition sample_named :: tool where
  "sample_named =
     sample_tool\<lparr>Alias := ''relay_'' @ take 16 (hex_encode (sample_sha256 (tool_name_prefix @ Name sample_tool)))\<rparr>"

theorem build_lookup_roundtrip_witness:
  "\<exists>r. Build sample_sha256 [sample_declaration ''Read''] [] (Some sample_validator) = Inr r
     \<and> tools r = [sample_named] \<and> Lookup r (Alias sample_named) = Some sample_named"
proof -
  have d: "decode_tools [] [sample_declaration ''Read''] = Some [sample_tool]" by code_simp
  have w: "total_within 0 [sample_declaration ''Read'']" by code_simp
  have l: "resolve_lengths [h] [16] = Some [16]" for h
    by (simp add: resolve_lengths.simps [of "[h]" "[16]"] any_collides_def collides_def)
  have a: "assign_aliases [sample_tool] [hex_encode (sample_sha256 (tool_name_prefix @ Name sample_tool))] [16]
      = [sample_named]"
    by (simp add: assign_aliases_def alias_key_def sample_named_def)
  have i: "\<not> MaxBytes < length (identity_text [sample_named])" by code_simp
  have "\<exists>r. Build sample_sha256 [sample_declaration ''Read''] [] (Some sample_validator) = Inr r
      \<and> tools r = [sample_named]"
    unfolding Build_def build_def
    by (simp add: d w l a i MaxTools_def Let_def sample_validator_def del: decode_tools.simps total_within.simps)
  then obtain r where r: "Build sample_sha256 [sample_declaration ''Read''] [] (Some sample_validator) = Inr r"
    "tools r = [sample_named]" by blast
  with build_lookup_roundtrip [OF r(1)] show ?thesis by simp
qed

end
