(* ===== verification/Broker.thy ===== *)
theory Broker
  imports Toolregistry "HOL-Library.Word"
begin

text \<open>
  The relay broker, \<open>internal/relay/broker.go\<close>: tool calls of a session are admitted, suspended, handed
  to the client in sealed batches and completed by its results. Every operation here is one critical
  section of the code's mutex; \<open>Call\<close>, which releases it, is three operations (\<open>call_admit\<close>,
  \<open>call_commit\<close>, and the receive from the call's channel). The channel \<open>done\<close> of a suspended call is
  kept explicitly, so that "a result is sent once and the send never blocks" can be stated.
\<close>

definition MaxFrameBytes :: nat where "MaxFrameBytes = 4194304"

datatype berror =
    ErrAuth | ErrCall | ErrResults | ErrCapacity | ErrTimeout | ErrClosed | ErrBatch | ErrCanceled

record credentials =
  Owner :: bytes
  Secret :: bytes

record call =
  Version :: int
  CallOwner :: bytes
  CallSecret :: bytes
  CallId :: bytes
  CallAlias :: bytes
  CallArguments :: bytes

record content =
  ctype :: bytes
  ctext :: bytes
  cdata :: bytes
  cmime :: bytes

record tool_result =
  rcontent :: "content list"
  risError :: bool

record use =
  UseId :: bytes
  UseName :: bytes
  UseInput :: bytes

record batch =
  Number :: "64 word"
  Calls :: "use list"

record limits =
  Pending :: int
  PendingBytes :: int
  CallHistory :: int
  ToolTimeout :: int          \<comment> \<open>nanoseconds\<close>

text \<open>A suspended call; \<open>handle\<close> is its identity as an object (the pointer compared in \<open>failPending\<close>).\<close>

record pending_call =
  puse :: use
  handle :: nat
  pbytes :: nat

record broker =
  registry :: registry
  creds :: credentials
  limits :: limits
  pending :: "(bytes \<times> pending_call) list"
  seen :: "bytes list"
  queued :: "bytes list"
  sealed :: "bytes list"
  reserved :: nat
  nbytes :: nat
  number :: "64 word"
  delivered :: bool
  active :: bool
  wake :: bool
  cancelled :: bool
  err :: "berror option"
  chan :: "nat \<Rightarrow> tool_result list"   \<comment> \<open>what is buffered in each call's \<open>done\<close> channel\<close>
  next_handle :: nat

subsection \<open>Identifiers\<close>

definition b64url_char :: "nat \<Rightarrow> char" where
  "b64url_char n = char_of (if n < 26 then 65 + n else if n < 52 then 71 + n
      else if n < 62 then n - 4 else if n = 62 then 45 else 95)"

fun b64url_encode :: "bytes \<Rightarrow> bytes" where
  "b64url_encode (a # b # c # s) =
     b64url_char (byte a div 4) # b64url_char (byte a mod 4 * 16 + byte b div 16)
     # b64url_char (byte b mod 16 * 4 + byte c div 64) # b64url_char (byte c mod 64) # b64url_encode s"
| "b64url_encode [a, b] =
     [b64url_char (byte a div 4), b64url_char (byte a mod 4 * 16 + byte b div 16), b64url_char (byte b mod 16 * 4)]"
| "b64url_encode [a] = [b64url_char (byte a div 4), b64url_char (byte a mod 4 * 16)]"
| "b64url_encode [] = []"

text \<open>\<open>entropy\<close> is what \<open>rand.Read\<close> filled the buffer with, \<open>None\<close> where it failed.\<close>

definition randomID :: "bytes option \<Rightarrow> berror + bytes" where
  "randomID entropy = (case entropy of None \<Rightarrow> Inl ErrCall | Some e \<Rightarrow> Inr (b64url_encode e))"

definition validCallID :: "bytes \<Rightarrow> bool" where
  "validCallID i \<longleftrightarrow> 1 \<le> length i \<and> length i \<le> 96 \<and> list_all is_ident_byte i"

subsection \<open>Creation\<close>

definition default_limits :: "limits \<Rightarrow> limits" where
  "default_limits l =
     \<lparr>Pending = (if Pending l = 0 then 64 else Pending l),
      PendingBytes = (if PendingBytes l = 0 then 16777216 else PendingBytes l),
      CallHistory = (if CallHistory l = 0 then 4096 else CallHistory l),
      ToolTimeout = (if ToolTimeout l = 0 then 300000000000 else ToolTimeout l)\<rparr>"

definition limits_ok :: "limits \<Rightarrow> bool" where
  "limits_ok l \<longleftrightarrow> 1 \<le> Pending l \<and> Pending l \<le> 64
     \<and> int MaxArgumentBytes \<le> PendingBytes l \<and> PendingBytes l \<le> 33554432
     \<and> 1 \<le> CallHistory l \<and> CallHistory l \<le> 65536
     \<and> 0 < ToolTimeout l \<and> ToolTimeout l \<le> 3600000000000"

definition NewBroker :: "registry option \<Rightarrow> limits \<Rightarrow> bytes option \<Rightarrow> bytes option \<Rightarrow> berror + broker" where
  "NewBroker reg lims ent1 ent2 =
     (case reg of
        None \<Rightarrow> Inl ErrCall
      | Some r \<Rightarrow>
          if \<not> limits_ok (default_limits lims) then Inl ErrCall
          else case randomID ent1 of Inl e \<Rightarrow> Inl e
             | Inr owner \<Rightarrow> (case randomID ent2 of Inl e \<Rightarrow> Inl e
                 | Inr secret \<Rightarrow> Inr
                    \<lparr>registry = r, creds = \<lparr>Owner = owner, Secret = secret\<rparr>, limits = default_limits lims,
                     pending = [], seen = [], queued = [], sealed = [], reserved = 0, nbytes = 0,
                     number = 0, delivered = False, active = False, wake = False, cancelled = False,
                     err = None, chan = (\<lambda>_. []), next_handle = 0\<rparr>))"

subsection \<open>Failing and turn boundaries\<close>

definition outstanding :: "broker \<Rightarrow> nat" where
  "outstanding b = length (pending b) + reserved b"

definition text_result :: "bytes \<Rightarrow> tool_result" where
  "text_result m = \<lparr>rcontent = [\<lparr>ctype = ''text'', ctext = m, cdata = [], cmime = []\<rparr>], risError = True\<rparr>"

definition fail_message :: "berror \<Rightarrow> bytes" where
  "fail_message reason =
     (if reason = ErrTimeout then ''Client tool result timed out'' else ''Client tool request cancelled'')"

text \<open>\<open>p.done <- value\<close>.\<close>

definition send :: "nat \<Rightarrow> tool_result \<Rightarrow> (nat \<Rightarrow> tool_result list) \<Rightarrow> (nat \<Rightarrow> tool_result list)" where
  "send h v ch = ch(h := ch h @ [v])"

definition failLocked :: "berror \<Rightarrow> broker \<Rightarrow> broker" where
  "failLocked reason b =
     (if err b \<noteq> None then b
      else b\<lparr>err := Some reason, cancelled := True,
             chan := fold (\<lambda>(_, p). send (handle p) (text_result (fail_message reason))) (pending b) (chan b),
             pending := [], queued := [], sealed := [], nbytes := 0, delivered := False, wake := True\<rparr>)"

definition BeginTurn :: "broker \<Rightarrow> berror option \<times> broker" where
  "BeginTurn b =
     (if err b \<noteq> None then (Some ErrClosed, b)
      else if active b \<or> outstanding b \<noteq> 0 then (Some ErrCall, b)
      else (None, b\<lparr>active := True\<rparr>))"

definition EndTurn :: "broker \<Rightarrow> berror option \<times> broker" where
  "EndTurn b =
     (if err b \<noteq> None then (Some ErrClosed, b)
      else if \<not> active b then (Some ErrCall, b)
      else let b' = b\<lparr>active := False\<rparr>
           in if outstanding b' \<noteq> 0 then (Some ErrCall, failLocked ErrCall b') else (None, b'))"

subsection \<open>Calls\<close>

text \<open>Up to the first unlock: the checks outside the lock, then admission and reservation under it.\<close>

definition call_admit :: "call \<Rightarrow> bool \<Rightarrow> broker \<Rightarrow> berror option \<times> broker" where
  "call_admit c ctx_done b =
     (if CallOwner c \<noteq> Owner (creds b) \<or> CallSecret c \<noteq> Secret (creds b) then (Some ErrAuth, b)
      else if Version c \<noteq> 1 \<or> \<not> validCallID (CallId c) then (Some ErrCall, b)
      else if Lookup (registry b) (CallAlias c) = None then (Some ErrCall, b)
      else if Arguments (CallArguments c) = None then (Some ErrCall, b)
      else if ctx_done then (Some ErrCanceled, b)
      else if err b \<noteq> None then (Some ErrClosed, b)
      else if \<not> active b then (Some ErrCall, b)
      else if Pending (limits b) \<le> int (outstanding b) then (Some ErrCapacity, b)
      else if CallId c \<in> set (seen b) then (Some ErrCall, b)
      else if CallHistory (limits b) \<le> int (length (seen b)) then (Some ErrCapacity, failLocked ErrCapacity b)
      else (None, b\<lparr>seen := CallId c # seen b, reserved := reserved b + 1\<rparr>))"

definition use_text :: "use \<Rightarrow> bytes" where
  "use_text u = obj_text [(''id'', quote (UseId u)), (''name'', quote (UseName u)),
     (''input'', compact (UseInput u))]"

text \<open>Registering a suspended call: pending and queued under its identifier, its channel new.\<close>

definition suspend :: "use \<Rightarrow> broker \<Rightarrow> broker" where
  "suspend u b =
     b\<lparr>pending := aset (UseId u)
         \<lparr>puse = u, handle = next_handle b, pbytes = length (use_text u)\<rparr> (pending b),
       queued := queued b @ [UseId u], nbytes := nbytes b + length (use_text u),
       chan := (chan b)(next_handle b := []), next_handle := next_handle b + 1, wake := True\<rparr>"

definition new_use :: "bytes \<Rightarrow> tool \<Rightarrow> bytes \<Rightarrow> use" where
  "new_use i t inp = \<lparr>UseId = ''toolu_'' @ i, UseName = Name t, UseInput = inp\<rparr>"

text \<open>
  From the second lock to the second unlock. \<open>validated\<close> is the answer of the registry's \<open>Validate\<close>,
  obtained without the lock; \<open>entropy\<close> feeds the identifier of the tool use.
\<close>

definition call_commit ::
  "call \<Rightarrow> registry_error + tool \<Rightarrow> bool \<Rightarrow> bytes option \<Rightarrow> broker \<Rightarrow> (berror + bytes) \<times> broker" where
  "call_commit c validated ctx_done entropy b0 =
     (let b = b0\<lparr>reserved := reserved b0 - 1\<rparr>
      in if err b \<noteq> None then (Inl ErrClosed, b)
         else case validated of
             Inl _ \<Rightarrow> (Inl ErrCall, b)
           | Inr t \<Rightarrow>
               (case jsoncanon_Object (CallArguments c) of
                  None \<Rightarrow> (Inl ErrCall, b)
                | Some inp \<Rightarrow>
                    if MaxArgumentBytes < length inp then (Inl ErrCall, b)
                    else if ctx_done then (Inl ErrCanceled, b)
                    else case randomID entropy of
                        Inl _ \<Rightarrow> (Inl ErrCall, b)
                      | Inr i \<Rightarrow>
                          let u = new_use i t inp
                          in if PendingBytes (limits b) < int (nbytes b + length (use_text u))
                             then (Inl ErrCapacity, b)
                             else (Inr (UseId u), suspend u b)))"

text \<open>The waiting caller takes its result: \<open>value = <-p.done\<close>.\<close>

definition receive :: "nat \<Rightarrow> broker \<Rightarrow> (tool_result \<times> broker) option" where
  "receive h b = (case chan b h of [] \<Rightarrow> None | v # r \<Rightarrow> Some (v, b\<lparr>chan := (chan b)(h := r)\<rparr>))"

subsection \<open>Batches\<close>

text \<open>The loop of \<open>Seal\<close>: queued calls in order while they fit one frame.\<close>

fun seal_prefix :: "(bytes \<times> pending_call) list \<Rightarrow> nat \<Rightarrow> bytes list \<Rightarrow> (bytes \<times> pending_call) list" where
  "seal_prefix pend n [] = []"
| "seal_prefix pend n (i # is) = (case map_of pend i of
     None \<Rightarrow> []
   | Some p \<Rightarrow>
       if MaxFrameBytes - 1024 < n + pbytes p then []
       else (i, p) # seal_prefix pend (n + pbytes p) is)"

definition Seal :: "broker \<Rightarrow> (berror + batch) \<times> broker" where
  "Seal b =
     (if err b \<noteq> None then (Inl ErrClosed, b)
      else if sealed b \<noteq> [] \<or> queued b = [] then (Inl ErrBatch, b)
      else let b1 = b\<lparr>number := number b + 1\<rparr>; sel = seal_prefix (pending b) 0 (queued b)
           in if sel = [] then (Inl ErrCapacity, b1)
              else (Inr \<lparr>Number = number b1, Calls = map (puse \<circ> snd) sel\<rparr>,
                    b1\<lparr>sealed := map fst sel, queued := drop (length sel) (queued b), delivered := False\<rparr>))"

definition Delivered :: "64 word \<Rightarrow> broker \<Rightarrow> berror option \<times> broker" where
  "Delivered n b =
     (if err b \<noteq> None \<or> n \<noteq> number b \<or> sealed b = [] \<or> delivered b then (Some ErrBatch, b)
      else (None, b\<lparr>delivered := True\<rparr>))"

subsection \<open>Results\<close>

definition content_ok :: "content \<Rightarrow> bool" where
  "content_ok c =
     (if ctype c = ''text'' then cdata c = [] \<and> cmime c = []
      else if ctype c = ''image'' then
        ctext c = [] \<and> cdata c \<noteq> []
        \<and> cmime c \<in> {''image/png'', ''image/jpeg'', ''image/gif'', ''image/webp''}
        \<and> \<not> contains_any (cdata c) [CHR 0x0D, CHR 0x0A] \<and> b64_decode (cdata c) \<noteq> None
      else False)"

fun contents_ok :: "nat \<Rightarrow> content list \<Rightarrow> bool" where
  "contents_ok n [] = True"
| "contents_ok n (c # cs) =
     (let m = n + length (ctext c) + length (cdata c)
      in if MaxFrameBytes - 1024 < m then False else content_ok c \<and> contents_ok m cs)"

definition validateResult :: "tool_result \<Rightarrow> tool_result option" where
  "validateResult r =
     (if 4096 < length (rcontent r) then None
      else if contents_ok 0 (rcontent r) then Some r else None)"

definition content_text :: "content \<Rightarrow> bytes" where
  "content_text c =
     (if ctype c = ''text'' then obj_text [(''type'', quote ''text''), (''text'', quote (ctext c))]
      else obj_text [(''type'', quote ''image''), (''data'', quote (cdata c)), (''mimeType'', quote (cmime c))])"

definition result_text :: "tool_result \<Rightarrow> bytes" where
  "result_text r = obj_text [(''content'', arr_text (map content_text (rcontent r))),
     (''isError'', bool_text (risError r))]"

fun prepare_loop :: "(bytes \<times> tool_result) list \<Rightarrow> nat \<Rightarrow> (bytes \<times> tool_result) list
    \<Rightarrow> (bytes \<times> tool_result) list option" where
  "prepare_loop prepared n [] = Some prepared"
| "prepare_loop prepared n ((i, r) # rs) =
     (if has_key prepared i then None
      else case validateResult r of
          None \<Rightarrow> None
        | Some v \<Rightarrow>
            (let m = length (result_text v)
             in if MaxFrameBytes - 1024 < m \<or> 16777216 < n + m then None
                else prepare_loop (aset i v prepared) (n + m) rs))"

definition prepareResults :: "bytes \<Rightarrow> (bytes \<times> tool_result) list \<Rightarrow> broker
    \<Rightarrow> (bytes \<times> tool_result) list option" where
  "prepareResults owner results b =
     (if owner \<noteq> Owner (creds b) \<or> results = [] \<or> Pending (limits b) < int (length results) then None
      else prepare_loop [] 0 results)"

definition matchesDelivered :: "(bytes \<times> tool_result) list \<Rightarrow> broker \<Rightarrow> bool" where
  "matchesDelivered prepared b \<longleftrightarrow>
     err b = None \<and> delivered b \<and> length (sealed b) = length prepared
     \<and> list_all (has_key prepared) (sealed b)"

text \<open>The loop of \<open>Resolve\<close> over the sealed identifiers.\<close>

definition complete :: "(bytes \<times> tool_result) list \<Rightarrow> bytes \<Rightarrow> broker \<Rightarrow> broker" where
  "complete prepared i b =
     (case (map_of (pending b) i, map_of prepared i) of
        (Some p, Some v) \<Rightarrow>
          b\<lparr>chan := send (handle p) v (chan b), nbytes := nbytes b - pbytes p,
            pending := adel i (pending b)\<rparr>
      | _ \<Rightarrow> b)"

definition Resolve :: "bytes \<Rightarrow> (bytes \<times> tool_result) list \<Rightarrow> broker \<Rightarrow> berror option \<times> broker" where
  "Resolve owner results b =
     (case prepareResults owner results b of
        None \<Rightarrow> (Some ErrResults, b)
      | Some prepared \<Rightarrow>
          if \<not> matchesDelivered prepared b then (Some ErrResults, b)
          else let b' = fold (complete prepared) (sealed b) b
               in (None, b'\<lparr>sealed := [], delivered := False, wake := (wake b' \<or> queued b' \<noteq> [])\<rparr>))"

definition Abandon :: "bytes \<Rightarrow> (bytes \<times> tool_result) list \<Rightarrow> broker \<Rightarrow> berror option \<times> broker" where
  "Abandon owner results b =
     (case prepareResults owner results b of
        None \<Rightarrow> (Some ErrResults, b)
      | Some prepared \<Rightarrow>
          if \<not> matchesDelivered prepared b then (Some ErrResults, b)
          else (None, failLocked ErrClosed b))"

definition failPending :: "bytes \<Rightarrow> nat \<Rightarrow> berror \<Rightarrow> broker \<Rightarrow> broker" where
  "failPending i h reason b = (case map_of (pending b) i of
     Some p \<Rightarrow> if handle p = h then failLocked reason b else b
   | None \<Rightarrow> b)"

definition Close :: "broker \<Rightarrow> broker" where
  "Close b = failLocked ErrClosed b"

definition expire :: "bytes \<Rightarrow> nat \<Rightarrow> broker \<Rightarrow> broker" where
  "expire i h b = failPending i h ErrTimeout b"

lemmas [broker_defs] = NewBroker_def failLocked_def BeginTurn_def EndTurn_def call_admit_def
  call_commit_def receive_def Seal_def Delivered_def Resolve_def Abandon_def failPending_def
  Close_def expire_def

end
