(* ===== verification/Broker_Inv.thy ===== *)
theory Broker_Inv
  imports Broker
begin

text \<open>
  The broker's invariant, its step relation over every interleaving of the critical sections, and what
  the operations do to suspended calls.
\<close>

subsection \<open>Channels\<close>

definition handles :: "(bytes \<times> pending_call) list \<Rightarrow> nat set" where
  "handles ps = (handle \<circ> snd) ` set ps"

lemma handles_simps [simp]:
  "handles [] = {}" "handles ((i, p) # ps) = insert (handle p) (handles ps)"
  by (auto simp: handles_def)

lemma fold_send:
  "distinct (map (handle \<circ> snd) ps) \<Longrightarrow>
     fold (\<lambda>(_, p). send (handle p) v) ps ch h = (if h \<in> handles ps then ch h @ [v] else ch h)"
proof (induction ps arbitrary: ch)
  case (Cons q ps)
  obtain i p where q: "q = (i, p)" by (cases q)
  from Cons.prems q have "handle p \<notin> handles ps" by (auto simp: handles_def)
  with Cons q show ?case by (auto simp: send_def)
qed simp

subsection \<open>The invariant\<close>

text \<open>Queues and suspended calls describe each other, and the byte account is exact.\<close>

definition inv_queue :: "broker \<Rightarrow> bool" where
  "inv_queue b \<longleftrightarrow>
     distinct (map fst (pending b)) \<and> distinct (queued b @ sealed b)
     \<and> set (queued b @ sealed b) = fst ` set (pending b)
     \<and> nbytes b = asum pbytes (pending b) \<and> (delivered b \<longrightarrow> sealed b \<noteq> [])"

text \<open>Every bound of the configuration is respected.\<close>

definition inv_bounds :: "broker \<Rightarrow> bool" where
  "inv_bounds b \<longleftrightarrow>
     limits_ok (limits b) \<and> int (nbytes b) \<le> PendingBytes (limits b)
     \<and> int (outstanding b) \<le> Pending (limits b)
     \<and> distinct (seen b) \<and> int (length (seen b)) \<le> CallHistory (limits b)"

text \<open>A suspended call's channel is empty; every channel holds at most one result.\<close>

definition inv_chan :: "broker \<Rightarrow> bool" where
  "inv_chan b \<longleftrightarrow>
     distinct (map (handle \<circ> snd) (pending b))
     \<and> (\<forall>h \<in> handles (pending b). chan b h = [] \<and> h < next_handle b)
     \<and> (\<forall>h. length (chan b h) \<le> 1) \<and> (\<forall>h \<ge> next_handle b. chan b h = [])"

text \<open>A failed broker has nothing suspended; outside a turn nothing is suspended or being validated.\<close>

definition inv_life :: "broker \<Rightarrow> bool" where
  "inv_life b \<longleftrightarrow>
     (err b \<noteq> None \<longrightarrow> pending b = [] \<and> \<not> delivered b) \<and> (cancelled b \<longleftrightarrow> err b \<noteq> None)
     \<and> (err b = None \<and> \<not> active b \<longrightarrow> outstanding b = 0)"

definition broker_inv :: "broker \<Rightarrow> bool" where
  "broker_inv b \<longleftrightarrow> inv_queue b \<and> inv_bounds b \<and> inv_chan b \<and> inv_life b"

lemmas inv_defs = broker_inv_def inv_queue_def inv_bounds_def inv_chan_def inv_life_def

subsection \<open>Each operation keeps it\<close>

lemma NewBroker_inv: "NewBroker reg lims e1 e2 = Inr b \<Longrightarrow> broker_inv b"
  by (auto simp: NewBroker_def inv_defs limits_ok_def outstanding_def split: option.splits if_splits sum.splits)

lemma failLocked_inv:
  assumes "broker_inv b"
  shows "broker_inv (failLocked r b)"
proof (cases "err b = None")
  case True
  have c: "fold (\<lambda>(_, p). send (handle p) (text_result (fail_message r))) (pending b) (chan b) h
      = (if h \<in> handles (pending b) then chan b h @ [text_result (fail_message r)] else chan b h)" for h
    using assms by (intro fold_send) (simp add: inv_defs)
  from assms True show ?thesis
    by (auto simp: failLocked_def inv_defs c outstanding_def limits_ok_def)
next
  case False
  with assms show ?thesis by (simp add: failLocked_def)
qed

lemma BeginTurn_inv: "broker_inv b \<Longrightarrow> broker_inv (snd (BeginTurn b))"
  by (auto simp: BeginTurn_def inv_defs outstanding_def)

text \<open>
  Ending a turn first closes admission, which is the one place where the invariant is broken between two
  assignments; failing the broker restores it.
\<close>

lemma failLocked_inactive_inv:
  assumes "broker_inv b"
  shows "broker_inv (failLocked r (b\<lparr>active := False\<rparr>))"
proof (cases "err b = None")
  case True
  have "failLocked r (b\<lparr>active := False\<rparr>) = (failLocked r b)\<lparr>active := False\<rparr>"
    using True by (simp add: failLocked_def)
  moreover have "broker_inv (failLocked r b)" using assms by (rule failLocked_inv)
  moreover have "err (failLocked r b) \<noteq> None" using True by (simp add: failLocked_def)
  ultimately show ?thesis by (auto simp: inv_defs outstanding_def)
next
  case False
  with assms show ?thesis by (auto simp: failLocked_def inv_defs outstanding_def)
qed

lemma EndTurn_inv:
  assumes "broker_inv b"
  shows "broker_inv (snd (EndTurn b))"
proof (cases "err b = None \<and> active b \<and> outstanding b = 0")
  case True
  with assms show ?thesis by (auto simp: EndTurn_def Let_def inv_defs outstanding_def)
next
  case False
  with assms failLocked_inactive_inv [OF assms] show ?thesis
    by (auto simp: EndTurn_def Let_def outstanding_def)
qed

lemma call_admit_inv:
  assumes "broker_inv b"
  shows "broker_inv (snd (call_admit c d b))"
proof -
  have "broker_inv (b\<lparr>seen := CallId c # seen b, reserved := reserved b + 1\<rparr>)"
    if "err b = None" "active b" "int (outstanding b) < Pending (limits b)" "CallId c \<notin> set (seen b)"
      "int (length (seen b)) < CallHistory (limits b)"
    using assms that by (auto simp: inv_defs outstanding_def)
  with assms failLocked_inv show ?thesis
    by (auto simp: call_admit_def not_le)
qed

definition fresh_entropy :: "bytes option \<Rightarrow> broker \<Rightarrow> bool" where
  "fresh_entropy e b \<longleftrightarrow>
     (\<forall>x. e = Some x \<longrightarrow> ''toolu_'' @ b64url_encode x \<notin> fst ` set (pending b))"

text \<open>Taking the reservation back, and adding a suspended call under a fresh identifier.\<close>

lemma unreserve_inv:
  "broker_inv b \<Longrightarrow> broker_inv (b\<lparr>reserved := reserved b - 1\<rparr>)"
  by (auto simp: inv_defs outstanding_def)

lemma aset_fresh: "i \<notin> fst ` set m \<Longrightarrow> aset i v m = m @ [(i, v)]"
  by (induction m) auto

lemma suspend_inv:
  assumes inv: "broker_inv b" and live: "err b = None" "active b"
    and fresh: "UseId u \<notin> fst ` set (pending b)"
    and room: "int (outstanding b) < Pending (limits b)"
      "int (nbytes b + length (use_text u)) \<le> PendingBytes (limits b)"
  shows "broker_inv (suspend u b)"
  using inv live fresh room
  by (auto simp: inv_defs suspend_def aset_fresh outstanding_def handles_def asum_def)

lemma call_commit_cases:
  obtains (kept) "snd (call_commit c v d e b) = b\<lparr>reserved := reserved b - 1\<rparr>"
  | (suspended) x t inp where "e = Some x" "err b = None"
      "int (nbytes b + length (use_text (new_use (b64url_encode x) t inp))) \<le> PendingBytes (limits b)"
      "v = Inr t" "jsoncanon_Object (CallArguments c) = Some inp"
      "snd (call_commit c v d e b) = suspend (new_use (b64url_encode x) t inp) (b\<lparr>reserved := reserved b - 1\<rparr>)"
      "fst (call_commit c v d e b) = Inr (''toolu_'' @ b64url_encode x)"
proof (cases "\<exists>i. fst (call_commit c v d e b) = Inr i")
  case False
  then have "snd (call_commit c v d e b) = b\<lparr>reserved := reserved b - 1\<rparr>"
    by (auto simp: call_commit_def Let_def split: sum.splits option.splits if_splits)
  then show ?thesis by (rule kept)
next
  case True
  then obtain x t inp where
    "e = Some x" "err b = None" "v = Inr t" "jsoncanon_Object (CallArguments c) = Some inp"
    "\<not> MaxArgumentBytes < length inp" "\<not> d"
    "\<not> PendingBytes (limits b) < int (nbytes b + length (use_text (new_use (b64url_encode x) t inp)))"
    by (auto simp: call_commit_def randomID_def Let_def split: sum.splits option.splits if_splits)
  then show ?thesis
    by (intro suspended [of x t inp]) (auto simp: call_commit_def randomID_def Let_def new_use_def)
qed

lemma call_commit_inv:
  assumes inv: "broker_inv b" and r: "0 < reserved b" and fresh: "fresh_entropy e b"
  shows "broker_inv (snd (call_commit c v d e b))"
proof -
  have inv': "broker_inv (b\<lparr>reserved := reserved b - 1\<rparr>)" using inv by (rule unreserve_inv)
  show ?thesis
  proof (cases rule: call_commit_cases [of c v d e b])
    case kept
    with inv' show ?thesis by simp
  next
    case (suspended x t inp)
    have "active b" using inv r suspended(2) by (auto simp: inv_defs outstanding_def)
    moreover have "''toolu_'' @ b64url_encode x \<notin> fst ` set (pending b)"
      using fresh suspended(1) by (simp add: fresh_entropy_def)
    ultimately show ?thesis
      using inv r suspended(2,3) unfolding suspended(6)
      by (intro suspend_inv [OF inv']) (auto simp: new_use_def inv_defs outstanding_def)
  qed
qed

lemma receive_inv:
  assumes "broker_inv b" "receive h b = Some (v, b')"
  shows "broker_inv b'"
proof -
  from assms(2) obtain r where r: "chan b h = v # r" "b' = b\<lparr>chan := (chan b)(h := r)\<rparr>"
    by (auto simp: receive_def split: list.splits)
  from assms(1) have "inv_chan b" by (simp add: broker_inv_def)
  then have "length (chan b h) \<le> 1" by (simp add: inv_chan_def)
  with r have b': "b' = b\<lparr>chan := (chan b)(h := [])\<rparr>" by simp
  have "inv_chan b'" using \<open>inv_chan b\<close> unfolding b' by (simp add: inv_chan_def)
  with assms(1) b' show ?thesis
    by (simp add: broker_inv_def inv_queue_def inv_bounds_def inv_life_def outstanding_def)
qed

subsection \<open>Sealing\<close>

lemma seal_prefix_take:
  "map fst (seal_prefix pend n is) = take (length (seal_prefix pend n is)) is"
  by (induction "is" arbitrary: n) (auto split: option.splits)

lemma seal_prefix_pending: "(i, p) \<in> set (seal_prefix pend n is) \<Longrightarrow> map_of pend i = Some p"
  by (induction "is" arbitrary: n) (auto split: option.splits if_splits)

lemma seal_prefix_bytes:
  "seal_prefix pend n is \<noteq> [] \<Longrightarrow> n + asum pbytes (seal_prefix pend n is) \<le> MaxFrameBytes - 1024"
proof (induction "is" arbitrary: n)
  case (Cons i "is")
  then obtain p where p: "map_of pend i = Some p" "n + pbytes p \<le> MaxFrameBytes - 1024"
    by (auto split: option.splits if_splits simp: not_less)
  with Cons.IH [of "n + pbytes p"] show ?case by (cases "seal_prefix pend (n + pbytes p) is = []") auto
qed simp

lemma Seal_inv:
  assumes "broker_inv b"
  shows "broker_inv (snd (Seal b))"
proof -
  let ?sel = "seal_prefix (pending b) 0 (queued b)"
  have q: "queued b = map fst ?sel @ drop (length ?sel) (queued b)"
    by (simp add: seal_prefix_take)
  have "broker_inv (b\<lparr>number := number b + 1\<rparr>)"
    using assms by (simp add: inv_defs outstanding_def)
  moreover have "broker_inv (b\<lparr>number := number b + 1, sealed := map fst ?sel,
      queued := drop (length ?sel) (queued b), delivered := False\<rparr>)"
    if "err b = None" "sealed b = []"
  proof -
    have "distinct (map fst ?sel @ drop (length ?sel) (queued b))"
      and "set (map fst ?sel @ drop (length ?sel) (queued b)) = fst ` set (pending b)"
      using assms that q by (metis inv_defs(1,2) append_Nil2)+
    then have "distinct (drop (length ?sel) (queued b) @ map fst ?sel)"
      "set (drop (length ?sel) (queued b) @ map fst ?sel) = fst ` set (pending b)" by auto
    with assms that show ?thesis by (simp add: inv_defs outstanding_def)
  qed
  ultimately show ?thesis using assms by (auto simp: Seal_def Let_def)
qed

lemma Delivered_inv: "broker_inv b \<Longrightarrow> broker_inv (snd (Delivered n b))"
  by (auto simp: Delivered_def inv_defs outstanding_def)

subsection \<open>Results\<close>

lemma prepare_loop_Some:
  "prepare_loop acc n rs = Some out \<Longrightarrow> distinct (map fst acc) \<Longrightarrow>
     out = acc @ rs \<and> distinct (map fst out)"
proof (induction rs arbitrary: acc n)
  case (Cons x rs)
  obtain i r where x: "x = (i, r)" by (cases x)
  with Cons.prems have new: "i \<notin> fst ` set acc" and v: "validateResult r = Some r"
    by (auto simp: has_key_iff validateResult_def split: if_splits option.splits)
  with Cons.prems x have "prepare_loop (aset i r acc) (n + length (result_text r)) rs = Some out"
    by (auto simp: Let_def split: if_splits)
  moreover have "distinct (map fst (aset i r acc))" using Cons.prems by simp
  ultimately show ?case using Cons.IH new x by (fastforce simp: aset_fresh)
qed simp

lemma prepareResults_Some:
  "prepareResults owner results b = Some prepared \<Longrightarrow> prepared = results \<and> distinct (map fst results)"
  using prepare_loop_Some [of "[]" 0 results prepared]
  by (auto simp: prepareResults_def split: if_splits)

text \<open>What the completion loop does, in terms of the calls suspended before it.\<close>

lemma fold_complete:
  assumes "distinct ids" "distinct (map fst (pending b))" "nbytes b = asum pbytes (pending b)"
    and "\<forall>i \<in> set ids. map_of (pending b) i \<noteq> None \<and> map_of prepared i \<noteq> None"
  shows "fold (complete prepared) ids b =
    b\<lparr>pending := filter (\<lambda>(i, _). i \<notin> set ids) (pending b),
      nbytes := asum pbytes (filter (\<lambda>(i, _). i \<notin> set ids) (pending b)),
      chan := fold (\<lambda>i. send (handle (the (map_of (pending b) i))) (the (map_of prepared i))) ids (chan b)\<rparr>"
  using assms
proof (induction ids arbitrary: b)
  case Nil
  then show ?case by simp
next
  case (Cons i ids)
  then obtain p v where pv: "map_of (pending b) i = Some p" "map_of prepared i = Some v" by auto
  let ?b = "complete prepared i b"
  have b: "?b = b\<lparr>chan := send (handle p) v (chan b), nbytes := nbytes b - pbytes p, pending := adel i (pending b)\<rparr>"
    using pv by (simp add: complete_def)
  have nb: "nbytes ?b = asum pbytes (pending ?b)"
    using asum_adel [OF Cons.prems(2) pv(1), of pbytes] Cons.prems(3) b by simp
  have ok: "\<forall>j \<in> set ids. map_of (pending ?b) j \<noteq> None \<and> map_of prepared j \<noteq> None"
    using Cons.prems(1,4) b by auto
  have f: "filter (\<lambda>(j, _). j \<notin> set ids) (adel i (pending b)) = filter (\<lambda>(j, _). j \<notin> set (i # ids)) (pending b)"
    by (induction "pending b" rule: list.induct) (auto simp: adel_def intro!: filter_cong)
  have "fold (complete prepared) ids ?b =
    ?b\<lparr>pending := filter (\<lambda>(i, _). i \<notin> set ids) (pending ?b),
      nbytes := asum pbytes (filter (\<lambda>(i, _). i \<notin> set ids) (pending ?b)),
      chan := fold (\<lambda>i. send (handle (the (map_of (pending ?b) i))) (the (map_of prepared i))) ids (chan ?b)\<rparr>"
    using Cons.IH [of ?b] Cons.prems nb ok b by simp
  moreover have "fold (\<lambda>j. send (handle (the (map_of (pending ?b) j))) (the (map_of prepared j))) ids (chan ?b)
    = fold (\<lambda>j. send (handle (the (map_of (pending b) j))) (the (map_of prepared j))) (i # ids) (chan b)"
    using Cons.prems(1) pv b by (auto intro!: fold_cong)
  ultimately show ?case using b f by simp
qed

lemma send_same [simp]: "send h v ch h = ch h @ [v]"
  by (simp add: send_def)

lemma send_other [simp]: "k \<noteq> h \<Longrightarrow> send h v ch k = ch k"
  by (simp add: send_def)

lemma fold_send_other: "k \<notin> h ` set ids \<Longrightarrow> fold (\<lambda>i. send (h i) (v i)) ids ch k = ch k"
  by (induction ids arbitrary: ch) auto

lemma fold_send_same:
  "distinct (map h ids) \<Longrightarrow> i \<in> set ids \<Longrightarrow> fold (\<lambda>i. send (h i) (v i)) ids ch (h i) = ch (h i) @ [v i]"
proof (induction ids arbitrary: ch)
  case (Cons j ids)
  show ?case
  proof (cases "i \<in> set ids")
    case True
    then have "h i \<in> h ` set ids" by (rule imageI)
    moreover have "h j \<notin> h ` set ids" using Cons.prems by auto
    ultimately have "h i \<noteq> h j" by auto
    with True Cons show ?thesis by simp
  next
    case False
    with Cons.prems have "i = j" "h j \<notin> h ` set ids" by auto
    then show ?thesis by (simp add: fold_send_other)
  qed
qed simp

lemma fold_send_once:
  assumes "distinct (map h ids)"
  shows "\<exists>vs. fold (\<lambda>i. send (h i) (v i)) ids ch k = ch k @ vs \<and> length vs \<le> 1 \<and> (k \<notin> h ` set ids \<longrightarrow> vs = [])"
proof (cases "k \<in> h ` set ids")
  case True
  then obtain i where "i \<in> set ids" "k = h i" by blast
  with fold_send_same [OF assms] show ?thesis by (auto intro!: exI [of _ "[v i]"])
qed (simp add: fold_send_other)

text \<open>The handle a pending identifier has, and that different identifiers have different handles.\<close>

abbreviation pending_handle :: "broker \<Rightarrow> bytes \<Rightarrow> nat" where
  "pending_handle b i \<equiv> handle (the (map_of (pending b) i))"

lemma pending_handle_distinct:
  assumes "broker_inv b" "distinct ids" "set ids \<subseteq> fst ` set (pending b)"
  shows "distinct (map (pending_handle b) ids)"
proof -
  have "inj_on (pending_handle b) (fst ` set (pending b))"
  proof (rule inj_onI)
    fix i j assume ij: "i \<in> fst ` set (pending b)" "j \<in> fst ` set (pending b)"
      "pending_handle b i = pending_handle b j"
    then obtain p q where pq: "(i, p) \<in> set (pending b)" "(j, q) \<in> set (pending b)" by auto
    with assms(1) have "map_of (pending b) i = Some p" "map_of (pending b) j = Some q"
      by (auto simp: inv_defs)
    with ij have "handle p = handle q" by simp
    moreover have "inj_on (handle \<circ> snd) (set (pending b))"
      using assms(1) by (simp add: inv_defs distinct_map)
    ultimately show "i = j"
      using pq inj_onD [of "handle \<circ> snd" "set (pending b)" "(i, p)" "(j, q)"] by simp
  qed
  with assms show ?thesis by (auto simp: distinct_map intro: inj_on_subset)
qed

lemma handles_pending:
  assumes "broker_inv b"
  shows "handles (pending b) = pending_handle b ` fst ` set (pending b)"
  using assms by (force simp: inv_defs handles_def image_iff)

text \<open>The state after a successful \<open>Resolve\<close>.\<close>

lemma Resolve_cases [consumes 1, case_names rejected resolved]:
  assumes "broker_inv b"
  obtains (rejected) "Resolve owner results b = (Some ErrResults, b)"
  | (resolved) b' where "Resolve owner results b = (None, b')"
      "err b = None" "delivered b" "owner = Owner (creds b)"
      "distinct (map fst results)" "set (sealed b) = fst ` set results"
      "b' = b\<lparr>pending := filter (\<lambda>(i, _). i \<notin> set (sealed b)) (pending b),
              nbytes := asum pbytes (filter (\<lambda>(i, _). i \<notin> set (sealed b)) (pending b)),
              chan := fold (\<lambda>i. send (pending_handle b i) (the (map_of results i))) (sealed b) (chan b),
              sealed := [], delivered := False, wake := (wake b \<or> queued b \<noteq> [])\<rparr>"
proof (cases "prepareResults owner results b")
  case None
  then show ?thesis by (intro rejected) (simp add: Resolve_def)
next
  case (Some prepared)
  with prepareResults_Some have pr: "prepareResults owner results b = Some results"
    and d: "distinct (map fst results)" by blast+
  show ?thesis
  proof (cases "matchesDelivered results b")
    case False
    with pr show ?thesis by (intro rejected) (simp add: Resolve_def)
  next
    case True
    then have m: "err b = None" "delivered b" "length (sealed b) = length results"
      "set (sealed b) \<subseteq> fst ` set results"
      by (auto simp: matchesDelivered_def list_all_iff has_key_iff)
    have ds: "distinct (sealed b)" using assms by (simp add: inv_defs)
    have "card (set (sealed b)) = card (fst ` set results)"
      using ds d m(3) by (metis distinct_card length_map list.set_map)
    with m(4) have s: "set (sealed b) = fst ` set results" by (simp add: card_subset_eq)
    have "set (sealed b) \<subseteq> fst ` set (pending b)" using assms by (auto simp: inv_defs)
    then have ok: "\<forall>i \<in> set (sealed b). map_of (pending b) i \<noteq> None \<and> map_of results i \<noteq> None"
      using s by (auto simp: map_of_eq_None_iff)
    have o: "owner = Owner (creds b)" using pr by (auto simp: prepareResults_def split: if_splits)
    have f: "fold (complete results) (sealed b) b =
      b\<lparr>pending := filter (\<lambda>(i, _). i \<notin> set (sealed b)) (pending b),
        nbytes := asum pbytes (filter (\<lambda>(i, _). i \<notin> set (sealed b)) (pending b)),
        chan := fold (\<lambda>i. send (pending_handle b i) (the (map_of results i))) (sealed b) (chan b)\<rparr>"
      using fold_complete [OF ds _ _ ok] assms by (simp add: inv_defs)
    show ?thesis
      by (rule resolved [OF _ m(1,2) o d s refl]) (simp add: Resolve_def pr True Let_def f)
  qed
qed

text \<open>
  Completing a batch sends one result to each of its channels and none to the others, so the channels of
  the calls that stay suspended remain empty.
\<close>

lemma resolved_chan:
  assumes inv: "broker_inv b" and sub: "set ids \<subseteq> fst ` set (pending b)" "distinct ids"
  shows "inv_chan (b\<lparr>pending := filter (\<lambda>(i, _). i \<notin> set ids) (pending b),
      chan := fold (\<lambda>i. send (pending_handle b i) (v i)) ids (chan b)\<rparr>)"
proof -
  let ?P = "filter (\<lambda>(i, _). i \<notin> set ids) (pending b)"
  let ?ch = "fold (\<lambda>i. send (pending_handle b i) (v i)) ids (chan b)"
  let ?H = "pending_handle b ` set ids"
  note hd = pending_handle_distinct [OF inv sub(2,1)]
  have once: "\<exists>vs. ?ch h = chan b h @ vs \<and> length vs \<le> 1 \<and> (h \<notin> ?H \<longrightarrow> vs = [])" for h
    using fold_send_once [OF hd] .
  have H: "?H \<subseteq> handles (pending b)" using handles_pending [OF inv] sub by auto
  have hP: "h \<notin> ?H" if h: "h \<in> handles ?P" for h
  proof
    assume "h \<in> ?H"
    then obtain i where i: "i \<in> set ids" "h = pending_handle b i" by auto
    from h obtain j q where j: "(j, q) \<in> set (pending b)" "j \<notin> set ids" "h = handle q"
      by (auto simp: handles_def)
    then have "map_of (pending b) j = Some q" using inv by (auto simp: inv_defs)
    then have "pending_handle b j = pending_handle b i" using i j by simp
    moreover have "distinct (map (pending_handle b) [i, j])"
      using i j sub by (intro pending_handle_distinct [OF inv]) force+
    ultimately show False by simp
  qed
  from inv have ic: "inv_chan b" by (simp add: broker_inv_def)
  have "distinct (map (handle \<circ> snd) ?P)" using ic by (simp add: inv_chan_def distinct_map_filter)
  moreover have "?ch h = [] \<and> h < next_handle b" if "h \<in> handles ?P" for h
    using ic once [of h] hP [OF that] that by (auto simp: inv_chan_def handles_def)
  moreover have "length (?ch h) \<le> 1" for h
  proof (cases "h \<in> ?H")
    case True
    with ic H have "chan b h = []" by (auto simp: inv_chan_def)
    with once [of h] show ?thesis by auto
  next
    case False
    with once [of h] ic show ?thesis by (auto simp: inv_chan_def)
  qed
  moreover have "?ch h = []" if "next_handle b \<le> h" for h
  proof -
    have "h \<notin> handles (pending b)" using ic that by (force simp: inv_chan_def)
    with H have "h \<notin> ?H" by blast
    with once [of h] ic that show ?thesis by (auto simp: inv_chan_def)
  qed
  ultimately show ?thesis by (auto simp: inv_chan_def)
qed

lemma Resolve_inv:
  assumes "broker_inv b"
  shows "broker_inv (snd (Resolve owner results b))"
  using assms
proof (cases rule: Resolve_cases [of b owner results])
  case rejected
  with assms show ?thesis by simp
next
  case (resolved b')
  let ?P = "filter (\<lambda>(i, _). i \<notin> set (sealed b)) (pending b)"
  have sub: "set (sealed b) \<subseteq> fst ` set (pending b)" "distinct (sealed b)"
    using assms by (auto simp: inv_defs)
  have "inv_chan b'"
    using resolved_chan [OF assms sub] unfolding resolved(7) by (simp add: inv_chan_def)
  moreover have "inv_queue b'"
  proof -
    have q: "set (queued b) \<union> set (sealed b) = fst ` set (pending b)" "set (queued b) \<inter> set (sealed b) = {}"
      "distinct (queued b)" "distinct (map fst (pending b))"
      using assms by (simp_all add: inv_defs)
    have "fst ` set ?P = fst ` set (pending b) - set (sealed b)" by force
    with q(1,2) have "fst ` set ?P = set (queued b)" by blast
    with q(3,4) show ?thesis unfolding resolved(7) by (simp add: inv_queue_def distinct_map_filter)
  qed
  moreover have "inv_bounds b'"
  proof -
    have le: "asum pbytes (filter P m) \<le> asum pbytes m" for P and m :: "(bytes \<times> pending_call) list"
      by (induction m) auto
    have b: "nbytes b = asum pbytes (pending b)" "int (nbytes b) \<le> PendingBytes (limits b)"
      "int (length (pending b) + reserved b) \<le> Pending (limits b)"
      using assms by (simp_all add: inv_defs outstanding_def)
    have "int (asum pbytes ?P) \<le> PendingBytes (limits b)"
      using b(1,2) le [of "\<lambda>(i, _). i \<notin> set (sealed b)" "pending b"] by linarith
    moreover have "int (length ?P + reserved b) \<le> Pending (limits b)"
      using b(3) length_filter_le [of "\<lambda>(i, _). i \<notin> set (sealed b)" "pending b"] by linarith
    ultimately show ?thesis
      using assms unfolding resolved(7) by (simp add: inv_defs outstanding_def)
  qed
  moreover have "inv_life b'" using assms unfolding resolved(7) by (auto simp: inv_defs outstanding_def)
  ultimately show ?thesis using resolved(1) by (simp add: broker_inv_def)
qed

lemma Abandon_inv: "broker_inv b \<Longrightarrow> broker_inv (snd (Abandon owner results b))"
  by (auto simp: Abandon_def failLocked_inv split: option.splits)

lemma failPending_inv: "broker_inv b \<Longrightarrow> broker_inv (failPending i h r b)"
  by (auto simp: failPending_def failLocked_inv split: option.splits)

subsection \<open>Every interleaving\<close>

text \<open>
  One rule per critical section. A commit belongs to a call that was admitted, so a reservation exists;
  its random identifier is not one of the identifiers pending at that moment. A timer may fire and a
  context may be cancelled at any time, for any call.
\<close>

inductive broker_step :: "broker \<Rightarrow> broker \<Rightarrow> bool" where
  begin_turn: "broker_step b (snd (BeginTurn b))"
| end_turn: "broker_step b (snd (EndTurn b))"
| admit: "broker_step b (snd (call_admit c d b))"
| commit: "0 < reserved b \<Longrightarrow> fresh_entropy e b \<Longrightarrow>
    v = ValidateCall (registry b) (CallAlias c) (CallArguments c) \<or> (\<exists>x. v = Inl x) \<Longrightarrow>
    broker_step b (snd (call_commit c v d e b))"
| take_result: "receive h b = Some (v, b') \<Longrightarrow> broker_step b b'"
| seal: "broker_step b (snd (Seal b))"
| deliver: "broker_step b (snd (Delivered n b))"
| resolve: "broker_step b (snd (Resolve owner results b))"
| abandon: "broker_step b (snd (Abandon owner results b))"
| cancel_call: "broker_step b (failPending i h ErrCanceled b)"
| expire_call: "broker_step b (expire i h b)"
| close: "broker_step b (Close b)"

lemma broker_step_inv: "broker_step b b' \<Longrightarrow> broker_inv b \<Longrightarrow> broker_inv b'"
  by (induction rule: broker_step.induct)
     (simp_all add: BeginTurn_inv EndTurn_inv call_admit_inv call_commit_inv receive_inv Seal_inv
       Delivered_inv Resolve_inv Abandon_inv failPending_inv expire_def Close_def failLocked_inv)

definition new_broker :: "broker \<Rightarrow> bool" where
  "new_broker b \<longleftrightarrow> (\<exists>reg lims e1 e2. NewBroker reg lims e1 e2 = Inr b)"

interpretation br: invariant_machine new_broker broker_step broker_inv
  by unfold_locales (auto simp: new_broker_def dest: NewBroker_inv broker_step_inv)

subsection \<open>What no step undoes\<close>

lemma failLocked_err: "err b \<noteq> None \<Longrightarrow> failLocked r b = b"
  by (simp add: failLocked_def)

lemma complete_frame:
  "seen (complete pr i b) = seen b \<and> err (complete pr i b) = err b \<and> creds (complete pr i b) = creds b"
  by (auto simp: complete_def split: option.splits)

lemma fold_complete_frame:
  "seen (fold (complete pr) is b) = seen b \<and> err (fold (complete pr) is b) = err b
   \<and> creds (fold (complete pr) is b) = creds b"
  by (induction "is" arbitrary: b) (simp_all add: complete_frame)

text \<open>The identifiers already used only grow, and an error once recorded stays.\<close>

definition grows :: "broker \<Rightarrow> broker \<Rightarrow> bool" where
  "grows b b' \<longleftrightarrow> set (seen b) \<subseteq> set (seen b') \<and> (err b \<noteq> None \<longrightarrow> err b' = err b) \<and> creds b' = creds b"

lemma grows_refl [simp]: "grows b b"
  by (simp add: grows_def)

lemma grows_trans: "grows a b \<Longrightarrow> grows b c \<Longrightarrow> grows a c"
  unfolding grows_def by auto

lemma failLocked_grows [simp]: "grows b (failLocked r b)"
  by (simp add: failLocked_def grows_def)

lemma failLocked_grows' [simp]: "grows b (failLocked r (b\<lparr>active := False\<rparr>))"
  by (simp add: failLocked_def grows_def)

lemma call_commit_grows: "grows b (snd (call_commit c v d e b))"
  by (cases rule: call_commit_cases [of c v d e b]) (simp_all add: grows_def suspend_def)

lemma broker_step_grows: "broker_step b b' \<Longrightarrow> grows b b'"
proof (induction rule: broker_step.induct)
  case (commit b e v c d)
  then show ?case by (simp add: call_commit_grows)
next
  case (resolve b owner results)
  then show ?case
    by (auto simp: Resolve_def Let_def grows_def fold_complete_frame split: option.splits)
next
  case (admit b c d)
  have "grows b (b\<lparr>seen := CallId c # seen b, reserved := reserved b + 1\<rparr>)" by (auto simp: grows_def)
  then show ?case by (simp add: call_admit_def)
qed (simp_all add: BeginTurn_def EndTurn_def Let_def Seal_def Delivered_def Abandon_def failPending_def
      expire_def Close_def receive_def split: option.splits list.splits, auto simp: grows_def)

lemma broker_steps_grow: "broker_step\<^sup>*\<^sup>* b b' \<Longrightarrow> grows b b'"
  by (induction rule: rtranclp_induct) (auto intro: grows_trans dest: broker_step_grows)

end
