(* ===== verification/Broker_Props.thy ===== *)
theory Broker_Props
  imports Broker_Inv
begin

text \<open>
  The broker's guarantees in every reachable state, stated over the operations of
  \<open>internal/relay/broker.go\<close>, with a worked session (a call admitted, committed, sealed and delivered) as
  the concrete state the guarantees are applied to.
\<close>

subsection \<open>A worked session\<close>

definition ex_alias :: bytes where
  "ex_alias = ''relay_0011223344556677''"

definition ex_registry :: registry where
  "ex_registry = \<lparr>tools = [\<lparr>Name = ''Read'', Alias = ex_alias, Description = [], ToolSchema = ''{}''\<rparr>],
     aliases = [(ex_alias, 0)], fingerprint = [],
     reg_validator = \<lparr>Check = (\<lambda>_. True), Validate = (\<lambda>_ _. True)\<rparr>\<rparr>"

definition ex_limits :: limits where
  "ex_limits = \<lparr>Pending = 0, PendingBytes = 0, CallHistory = 0, ToolTimeout = 0\<rparr>"

definition ex_owner :: bytes where "ex_owner = b64url_encode ''owner-entropy''"
definition ex_secret :: bytes where "ex_secret = b64url_encode ''secret-entropy''"

definition ex_call :: call where
  "ex_call = \<lparr>Version = 1, CallOwner = ex_owner, CallSecret = ex_secret, CallId = ''call-1'',
     CallAlias = ex_alias, CallArguments = ''{}''\<rparr>"

definition ex_b0 :: broker where
  "ex_b0 = \<lparr>registry = ex_registry, creds = \<lparr>Owner = ex_owner, Secret = ex_secret\<rparr>,
     limits = default_limits ex_limits,
     pending = [], seen = [], queued = [], sealed = [], reserved = 0, nbytes = 0, number = 0,
     delivered = False, active = False, wake = False, cancelled = False, err = None,
     chan = (\<lambda>_. []), next_handle = 0\<rparr>"

definition ex_b1 :: broker where "ex_b1 = snd (BeginTurn ex_b0)"
definition ex_b2 :: broker where "ex_b2 = snd (call_admit ex_call False ex_b1)"
definition ex_b3 :: broker where
  "ex_b3 = snd (call_commit ex_call (ValidateCall (registry ex_b2) ex_alias ''{}'') False (Some ''abc'') ex_b2)"
definition ex_b4 :: broker where "ex_b4 = snd (Seal ex_b3)"
definition ex_b5 :: broker where "ex_b5 = snd (Delivered 1 ex_b4)"

definition ex_id :: bytes where "ex_id = ''toolu_YWJj''"

lemma ex_new: "NewBroker (Some ex_registry) ex_limits (Some ''owner-entropy'') (Some ''secret-entropy'') = Inr ex_b0"
  by (simp add: NewBroker_def ex_b0_def ex_owner_def ex_secret_def randomID_def ex_limits_def
      default_limits_def limits_ok_def MaxArgumentBytes_def)

lemma ex_b1_simp: "ex_b1 = ex_b0\<lparr>active := True\<rparr>"
  by (simp add: ex_b1_def BeginTurn_def ex_b0_def outstanding_def)

lemma ex_arguments: "Arguments ''{}'' = Some (JObj ''{}'' [])" "jsoncanon_Object ''{}'' = Some ''{}''"
  by code_simp+

lemma ex_admitted: "call_admit ex_call False ex_b1 = (None, ex_b2)"
  and ex_b2_simp: "ex_b2 = ex_b1\<lparr>seen := [''call-1''], reserved := 1\<rparr>"
proof -
  have v: "validCallID ''call-1''" by code_simp
  have "call_admit ex_call False ex_b1 = (None, ex_b1\<lparr>seen := [''call-1''], reserved := 1\<rparr>)"
    by (simp add: call_admit_def ex_call_def ex_b1_simp ex_b0_def v Lookup_def ex_registry_def ex_arguments
        outstanding_def default_limits_def ex_limits_def)
  then show "call_admit ex_call False ex_b1 = (None, ex_b2)"
    and "ex_b2 = ex_b1\<lparr>seen := [''call-1''], reserved := 1\<rparr>"
    by (simp_all add: ex_b2_def)
qed

definition ex_use :: use where
  "ex_use = \<lparr>UseId = ex_id, UseName = ''Read'', UseInput = ''{}''\<rparr>"

lemma ex_use_text: "length (use_text ex_use) = 44"
  by code_simp

lemma ex_b3_simp: "ex_b3 = suspend ex_use (ex_b2\<lparr>reserved := 0\<rparr>)"
proof -
  have r: "randomID (Some ''abc'') = Inr ''YWJj''" by code_simp
  show ?thesis
    using ex_use_text
    by (simp add: ex_b3_def call_commit_def ex_b2_simp ex_b1_simp ex_b0_def ValidateCall_def ex_registry_def
        ex_arguments ex_call_def r new_use_def ex_use_def ex_id_def Let_def MaxArgumentBytes_def
        default_limits_def ex_limits_def)
qed

lemma ex_b3_fields:
  "pending ex_b3 = [(ex_id, \<lparr>puse = ex_use, handle = 0, pbytes = 44\<rparr>)]" "queued ex_b3 = [ex_id]"
  "sealed ex_b3 = []" "err ex_b3 = None" "number ex_b3 = 0"
  using ex_use_text
  by (simp_all add: ex_b3_simp suspend_def ex_b2_simp ex_b1_simp ex_b0_def ex_use_def)

lemma ex_b4_simp: "ex_b4 = ex_b3\<lparr>number := 1, sealed := [ex_id], queued := [], delivered := False\<rparr>"
  by (simp add: ex_b4_def Seal_def ex_b3_fields Let_def MaxFrameBytes_def)

lemma ex_b5_simp: "ex_b5 = ex_b4\<lparr>delivered := True\<rparr>"
  by (simp add: ex_b5_def Delivered_def ex_b4_simp ex_b3_fields)

lemma ex_steps:
  "broker_step\<^sup>*\<^sup>* ex_b0 ex_b1" "broker_step\<^sup>*\<^sup>* ex_b0 ex_b3" "broker_step\<^sup>*\<^sup>* ex_b0 ex_b5"
  "broker_step\<^sup>*\<^sup>* ex_b2 ex_b5"
proof -
  have s1: "broker_step ex_b0 ex_b1" by (simp add: ex_b1_def begin_turn)
  have s2: "broker_step ex_b1 ex_b2" by (simp add: ex_b2_def admit)
  have "0 < reserved ex_b2" "fresh_entropy (Some ''abc'') ex_b2"
    by (simp_all add: ex_b2_simp ex_b1_simp ex_b0_def fresh_entropy_def)
  then have s3: "broker_step ex_b2 ex_b3"
    unfolding ex_b3_def by (intro commit) (auto simp: ex_call_def)
  have s4: "broker_step ex_b3 ex_b4" by (simp add: ex_b4_def seal)
  have s5: "broker_step ex_b4 ex_b5" by (simp add: ex_b5_def deliver)
  show "broker_step\<^sup>*\<^sup>* ex_b0 ex_b1" using s1 by simp
  show "broker_step\<^sup>*\<^sup>* ex_b0 ex_b3" using s1 s2 s3 by (meson converse_rtranclp_into_rtranclp r_into_rtranclp)
  show a: "broker_step\<^sup>*\<^sup>* ex_b2 ex_b5" using s3 s4 s5 by (meson converse_rtranclp_into_rtranclp r_into_rtranclp)
  show "broker_step\<^sup>*\<^sup>* ex_b0 ex_b5" using s1 s2 a by (meson converse_rtranclp_into_rtranclp)
qed

lemma ex_pending5: "pending ex_b5 = [(ex_id, \<lparr>puse = ex_use, handle = 0, pbytes = 44\<rparr>)]"
  by (simp add: ex_b5_simp ex_b4_simp ex_b3_fields)

subsection \<open>Bounds\<close>

lemma broker_reachable: "NewBroker reg lims e1 e2 = Inr b0 \<Longrightarrow> broker_step\<^sup>*\<^sup>* b0 b \<Longrightarrow> broker_inv b"
  by (rule br.reachable_inv [of b0]) (auto simp: new_broker_def)

text \<open>
  C1: in every reachable state the broker stays within its limits (at most 64 calls outstanding, 32 MiB
  suspended, 65536 identifiers remembered), its byte account is the exact sum over the suspended calls, and
  the queued and the sealed identifiers together name each suspended call exactly once.
\<close>

theorem broker_bounds:
  assumes "NewBroker reg lims e1 e2 = Inr b0" and "broker_step\<^sup>*\<^sup>* b0 b"
  shows "length (pending b) + reserved b \<le> 64 \<and> int (length (pending b) + reserved b) \<le> Pending (limits b)
    \<and> nbytes b = asum pbytes (pending b) \<and> nbytes b \<le> 33554432
    \<and> distinct (seen b) \<and> length (seen b) \<le> 65536
    \<and> distinct (queued b @ sealed b) \<and> set (queued b @ sealed b) = fst ` set (pending b)"
proof -
  have "broker_inv b" using assms by (rule broker_reachable)
  then have q: "inv_queue b" and l: "limits_ok (limits b)" "int (nbytes b) \<le> PendingBytes (limits b)"
    "int (length (pending b) + reserved b) \<le> Pending (limits b)" "distinct (seen b)"
    "int (length (seen b)) \<le> CallHistory (limits b)"
    by (simp_all add: broker_inv_def inv_bounds_def outstanding_def)
  then have "length (pending b) + reserved b \<le> 64" "nbytes b \<le> 33554432" "length (seen b) \<le> 65536"
    by (auto simp: limits_ok_def)
  with q l show ?thesis by (simp add: inv_queue_def)
qed

theorem broker_bounds_witness:
  "length (pending ex_b5) + reserved ex_b5 \<le> 64 \<and> set (queued ex_b5 @ sealed ex_b5) = {ex_id}"
  using broker_bounds [OF ex_new ex_steps(3)] by (simp add: ex_pending5)

subsection \<open>Results\<close>

text \<open>
  in every reachable state no result channel holds more than one result, and the channel of a suspended
  call is empty. So each result is sent to a call once, and the send under the mutex (the channel has room
  for one) never blocks.
\<close>

theorem result_channels_hold_one:
  assumes "NewBroker reg lims e1 e2 = Inr b0" and "broker_step\<^sup>*\<^sup>* b0 b"
  shows "length (chan b h) \<le> 1 \<and> ((i, p) \<in> set (pending b) \<longrightarrow> chan b (handle p) = [])"
  using broker_reachable [OF assms] by (force simp: inv_defs handles_def)

theorem result_channels_hold_one_witness: "length (chan ex_b5 0) \<le> 1 \<and> chan ex_b5 0 = []"
  using result_channels_hold_one [OF ex_new ex_steps(3), of 0 ex_id "\<lparr>puse = ex_use, handle = 0, pbytes = 44\<rparr>"]
  by (simp add: ex_pending5)

text \<open>
  C2: \<open>Resolve\<close> is all or nothing. Either it answers \<open>ErrResults\<close> and changes nothing, or the results name
  exactly the delivered batch, each call of the batch finds its own result in its channel and is no longer
  suspended, and every other suspended call is untouched.
\<close>

theorem resolve_all_or_nothing:
  assumes "NewBroker reg lims e1 e2 = Inr b0" and "broker_step\<^sup>*\<^sup>* b0 b"
  shows "Resolve owner results b = (Some ErrResults, b)
    \<or> (\<exists>b'. Resolve owner results b = (None, b') \<and> delivered b
         \<and> set (map fst results) = set (sealed b) \<and> sealed b' = [] \<and> queued b' = queued b
         \<and> (\<forall>i p. map_of (pending b) i = Some p \<longrightarrow>
              (if i \<in> set (sealed b)
               then map_of (pending b') i = None \<and> chan b' (handle p) = [the (map_of results i)]
               else map_of (pending b') i = Some p \<and> chan b' (handle p) = [])))"
proof -
  have inv: "broker_inv b" using assms by (rule broker_reachable)
  then show ?thesis
  proof (cases rule: Resolve_cases [of b owner results])
    case (resolved b')
    have sub: "set (sealed b) \<subseteq> fst ` set (pending b)" "distinct (sealed b)"
      and ic: "inv_chan b" and dp: "distinct (map fst (pending b))"
      using inv by (auto simp: inv_defs)
    note hd = pending_handle_distinct [OF inv sub(2,1)]
    have p': "map_of (pending b') i = (if i \<in> set (sealed b) then None else map_of (pending b) i)" for i
      unfolding resolved(7) by (simp add: map_of_filter_keys)
    have one: "if i \<in> set (sealed b)
               then map_of (pending b') i = None \<and> chan b' (handle p) = [the (map_of results i)]
               else map_of (pending b') i = Some p \<and> chan b' (handle p) = []"
      if p: "map_of (pending b) i = Some p" for i p
    proof (cases "i \<in> set (sealed b)")
      case True
      have "chan b (handle p) = []" using ic map_of_SomeD [OF p] by (force simp: inv_chan_def handles_def)
      with True fold_send_same [OF hd True] p p' show ?thesis unfolding resolved(7) by simp
    next
      case False
      have "inv_chan (snd (Resolve owner results b))" using Resolve_inv [OF inv] by (simp add: broker_inv_def)
      moreover have "map_of (pending b') i = Some p" using p p' False by simp
      then have "handle p \<in> handles (pending b')" using map_of_SomeD by (force simp: handles_def)
      ultimately have "chan b' (handle p) = []" using resolved(1) by (simp add: inv_chan_def)
      with False p p' show ?thesis by simp
    qed
    moreover have "sealed b' = []" "queued b' = queued b" by (simp_all add: resolved(7))
    moreover have "set (map fst results) = set (sealed b)" using resolved(6) by simp
    ultimately show ?thesis using resolved(1,3) by blast
  qed simp
qed

definition ex_result :: tool_result where
  "ex_result = \<lparr>rcontent = [\<lparr>ctype = ''text'', ctext = ''ok'', cdata = [], cmime = []\<rparr>], risError = False\<rparr>"

theorem resolve_all_or_nothing_witness:
  "chan (snd (Resolve ex_owner [(ex_id, ex_result)] ex_b5)) 0 = [ex_result]
   \<and> map_of (pending (snd (Resolve ex_owner [(ex_id, ex_result)] ex_b5))) ex_id = None"
proof -
  have "prepare_loop [] 0 [(ex_id, ex_result)] = Some [(ex_id, ex_result)]" by code_simp
  then have "fst (Resolve ex_owner [(ex_id, ex_result)] ex_b5) = None"
    by (simp add: Resolve_def prepareResults_def matchesDelivered_def ex_b5_simp ex_b4_simp ex_b3_simp suspend_def
        ex_b2_simp ex_b1_simp ex_b0_def default_limits_def ex_limits_def has_key_def Let_def)
  then have "Resolve ex_owner [(ex_id, ex_result)] ex_b5 \<noteq> (Some ErrResults, ex_b5)" by auto
  with resolve_all_or_nothing [OF ex_new ex_steps(3), of ex_owner "[(ex_id, ex_result)]"]
  obtain b' where r: "Resolve ex_owner [(ex_id, ex_result)] ex_b5 = (None, b')" and
    all: "\<forall>i p. map_of (pending ex_b5) i = Some p \<longrightarrow>
              (if i \<in> set (sealed ex_b5)
               then map_of (pending b') i = None \<and> chan b' (handle p) = [the (map_of [(ex_id, ex_result)] i)]
               else map_of (pending b') i = Some p \<and> chan b' (handle p) = [])" by blast
  have "map_of (pending ex_b5) ex_id = Some \<lparr>puse = ex_use, handle = 0, pbytes = 44\<rparr>"
    by (simp add: ex_pending5)
  moreover have "ex_id \<in> set (sealed ex_b5)" by (simp add: ex_b5_simp ex_b4_simp)
  ultimately have "map_of (pending b') ex_id = None \<and> chan b' 0 = [ex_result]" using all by fastforce
  with r show ?thesis by simp
qed

text \<open>
  C3: when the broker fails (close, timeout, cancellation, abandonment, capacity), every suspended call
  receives exactly one error result, nothing stays suspended, and the failure is final: no later operation,
  in any order, clears it, admits a call, seals a batch or accepts results.
\<close>

theorem failure_releases_and_is_final:
  assumes "NewBroker reg lims e1 e2 = Inr b0" and "broker_step\<^sup>*\<^sup>* b0 b" and "err b = None"
    and "broker_step\<^sup>*\<^sup>* (failLocked r b) b2"
  shows "(\<forall>(i, p) \<in> set (pending b). chan (failLocked r b) (handle p) = [text_result (fail_message r)])
    \<and> pending (failLocked r b) = [] \<and> err b2 = Some r \<and> pending b2 = []
    \<and> fst (call_admit c d b2) \<noteq> None \<and> (\<exists>e. fst (Seal b2) = Inl e)
    \<and> Resolve owner results b2 = (Some ErrResults, b2)"
proof -
  have inv: "broker_inv b" using assms(1,2) by (rule broker_reachable)
  have inv2: "broker_inv b2" using br.steps_inv [OF assms(4)] failLocked_inv [OF inv] by simp
  have e: "err (failLocked r b) = Some r" using assms(3) by (simp add: failLocked_def)
  then have e2: "err b2 = Some r" using broker_steps_grow [OF assms(4)] by (simp add: grows_def)
  have "chan (failLocked r b) (handle p) = [text_result (fail_message r)]" if "(i, p) \<in> set (pending b)" for i p
  proof -
    have h: "handle p \<in> handles (pending b)" using that by (force simp: handles_def)
    then have "chan b (handle p) = []" using inv by (simp add: inv_defs)
    with h assms(3) inv show ?thesis by (simp add: failLocked_def fold_send inv_defs)
  qed
  moreover have "pending b2 = []" using inv2 e2 by (simp add: inv_defs)
  moreover have "pending (failLocked r b) = []" using assms(3) by (simp add: failLocked_def)
  moreover have "fst (call_admit c d b2) \<noteq> None" using e2 by (simp add: call_admit_def)
  moreover have "\<exists>e. fst (Seal b2) = Inl e" using e2 by (simp add: Seal_def)
  moreover have "Resolve owner results b2 = (Some ErrResults, b2)"
    using e2 by (simp add: Resolve_def matchesDelivered_def split: option.splits)
  ultimately show ?thesis using e2 by blast
qed

theorem failure_releases_and_is_final_witness:
  "chan (failLocked ErrTimeout ex_b5) 0 = [text_result ''Client tool result timed out'']"
proof -
  have "err ex_b5 = None" by (simp add: ex_b5_simp ex_b4_simp ex_b3_fields)
  from failure_releases_and_is_final [OF ex_new ex_steps(3) this rtranclp.rtrancl_refl, of ErrTimeout]
  show ?thesis by (simp add: ex_pending5 fail_message_def)
qed

subsection \<open>Calls\<close>

text \<open>
  C4: a call identifier is admitted at most once in the broker's life: after it was admitted, no later state,
  whatever happened in between, admits a call with the same identifier again.
\<close>

theorem call_id_admitted_once:
  assumes "call_admit c d b1 = (None, b2)" and "broker_step\<^sup>*\<^sup>* b2 b3" and "CallId c' = CallId c"
  shows "fst (call_admit c' d' b3) \<noteq> None"
proof -
  from assms(1) have "CallId c \<in> set (seen b2)" by (auto simp: call_admit_def split: if_splits)
  with broker_steps_grow [OF assms(2)] have "CallId c' \<in> set (seen b3)"
    using assms(3) by (auto simp: grows_def)
  then show ?thesis by (auto simp: call_admit_def)
qed

theorem call_id_admitted_once_witness: "fst (call_admit ex_call False ex_b5) \<noteq> None"
  using call_id_admitted_once [OF ex_admitted ex_steps(4) refl] .

text \<open>
  a sealed batch is the longest prefix of the queue in arrival order that stays within one frame; the
  calls left over keep their order at the front of the queue for the next batch.
\<close>

theorem seal_is_fifo_prefix:
  assumes "Seal b = (Inr bat, b')"
  shows "queued b = sealed b' @ queued b' \<and> sealed b' \<noteq> [] \<and> length (Calls bat) = length (sealed b')
    \<and> Calls bat = map (\<lambda>i. puse (the (map_of (pending b) i))) (sealed b')
    \<and> (\<Sum>i \<leftarrow> sealed b'. pbytes (the (map_of (pending b) i))) \<le> MaxFrameBytes - 1024
    \<and> Number bat = number b + 1 \<and> number b' = Number bat \<and> \<not> delivered b' \<and> pending b' = pending b"
proof -
  let ?sel = "seal_prefix (pending b) 0 (queued b)"
  from assms have sel: "?sel \<noteq> []" and bat: "bat = \<lparr>Number = number b + 1, Calls = map (puse \<circ> snd) ?sel\<rparr>"
    and b': "b' = b\<lparr>number := number b + 1, sealed := map fst ?sel, queued := drop (length ?sel) (queued b),
      delivered := False\<rparr>"
    by (auto simp: Seal_def Let_def split: if_splits)
  have look: "\<forall>(i, p) \<in> set ?sel. p = the (map_of (pending b) i)" by (auto dest: seal_prefix_pending)
  then have "map (puse \<circ> snd) ?sel = map (\<lambda>i. puse (the (map_of (pending b) i))) (map fst ?sel)"
    by (auto simp: comp_def)
  moreover have "asum pbytes ?sel = (\<Sum>i \<leftarrow> map fst ?sel. pbytes (the (map_of (pending b) i)))"
    unfolding asum_def map_map using look by (intro arg_cong [where f = sum_list] map_cong) auto
  moreover have "queued b = map fst ?sel @ drop (length ?sel) (queued b)" by (simp add: seal_prefix_take)
  ultimately show ?thesis using seal_prefix_bytes [OF sel] bat b' sel by simp
qed

theorem seal_is_fifo_prefix_witness: "queued ex_b3 = sealed ex_b4 @ queued ex_b4 \<and> sealed ex_b4 \<noteq> []"
proof -
  have "Seal ex_b3 = (Inr \<lparr>Number = 1, Calls = [ex_use]\<rparr>, ex_b4)"
    by (simp add: ex_b4_def Seal_def ex_b3_fields Let_def MaxFrameBytes_def)
  from seal_is_fifo_prefix [OF this] show ?thesis by blast
qed

text \<open>
  a caller without the broker's owner and secret changes nothing: a call is refused with \<open>ErrAuth\<close>, and
  results under another owner are refused by both \<open>Resolve\<close> and \<open>Abandon\<close>.
\<close>

theorem foreign_credentials_no_effect:
  "(CallOwner c \<noteq> Owner (creds b) \<or> CallSecret c \<noteq> Secret (creds b) \<longrightarrow> call_admit c d b = (Some ErrAuth, b))
   \<and> (owner \<noteq> Owner (creds b) \<longrightarrow>
        Resolve owner results b = (Some ErrResults, b) \<and> Abandon owner results b = (Some ErrResults, b))"
  by (simp add: call_admit_def Resolve_def Abandon_def prepareResults_def)

theorem foreign_credentials_no_effect_witness:
  "call_admit (ex_call\<lparr>CallSecret := []\<rparr>) False ex_b1 = (Some ErrAuth, ex_b1)"
proof -
  have "ex_secret \<noteq> []" by code_simp
  then show ?thesis
    using foreign_credentials_no_effect [of "ex_call\<lparr>CallSecret := []\<rparr>" ex_b1 False]
    by (simp add: ex_b1_simp ex_b0_def)
qed

end
