(* ===== verification/Pool.thy ===== *)
theory Pool
  imports Wire
begin

text \<open>
  The pool of ACP processes, \<open>internal/acppool/pool.go\<close>. Process groups and leases are objects shared by
  pointer, so the state keeps a store of each, indexed by identity; \<open>pool_groups\<close> is the pool's own map of
  groups, as a list in an arbitrary iteration order. Every definition is one critical section of the pool's
  mutex; the process itself (starting it, its replies, its exit) is supplied by the environment.
\<close>

datatype perror =
    PErrParameters | PErrOverloaded | PErrClosed | PErrProtocol | PErrCanceled | PErrCleanup | PErrProcess

record notification =
  Method :: bytes
  SessionID :: bytes
  Params :: bytes

record pool_config =
  MaxProcesses :: int
  SessionsPerProcess :: int
  MaxIdle :: int
  EventQueue :: int
  EventBytes :: int
  IdleTTL :: int               \<comment> \<open>nanoseconds\<close>
  SetupTimeout :: int          \<comment> \<open>nanoseconds\<close>

record lease =
  l_group :: nat
  l_id :: bytes
  l_candidate :: bytes
  l_loading :: bool
  l_idle :: bool
  l_err :: "perror option"
  l_queue :: "notification list"
  l_bytes :: nat
  l_activity :: bool
  l_ended :: bool

record group =
  g_scope :: bytes
  g_client :: bool             \<comment> \<open>the process has been started\<close>
  g_clienterr :: "perror option"  \<comment> \<open>what \<open>client.Err()\<close> answers\<close>
  g_ready :: bool
  g_err :: "perror option"
  g_leases :: "nat list"
  g_routes :: "(bytes \<times> nat option) list"
  g_allocated :: nat
  g_busy :: int
  g_idleAt :: "int option"     \<comment> \<open>\<open>None\<close> is the zero time\<close>
  g_creating :: "nat option"
  g_dedicated :: bool

record pool =
  pool_cfg :: pool_config
  pool_groups :: "nat list"
  gstore :: "nat \<Rightarrow> group"
  lstore :: "nat \<Rightarrow> lease"
  next_group :: nat
  next_lease :: nat
  pool_closed :: bool
  pool_cleanupErr :: "perror option"

definition upd_group :: "nat \<Rightarrow> (group \<Rightarrow> group) \<Rightarrow> pool \<Rightarrow> pool" where
  "upd_group g f p = p\<lparr>gstore := (gstore p)(g := f (gstore p g))\<rparr>"

definition upd_lease :: "nat \<Rightarrow> (lease \<Rightarrow> lease) \<Rightarrow> pool \<Rightarrow> pool" where
  "upd_lease l f p = p\<lparr>lstore := (lstore p)(l := f (lstore p l))\<rparr>"

subsection \<open>Creation\<close>

definition pick_int :: "int \<Rightarrow> int \<Rightarrow> int" where
  "pick_int v def = (if v = 0 then def else v)"

definition default_config :: "pool_config \<Rightarrow> pool_config" where
  "default_config c = \<lparr>MaxProcesses = pick_int (MaxProcesses c) 4,
     SessionsPerProcess = pick_int (SessionsPerProcess c) 2, MaxIdle = pick_int (MaxIdle c) 2,
     EventQueue = pick_int (EventQueue c) 64, EventBytes = pick_int (EventBytes c) 16777216,
     IdleTTL = pick_int (IdleTTL c) 300000000000, SetupTimeout = pick_int (SetupTimeout c) 30000000000\<rparr>"

definition config_ok :: "pool_config \<Rightarrow> bool" where
  "config_ok c \<longleftrightarrow> 1 \<le> MaxProcesses c \<and> MaxProcesses c \<le> 16
     \<and> 1 \<le> SessionsPerProcess c \<and> SessionsPerProcess c \<le> 8
     \<and> 1 \<le> MaxIdle c \<and> MaxIdle c \<le> 16 \<and> 1 \<le> EventQueue c \<and> EventQueue c \<le> 1024
     \<and> 1 \<le> EventBytes c \<and> EventBytes c \<le> 67108864
     \<and> 0 < IdleTTL c \<and> IdleTTL c \<le> 3600000000000 \<and> 0 < SetupTimeout c \<and> SetupTimeout c \<le> 60000000000"

definition NewPool :: "pool_config \<Rightarrow> perror + pool" where
  "NewPool cfg =
     (let c = default_config cfg
      in if \<not> config_ok c then Inl PErrParameters
         else Inr \<lparr>pool_cfg = c\<lparr>MaxIdle := min (MaxIdle c) (MaxProcesses c)\<rparr>, pool_groups = [],
                   gstore = (\<lambda>_. \<lparr>g_scope = [], g_client = False, g_clienterr = None, g_ready = False,
                     g_err = None, g_leases = [], g_routes = [], g_allocated = 0, g_busy = 0,
                     g_idleAt = None, g_creating = None, g_dedicated = False\<rparr>),
                   lstore = (\<lambda>_. \<lparr>l_group = 0, l_id = [], l_candidate = [], l_loading = False,
                     l_idle = False, l_err = None, l_queue = [], l_bytes = 0, l_activity = False,
                     l_ended = False\<rparr>),
                   next_group = 0, next_lease = 0, pool_closed = False, pool_cleanupErr = None\<rparr>)"

subsection \<open>Leases and retirement\<close>

definition newLeaseLocked :: "nat \<Rightarrow> pool \<Rightarrow> nat \<times> pool" where
  "newLeaseLocked g p =
     (let l = next_lease p
      in (l, upd_group g (\<lambda>x. x\<lparr>g_leases := l # g_leases x, g_allocated := g_allocated x + 1,
                g_busy := g_busy x + 1, g_idleAt := None\<rparr>)
              (p\<lparr>next_lease := l + 1,
                 lstore := (lstore p)(l := \<lparr>l_group = g, l_id = [], l_candidate = [], l_loading = False,
                   l_idle = False, l_err = None, l_queue = [], l_bytes = 0, l_activity = False,
                   l_ended = False\<rparr>)\<rparr>)))"

definition clear_lease :: "lease \<Rightarrow> lease" where
  "clear_lease x = x\<lparr>l_ended := True, l_queue := [], l_bytes := 0, l_activity := True\<rparr>"

text \<open>
  The synchronous part of \<open>retireLocked\<close>; the goroutine it starts ends in \<open>reap\<close>. A nil reason is replaced
  by \<open>ErrClosed\<close>.
\<close>

definition retireLocked :: "nat \<Rightarrow> perror option \<Rightarrow> pool \<Rightarrow> pool" where
  "retireLocked g reason p =
     (if g_err (gstore p g) \<noteq> None then p
      else (upd_group g (\<lambda>x. x\<lparr>g_err := Some (case reason of None \<Rightarrow> PErrClosed | Some e \<Rightarrow> e)\<rparr>) p)
             \<lparr>lstore := (\<lambda>l. if l \<in> set (g_leases (gstore p g)) then clear_lease (lstore p l) else lstore p l)\<rparr>)"

text \<open>The end of the retirement goroutine: \<open>closeErr\<close> is what closing the process and cleaning up reported.\<close>

definition reap :: "nat \<Rightarrow> perror option \<Rightarrow> pool \<Rightarrow> pool" where
  "reap g closeErr p =
     p\<lparr>pool_cleanupErr := (if closeErr \<noteq> None \<and> pool_cleanupErr p = None then Some PErrCleanup
                           else pool_cleanupErr p),
       pool_groups := filter (\<lambda>x. x \<noteq> g) (pool_groups p)\<rparr>"

definition before :: "int option \<Rightarrow> int option \<Rightarrow> bool" where
  "before a b = (case (a, b) of
     (None, None) \<Rightarrow> False | (None, Some _) \<Rightarrow> True | (Some _, None) \<Rightarrow> False | (Some x, Some y) \<Rightarrow> x < y)"

definition errLocked :: "nat \<Rightarrow> pool \<Rightarrow> perror option" where
  "errLocked l p =
     (let x = lstore p l; g = gstore p (l_group x)
      in if l_err x \<noteq> None then l_err x else if g_err g \<noteq> None then g_err g else g_clienterr g)"

subsection \<open>Pruning\<close>

definition expired :: "pool \<Rightarrow> int \<Rightarrow> nat \<Rightarrow> bool" where
  "expired p now g = (case g_idleAt (gstore p g) of None \<Rightarrow> False | Some t \<Rightarrow> IdleTTL (pool_cfg p) \<le> now - t)"

definition idle_group :: "pool \<Rightarrow> nat \<Rightarrow> bool" where
  "idle_group p g \<longleftrightarrow>
     g_err (gstore p g) = None \<and> g_busy (gstore p g) = 0 \<and> g_idleAt (gstore p g) \<noteq> None"

text \<open>The first loop: retire the expired groups, collect the other idle ones.\<close>

fun prune_expired :: "int \<Rightarrow> nat list \<Rightarrow> pool \<Rightarrow> nat list \<times> pool" where
  "prune_expired now [] p = ([], p)"
| "prune_expired now (g # gs) p =
     (if idle_group p g then
        (if expired p now g then prune_expired now gs (retireLocked g (Some PErrClosed) p)
         else let (idle, p') = prune_expired now gs p in (g # idle, p'))
      else prune_expired now gs p)"

text \<open>The group that has been idle longest, the first of them where several are equal.\<close>

fun oldest_of :: "(nat \<Rightarrow> int option) \<Rightarrow> nat \<Rightarrow> nat list \<Rightarrow> nat" where
  "oldest_of t best [] = best"
| "oldest_of t best (g # gs) = oldest_of t (if before (t g) (t best) then g else best) gs"

lemma oldest_of_mem: "oldest_of t best gs \<in> insert best (set gs)"
  by (induction gs arbitrary: best) auto

function prune_excess :: "nat list \<Rightarrow> pool \<Rightarrow> pool" where
  "prune_excess idle p =
     (case idle of
        [] \<Rightarrow> p
      | g # gs \<Rightarrow>
          if int (length idle) \<le> MaxIdle (pool_cfg p) then p
          else let o' = oldest_of (\<lambda>x. g_idleAt (gstore p x)) g gs
               in prune_excess (remove1 o' idle) (retireLocked o' (Some PErrClosed) p))"
  by pat_completeness auto
termination
proof (relation "measure (length \<circ> fst)")
  fix idle g gs and x :: nat and p :: pool
  assume "idle = g # gs" and "x = oldest_of (\<lambda>x. g_idleAt (gstore p x)) g gs"
  then have "x \<in> set idle" using oldest_of_mem by fastforce
  then have "length (remove1 x idle) < length idle"
    using length_remove1 [of x idle] length_pos_if_in_set [of x idle] by simp
  then show "((remove1 x idle, retireLocked x (Some PErrClosed) p), idle, p) \<in> measure (length \<circ> fst)"
    by simp
qed simp

declare prune_excess.simps [simp del]

definition pruneLocked :: "int \<Rightarrow> pool \<Rightarrow> pool" where
  "pruneLocked now p = (let (idle, p') = prune_expired now (pool_groups p) p in prune_excess idle p')"

subsection \<open>Acquiring\<close>

datatype acquired =
    Failed perror
  | Reused nat                 \<comment> \<open>a lease on a running process\<close>
  | Reserved nat nat           \<comment> \<open>a new group and its first lease; the process is to be started\<close>
  | Recycling nat              \<comment> \<open>wait until this group is closed, then try again without recycling\<close>

definition reusable :: "pool \<Rightarrow> bytes \<Rightarrow> bool \<Rightarrow> nat \<Rightarrow> bool" where
  "reusable p scope prepared g \<longleftrightarrow>
     (let x = gstore p g
      in \<not> prepared \<and> \<not> g_dedicated x \<and> g_scope x = scope \<and> g_client x \<and> g_err x = None
         \<and> g_clienterr x = None \<and> int (g_allocated x) < SessionsPerProcess (pool_cfg p))"

text \<open>The idle group to give up when the pool is full.\<close>

definition recyclable :: "pool \<Rightarrow> nat option" where
  "recyclable p = (case filter (\<lambda>g. g_err (gstore p g) = None \<and> g_busy (gstore p g) = 0) (pool_groups p) of
     [] \<Rightarrow> None | g # gs \<Rightarrow> Some (oldest_of (\<lambda>x. g_idleAt (gstore p x)) g gs))"

definition new_group :: "bytes \<Rightarrow> bool \<Rightarrow> pool \<Rightarrow> nat \<times> pool" where
  "new_group scope prepared p =
     (let g = next_group p
      in (g, p\<lparr>next_group := g + 1, pool_groups := g # pool_groups p,
               gstore := (gstore p)(g := \<lparr>g_scope = scope, g_client = False, g_clienterr = None,
                 g_ready = False, g_err = None, g_leases = [], g_routes = [], g_allocated = 0, g_busy = 0,
                 g_idleAt = None, g_creating = None, g_dedicated = prepared\<rparr>)\<rparr>))"

definition acquire :: "bool \<Rightarrow> bytes \<Rightarrow> bool \<Rightarrow> bool \<Rightarrow> int \<Rightarrow> pool \<Rightarrow> acquired \<times> pool" where
  "acquire ctx_done scope recycle prepared now p0 =
     (if ctx_done then (Failed PErrCanceled, p0)
      else if scope = [] \<or> 256 < length scope then (Failed PErrParameters, p0)
      else let p = pruneLocked now p0
           in case pool_cleanupErr p of
               Some e \<Rightarrow> (Failed e, p)
             | None \<Rightarrow>
                 if pool_closed p then (Failed PErrClosed, p)
                 else case find (reusable p scope prepared) (pool_groups p) of
                     Some g \<Rightarrow> (let (l, p') = newLeaseLocked g p in (Reused l, p'))
                   | None \<Rightarrow>
                       if MaxProcesses (pool_cfg p) \<le> int (length (pool_groups p)) then
                         (case (if recycle then recyclable p else None) of
                            Some g \<Rightarrow> (Recycling g, retireLocked g (Some PErrClosed) p)
                          | None \<Rightarrow> (Failed PErrOverloaded, p))
                       else (let (g, p1) = new_group scope prepared p; (l, p2) = newLeaseLocked g p1
                             in (Reserved g l, p2)))"

text \<open>After preparation and start: the client and what they reported are stored, failure retires the group.\<close>

definition acquire_ready :: "nat \<Rightarrow> bool \<Rightarrow> perror option \<Rightarrow> pool \<Rightarrow> perror option \<times> pool" where
  "acquire_ready g client startErr p =
     (let p1 = upd_group g (\<lambda>x. x\<lparr>g_client := client, g_ready := True\<rparr>) p;
          p2 = (if startErr \<noteq> None then retireLocked g startErr p1 else p1)
      in (g_err (gstore p2 g), p2))"

subsection \<open>Idle, release, close\<close>

definition count_idle :: "bool \<Rightarrow> int \<Rightarrow> group \<Rightarrow> group" where
  "count_idle idle now x =
     (if idle then x\<lparr>g_busy := g_busy x - 1, g_idleAt := (if g_busy x - 1 = 0 then Some now else g_idleAt x)\<rparr>
      else x\<lparr>g_busy := g_busy x + 1, g_idleAt := None\<rparr>)"

definition SetIdle :: "nat \<Rightarrow> bool \<Rightarrow> int \<Rightarrow> pool \<Rightarrow> perror option \<times> pool" where
  "SetIdle l idle now p =
     (case errLocked l p of
        Some e \<Rightarrow> (Some e, p)
      | None \<Rightarrow>
          if l_idle (lstore p l) = idle then (None, p)
          else let p1 = upd_lease l (\<lambda>x. x\<lparr>l_idle := idle\<rparr>) p;
                   p2 = upd_group (l_group (lstore p l)) (count_idle idle now) p1;
                   p3 = pruneLocked now p2
               in (errLocked l p3, p3))"

definition ReleaseIdle :: "nat \<Rightarrow> pool \<Rightarrow> perror option \<times> pool" where
  "ReleaseIdle l p =
     (let x = lstore p l; g = l_group x
      in if l_err x \<noteq> None then (None, p)
         else if \<not> l_idle x \<and> g_err (gstore p g) = None then (Some PErrParameters, p)
         else let p1 = upd_lease l (\<lambda>y. (clear_lease y)\<lparr>l_err := Some PErrClosed\<rparr>) p;
                  p2 = upd_group g (\<lambda>y. y\<lparr>g_leases := filter (\<lambda>k. k \<noteq> l) (g_leases y),
                          g_routes := (if l_id x = [] then g_routes y else aset (l_id x) None (g_routes y))\<rparr>) p1;
                  y = gstore p2 g
              in (None, if g_leases y = [] \<and> (g_dedicated y \<or> SessionsPerProcess (pool_cfg p2) \<le> int (g_allocated y))
                        then retireLocked g (Some PErrClosed) p2 else p2))"

definition CloseLease :: "nat \<Rightarrow> pool \<Rightarrow> pool" where
  "CloseLease l p = retireLocked (l_group (lstore p l)) (Some PErrClosed) p"

definition ClosePool :: "pool \<Rightarrow> pool" where
  "ClosePool p = fold (\<lambda>g. retireLocked g (Some PErrClosed)) (pool_groups p) (p\<lparr>pool_closed := True\<rparr>)"

subsection \<open>Events\<close>

definition eventBytes :: "notification \<Rightarrow> nat" where
  "eventBytes n = length (Method n) + length (SessionID n) + length (Params n)"

definition TryNext :: "nat \<Rightarrow> pool \<Rightarrow> (perror + notification option) \<times> pool" where
  "TryNext l p =
     (case errLocked l p of
        Some e \<Rightarrow> (Inl e, p)
      | None \<Rightarrow> (case l_queue (lstore p l) of
          [] \<Rightarrow> (Inr None, p)
        | n # ns \<Rightarrow> (Inr (Some n), upd_lease l (\<lambda>x. x\<lparr>l_queue := ns, l_bytes := l_bytes x - eventBytes n\<rparr>) p)))"

text \<open>Adding one event to a lease, or retiring its group when the lease's queue is full.\<close>

definition enqueue :: "nat \<Rightarrow> nat \<Rightarrow> notification \<Rightarrow> pool \<Rightarrow> bool \<times> pool" where
  "enqueue g l n p =
     (let x = lstore p l
      in if l_loading x then (True, p)
         else if EventQueue (pool_cfg p) \<le> int (length (l_queue x))
               \<or> EventBytes (pool_cfg p) - int (l_bytes x) < int (eventBytes n)
         then (False, retireLocked g (Some PErrOverloaded) p)
         else (True, upd_lease l (\<lambda>x. x\<lparr>l_queue := l_queue x @ [n], l_bytes := l_bytes x + eventBytes n,
                 l_activity := True\<rparr>) p))"

definition deliver :: "nat \<Rightarrow> notification \<Rightarrow> pool \<Rightarrow> bool \<times> pool" where
  "deliver g n p =
     (let x = gstore p g
      in if g_err x \<noteq> None then (False, p)
         else if SessionID n = [] then
           (if Method n = ''session/update'' then (False, retireLocked g (Some PErrProtocol) p) else (True, p))
         else case map_of (g_routes x) (SessionID n) of
             Some None \<Rightarrow> (True, p)
           | Some (Some l) \<Rightarrow> enqueue g l n p
           | None \<Rightarrow>
               (case g_creating x of
                  None \<Rightarrow> (False, retireLocked g (Some PErrProtocol) p)
                | Some l \<Rightarrow>
                    if l_candidate (lstore p l) \<noteq> [] \<and> l_candidate (lstore p l) \<noteq> SessionID n
                    then (False, retireLocked g (Some PErrProtocol) p)
                    else enqueue g l n (upd_lease l (\<lambda>y. y\<lparr>l_candidate := SessionID n\<rparr>) p)))"

subsection \<open>Creating a session on a lease\<close>

definition create_begin :: "nat \<Rightarrow> bytes \<Rightarrow> pool \<Rightarrow> perror option \<times> pool" where
  "create_begin l loadID p =
     (case errLocked l p of
        Some e \<Rightarrow> (Some e, p)
      | None \<Rightarrow>
          let g = l_group (lstore p l)
          in if l_id (lstore p l) \<noteq> [] \<or> g_creating (gstore p g) \<noteq> None then (Some PErrParameters, p)
             else (None, upd_group g (\<lambda>x. x\<lparr>g_creating := Some l\<rparr>)
                    (upd_lease l (\<lambda>x. x\<lparr>l_loading := (loadID \<noteq> []), l_candidate := loadID\<rparr>) p)))"

definition create_fail :: "nat \<Rightarrow> perror option \<Rightarrow> pool \<Rightarrow> pool" where
  "create_fail l e p =
     (let g = l_group (lstore p l)
      in retireLocked g e (upd_group g (\<lambda>x. x\<lparr>g_creating := None\<rparr>) p))"

text \<open>The session identifier of the process's reply, \<open>None\<close> where the reply is a protocol error.\<close>

definition created_id :: "bytes \<Rightarrow> bytes \<Rightarrow> bytes option" where
  "created_id loadID raw =
     do {
       fields \<leftarrow> (if loadID \<noteq> [] \<and> raw = ''null'' then Some [] else ndjson_Object raw);
       i \<leftarrow> (case map_of fields ''sessionId'' of None \<Rightarrow> Some loadID | Some v \<Rightarrow> string_field v);
       (if i = [] \<or> 1024 < length i \<or> (loadID \<noteq> [] \<and> i \<noteq> loadID) then None else Some i)
     }"

definition create_finish :: "nat \<Rightarrow> bytes \<Rightarrow> pool \<Rightarrow> perror option \<times> pool" where
  "create_finish l i p =
     (let g = l_group (lstore p l); stop = (\<lambda>q. upd_group g (\<lambda>x. x\<lparr>g_creating := None\<rparr>) q)
      in case errLocked l p of
          Some e \<Rightarrow> (Some e, stop p)
        | None \<Rightarrow>
            if has_key (g_routes (gstore p g)) i
               \<or> (l_candidate (lstore p l) \<noteq> [] \<and> l_candidate (lstore p l) \<noteq> i)
            then (Some PErrProtocol, retireLocked g (Some PErrProtocol) (stop p))
            else (None, stop (upd_group g (\<lambda>x. x\<lparr>g_routes := aset i (Some l) (g_routes x)\<rparr>)
                          (upd_lease l (\<lambda>x. x\<lparr>l_id := i, l_loading := False\<rparr>) p))))"

text \<open>The reply of \<open>session/new\<close> or \<open>session/load\<close>: parsed, then stored or the group retired.\<close>

definition create_reply :: "nat \<Rightarrow> bytes \<Rightarrow> bytes \<Rightarrow> pool \<Rightarrow> perror option \<times> pool" where
  "create_reply l loadID raw p = (case created_id loadID raw of
     None \<Rightarrow> (Some PErrProtocol, create_fail l (Some PErrProtocol) p)
   | Some i \<Rightarrow> create_finish l i p)"

text \<open>The checks of \<open>Lease.Call\<close> before the process is asked: the parameters name this lease's session.\<close>

definition call_check :: "nat \<Rightarrow> bytes \<Rightarrow> bytes \<Rightarrow> pool \<Rightarrow> perror option" where
  "call_check l method params p =
     (if method = ''session/new'' \<or> method = ''session/load'' then Some PErrParameters
      else case ndjson_Object params of
          None \<Rightarrow> Some PErrParameters
        | Some fs \<Rightarrow>
            (case unmarshal_string (field fs ''sessionId'') of
               None \<Rightarrow> Some PErrParameters
             | Some i \<Rightarrow> if i = [] \<or> i \<noteq> l_id (lstore p l) then Some PErrParameters else errLocked l p))"

subsection \<open>Statistics\<close>

record pool_stats =
  Processes :: nat
  Sessions :: nat
  Busy :: int
  Idle :: nat

definition Stats :: "pool \<Rightarrow> pool_stats" where
  "Stats p = \<lparr>Processes = length (pool_groups p),
     Sessions = (\<Sum>g \<leftarrow> pool_groups p. length (g_leases (gstore p g))),
     Busy = (\<Sum>g \<leftarrow> pool_groups p. g_busy (gstore p g)),
     Idle = length (filter (\<lambda>g. g_busy (gstore p g) = 0 \<and> g_err (gstore p g) = None) (pool_groups p))\<rparr>"

lemmas [pool_defs] = retireLocked_def reap_def newLeaseLocked_def new_group_def upd_group_def upd_lease_def
  errLocked_def enqueue_def deliver_def create_begin_def create_fail_def create_finish_def ReleaseIdle_def
  TryNext_def acquire_ready_def clear_lease_def

end
