(* ===== verification/Pool_Inv.thy ===== *)
theory Pool_Inv
  imports Pool
begin

text \<open>
  The pool's invariant and its preservation by every critical section, in any interleaving: process and
  session bounds, exact busy accounting, bounded event queues, and isolation of sessions.
\<close>

lemma upd_simps [simp]:
  "gstore (upd_group g f p) = (gstore p)(g := f (gstore p g))" "lstore (upd_group g f p) = lstore p"
  "pool_cfg (upd_group g f p) = pool_cfg p" "pool_groups (upd_group g f p) = pool_groups p"
  "next_group (upd_group g f p) = next_group p" "next_lease (upd_group g f p) = next_lease p"
  "gstore (upd_lease l h p) = gstore p" "lstore (upd_lease l h p) = (lstore p)(l := h (lstore p l))"
  "pool_cfg (upd_lease l h p) = pool_cfg p" "pool_groups (upd_lease l h p) = pool_groups p"
  "next_group (upd_lease l h p) = next_group p" "next_lease (upd_lease l h p) = next_lease p"
  by (simp_all add: upd_group_def upd_lease_def)

subsection \<open>The invariant\<close>

text \<open>A group that can still be used counts its busy leases exactly and has an idle time only when idle.\<close>

definition busy_ok :: "pool \<Rightarrow> nat \<Rightarrow> bool" where
  "busy_ok p g \<longleftrightarrow> g_err (gstore p g) = None \<longrightarrow>
     g_busy (gstore p g) = int (length (filter (\<lambda>l. \<not> l_idle (lstore p l)) (g_leases (gstore p g))))
     \<and> (g_busy (gstore p g) = 0 \<longleftrightarrow> g_idleAt (gstore p g) \<noteq> None)"

definition alloc_limit :: "pool_config \<Rightarrow> group \<Rightarrow> int" where
  "alloc_limit c x = (if g_dedicated x then 1 else SessionsPerProcess c)"

definition alloc_ok :: "pool \<Rightarrow> nat \<Rightarrow> bool" where
  "alloc_ok p g \<longleftrightarrow> (let x = gstore p g in
     distinct (g_leases x) \<and> length (g_leases x) \<le> g_allocated x
     \<and> int (g_allocated x) \<le> alloc_limit (pool_cfg p) x
     \<and> (\<forall>l \<in> set (g_leases x). l < next_lease p \<and> l_group (lstore p l) = g))"

text \<open>Routes lead to leases of the group with that session; a lease being created has no session yet.\<close>

definition route_ok :: "pool \<Rightarrow> nat \<Rightarrow> bool" where
  "route_ok p g \<longleftrightarrow> (let x = gstore p g in
     (\<forall>i l. map_of (g_routes x) i = Some (Some l) \<longrightarrow>
        l_id (lstore p l) = i \<and> i \<noteq> [] \<and> l_group (lstore p l) = g \<and> l < next_lease p)
     \<and> (\<forall>l. g_creating x = Some l \<longrightarrow> l_id (lstore p l) = [] \<and> l_group (lstore p l) = g \<and> l < next_lease p))"

definition group_inv :: "pool \<Rightarrow> nat \<Rightarrow> bool" where
  "group_inv p g \<longleftrightarrow> busy_ok p g \<and> alloc_ok p g \<and> route_ok p g"

text \<open>The queue of a lease is within its bounds and holds only events of its own session.\<close>

definition queue_ok :: "pool_config \<Rightarrow> lease \<Rightarrow> bool" where
  "queue_ok c x \<longleftrightarrow> l_bytes x = (\<Sum>n \<leftarrow> l_queue x. eventBytes n)
     \<and> int (length (l_queue x)) \<le> EventQueue c \<and> int (l_bytes x) \<le> EventBytes c
     \<and> (\<forall>n \<in> set (l_queue x). SessionID n \<noteq> [] \<and> SessionID n = (if l_id x = [] then l_candidate x else l_id x))"

text \<open>Before a session exists, events wait only while it is being created (or after an error).\<close>

definition waiting_ok :: "pool \<Rightarrow> nat \<Rightarrow> bool" where
  "waiting_ok p l \<longleftrightarrow> (let x = lstore p l in
     l_id x = [] \<and> l_queue x \<noteq> [] \<longrightarrow>
       g_creating (gstore p (l_group x)) = Some l \<or> errLocked l p \<noteq> None)"

lemma errLocked_None:
  "errLocked l p = None \<longleftrightarrow> l_err (lstore p l) = None \<and> g_err (gstore p (l_group (lstore p l))) = None
     \<and> g_clienterr (gstore p (l_group (lstore p l))) = None"
  by (auto simp: errLocked_def Let_def)

lemma waiting_mono:
  assumes "waiting_ok p k" "l_id (lstore q k) = l_id (lstore p k)" "l_queue (lstore q k) = l_queue (lstore p k)"
    "l_group (lstore q k) = l_group (lstore p k)" "l_err (lstore q k) = l_err (lstore p k)"
    "g_creating (gstore q (l_group (lstore p k))) = g_creating (gstore p (l_group (lstore p k)))"
    "g_err (gstore q (l_group (lstore p k))) = None \<Longrightarrow> g_err (gstore p (l_group (lstore p k))) = None"
    "g_clienterr (gstore q (l_group (lstore p k))) = None \<Longrightarrow> g_clienterr (gstore p (l_group (lstore p k))) = None"
  shows "waiting_ok q k"
  using assms(1,7,8) unfolding waiting_ok_def Let_def errLocked_None assms(2-6) by blast

text \<open>A lease that has not been released is among the leases of its group.\<close>

definition lease_ok :: "pool \<Rightarrow> nat \<Rightarrow> bool" where
  "lease_ok p l \<longleftrightarrow> l_group (lstore p l) < next_group p
     \<and> (l_err (lstore p l) = None \<longrightarrow> l \<in> set (g_leases (gstore p (l_group (lstore p l)))))"

definition pool_bounds :: "pool \<Rightarrow> bool" where
  "pool_bounds p \<longleftrightarrow> config_ok (pool_cfg p) \<and> MaxIdle (pool_cfg p) \<le> MaxProcesses (pool_cfg p)
     \<and> distinct (pool_groups p) \<and> int (length (pool_groups p)) \<le> MaxProcesses (pool_cfg p)
     \<and> (\<forall>g \<in> set (pool_groups p). g < next_group p)"

definition pool_inv :: "pool \<Rightarrow> bool" where
  "pool_inv p \<longleftrightarrow> pool_bounds p \<and> (\<forall>g < next_group p. group_inv p g)
     \<and> (\<forall>l. queue_ok (pool_cfg p) (lstore p l) \<and> (l < next_lease p \<longrightarrow> waiting_ok p l \<and> lease_ok p l))"

lemmas pinv_defs = pool_inv_def pool_bounds_def lease_ok_def group_inv_def busy_ok_def alloc_ok_def route_ok_def
  queue_ok_def waiting_ok_def errLocked_def Let_def

lemma NewPool_inv: "NewPool cfg = Inr p \<Longrightarrow> pool_inv p"
  by (auto simp: NewPool_def pinv_defs config_ok_def min_def split: if_splits)

subsection \<open>Retirement\<close>

lemma retire_simps [simp]:
  "pool_cfg (retireLocked g r p) = pool_cfg p" "pool_groups (retireLocked g r p) = pool_groups p"
  "next_group (retireLocked g r p) = next_group p" "next_lease (retireLocked g r p) = next_lease p"
  "g_leases (gstore (retireLocked g r p) h) = g_leases (gstore p h)"
  "g_routes (gstore (retireLocked g r p) h) = g_routes (gstore p h)"
  "g_creating (gstore (retireLocked g r p) h) = g_creating (gstore p h)"
  "g_allocated (gstore (retireLocked g r p) h) = g_allocated (gstore p h)"
  "g_dedicated (gstore (retireLocked g r p) h) = g_dedicated (gstore p h)"
  "g_busy (gstore (retireLocked g r p) h) = g_busy (gstore p h)"
  "g_idleAt (gstore (retireLocked g r p) h) = g_idleAt (gstore p h)"
  "g_clienterr (gstore (retireLocked g r p) h) = g_clienterr (gstore p h)"
  "l_id (lstore (retireLocked g r p) l) = l_id (lstore p l)"
  "l_group (lstore (retireLocked g r p) l) = l_group (lstore p l)"
  "l_idle (lstore (retireLocked g r p) l) = l_idle (lstore p l)"
  "l_err (lstore (retireLocked g r p) l) = l_err (lstore p l)"
  "l_candidate (lstore (retireLocked g r p) l) = l_candidate (lstore p l)"
  by (auto simp: retireLocked_def clear_lease_def)

lemma retire_err: "g_err (gstore (retireLocked g r p) h) = None \<longleftrightarrow> g_err (gstore p h) = None \<and> h \<noteq> g"
  by (auto simp: retireLocked_def split: option.splits)

lemma retire_queue:
  "lstore (retireLocked g r p) l = lstore p l
   \<or> (l_queue (lstore (retireLocked g r p) l) = [] \<and> l_bytes (lstore (retireLocked g r p) l) = 0)"
  by (auto simp: retireLocked_def clear_lease_def)

lemma queue_ok_empty: "config_ok c \<Longrightarrow> l_queue x = [] \<Longrightarrow> l_bytes x = 0 \<Longrightarrow> queue_ok c x"
  by (simp add: queue_ok_def config_ok_def)

lemma retireLocked_inv:
  assumes "pool_inv p"
  shows "pool_inv (retireLocked g r p)"
proof -
  let ?p = "retireLocked g r p"
  have c: "config_ok (pool_cfg p)" using assms by (simp add: pool_inv_def pool_bounds_def)
  have "queue_ok (pool_cfg p) (lstore ?p l)" for l
    using retire_queue [of g r p l] assms queue_ok_empty [OF c] by (auto simp: pool_inv_def)
  moreover have "waiting_ok ?p l" if "l < next_lease p" for l
  proof -
    have "waiting_ok p l" using assms that by (simp add: pool_inv_def)
    moreover have "errLocked l p \<noteq> None \<Longrightarrow> errLocked l ?p \<noteq> None"
      by (auto simp: errLocked_def Let_def retireLocked_def clear_lease_def)
    ultimately show ?thesis
      using retire_queue [of g r p l] by (auto simp: waiting_ok_def Let_def)
  qed
  moreover have "group_inv ?p h" if "h < next_group p" for h
  proof -
    have g: "busy_ok p h" "alloc_ok p h" "route_ok p h"
      using assms that by (simp_all add: pool_inv_def group_inv_def)
    have "busy_ok ?p h" using g(1) by (auto simp: busy_ok_def retire_err)
    moreover have "alloc_ok ?p h" using g(2) by (simp add: alloc_ok_def alloc_limit_def Let_def)
    moreover have "route_ok ?p h" using g(3) by (simp add: route_ok_def Let_def)
    ultimately show ?thesis by (simp add: group_inv_def)
  qed
  ultimately show ?thesis using assms by (simp add: pool_inv_def pool_bounds_def lease_ok_def)
qed

subsection \<open>Pruning\<close>

lemma prune_expired_inv: "pool_inv p \<Longrightarrow> pool_inv (snd (prune_expired now gs p))"
  by (induction gs arbitrary: p) (auto simp: retireLocked_inv split_beta)

lemma prune_excess_inv: "pool_inv p \<Longrightarrow> pool_inv (prune_excess idle p)"
proof (induction idle p rule: prune_excess.induct)
  case (1 idle p)
  show ?case
  proof (cases idle)
    case Nil
    with "1.prems" show ?thesis by (simp add: prune_excess.simps [of "[]" p])
  next
    case (Cons g gs)
    show ?thesis
    proof (cases "int (length idle) \<le> MaxIdle (pool_cfg p)")
      case True
      with Cons "1.prems" show ?thesis by (simp add: prune_excess.simps [of "g # gs" p])
    next
      case False
      with Cons "1.IH" [OF Cons False refl] retireLocked_inv [OF "1.prems"] show ?thesis
        by (simp only: prune_excess.simps [of "g # gs" p] Let_def list.case if_False)
    qed
  qed
qed

lemma pruneLocked_inv: "pool_inv p \<Longrightarrow> pool_inv (pruneLocked now p)"
  by (simp add: pruneLocked_def split_beta Let_def prune_excess_inv prune_expired_inv)

text \<open>Only the bounds mention the pool's own list of groups.\<close>

lemma pool_inv_same_stores:
  assumes "pool_inv p" "pool_bounds q"
    and "gstore q = gstore p" "lstore q = lstore p" "next_lease q = next_lease p" "next_group q = next_group p"
    and "pool_cfg q = pool_cfg p"
  shows "pool_inv q"
  using assms(1,2)
  unfolding pool_inv_def group_inv_def busy_ok_def alloc_ok_def route_ok_def waiting_ok_def lease_ok_def errLocked_def assms(3-7)
  by blast

lemma reap_inv:
  assumes "pool_inv p"
  shows "pool_inv (reap g e p)"
proof (rule pool_inv_same_stores [OF assms])
  have b: "pool_bounds p" using assms by (simp add: pool_inv_def)
  then have "int (length (filter (\<lambda>x. x \<noteq> g) (pool_groups p))) \<le> MaxProcesses (pool_cfg p)"
    using length_filter_le [of "\<lambda>x. x \<noteq> g" "pool_groups p"] unfolding pool_bounds_def by linarith
  with b show "pool_bounds (reap g e p)" by (simp add: pool_bounds_def reap_def)
qed (simp_all add: reap_def)


subsection \<open>Leases\<close>

text \<open>
  A group and a lease change together, all others are as before: what has to be shown for the changed ones.
\<close>

lemma pool_inv_change:
  assumes inv: "pool_inv p" and same: "pool_bounds q" "pool_cfg q = pool_cfg p" "next_lease p \<le> next_lease q"
    and others: "\<And>h. h \<noteq> g \<Longrightarrow> gstore q h = gstore p h" "\<And>h. h \<noteq> g \<Longrightarrow> h < next_group q \<Longrightarrow> h < next_group p"
      "next_group p \<le> next_group q"
    and leases: "\<And>k. k \<noteq> l \<Longrightarrow> lstore q k = lstore p k" "\<And>k. k \<noteq> l \<Longrightarrow> k < next_lease q \<Longrightarrow> k < next_lease p"
    and lg: "l_group (lstore q l) = g" "g < next_group q" "l < next_lease p \<Longrightarrow> l_group (lstore p l) = g"
    and mem: "l_err (lstore q l) = None \<Longrightarrow> l \<in> set (g_leases (gstore q g))"
      "g < next_group p \<Longrightarrow> set (g_leases (gstore p g)) - {l} \<subseteq> set (g_leases (gstore q g))"
    and grp: "group_inv q g" and q: "queue_ok (pool_cfg p) (lstore q l)" and w: "waiting_ok q l"
    and wg: "\<And>k. k \<noteq> l \<Longrightarrow> k < next_lease p \<Longrightarrow> l_group (lstore p k) = g \<Longrightarrow> waiting_ok p k \<Longrightarrow> waiting_ok q k"
  shows "pool_inv q"
proof -
  have g_other: "group_inv q h" if "h \<noteq> g" "h < next_group q" for h
  proof -
    have h: "gstore q h = gstore p h" and hp: "busy_ok p h" "alloc_ok p h" "route_ok p h"
      using others that inv by (auto simp: pool_inv_def group_inv_def)
    have r: "k \<noteq> l" if "l_group (lstore p k) = h" "k < next_lease p" for k
      using that lg(3) \<open>h \<noteq> g\<close> by auto
    have a: "k \<noteq> l" if "k \<in> set (g_leases (gstore p h))" for k
      using hp(2) that r by (auto simp: alloc_ok_def Let_def)
    have f: "filter (\<lambda>k. \<not> l_idle (lstore q k)) (g_leases (gstore p h))
        = filter (\<lambda>k. \<not> l_idle (lstore p k)) (g_leases (gstore p h))"
      using a leases(1) by (intro filter_cong) auto
    have "busy_ok q h" unfolding busy_ok_def h f using hp(1) [unfolded busy_ok_def] by blast
    moreover have "alloc_ok q h"
      using hp(2) h a leases(1) same(2,3) by (fastforce simp: alloc_ok_def Let_def)
    moreover have "route_ok q h"
      using hp(3) r leases(1) same(3) unfolding route_ok_def Let_def h by fastforce
    ultimately show ?thesis by (simp add: group_inv_def)
  qed
  have "group_inv q h" if "h < next_group q" for h
    using g_other grp that by (cases "h = g") auto
  moreover have "waiting_ok q k" if "k < next_lease q" for k
  proof (cases "k = l \<or> l_group (lstore p k) = g")
    case True
    with w wg inv leases(2) that show ?thesis by (cases "k = l") (auto simp: pool_inv_def)
  next
    case False
    then have k: "lstore q k = lstore p k" "gstore q (l_group (lstore p k)) = gstore p (l_group (lstore p k))"
      using leases(1) others(1) by auto
    have "waiting_ok p k" using inv leases(2) that False by (simp add: pool_inv_def)
    then show ?thesis unfolding waiting_ok_def errLocked_def Let_def k .
  qed
  moreover have "queue_ok (pool_cfg q) (lstore q k)" for k
    using inv q leases(1) same(2) by (cases "k = l") (auto simp: pool_inv_def)
  moreover have "lease_ok q k" if "k < next_lease q" for k
  proof (cases "k = l")
    case True
    with lg(1,2) mem(1) show ?thesis by (simp add: lease_ok_def)
  next
    case False
    with inv that leases have "lease_ok p k" and k: "lstore q k = lstore p k" by (auto simp: pool_inv_def)
    then show ?thesis
      using others(1,3) mem(2) False by (cases "l_group (lstore p k) = g") (auto simp: lease_ok_def)
  qed
  ultimately show ?thesis using same(1) by (simp add: pool_inv_def)
qed

text \<open>Changing only the events of a lease.\<close>

lemma lease_change_inv:
  assumes inv: "pool_inv p" and l: "l < next_lease p"
    and keep: "l_group (h (lstore p l)) = l_group (lstore p l)" "l_id (h (lstore p l)) = l_id (lstore p l)"
      "l_idle (h (lstore p l)) = l_idle (lstore p l)" "l_err (h (lstore p l)) = l_err (lstore p l)"
    and q: "queue_ok (pool_cfg p) (h (lstore p l))" and w: "waiting_ok (upd_lease l h p) l"
  shows "pool_inv (upd_lease l h p)"
proof (rule pool_inv_change [OF inv, where g = "l_group (lstore p l)" and l = l])
  let ?q = "upd_lease l h p"
  have b: "pool_bounds p" and g: "group_inv p (l_group (lstore p l))" "l_group (lstore p l) < next_group p"
    using inv l by (auto simp: pool_inv_def lease_ok_def)
  from b show "pool_bounds ?q" by (simp add: pool_bounds_def)
  have i: "l_idle (lstore ?q k) = l_idle (lstore p k)" "l_group (lstore ?q k) = l_group (lstore p k)"
    "l_id (lstore ?q k) = l_id (lstore p k)" for k using keep by auto
  have "busy_ok ?q (l_group (lstore p l)) \<longleftrightarrow> busy_ok p (l_group (lstore p l))"
    unfolding busy_ok_def i by simp
  moreover have "alloc_ok ?q (l_group (lstore p l)) \<longleftrightarrow> alloc_ok p (l_group (lstore p l))"
    unfolding alloc_ok_def i by simp
  moreover have "route_ok ?q (l_group (lstore p l)) \<longleftrightarrow> route_ok p (l_group (lstore p l))"
    unfolding route_ok_def i by simp
  ultimately show "group_inv ?q (l_group (lstore p l))" using g by (simp add: group_inv_def)
  show "\<And>k. k \<noteq> l \<Longrightarrow> k < next_lease p \<Longrightarrow> l_group (lstore p k) = l_group (lstore p l) \<Longrightarrow> waiting_ok p k \<Longrightarrow> waiting_ok ?q k"
    by (simp add: waiting_ok_def errLocked_def Let_def)
qed (use inv l keep q w in \<open>auto simp: pool_inv_def lease_ok_def\<close>)

lemma TryNext_inv:
  assumes "pool_inv p" "l < next_lease p"
  shows "pool_inv (snd (TryNext l p))"
proof (cases "errLocked l p = None \<and> l_queue (lstore p l) \<noteq> []")
  case True
  then obtain n ns where n: "l_queue (lstore p l) = n # ns" by (auto simp: neq_Nil_conv)
  let ?h = "\<lambda>x. x\<lparr>l_queue := ns, l_bytes := l_bytes x - eventBytes n\<rparr>"
  have qo: "queue_ok (pool_cfg p) (lstore p l)" "waiting_ok p l" using assms by (auto simp: pool_inv_def)
  have "pool_inv (upd_lease l ?h p)"
    using qo n
    by (intro lease_change_inv [OF assms]) (auto simp: queue_ok_def waiting_ok_def errLocked_def Let_def)
  with True n show ?thesis by (simp add: TryNext_def)
next
  case False
  with assms show ?thesis by (auto simp: TryNext_def split: option.splits list.splits)
qed

lemma enqueue_inv:
  assumes inv: "pool_inv p" and l: "l < next_lease p"
    and s: "SessionID n \<noteq> []" "SessionID n = (if l_id (lstore p l) = [] then l_candidate (lstore p l) else l_id (lstore p l))"
    and c: "l_id (lstore p l) = [] \<Longrightarrow> g_creating (gstore p (l_group (lstore p l))) = Some l"
  shows "pool_inv (snd (enqueue g l n p))"
proof -
  let ?h = "\<lambda>x. x\<lparr>l_queue := l_queue x @ [n], l_bytes := l_bytes x + eventBytes n, l_activity := True\<rparr>"
  have qo: "queue_ok (pool_cfg p) (lstore p l)" using inv by (auto simp: pool_inv_def)
  have "pool_inv (upd_lease l ?h p)"
    if "\<not> EventQueue (pool_cfg p) \<le> int (length (l_queue (lstore p l)))"
      "\<not> EventBytes (pool_cfg p) - int (l_bytes (lstore p l)) < int (eventBytes n)"
    using qo s c that
    by (intro lease_change_inv [OF inv l]) (auto simp: queue_ok_def waiting_ok_def errLocked_def Let_def)
  with inv retireLocked_inv show ?thesis by (auto simp: enqueue_def Let_def)
qed

lemma deliver_inv:
  assumes inv: "pool_inv p" and g: "g < next_group p"
  shows "pool_inv (snd (deliver g n p))"
proof (cases "\<exists>l. g_err (gstore p g) = None \<and> SessionID n \<noteq> [] \<and>
    (map_of (g_routes (gstore p g)) (SessionID n) = Some (Some l)
     \<or> (map_of (g_routes (gstore p g)) (SessionID n) = None \<and> g_creating (gstore p g) = Some l
        \<and> (l_candidate (lstore p l) = [] \<or> l_candidate (lstore p l) = SessionID n)))")
  case False
  with inv retireLocked_inv show ?thesis
    by (auto simp: deliver_def Let_def split: option.splits)
next
  case True
  then obtain l where l: "g_err (gstore p g) = None" "SessionID n \<noteq> []"
    "map_of (g_routes (gstore p g)) (SessionID n) = Some (Some l)
     \<or> (map_of (g_routes (gstore p g)) (SessionID n) = None \<and> g_creating (gstore p g) = Some l
        \<and> (l_candidate (lstore p l) = [] \<or> l_candidate (lstore p l) = SessionID n))" by blast
  have r: "route_ok p g" and qo: "queue_ok (pool_cfg p) (lstore p l)"
    using inv g by (auto simp: pool_inv_def group_inv_def)
  from l(3) show ?thesis
  proof
    assume m: "map_of (g_routes (gstore p g)) (SessionID n) = Some (Some l)"
    with r have "l_id (lstore p l) = SessionID n" "l < next_lease p"
      by (auto simp: route_ok_def Let_def)
    with m l(1,2) show ?thesis
      by (simp add: deliver_def Let_def) (intro enqueue_inv [OF inv], simp_all)
  next
    assume m: "map_of (g_routes (gstore p g)) (SessionID n) = None \<and> g_creating (gstore p g) = Some l
        \<and> (l_candidate (lstore p l) = [] \<or> l_candidate (lstore p l) = SessionID n)"
    let ?h = "\<lambda>y. y\<lparr>l_candidate := SessionID n\<rparr>"
    from m r have lc: "l_id (lstore p l) = []" "l < next_lease p" "l_group (lstore p l) = g"
      by (auto simp: route_ok_def Let_def)
    have "queue_ok (pool_cfg p) (?h (lstore p l))" using qo lc m by (auto simp: queue_ok_def)
    moreover have "waiting_ok (upd_lease l ?h p) l" using m lc by (simp add: waiting_ok_def Let_def)
    ultimately have inv': "pool_inv (upd_lease l ?h p)"
      using lc by (intro lease_change_inv [OF inv]) auto
    have "pool_inv (snd (enqueue g l n (upd_lease l ?h p)))"
      using l(2) lc m by (intro enqueue_inv [OF inv']) auto
    with m l(1,2) show ?thesis by (auto simp: deliver_def Let_def)
  qed
qed

end
