(* ===== verification/Pool_Steps.thy ===== *)
theory Pool_Steps
  imports Pool_Inv "HOL-Library.Multiset"
begin

text \<open>
  The pool as a state machine: the remaining critical sections keep the invariant, the step relation has one
  rule for each of them and for what the environment does, and the invariant machine is interpreted on it.
\<close>

subsection \<open>New leases\<close>

definition live_lease :: "nat \<Rightarrow> lease" where
  "live_lease g = \<lparr>l_group = g, l_id = [], l_candidate = [], l_loading = False, l_idle = False, l_err = None,
     l_queue = [], l_bytes = 0, l_activity = False, l_ended = False\<rparr>"

lemma newLease_simps [simp]:
  "fst (newLeaseLocked g p) = next_lease p"
  "lstore (snd (newLeaseLocked g p)) = (lstore p)(next_lease p := live_lease g)"
  "gstore (snd (newLeaseLocked g p)) = (gstore p)(g := (gstore p g)\<lparr>g_leases := next_lease p # g_leases (gstore p g),
     g_allocated := g_allocated (gstore p g) + 1, g_busy := g_busy (gstore p g) + 1, g_idleAt := None\<rparr>)"
  "pool_cfg (snd (newLeaseLocked g p)) = pool_cfg p" "pool_groups (snd (newLeaseLocked g p)) = pool_groups p"
  "next_group (snd (newLeaseLocked g p)) = next_group p" "next_lease (snd (newLeaseLocked g p)) = next_lease p + 1"
  by (simp_all add: newLeaseLocked_def Let_def live_lease_def upd_group_def)

lemma live_lease_simps [simp]:
  "l_group (live_lease g) = g" "l_id (live_lease g) = []" "l_idle (live_lease g) = False"
  "l_err (live_lease g) = None" "l_queue (live_lease g) = []" "l_bytes (live_lease g) = 0"
  by (simp_all add: live_lease_def)

lemma filter_fresh:
  "x \<notin> set xs \<Longrightarrow> filter (\<lambda>k. P ((f(x := v)) k)) xs = filter (\<lambda>k. P (f k)) xs"
  by (intro filter_cong) auto

lemma newLease_inv:
  assumes inv: "pool_inv p" and g: "g < next_group p"
    and room: "int (g_allocated (gstore p g)) < alloc_limit (pool_cfg p) (gstore p g)"
  shows "pool_inv (snd (newLeaseLocked g p))"
proof (rule pool_inv_change [OF inv, where g = g and l = "next_lease p"])
  let ?q = "snd (newLeaseLocked g p)"
  have b: "pool_bounds p" and gi: "busy_ok p g" "alloc_ok p g" "route_ok p g"
    using inv g by (auto simp: pool_inv_def group_inv_def)
  from b show "pool_bounds ?q" by (simp add: pool_bounds_def)
  have fresh: "next_lease p \<notin> set (g_leases (gstore p g))" using gi(2) by (auto simp: alloc_ok_def Let_def)
  have "busy_ok ?q g"
    using gi(1) filter_fresh [OF fresh, of "\<lambda>x. \<not> l_idle x" "lstore p" "live_lease g"]
    unfolding busy_ok_def by simp
  moreover have "alloc_ok ?q g"
    using gi(2) room fresh by (auto simp: alloc_ok_def alloc_limit_def Let_def)
  moreover have "route_ok ?q g"
    using gi(3) by (auto simp: route_ok_def Let_def intro: less_SucI)
  ultimately show "group_inv ?q g" by (simp add: group_inv_def)
  show "queue_ok (pool_cfg p) (lstore ?q (next_lease p))"
    using b by (intro queue_ok_empty) (simp_all add: pool_bounds_def)
  show "waiting_ok ?q (next_lease p)" by (simp add: waiting_ok_def)
  show "\<And>k. k \<noteq> next_lease p \<Longrightarrow> k < next_lease p \<Longrightarrow> l_group (lstore p k) = g \<Longrightarrow> waiting_ok p k \<Longrightarrow> waiting_ok ?q k"
    by (erule waiting_mono) auto
qed (use g in auto)

lemma reserve_inv:
  assumes inv: "pool_inv p" and room: "int (length (pool_groups p)) < MaxProcesses (pool_cfg p)"
  shows "pool_inv (snd (newLeaseLocked (next_group p) (snd (new_group scope prepared p))))"
proof (rule pool_inv_change [OF inv, where g = "next_group p" and l = "next_lease p"])
  let ?q = "snd (newLeaseLocked (next_group p) (snd (new_group scope prepared p)))"
  let ?g = "next_group p"
  have b: "pool_bounds p" using inv by (auto simp: pool_inv_def group_inv_def)
  have c: "1 \<le> SessionsPerProcess (pool_cfg p)" using b by (simp add: pool_bounds_def config_ok_def)
  show "pool_bounds ?q" using b room by (auto simp: pool_bounds_def new_group_def Let_def)
  have "busy_ok ?q ?g" by (simp add: busy_ok_def new_group_def Let_def)
  moreover have "alloc_ok ?q ?g" using c by (simp add: alloc_ok_def alloc_limit_def new_group_def Let_def)
  moreover have "route_ok ?q ?g" by (simp add: route_ok_def new_group_def Let_def)
  ultimately show "group_inv ?q ?g" by (simp add: group_inv_def)
  show "queue_ok (pool_cfg p) (lstore ?q (next_lease p))"
    using b by (intro queue_ok_empty) (simp_all add: pool_bounds_def new_group_def Let_def)
  show "waiting_ok ?q (next_lease p)" by (simp add: waiting_ok_def new_group_def Let_def)
  show "\<And>k. k \<noteq> next_lease p \<Longrightarrow> k < next_lease p \<Longrightarrow> l_group (lstore p k) = ?g \<Longrightarrow> waiting_ok p k \<Longrightarrow> waiting_ok ?q k"
    using inv by (auto simp: waiting_ok_def errLocked_def Let_def pool_inv_def lease_ok_def new_group_def)
qed (auto simp: new_group_def Let_def)

lemma find_mem: "find P xs = Some x \<Longrightarrow> x \<in> set xs \<and> P x"
  by (auto simp: find_Some_iff)

lemma acquire_inv:
  assumes "pool_inv p"
  shows "pool_inv (snd (acquire d scope recycle prepared now p))"
proof -
  let ?p = "pruneLocked now p"
  have i: "pool_inv ?p" using assms by (rule pruneLocked_inv)
  have r: "pool_inv (snd (newLeaseLocked g ?p))" if "find (reusable ?p scope prepared) (pool_groups ?p) = Some g" for g
    using find_mem [OF that] i
    by (intro newLease_inv) (auto simp: reusable_def Let_def alloc_limit_def pool_inv_def pool_bounds_def)
  have n: "pool_inv (snd (newLeaseLocked (next_group ?p) (snd (new_group scope prepared ?p))))"
    if "\<not> MaxProcesses (pool_cfg ?p) \<le> int (length (pool_groups ?p))"
    using that by (intro reserve_inv [OF i]) simp
  have "fst (new_group scope prepared ?p) = next_group ?p" by (simp add: new_group_def Let_def)
  then show ?thesis
    using assms i r n retireLocked_inv [OF i]
    by (simp add: acquire_def Let_def split_beta split: option.split)
qed

subsection \<open>Changes of a group alone\<close>

lemma group_change_inv:
  assumes inv: "pool_inv p"
    and keep: "g_leases (f (gstore p g)) = g_leases (gstore p g)" "g_routes (f (gstore p g)) = g_routes (gstore p g)"
      "g_creating (f (gstore p g)) = g_creating (gstore p g)" "g_allocated (f (gstore p g)) = g_allocated (gstore p g)"
      "g_dedicated (f (gstore p g)) = g_dedicated (gstore p g)" "g_busy (f (gstore p g)) = g_busy (gstore p g)"
      "g_idleAt (f (gstore p g)) = g_idleAt (gstore p g)" "g_err (f (gstore p g)) = g_err (gstore p g)"
    and err: "g_clienterr (gstore p g) \<noteq> None \<Longrightarrow> g_clienterr (f (gstore p g)) \<noteq> None"
  shows "pool_inv (upd_group g f p)"
proof -
  let ?q = "upd_group g f p"
  have k: "g_leases (gstore ?q h) = g_leases (gstore p h)" "g_routes (gstore ?q h) = g_routes (gstore p h)"
    "g_creating (gstore ?q h) = g_creating (gstore p h)" "g_allocated (gstore ?q h) = g_allocated (gstore p h)"
    "g_busy (gstore ?q h) = g_busy (gstore p h)" "g_idleAt (gstore ?q h) = g_idleAt (gstore p h)"
    "g_err (gstore ?q h) = g_err (gstore p h)" "g_dedicated (gstore ?q h) = g_dedicated (gstore p h)" for h
    using keep by simp_all
  have l: "lstore ?q = lstore p" "next_lease ?q = next_lease p" "next_group ?q = next_group p" "pool_cfg ?q = pool_cfg p"
    by simp_all
  have "group_inv ?q h \<longleftrightarrow> group_inv p h" for h
    unfolding group_inv_def busy_ok_def alloc_ok_def alloc_limit_def route_ok_def Let_def k l by blast
  moreover have "waiting_ok ?q l" if "waiting_ok p l" for l
  proof -
    from that show ?thesis
    proof (rule waiting_mono)
      show "g_clienterr (gstore ?q (l_group (lstore p l))) = None
        \<Longrightarrow> g_clienterr (gstore p (l_group (lstore p l))) = None"
        using err by (cases "l_group (lstore p l) = g") fastforce+
    qed (simp_all only: k, simp_all)
  qed
  moreover have "lease_ok ?q l \<longleftrightarrow> lease_ok p l" for l unfolding lease_ok_def k l by blast
  ultimately show ?thesis using inv by (auto simp: pool_inv_def pool_bounds_def)
qed

lemma acquire_ready_inv: "pool_inv p \<Longrightarrow> pool_inv (snd (acquire_ready g client e p))"
  using group_change_inv [of p "\<lambda>x. x\<lparr>g_client := client, g_ready := True\<rparr>" g]
  by (auto simp: acquire_ready_def Let_def intro: retireLocked_inv)

text \<open>The process of a group fails: from then on \<open>client.Err()\<close> is not nil.\<close>

definition client_fails :: "nat \<Rightarrow> perror \<Rightarrow> pool \<Rightarrow> pool" where
  "client_fails g e = upd_group g (\<lambda>x. x\<lparr>g_clienterr := (case g_clienterr x of None \<Rightarrow> Some e | Some d \<Rightarrow> Some d)\<rparr>)"

lemma client_fails_inv: "pool_inv p \<Longrightarrow> pool_inv (client_fails g e p)"
  unfolding client_fails_def by (rule group_change_inv) (auto split: option.splits)

subsection \<open>Idle leases\<close>

lemma count_flip:
  assumes "distinct xs" "x \<in> set xs"
  shows "int (length (filter (\<lambda>k. \<not> (P(x := b)) k) xs))
    = int (length (filter (\<lambda>k. \<not> P k) xs)) + (if b then 0 else 1) - (if P x then 0 else 1)"
  using assms
proof (induction xs)
  case (Cons y ys)
  show ?case
  proof (cases "y = x")
    case True
    then have "filter (\<lambda>k. \<not> (P(x := b)) k) ys = filter (\<lambda>k. \<not> P k) ys"
      using Cons.prems by (intro filter_cong) auto
    with True show ?thesis by auto
  next
    case False
    then have "(P(x := b)) y = P y" by simp
    with Cons False show ?thesis by (cases "P y") (simp_all del: fun_upd_apply split del: if_split)
  qed
qed simp

lemma count_idle_simps [simp]:
  "g_leases (count_idle idle now x) = g_leases x" "g_err (count_idle idle now x) = g_err x"
  "g_routes (count_idle idle now x) = g_routes x" "g_creating (count_idle idle now x) = g_creating x"
  "g_allocated (count_idle idle now x) = g_allocated x" "g_dedicated (count_idle idle now x) = g_dedicated x"
  "g_clienterr (count_idle idle now x) = g_clienterr x"
  "g_busy (count_idle idle now x) = (if idle then g_busy x - 1 else g_busy x + 1)"
  "g_idleAt (count_idle idle now x) = (if idle then if g_busy x - 1 = 0 then Some now else g_idleAt x else None)"
  by (simp_all add: count_idle_def)

lemma queue_ok_idle [simp]: "queue_ok c (x\<lparr>l_idle := b\<rparr>) = queue_ok c x"
  by (simp add: queue_ok_def)

lemma SetIdle_inv:
  assumes inv: "pool_inv p" and l: "l < next_lease p"
  shows "pool_inv (snd (SetIdle l idle now p))"
proof (cases "errLocked l p = None \<and> l_idle (lstore p l) \<noteq> idle")
  case False
  then have "snd (SetIdle l idle now p) = p" by (cases "errLocked l p") (simp_all add: SetIdle_def)
  with inv show ?thesis by simp
next
  case True
  define g where "g = l_group (lstore p l)"
  define q where "q = upd_group g (count_idle idle now) (upd_lease l (\<lambda>x. x\<lparr>l_idle := idle\<rparr>) p)"
  have b: "pool_bounds p" and gn: "g < next_group p" and gi: "busy_ok p g" "alloc_ok p g" "route_ok p g"
    and lo: "lease_ok p l" and qo: "queue_ok (pool_cfg p) (lstore p l)" and wo: "waiting_ok p l"
    using inv l by (auto simp: pool_inv_def group_inv_def lease_ok_def g_def)
  from True have e: "l_err (lstore p l) = None" "g_err (gstore p g) = None"
    by (simp_all add: errLocked_None g_def)
  have d: "distinct (g_leases (gstore p g))" "l \<in> set (g_leases (gstore p g))"
    using gi(2) lo e(1) unfolding alloc_ok_def lease_ok_def Let_def g_def by blast+
  have s: "l_idle (lstore q k) = ((\<lambda>k. l_idle (lstore p k))(l := idle)) k" for k by (simp add: q_def)
  have "pool_inv q"
  proof (rule pool_inv_change [OF inv, where g = g and l = l])
    have x: "g_leases (gstore q g) = g_leases (gstore p g)"
      "g_busy (gstore q g) = (if idle then g_busy (gstore p g) - 1 else g_busy (gstore p g) + 1)"
      "g_idleAt (gstore q g) = (if idle then if g_busy (gstore p g) - 1 = 0 then Some now else g_idleAt (gstore p g)
        else None)"
      by (simp_all add: q_def split del: if_split)
    have n: "g_busy (gstore p g) = int (length (filter (\<lambda>k. \<not> l_idle (lstore p k)) (g_leases (gstore p g))))"
      and z: "g_busy (gstore p g) = 0 \<longleftrightarrow> g_idleAt (gstore p g) \<noteq> None"
      using gi(1) e(2) unfolding busy_ok_def by blast+
    have "busy_ok q g"
    proof (cases idle)
      case True
      with \<open>errLocked l p = None \<and> l_idle (lstore p l) \<noteq> idle\<close> have "\<not> l_idle (lstore p l)" by simp
      then have "0 < g_busy (gstore p g)" using n d(2) by (auto simp: filter_empty_conv)
      moreover have "int (length (filter (\<lambda>k. \<not> l_idle (lstore q k)) (g_leases (gstore p g)))) = g_busy (gstore p g) - 1"
        unfolding s n count_flip [OF d, of "\<lambda>k. l_idle (lstore p k)" idle] using True \<open>\<not> l_idle (lstore p l)\<close> by simp
      ultimately show ?thesis using True z unfolding busy_ok_def x by auto
    next
      case False
      with \<open>errLocked l p = None \<and> l_idle (lstore p l) \<noteq> idle\<close> have "l_idle (lstore p l)" by simp
      then have "int (length (filter (\<lambda>k. \<not> l_idle (lstore q k)) (g_leases (gstore p g)))) = g_busy (gstore p g) + 1"
        unfolding s n count_flip [OF d, of "\<lambda>k. l_idle (lstore p k)" idle] using False by simp
      then show ?thesis using False n unfolding busy_ok_def x by auto
    qed
    moreover have "alloc_ok q g" using gi(2) by (auto simp: alloc_ok_def alloc_limit_def Let_def q_def)
    moreover have "route_ok q g" using gi(3) by (auto simp: route_ok_def Let_def q_def)
    ultimately show "group_inv q g" by (simp add: group_inv_def)
    show "pool_bounds q" using b by (simp add: pool_bounds_def q_def)
    show "queue_ok (pool_cfg p) (lstore q l)" using qo by (simp add: q_def)
    show "waiting_ok q l" by (rule waiting_mono [OF wo]) (auto simp: q_def g_def)
    show "\<And>k. k \<noteq> l \<Longrightarrow> k < next_lease p \<Longrightarrow> l_group (lstore p k) = g \<Longrightarrow> waiting_ok p k \<Longrightarrow> waiting_ok q k"
      by (erule waiting_mono) (auto simp: q_def)
  qed (use gn l d in \<open>auto simp: q_def g_def\<close>)
  with True pruneLocked_inv show ?thesis
    by (simp add: SetIdle_def Let_def q_def g_def)
qed

lemma live_lease_mem:
  assumes "pool_inv p" "l < next_lease p" "l_err (lstore p l) = None"
  shows "l \<in> set (g_leases (gstore p (l_group (lstore p l))))"
  using assms by (simp add: pool_inv_def lease_ok_def)

text \<open>The lease leaves its group: what \<open>ReleaseIdle\<close> does before it may retire the group.\<close>

lemma release_inv:
  assumes inv: "pool_inv p" and l: "l < next_lease p" and live: "l_err (lstore p l) = None"
    and idle: "l_idle (lstore p l) \<or> g_err (gstore p g) \<noteq> None" and g: "g = l_group (lstore p l)"
    and q: "q = upd_group g (\<lambda>y. y\<lparr>g_leases := filter (\<lambda>k. k \<noteq> l) (g_leases y),
        g_routes := (if i = [] then g_routes y else aset i None (g_routes y))\<rparr>)
      (upd_lease l (\<lambda>y. (clear_lease y)\<lparr>l_err := Some PErrClosed\<rparr>) p)"
  shows "pool_inv q"
proof (rule pool_inv_change [OF inv, where g = g and l = l])
  have b: "pool_bounds p" and gn: "g < next_group p" and gi: "busy_ok p g" "alloc_ok p g" "route_ok p g"
    using inv l g by (auto simp: pool_inv_def group_inv_def lease_ok_def)
  have same: "l_idle (lstore q k) = l_idle (lstore p k)" "l_group (lstore q k) = l_group (lstore p k)"
    "l_id (lstore q k) = l_id (lstore p k)" for k
    by (simp_all add: q clear_lease_def)
  have x: "g_leases (gstore q g) = filter (\<lambda>k. k \<noteq> l) (g_leases (gstore p g))"
    "g_err (gstore q g) = g_err (gstore p g)" "g_busy (gstore q g) = g_busy (gstore p g)"
    "g_idleAt (gstore q g) = g_idleAt (gstore p g)" "g_creating (gstore q g) = g_creating (gstore p g)"
    "g_allocated (gstore q g) = g_allocated (gstore p g)" "alloc_limit c (gstore q g) = alloc_limit c (gstore p g)"
    "g_clienterr (gstore q g) = g_clienterr (gstore p g)" for c
    by (simp_all add: q alloc_limit_def)
  have f: "filter (\<lambda>k. \<not> l_idle (lstore p k)) (filter (\<lambda>k. k \<noteq> l) (g_leases (gstore p g)))
      = filter (\<lambda>k. \<not> l_idle (lstore p k)) (g_leases (gstore p g))" if "l_idle (lstore p l)"
    using that by (auto intro: filter_cong)
  have "busy_ok q g"
    using gi(1) idle f unfolding busy_ok_def same x by auto
  moreover have "alloc_ok q g"
    using gi(2) unfolding alloc_ok_def Let_def same x
    by (auto simp: q intro: order_trans [OF length_filter_le])
  moreover have "route_ok q g"
    using gi(3) unfolding route_ok_def Let_def same x by (auto simp: q map_of_aset)
  ultimately show "group_inv q g" by (simp add: group_inv_def)
  show "pool_bounds q" using b by (simp add: pool_bounds_def q)
  show "queue_ok (pool_cfg p) (lstore q l)"
    using b by (intro queue_ok_empty) (simp_all add: pool_bounds_def q clear_lease_def)
  show "waiting_ok q l" by (simp add: waiting_ok_def Let_def q clear_lease_def)
  show "\<And>k. k \<noteq> l \<Longrightarrow> k < next_lease p \<Longrightarrow> l_group (lstore p k) = g \<Longrightarrow> waiting_ok p k \<Longrightarrow> waiting_ok q k"
    by (erule waiting_mono) (auto simp: x q)
  show "set (g_leases (gstore p g)) - {l} \<subseteq> set (g_leases (gstore q g))" by (auto simp: x)
  show "g < next_group q" using gn by (simp add: q)
qed (simp_all add: q g clear_lease_def)

lemma ReleaseIdle_inv:
  assumes "pool_inv p" "l < next_lease p"
  shows "pool_inv (snd (ReleaseIdle l p))"
proof (cases "l_err (lstore p l) \<noteq> None \<or> (\<not> l_idle (lstore p l) \<and> g_err (gstore p (l_group (lstore p l))) = None)")
  case True
  then have "snd (ReleaseIdle l p) = p" by (auto simp: ReleaseIdle_def Let_def)
  with assms show ?thesis by simp
next
  case False
  then have f: "(l_err (lstore p l) \<noteq> None) = False"
    "(\<not> l_idle (lstore p l) \<and> g_err (gstore p (l_group (lstore p l))) = None) = False" by auto
  from False have "pool_inv (upd_group (l_group (lstore p l)) (\<lambda>y. y\<lparr>g_leases := filter (\<lambda>k. k \<noteq> l) (g_leases y),
        g_routes := (if l_id (lstore p l) = [] then g_routes y else aset (l_id (lstore p l)) None (g_routes y))\<rparr>)
      (upd_lease l (\<lambda>y. (clear_lease y)\<lparr>l_err := Some PErrClosed\<rparr>) p))"
    by (intro release_inv [OF assms _ _ refl refl]) auto
  with retireLocked_inv show ?thesis
    unfolding ReleaseIdle_def Let_def f if_False by (simp only: snd_conv split: if_split) blast
qed

lemma CloseLease_inv: "pool_inv p \<Longrightarrow> pool_inv (CloseLease l p)"
  by (simp add: CloseLease_def retireLocked_inv)

lemma ClosePool_inv:
  assumes "pool_inv p"
  shows "pool_inv (ClosePool p)"
proof -
  have "pool_inv (fold (\<lambda>g. retireLocked g (Some PErrClosed)) gs q)" if "pool_inv q" for gs q
    using that by (induction gs arbitrary: q) (auto simp: retireLocked_inv)
  moreover have "pool_inv (p\<lparr>pool_closed := True\<rparr>)"
    using assms by (rule pool_inv_same_stores) (use assms in \<open>auto simp: pool_inv_def pool_bounds_def\<close>)
  ultimately show ?thesis by (simp add: ClosePool_def)
qed

subsection \<open>Creating sessions\<close>

lemma busy_ok_cong:
  assumes "busy_ok p g" "g_err (gstore q g) = g_err (gstore p g)" "g_busy (gstore q g) = g_busy (gstore p g)"
    "g_idleAt (gstore q g) = g_idleAt (gstore p g)" "g_leases (gstore q g) = g_leases (gstore p g)"
    "\<And>k. l_idle (lstore q k) = l_idle (lstore p k)"
  shows "busy_ok q g"
  using assms(1) unfolding busy_ok_def assms(2-6) .

lemma alloc_ok_cong:
  assumes "alloc_ok p g" "g_leases (gstore q g) = g_leases (gstore p g)" "next_lease q = next_lease p"
    "g_allocated (gstore q g) = g_allocated (gstore p g)" "g_dedicated (gstore q g) = g_dedicated (gstore p g)"
    "\<And>k. l_group (lstore q k) = l_group (lstore p k)" "pool_cfg q = pool_cfg p"
  shows "alloc_ok q g"
  using assms(1) unfolding alloc_ok_def alloc_limit_def Let_def assms(2-7) .

lemma create_begin_inv:
  assumes inv: "pool_inv p" and l: "l < next_lease p"
  shows "pool_inv (snd (create_begin l i p))"
proof (cases "errLocked l p = None \<and> l_id (lstore p l) = [] \<and> g_creating (gstore p (l_group (lstore p l))) = None")
  case False
  then have "snd (create_begin l i p) = p" by (auto simp: create_begin_def Let_def split: option.splits)
  with inv show ?thesis by simp
next
  case True
  define g where "g = l_group (lstore p l)"
  have lg: "l_group (lstore p l) = g" by (simp add: g_def)
  define q where "q = upd_group g (\<lambda>x. x\<lparr>g_creating := Some l\<rparr>)
    (upd_lease l (\<lambda>x. x\<lparr>l_loading := (i \<noteq> []), l_candidate := i\<rparr>) p)"
  have b: "pool_bounds p" and gn: "g < next_group p" and gi: "busy_ok p g" "alloc_ok p g" "route_ok p g"
    and wo: "waiting_ok p l" and qo: "queue_ok (pool_cfg p) (lstore p l)"
    using inv l by (auto simp: pool_inv_def group_inv_def lease_ok_def lg)
  have same: "l_idle (lstore q k) = l_idle (lstore p k)" "l_group (lstore q k) = l_group (lstore p k)"
    "l_id (lstore q k) = l_id (lstore p k)" for k by (simp_all add: q_def)
  have e: "l_queue (lstore p l) = []" using wo True unfolding waiting_ok_def Let_def by auto
  have "pool_inv q"
  proof (rule pool_inv_change [OF inv, where g = g and l = l])
    have "busy_ok q g" by (rule busy_ok_cong [OF gi(1)]) (simp_all add: q_def)
    moreover have "alloc_ok q g" by (rule alloc_ok_cong [OF gi(2)]) (simp_all add: q_def)
    moreover have "route_ok q g"
      using gi(3) True l lg unfolding route_ok_def Let_def same by (simp add: q_def)
    ultimately show "group_inv q g" by (simp add: group_inv_def)
    show "pool_bounds q" using b by (simp add: pool_bounds_def q_def)
    show "queue_ok (pool_cfg p) (lstore q l)" using qo e by (simp add: queue_ok_def q_def)
    show "waiting_ok q l" using e by (simp add: waiting_ok_def q_def Let_def)
    show "waiting_ok q k" if "k \<noteq> l" "k < next_lease p" "l_group (lstore p k) = g" "waiting_ok p k" for k
      using that True by (simp add: waiting_ok_def q_def errLocked_None Let_def lg)
    show "l \<in> set (g_leases (gstore q g))" if "l_err (lstore q l) = None"
      using live_lease_mem [OF inv l] that by (simp add: q_def lg)
  qed (use gn l in \<open>auto simp: q_def lg\<close>)
  with True show ?thesis by (simp add: create_begin_def Let_def q_def lg)
qed

text \<open>Creation ends: no event may be left waiting for a session that will not exist.\<close>

lemma stop_creating_inv:
  assumes inv: "pool_inv p" and c: "g_creating (gstore p g) = Some l" and g: "g < next_group p"
    and w: "l_id (lstore p l) = [] \<Longrightarrow> l_queue (lstore p l) = [] \<or> errLocked l p \<noteq> None"
  shows "pool_inv (upd_group g (\<lambda>x. x\<lparr>g_creating := None\<rparr>) p)" (is "pool_inv ?q")
proof -
  have gi: "group_inv p g" using inv g by (simp add: pool_inv_def)
  then have l: "l < next_lease p" "l_group (lstore p l) = g" using c by (auto simp: group_inv_def route_ok_def Let_def)
  show ?thesis
  proof (rule pool_inv_change [OF inv, where g = g and l = l])
    show "group_inv ?q g"
      using gi by (auto simp: group_inv_def busy_ok_def alloc_ok_def alloc_limit_def route_ok_def Let_def)
    show "pool_bounds ?q" "queue_ok (pool_cfg p) (lstore ?q l)"
      using inv by (simp_all add: pool_inv_def pool_bounds_def)
    show "waiting_ok ?q l" using w l by (auto simp: waiting_ok_def errLocked_None Let_def)
    show "waiting_ok ?q k" if "k \<noteq> l" "k < next_lease p" "l_group (lstore p k) = g" "waiting_ok p k" for k
      using that c by (simp add: waiting_ok_def errLocked_None Let_def)
    show "l \<in> set (g_leases (gstore ?q g))" if "l_err (lstore ?q l) = None"
      using live_lease_mem [OF inv l(1)] that l by simp
  qed (use g l in auto)
qed

lemma retire_errLocked: "errLocked l (retireLocked (l_group (lstore p l)) r p) \<noteq> None"
  by (simp add: errLocked_None retire_err)

lemma retire_stop:
  "retireLocked g r (upd_group g (\<lambda>x. x\<lparr>g_creating := None\<rparr>) p)
   = upd_group g (\<lambda>x. x\<lparr>g_creating := None\<rparr>) (retireLocked g r p)"
  by (cases p; cases "gstore p g") (simp add: retireLocked_def upd_group_def cong: if_cong)

lemma retire_stop_inv:
  assumes inv: "pool_inv p" and c: "g_creating (gstore p g) = Some l" and g: "g < next_group p"
  shows "pool_inv (retireLocked g r (upd_group g (\<lambda>x. x\<lparr>g_creating := None\<rparr>) p))"
proof -
  have "l_group (lstore p l) = g" using inv g c by (auto simp: pool_inv_def group_inv_def route_ok_def Let_def)
  then show ?thesis
    unfolding retire_stop using c g retire_errLocked [of l p r]
    by (intro stop_creating_inv [OF retireLocked_inv [OF inv], where l = l]) auto
qed

lemma create_fail_inv:
  assumes "pool_inv p" "l < next_lease p" "g_creating (gstore p (l_group (lstore p l))) = Some l"
  shows "pool_inv (create_fail l e p)"
proof -
  have "l_group (lstore p l) < next_group p" using assms by (simp add: pool_inv_def lease_ok_def)
  then show ?thesis unfolding create_fail_def Let_def by (rule retire_stop_inv [OF assms(1,3)])
qed

text \<open>The session exists: the lease has its identifier and the group a route to it.\<close>

lemma create_finish_inv:
  assumes inv: "pool_inv p" and l: "l < next_lease p" and c: "g_creating (gstore p (l_group (lstore p l))) = Some l"
    and i: "i \<noteq> []"
  shows "pool_inv (snd (create_finish l i p))"
proof -
  define g where "g = l_group (lstore p l)"
  have lg: "l_group (lstore p l) = g" by (simp add: g_def)
  have b: "pool_bounds p" and gn: "g < next_group p" and gi: "busy_ok p g" "alloc_ok p g" "route_ok p g"
    and qo: "queue_ok (pool_cfg p) (lstore p l)"
    using inv l by (auto simp: pool_inv_def group_inv_def lease_ok_def lg)
  have idl: "l_id (lstore p l) = []" using gi(3) c unfolding lg by (simp add: route_ok_def Let_def)
  let ?stop = "upd_group g (\<lambda>x. x\<lparr>g_creating := None\<rparr>)"
  define q where "q = upd_group g (\<lambda>x. x\<lparr>g_routes := aset i (Some l) (g_routes x)\<rparr>)
    (upd_lease l (\<lambda>x. x\<lparr>l_id := i, l_loading := False\<rparr>) p)"
  have "pool_inv (?stop q)"
    if cand: "\<not> (l_candidate (lstore p l) \<noteq> [] \<and> l_candidate (lstore p l) \<noteq> i)"
  proof (rule pool_inv_change [OF inv, where g = g and l = l])
    have same: "l_idle (lstore (?stop q) k) = l_idle (lstore p k)" "l_group (lstore (?stop q) k) = l_group (lstore p k)"
      for k by (simp_all add: q_def)
    have "busy_ok (?stop q) g" by (rule busy_ok_cong [OF gi(1)]) (simp_all add: q_def)
    moreover have "alloc_ok (?stop q) g" by (rule alloc_ok_cong [OF gi(2)]) (simp_all add: q_def)
    moreover have "route_ok (?stop q) g"
      using gi(3) l i idl lg unfolding route_ok_def Let_def same by (auto simp: q_def)
    ultimately show "group_inv (?stop q) g" by (simp add: group_inv_def)
    show "pool_bounds (?stop q)" using b by (simp add: pool_bounds_def q_def)
    show "queue_ok (pool_cfg p) (lstore (?stop q) l)"
      using qo idl i cand by (auto simp: queue_ok_def q_def)
    show "waiting_ok (?stop q) l" using i by (simp add: waiting_ok_def q_def Let_def)
    show "waiting_ok (?stop q) k" if "k \<noteq> l" "k < next_lease p" "l_group (lstore p k) = g" "waiting_ok p k" for k
      using that c by (simp add: waiting_ok_def q_def errLocked_None Let_def lg)
    show "l \<in> set (g_leases (gstore (?stop q) g))" if "l_err (lstore (?stop q) l) = None"
      using live_lease_mem [OF inv l] that by (simp add: q_def lg)
  qed (use gn l in \<open>auto simp: q_def lg\<close>)
  moreover have "pool_inv (?stop p)" if "errLocked l p = Some e" for e
    using that c by (intro stop_creating_inv [OF inv _ gn]) (auto simp: lg)
  moreover have "pool_inv (retireLocked g r (?stop p))" for r
    using c by (intro retire_stop_inv [OF inv _ gn]) (simp add: lg)
  ultimately show ?thesis
    unfolding create_finish_def Let_def g_def [symmetric] q_def [symmetric]
    by (auto split: option.splits)
qed

lemma created_id_nonempty: "created_id loadID raw = Some i \<Longrightarrow> i \<noteq> []"
  by (auto simp: created_id_def split: bind_splits if_splits)

lemma create_reply_inv:
  assumes "pool_inv p" "l < next_lease p" "g_creating (gstore p (l_group (lstore p l))) = Some l"
  shows "pool_inv (snd (create_reply l loadID raw p))"
  using create_finish_inv [OF assms created_id_nonempty] create_fail_inv [OF assms]
  by (auto simp: create_reply_def split: option.splits)

subsection \<open>The step relation\<close>

text \<open>
  One rule for each critical section, with the arguments the code can call it with: an existing group or
  lease; a reply to a creation only for the lease being created; the end of a retirement only for a retired
  group. \<open>retired\<close> is the router or a call that found the process failed. \<open>shuffle\<close> is Go's arbitrary map order, \<open>fails\<close> the death of a process.
\<close>

inductive pool_step :: "pool \<Rightarrow> pool \<Rightarrow> bool" where
  acquire: "pool_step p (snd (acquire d scope recycle prepared now p))"
| ready: "g < next_group p \<Longrightarrow> pool_step p (snd (acquire_ready g client e p))"
| idle: "l < next_lease p \<Longrightarrow> pool_step p (snd (SetIdle l b now p))"
| release: "l < next_lease p \<Longrightarrow> pool_step p (snd (ReleaseIdle l p))"
| close: "l < next_lease p \<Longrightarrow> pool_step p (CloseLease l p)"
| shutdown: "pool_step p (ClosePool p)"
| reaped: "g_err (gstore p g) \<noteq> None \<Longrightarrow> pool_step p (reap g e p)"
| receive: "l < next_lease p \<Longrightarrow> pool_step p (snd (TryNext l p))"
| notify: "g < next_group p \<Longrightarrow> pool_step p (snd (deliver g n p))"
| create: "l < next_lease p \<Longrightarrow> pool_step p (snd (create_begin l loadID p))"
| created: "l < next_lease p \<Longrightarrow> g_creating (gstore p (l_group (lstore p l))) = Some l
    \<Longrightarrow> pool_step p (snd (create_reply l loadID raw p))"
| failed: "l < next_lease p \<Longrightarrow> g_creating (gstore p (l_group (lstore p l))) = Some l
    \<Longrightarrow> pool_step p (create_fail l e p)"
| retired: "g < next_group p \<Longrightarrow> pool_step p (retireLocked g e p)"
| prune: "pool_step p (pruneLocked now p)"
| fails: "g < next_group p \<Longrightarrow> pool_step p (client_fails g e p)"
| shuffle: "mset gs = mset (pool_groups p) \<Longrightarrow> pool_step p (p\<lparr>pool_groups := gs\<rparr>)"

inductive_cases pool_stepE: "pool_step p q"

lemma shuffle_inv:
  assumes "pool_inv p" "mset gs = mset (pool_groups p)"
  shows "pool_inv (p\<lparr>pool_groups := gs\<rparr>)"
proof (rule pool_inv_same_stores [OF assms(1)])
  have "distinct gs = distinct (pool_groups p)" "length gs = length (pool_groups p)" "set gs = set (pool_groups p)"
    using assms(2) mset_eq_imp_distinct_iff mset_eq_length mset_eq_setD by blast+
  with assms(1) show "pool_bounds (p\<lparr>pool_groups := gs\<rparr>)" by (simp add: pool_inv_def pool_bounds_def)
qed simp_all

lemmas pool_ops_inv = acquire_inv retireLocked_inv pruneLocked_inv acquire_ready_inv SetIdle_inv ReleaseIdle_inv CloseLease_inv ClosePool_inv
  reap_inv TryNext_inv deliver_inv create_begin_inv create_reply_inv create_fail_inv client_fails_inv shuffle_inv

lemma pool_step_inv: "pool_step p q \<Longrightarrow> pool_inv p \<Longrightarrow> pool_inv q"
  by (induction rule: pool_step.induct) (simp_all add: pool_ops_inv)

definition new_pool :: "pool \<Rightarrow> bool" where
  "new_pool p \<longleftrightarrow> (\<exists>cfg. NewPool cfg = Inr p)"

interpretation pl: invariant_machine new_pool pool_step pool_inv
  by unfold_locales (auto simp: new_pool_def NewPool_inv intro: pool_step_inv)

end
