(* ===== verification/Pool_Props.thy ===== *)
theory Pool_Props
  imports Pool_Steps
begin

text \<open>
  The guarantees of the process pool, \<open>internal/acppool/pool.go\<close>: limits, isolation of sessions, the
  retention policy for idle processes, the choice made by \<open>acquire\<close>, and finality of retirement.
\<close>

subsection \<open>A worked pool\<close>

text \<open>
  A pool with one process and one session, driven through \<open>acquire\<close>, start, creation of session \<open>s1\<close> and one
  notification; and a pool with three idle processes.
\<close>

definition ex_cfg :: pool_config where
  "ex_cfg = \<lparr>MaxProcesses = 1, SessionsPerProcess = 1, MaxIdle = 0, EventQueue = 0, EventBytes = 0, IdleTTL = 0,
     SetupTimeout = 0\<rparr>"

definition ex_p0 :: pool where "ex_p0 = projr (NewPool ex_cfg)"
definition ex_p1 :: pool where "ex_p1 = snd (acquire False ''a'' False False 0 ex_p0)"
definition ex_p2 :: pool where "ex_p2 = snd (create_begin 0 [] ex_p1)"
definition ex_p3 :: pool where "ex_p3 = snd (create_reply 0 [] ''{\"sessionId\":\"s1\"}'' ex_p2)"
definition ex_event :: notification where
  "ex_event = \<lparr>Method = ''session/update'', SessionID = ''s1'', Params = ''{}''\<rparr>"
definition ex_p4 :: pool where "ex_p4 = snd (deliver 0 ex_event ex_p3)"
definition ex_p5 :: pool where "ex_p5 = snd (SetIdle 0 True 7 ex_p3)"
definition ex_p6 :: pool where "ex_p6 = CloseLease 0 ex_p4"

definition ex_idle3 :: pool where
  "ex_idle3 = ex_p0\<lparr>pool_groups := [0, 1, 2], next_group := 3,
     gstore := (\<lambda>g. (gstore ex_p0 g)\<lparr>g_idleAt := Some (int g)\<rparr>)\<rparr>"

lemma ex_p0_new: "NewPool ex_cfg = Inr ex_p0"
  by (simp add: ex_p0_def ex_cfg_def NewPool_def default_config_def pick_int_def config_ok_def)

lemma ex_p0_simps: "pool_groups ex_p0 = []" "pool_closed ex_p0 = False" "pool_cleanupErr ex_p0 = None"
  "next_group ex_p0 = 0" "next_lease ex_p0 = 0" "MaxProcesses (pool_cfg ex_p0) = 1" "MaxIdle (pool_cfg ex_p0) = 1"
  "SessionsPerProcess (pool_cfg ex_p0) = 1" "EventQueue (pool_cfg ex_p0) = 64" "EventBytes (pool_cfg ex_p0) = 16777216"
  "IdleTTL (pool_cfg ex_p0) = 300000000000"
  "g_err (gstore ex_p0 g) = None" "g_busy (gstore ex_p0 g) = 0"
  by (simp_all add: ex_p0_def ex_cfg_def NewPool_def default_config_def pick_int_def config_ok_def)

lemma prune_nothing: "pool_groups p = [] \<Longrightarrow> pruneLocked now p = p"
  by (simp add: pruneLocked_def prune_excess.simps)

lemma prune_busy:
  assumes "pool_groups p = [g]" "g_busy (gstore p g) \<noteq> 0"
  shows "pruneLocked now p = p"
  using assms by (simp add: pruneLocked_def idle_group_def prune_excess.simps)


lemma ex_p1_eq: "acquire False ''a'' False False 0 ex_p0 = (Reserved 0 0, ex_p1)"
  and ex_p1_simps: "pool_groups ex_p1 = [0]" "next_group ex_p1 = 1" "next_lease ex_p1 = 1" "pool_cfg ex_p1 = pool_cfg ex_p0"
    "pool_closed ex_p1 = False" "pool_cleanupErr ex_p1 = None" "lstore ex_p1 0 = live_lease 0"
    "gstore ex_p1 0 = \<lparr>g_scope = ''a'', g_client = False, g_clienterr = None, g_ready = False, g_err = None,
      g_leases = [0], g_routes = [], g_allocated = 1, g_busy = 1, g_idleAt = None, g_creating = None, g_dedicated = False\<rparr>"
  by (simp_all add: ex_p1_def acquire_def prune_nothing ex_p0_simps Let_def new_group_def newLeaseLocked_def upd_group_def
      live_lease_def)

lemma ex_p2_simps: "pool_groups ex_p2 = [0]" "next_group ex_p2 = 1" "next_lease ex_p2 = 1" "pool_cfg ex_p2 = pool_cfg ex_p0"
    "pool_closed ex_p2 = False" "pool_cleanupErr ex_p2 = None" "lstore ex_p2 0 = live_lease 0"
    "gstore ex_p2 0 = (gstore ex_p1 0)\<lparr>g_creating := Some 0\<rparr>"
  by (simp_all add: ex_p2_def create_begin_def errLocked_def Let_def ex_p1_simps upd_group_def upd_lease_def live_lease_def)

lemma ex_created: "created_id [] ''{\"sessionId\":\"s1\"}'' = Some ''s1''"
  by code_simp

lemma ex_p3_simps: "pool_groups ex_p3 = [0]" "next_group ex_p3 = 1" "next_lease ex_p3 = 1" "pool_cfg ex_p3 = pool_cfg ex_p0"
    "pool_closed ex_p3 = False" "pool_cleanupErr ex_p3 = None" "lstore ex_p3 0 = (live_lease 0)\<lparr>l_id := ''s1''\<rparr>"
    "gstore ex_p3 0 = (gstore ex_p1 0)\<lparr>g_routes := [(''s1'', Some 0)]\<rparr>"
  by (simp_all add: ex_p3_def create_reply_def ex_created create_finish_def errLocked_def Let_def ex_p2_simps ex_p1_simps
      has_key_def upd_group_def upd_lease_def live_lease_def)

lemma ex_p4_simps: "next_lease ex_p4 = 1" "lstore ex_p4 0 = (lstore ex_p3 0)\<lparr>l_queue := [ex_event],
      l_bytes := eventBytes ex_event, l_activity := True\<rparr>" "gstore ex_p4 = gstore ex_p3"
  by (simp_all add: ex_p4_def deliver_def enqueue_def Let_def ex_p3_simps ex_p1_simps ex_event_def live_lease_def
      ex_p0_simps eventBytes_def)


lemma ex_reach: "new_pool ex_p0" "pool_step\<^sup>*\<^sup>* ex_p0 ex_p3" "pool_step\<^sup>*\<^sup>* ex_p0 ex_p4" "pool_step\<^sup>*\<^sup>* ex_p0 ex_p5"
  "pool_step\<^sup>*\<^sup>* ex_p4 ex_p6"
proof -
  show "new_pool ex_p0" using ex_p0_new by (auto simp: new_pool_def)
  have "pool_step ex_p0 ex_p1" unfolding ex_p1_def by (rule pool_step.acquire)
  moreover have "pool_step ex_p1 ex_p2" unfolding ex_p2_def by (rule pool_step.create) (simp add: ex_p1_simps)
  moreover have "pool_step ex_p2 ex_p3"
    unfolding ex_p3_def by (rule pool_step.created) (simp_all add: ex_p2_simps live_lease_def)
  ultimately show r: "pool_step\<^sup>*\<^sup>* ex_p0 ex_p3" by (meson converse_rtranclp_into_rtranclp rtranclp.rtrancl_refl)
  have "pool_step ex_p3 ex_p4" unfolding ex_p4_def by (rule pool_step.notify) (simp add: ex_p3_simps)
  then show "pool_step\<^sup>*\<^sup>* ex_p0 ex_p4" using r by simp
  have "pool_step ex_p3 ex_p5" unfolding ex_p5_def by (rule pool_step.idle) (simp add: ex_p3_simps)
  then show "pool_step\<^sup>*\<^sup>* ex_p0 ex_p5" using r by simp
  show "pool_step\<^sup>*\<^sup>* ex_p4 ex_p6" unfolding ex_p6_def by (intro r_into_rtranclp pool_step.close) (simp add: ex_p4_simps)
qed

subsection \<open>What pruning does\<close>

lemma idle_retire: "idle_group (retireLocked g r p) h \<longleftrightarrow> idle_group p h \<and> h \<noteq> g"
  by (auto simp: idle_group_def retire_err)

lemma expired_retire [simp]: "expired (retireLocked g r p) now h = expired p now h"
  by (simp add: expired_def cong: option.case_cong)

lemma retire_other: "h \<noteq> g \<Longrightarrow> gstore (retireLocked g r p) h = gstore p h"
  by (simp add: retireLocked_def)

lemma oldest_of_le:
  assumes "\<forall>x \<in> insert best (set gs). t x \<noteq> None"
  shows "\<forall>x \<in> insert best (set gs). \<not> before (t x) (t (oldest_of t best gs))"
  using assms
proof (induction gs arbitrary: best)
  case Nil
  then show ?case by (auto simp: before_def split: option.splits)
next
  case (Cons g gs)
  let ?b = "if before (t g) (t best) then g else best"
  have ih: "\<forall>x \<in> insert ?b (set gs). \<not> before (t x) (t (oldest_of t ?b gs))"
    using Cons.prems by (intro Cons.IH) auto
  have m: "oldest_of t ?b gs \<in> insert ?b (set gs)" by (rule oldest_of_mem)
  then have s: "t (oldest_of t ?b gs) \<noteq> None" using Cons.prems by (auto split: if_splits)
  have "\<not> before (t g) (t (oldest_of t ?b gs))" "\<not> before (t best) (t (oldest_of t ?b gs))"
    using ih s Cons.prems by (auto simp: before_def split: option.splits if_splits)
  with ih show ?case by (auto split: if_splits)
qed

lemma prune_expired_spec:
  "fst (prune_expired now gs p) = filter (\<lambda>g. idle_group p g \<and> \<not> expired p now g) gs"
  "idle_group (snd (prune_expired now gs p)) h
    \<longleftrightarrow> idle_group p h \<and> \<not> (h \<in> set gs \<and> expired p now h)"
  "\<not> idle_group p h \<Longrightarrow> gstore (snd (prune_expired now gs p)) h = gstore p h"
  "g_idleAt (gstore (snd (prune_expired now gs p)) h) = g_idleAt (gstore p h)"
  "pool_cfg (snd (prune_expired now gs p)) = pool_cfg p"
  "pool_groups (snd (prune_expired now gs p)) = pool_groups p"
proof (induction gs arbitrary: p)
  case (Cons g gs)
  { case 1
    have "filter (\<lambda>x. idle_group p x \<and> x \<noteq> g \<and> \<not> expired p now x) gs
        = filter (\<lambda>x. idle_group p x \<and> \<not> expired p now x) gs" if "expired p now g"
      using that by (intro filter_cong) auto
    with Cons.IH(1) show ?case by (auto simp: split_beta idle_retire)
  next
    case 2
    from Cons.IH(2) show ?case by (auto simp: split_beta idle_retire)
  next
    case 3
    then have "h \<noteq> g \<or> \<not> idle_group p g" by auto
    with 3 Cons.IH(3) retire_other [of h g] show ?case by (auto simp: split_beta idle_retire)
  next
    case 4
    from Cons.IH(4) show ?case by (simp add: split_beta)
  next
    case 5
    from Cons.IH(5) show ?case by (simp add: split_beta)
  next
    case 6
    from Cons.IH(6) show ?case by (simp add: split_beta) }
qed simp_all

text \<open>Of the idle groups at most \<open>MaxIdle\<close> stay, and those that stay were idle no longer than the others.\<close>

lemma prune_excess_spec:
  assumes "distinct idle" "\<forall>g \<in> set idle. idle_group p g" "0 \<le> MaxIdle (pool_cfg p)"
  shows "\<exists>kept. set kept \<subseteq> set idle \<and> distinct kept \<and> int (length kept) \<le> MaxIdle (pool_cfg p)
    \<and> (\<forall>h. idle_group (prune_excess idle p) h \<longleftrightarrow> idle_group p h \<and> (h \<in> set idle \<longrightarrow> h \<in> set kept))
    \<and> (\<forall>h. \<not> idle_group p h \<longrightarrow> gstore (prune_excess idle p) h = gstore p h)
    \<and> (\<forall>h. g_idleAt (gstore (prune_excess idle p) h) = g_idleAt (gstore p h))
    \<and> pool_groups (prune_excess idle p) = pool_groups p \<and> pool_cfg (prune_excess idle p) = pool_cfg p
    \<and> (\<forall>k \<in> set kept. \<forall>d \<in> set idle - set kept. \<not> before (g_idleAt (gstore p k)) (g_idleAt (gstore p d)))"
  using assms
proof (induction idle p rule: prune_excess.induct)
  case (1 idle p)
  show ?case
  proof (cases "int (length idle) \<le> MaxIdle (pool_cfg p)")
    case True
    then have "prune_excess idle p = p" by (auto simp: prune_excess.simps [of idle p] split: list.splits)
    with True "1.prems" show ?thesis by (intro exI [of _ idle]) auto
  next
    case False
    with "1.prems"(3) obtain g gs where c: "idle = g # gs" by (cases idle) auto
    define x where "x = oldest_of (\<lambda>x. g_idleAt (gstore p x)) g gs"
    let ?p = "retireLocked x (Some PErrClosed) p"
    have e: "prune_excess idle p = prune_excess (remove1 x idle) ?p"
      by (subst prune_excess.simps) (use False in \<open>simp add: c x_def Let_def\<close>)
    have m: "x \<in> set idle" using oldest_of_mem [of "\<lambda>x. g_idleAt (gstore p x)" g gs] by (simp add: c x_def)
    have le: "\<forall>y \<in> set idle. \<not> before (g_idleAt (gstore p y)) (g_idleAt (gstore p x))"
      using oldest_of_le [of g gs "\<lambda>x. g_idleAt (gstore p x)"] "1.prems"(2)
      by (simp add: c x_def idle_group_def)
    have s: "set (remove1 x idle) = set idle - {x}" using "1.prems"(1) by (simp add: set_remove1_eq)
    obtain kept where k: "set kept \<subseteq> set idle - {x}" "distinct kept" "int (length kept) \<le> MaxIdle (pool_cfg p)"
      "\<And>h. idle_group (prune_excess idle p) h \<longleftrightarrow> idle_group ?p h \<and> (h \<in> set idle - {x} \<longrightarrow> h \<in> set kept)"
      "\<And>h. \<not> idle_group ?p h \<Longrightarrow> gstore (prune_excess idle p) h = gstore ?p h"
      "\<And>h. g_idleAt (gstore (prune_excess idle p) h) = g_idleAt (gstore p h)"
      "pool_groups (prune_excess idle p) = pool_groups p" "pool_cfg (prune_excess idle p) = pool_cfg p"
      "\<forall>k \<in> set kept. \<forall>d \<in> set idle - {x} - set kept. \<not> before (g_idleAt (gstore p k)) (g_idleAt (gstore p d))"
      using "1.IH" [OF c False x_def] "1.prems" m unfolding e s by (auto simp: idle_retire)
    have x: "x \<notin> set kept" "idle_group p x" using k(1) "1.prems"(2) m by auto
    show ?thesis
    proof (intro exI [of _ kept] conjI allI ballI)
      show "\<not> before (g_idleAt (gstore p a)) (g_idleAt (gstore p d))"
        if "a \<in> set kept" "d \<in> set idle - set kept" for a d
        using that k(1,9) le by (cases "d = x") auto
      show "\<not> idle_group p h \<longrightarrow> gstore (prune_excess idle p) h = gstore p h" for h
        using k(5) [of h] x(2) retire_other [of h x] by (auto simp: idle_retire)
      show "idle_group (prune_excess idle p) h = (idle_group p h \<and> (h \<in> set idle \<longrightarrow> h \<in> set kept))" for h
        using k(4) [of h] x m by (auto simp: idle_retire)
    qed (use k in auto)
  qed
qed

text \<open>
  one pruning pass. A group that is not idle is left exactly as it was. Afterwards no idle group of the
  pool is past its time to live, at most \<open>MaxIdle\<close> groups are idle, and an idle group given up before its
  time was idle at least as long as each one that stays.
\<close>

theorem prune_retention:
  assumes "distinct (pool_groups p)" "0 \<le> MaxIdle (pool_cfg p)" "q = pruneLocked now p"
  shows "(\<forall>g. \<not> idle_group p g \<longrightarrow> gstore q g = gstore p g)
    \<and> (\<forall>g \<in> set (pool_groups q). idle_group q g \<longrightarrow> \<not> expired q now g)
    \<and> int (length (filter (idle_group q) (pool_groups q))) \<le> MaxIdle (pool_cfg p)
    \<and> (\<forall>k \<in> set (pool_groups p). \<forall>d \<in> set (pool_groups p).
         idle_group q k \<and> idle_group p d \<and> \<not> idle_group q d \<and> \<not> expired p now d
         \<longrightarrow> \<not> before (g_idleAt (gstore p k)) (g_idleAt (gstore p d)))"
proof -
  define idle where "idle = filter (\<lambda>g. idle_group p g \<and> \<not> expired p now g) (pool_groups p)"
  define r where "r = snd (prune_expired now (pool_groups p) p)"
  have rs: "\<And>h. idle_group r h \<longleftrightarrow> idle_group p h \<and> \<not> (h \<in> set (pool_groups p) \<and> expired p now h)"
    "\<And>h. \<not> idle_group p h \<Longrightarrow> gstore r h = gstore p h" "\<And>h. g_idleAt (gstore r h) = g_idleAt (gstore p h)"
    "pool_cfg r = pool_cfg p" "pool_groups r = pool_groups p"
    unfolding r_def by (simp_all add: prune_expired_spec)
  have q: "q = prune_excess idle r"
    using assms(3) by (simp add: pruneLocked_def split_beta prune_expired_spec(1) idle_def r_def)
  obtain kept where k: "set kept \<subseteq> set idle" "distinct kept" "int (length kept) \<le> MaxIdle (pool_cfg p)"
    "\<And>h. idle_group q h \<longleftrightarrow> idle_group r h \<and> (h \<in> set idle \<longrightarrow> h \<in> set kept)"
    "\<And>h. \<not> idle_group r h \<Longrightarrow> gstore q h = gstore r h" "\<And>h. g_idleAt (gstore q h) = g_idleAt (gstore p h)"
    "pool_groups q = pool_groups p" "pool_cfg q = pool_cfg p"
    "\<forall>k \<in> set kept. \<forall>d \<in> set idle - set kept. \<not> before (g_idleAt (gstore p k)) (g_idleAt (gstore p d))"
    using prune_excess_spec [of idle r] assms(1,2) rs unfolding q idle_def by auto
  have idle_q: "idle_group q h \<longleftrightarrow> h \<in> set kept" if "h \<in> set (pool_groups p)" for h
    using that k(1) by (auto simp: k(4) rs(1) idle_def)
  have "set (filter (idle_group q) (pool_groups q)) \<subseteq> set kept" using idle_q by (auto simp: k(7))
  then have "length (filter (idle_group q) (pool_groups q)) \<le> length kept"
    using assms(1) k(2,7) by (metis card_mono distinct_card distinct_filter finite_set)
  then have "int (length (filter (idle_group q) (pool_groups q))) \<le> MaxIdle (pool_cfg p)" using k(3) by linarith
  moreover have "expired q now h = expired p now h" for h unfolding expired_def k(6,8) ..
  ultimately show ?thesis
    using idle_q k(1,9) rs(1,2) k(5,7) by (auto simp: idle_def)
qed

theorem prune_retention_witness:
  "int (length (filter (idle_group (pruneLocked 9 ex_idle3)) (pool_groups (pruneLocked 9 ex_idle3)))) \<le> 1
   \<and> distinct (pool_groups ex_idle3) \<and> idle_group ex_idle3 0 \<and> idle_group ex_idle3 1"
  using prune_retention [of ex_idle3 "pruneLocked 9 ex_idle3" 9]
  by (simp add: ex_idle3_def ex_p0_simps idle_group_def)

subsection \<open>Limits\<close>

lemma sum_list_bound: "(\<And>x. x \<in> set xs \<Longrightarrow> f x \<le> (b::int)) \<Longrightarrow> (\<Sum>x \<leftarrow> xs. f x) \<le> int (length xs) * b"
  by (induction xs) (auto simp: algebra_simps intro: add_mono)

lemma int_sum: "int (\<Sum>x \<leftarrow> xs. f x) = (\<Sum>x \<leftarrow> xs. int (f x))"
  by (induction xs) simp_all

lemma group_of_pool:
  assumes "pool_inv p" "g \<in> set (pool_groups p)"
  shows "busy_ok p g" "alloc_ok p g" "route_ok p g"
  using assms by (auto simp: pool_inv_def pool_bounds_def group_inv_def)

text \<open>
  C7: in every reachable state the pool runs at most \<open>MaxProcesses\<close> (never more than 16) processes, each with at
  most \<open>SessionsPerProcess\<close> leases over its whole life (one for a dedicated process), so the number of sessions is
  bounded; and a usable process counts its busy leases exactly and carries an idle time exactly when it has none.
\<close>

theorem pool_within_limits:
  assumes "new_pool p0" "pool_step\<^sup>*\<^sup>* p0 p"
  shows "int (Processes (Stats p)) \<le> MaxProcesses (pool_cfg p) \<and> MaxProcesses (pool_cfg p) \<le> 16
    \<and> int (Sessions (Stats p)) \<le> MaxProcesses (pool_cfg p) * SessionsPerProcess (pool_cfg p)
    \<and> (\<forall>g \<in> set (pool_groups p).
         int (g_allocated (gstore p g)) \<le> (if g_dedicated (gstore p g) then 1 else SessionsPerProcess (pool_cfg p))
         \<and> length (g_leases (gstore p g)) \<le> g_allocated (gstore p g)
         \<and> (g_err (gstore p g) = None \<longrightarrow>
              g_busy (gstore p g) = int (length (filter (\<lambda>l. \<not> l_idle (lstore p l)) (g_leases (gstore p g))))
              \<and> (g_busy (gstore p g) = 0 \<longleftrightarrow> g_idleAt (gstore p g) \<noteq> None)))"
proof -
  have inv: "pool_inv p" using assms by (rule pl.reachable_inv)
  then have b: "pool_bounds p" by (simp add: pool_inv_def)
  then have c: "1 \<le> SessionsPerProcess (pool_cfg p)" by (simp add: pool_bounds_def config_ok_def)
  have a: "int (length (g_leases (gstore p g))) \<le> SessionsPerProcess (pool_cfg p)" if "g \<in> set (pool_groups p)" for g
    using group_of_pool(2) [OF inv that] c by (auto simp: alloc_ok_def alloc_limit_def Let_def split: if_splits)
  have "int (Sessions (Stats p)) = (\<Sum>g \<leftarrow> pool_groups p. int (length (g_leases (gstore p g))))"
    by (simp add: Stats_def int_sum)
  also have "\<dots> \<le> int (length (pool_groups p)) * SessionsPerProcess (pool_cfg p)"
    using a by (rule sum_list_bound)
  also have "\<dots> \<le> MaxProcesses (pool_cfg p) * SessionsPerProcess (pool_cfg p)"
    using b c by (intro mult_right_mono) (auto simp: pool_bounds_def)
  finally have s: "int (Sessions (Stats p)) \<le> MaxProcesses (pool_cfg p) * SessionsPerProcess (pool_cfg p)" .
  show ?thesis
  proof (intro conjI ballI)
    show "int (Processes (Stats p)) \<le> MaxProcesses (pool_cfg p)" "MaxProcesses (pool_cfg p) \<le> 16"
      using b by (simp_all add: pool_bounds_def config_ok_def Stats_def)
  next
    fix g assume g: "g \<in> set (pool_groups p)"
    note gi = group_of_pool(1,2) [OF inv g]
    from gi(2) show "int (g_allocated (gstore p g))
        \<le> (if g_dedicated (gstore p g) then 1 else SessionsPerProcess (pool_cfg p))"
      and "length (g_leases (gstore p g)) \<le> g_allocated (gstore p g)"
      by (simp_all add: alloc_ok_def alloc_limit_def Let_def)
    from gi(1) show "g_err (gstore p g) = None \<longrightarrow>
        g_busy (gstore p g) = int (length (filter (\<lambda>l. \<not> l_idle (lstore p l)) (g_leases (gstore p g))))
        \<and> (g_busy (gstore p g) = 0 \<longleftrightarrow> g_idleAt (gstore p g) \<noteq> None)"
      unfolding busy_ok_def .
  qed (rule s)
qed

theorem pool_within_limits_witness:
  "new_pool ex_p0 \<and> pool_step\<^sup>*\<^sup>* ex_p0 ex_p3 \<and> int (Processes (Stats ex_p3)) \<le> 1 \<and> g_busy (gstore ex_p3 0) = 1
   \<and> g_busy (gstore ex_p3 0)
       = int (length (filter (\<lambda>l. \<not> l_idle (lstore ex_p3 l)) (g_leases (gstore ex_p3 0))))"
  using pool_within_limits [OF ex_reach(1,2)] ex_reach
  by (simp add: ex_p3_simps ex_p0_simps ex_p1_simps)

subsection \<open>Sessions are isolated\<close>



lemma retire_foreign:
  assumes "pool_inv p" "g < next_group p" "l_group (lstore p k) \<noteq> g"
  shows "lstore (retireLocked g r p) k = lstore p k"
proof -
  have "k \<notin> set (g_leases (gstore p g))"
    using assms by (auto simp: pool_inv_def group_inv_def alloc_ok_def Let_def)
  then show ?thesis by (simp add: retireLocked_def)
qed

lemma enqueue_other:
  "g_err (gstore (snd (enqueue g l n p)) g) = None \<Longrightarrow> k \<noteq> l \<Longrightarrow> lstore (snd (enqueue g l n p)) k = lstore p k"
  by (auto simp: enqueue_def Let_def retire_err split: if_splits)

text \<open>
  a notification changes no lease of another process, and as long as its process is not retired by it, no
  lease that has a session other than the one the notification names.
\<close>

theorem delivery_touches_one_session:
  assumes "new_pool p0" "pool_step\<^sup>*\<^sup>* p0 p" "g < next_group p" "q = snd (deliver g n p)"
    and "l_group (lstore p k) \<noteq> g
      \<or> (g_err (gstore q g) = None \<and> l_id (lstore p k) \<noteq> [] \<and> l_id (lstore p k) \<noteq> SessionID n)"
  shows "lstore q k = lstore p k"
proof -
  have inv: "pool_inv p" using assms(1,2) by (rule pl.reachable_inv)
  then have ro: "route_ok p g" using assms(3) by (simp add: pool_inv_def group_inv_def)
  show ?thesis
  proof (cases "g_err (gstore q g) = None")
    case False
    then have k: "l_group (lstore p k) \<noteq> g" using assms(5) by auto
    have route: "k \<noteq> l" if "map_of (g_routes (gstore p g)) i = Some (Some l) \<or> g_creating (gstore p g) = Some l" for i l
      using that ro k by (auto simp: route_ok_def Let_def)
    have r: "lstore (retireLocked g e p) k = lstore p k" for e
      using inv assms(3) k by (rule retire_foreign)
    have eq: "lstore (snd (enqueue g l n p)) k = lstore p k" if "k \<noteq> l" for l
      using that r by (auto simp: enqueue_def Let_def)
    have "lstore (snd (enqueue g l n (upd_lease l h p))) k = lstore p k" if "k \<noteq> l" for l h
    proof -
      have "lstore (retireLocked g e (upd_lease l h p)) k = lstore p k" for e
        using r [of e] that by (simp add: retireLocked_def split: if_splits)
      with that show ?thesis by (auto simp: enqueue_def Let_def)
    qed
    with route r eq show ?thesis unfolding assms(4) deliver_def Let_def
      by (auto split: option.splits)
  next
    case True
    have "k \<noteq> l" if "map_of (g_routes (gstore p g)) (SessionID n) = Some (Some l) \<or> g_creating (gstore p g) = Some l" for l
      using that ro assms(5) by (auto simp: route_ok_def Let_def)
    with True enqueue_other [of g _ n] show ?thesis unfolding assms(4) deliver_def Let_def
      by (auto simp: retire_err split: option.splits if_splits)
  qed
qed

theorem delivery_touches_one_session_witness:
  "new_pool ex_p0 \<and> pool_step\<^sup>*\<^sup>* ex_p0 ex_p3 \<and> 0 < next_group ex_p3 \<and> l_group (lstore ex_p3 0) = 0
   \<and> lstore (snd (deliver 0 (ex_event\<lparr>SessionID := [], Method := ''_kiro/status''\<rparr>) ex_p3)) 0 = lstore ex_p3 0"
proof -
  let ?n = "ex_event\<lparr>SessionID := [], Method := ''_kiro/status''\<rparr>"
  have "g_err (gstore (snd (deliver 0 ?n ex_p3)) 0) = None"
    by (simp add: deliver_def Let_def ex_p3_simps ex_p1_simps)
  then show ?thesis
    using delivery_touches_one_session [OF ex_reach(1,2), of 0 _ ?n 0, OF _ refl] ex_reach
    by (simp add: ex_p3_simps live_lease_def)
qed

subsection \<open>Retirement is final\<close>

text \<open>What no step takes back: the reason of a retirement, a lease's error, group and session.\<close>

definition keeps :: "pool \<Rightarrow> pool \<Rightarrow> bool" where
  "keeps p q \<longleftrightarrow> next_group p \<le> next_group q \<and> next_lease p \<le> next_lease q
     \<and> (\<forall>g e. g < next_group p \<longrightarrow> g_err (gstore p g) = Some e \<longrightarrow> g_err (gstore q g) = Some e)
     \<and> (\<forall>l < next_lease p. l_group (lstore q l) = l_group (lstore p l)
          \<and> (l_err (lstore p l) \<noteq> None \<longrightarrow> l_err (lstore q l) \<noteq> None)
          \<and> (l_id (lstore p l) \<noteq> [] \<longrightarrow> l_id (lstore q l) = l_id (lstore p l)))"

lemma keeps_refl [simp]: "keeps p p"
  by (simp add: keeps_def)

lemma keeps_trans [trans]:
  assumes "keeps p q" "keeps q r"
  shows "keeps p r"
proof -
  have "l < next_lease q" if "l < next_lease p" for l using assms(1) that by (simp add: keeps_def)
  moreover have "g < next_group q" if "g < next_group p" for g using assms(1) that by (simp add: keeps_def)
  ultimately show ?thesis using assms unfolding keeps_def by simp
qed

lemma keeps_retire [simp]: "keeps p (retireLocked g r p)"
  by (auto simp: keeps_def retireLocked_def clear_lease_def)

lemma keeps_group: "g_err (f (gstore p g)) = g_err (gstore p g) \<Longrightarrow> keeps p (upd_group g f p)"
  by (simp add: keeps_def)

lemma keeps_lease:
  "l_group (h (lstore p l)) = l_group (lstore p l) \<Longrightarrow> (l_err (lstore p l) \<noteq> None \<Longrightarrow> l_err (h (lstore p l)) \<noteq> None)
   \<Longrightarrow> (l_id (lstore p l) \<noteq> [] \<Longrightarrow> l_id (h (lstore p l)) = l_id (lstore p l)) \<Longrightarrow> keeps p (upd_lease l h p)"
  by (auto simp: keeps_def)

lemma keeps_prune_expired: "keeps p (snd (prune_expired now gs p))"
  by (induction gs arbitrary: p) (auto simp: split_beta intro: keeps_trans [OF keeps_retire])

lemma keeps_prune_excess: "keeps p (prune_excess idle p)"
proof (induction idle p rule: prune_excess.induct)
  case (1 idle p)
  show ?case
  proof (cases "int (length idle) \<le> MaxIdle (pool_cfg p) \<or> idle = []")
    case True
    then show ?thesis by (subst prune_excess.simps) (auto split: list.split)
  next
    case False
    then obtain g gs where c: "idle = g # gs" by (cases idle) auto
    have n: "\<not> int (length idle) \<le> MaxIdle (pool_cfg p)" using False by simp
    let ?x = "oldest_of (\<lambda>x. g_idleAt (gstore p x)) g gs"
    have "keeps p (prune_excess (remove1 ?x idle) (retireLocked ?x (Some PErrClosed) p))"
      using keeps_trans [OF keeps_retire "1.IH" [OF c n refl]] .
    then show ?thesis by (subst prune_excess.simps) (use n in \<open>simp add: c Let_def\<close>)
  qed
qed

lemma keeps_prune: "keeps p (pruneLocked now p)"
  using keeps_trans [OF keeps_prune_expired keeps_prune_excess] by (simp add: pruneLocked_def split_beta)

lemma keeps_newLease: "keeps p (snd (newLeaseLocked g p))"
  by (auto simp: keeps_def)

lemma keeps_new_group: "keeps p (snd (new_group scope prepared p))"
  by (auto simp: keeps_def new_group_def Let_def)

lemma keeps_acquire: "keeps p (snd (acquire d scope recycle prepared now p))"
  using keeps_prune [of p now] keeps_trans [OF keeps_prune keeps_newLease, of p]
    keeps_trans [OF keeps_prune keeps_retire, of p]
    keeps_trans [OF keeps_trans [OF keeps_prune keeps_new_group] keeps_newLease, of p]
  by (simp add: acquire_def Let_def split_beta split: option.split)

lemma keeps_enqueue: "keeps p (snd (enqueue g l n p))"
  by (auto simp: enqueue_def Let_def intro!: keeps_lease)

lemma keeps_deliver: "keeps p (snd (deliver g n p))"
proof -
  have "keeps p (snd (enqueue g l n (upd_lease l (\<lambda>y. y\<lparr>l_candidate := i\<rparr>) p)))" for l i
    by (rule keeps_trans [OF _ keeps_enqueue]) (rule keeps_lease, simp_all)
  then show ?thesis by (auto simp: deliver_def Let_def keeps_enqueue split: option.splits)
qed

lemma keeps_SetIdle: "keeps p (snd (SetIdle l b now p))"
proof -
  let ?q = "upd_lease l (\<lambda>x. x\<lparr>l_idle := b\<rparr>) p"
  have "keeps p ?q" by (rule keeps_lease) simp_all
  also have "keeps ?q (upd_group (l_group (lstore p l)) (count_idle b now) ?q)" by (rule keeps_group) simp
  finally show ?thesis
    using keeps_trans keeps_prune by (auto simp: SetIdle_def Let_def split: option.splits)
qed

lemma keeps_ReleaseIdle: "keeps p (snd (ReleaseIdle l p))"
proof -
  let ?q = "upd_lease l (\<lambda>y. (clear_lease y)\<lparr>l_err := Some PErrClosed\<rparr>) p"
  have "keeps p ?q" by (rule keeps_lease) (simp_all add: clear_lease_def)
  also have "keeps ?q (upd_group g (\<lambda>y. y\<lparr>g_leases := xs y, g_routes := rs y\<rparr>) ?q)" for g xs rs
    by (rule keeps_group) simp
  finally show ?thesis
    using keeps_trans [OF _ keeps_retire] unfolding ReleaseIdle_def Let_def by (auto simp del: upd_simps)
qed

lemma keeps_create_fail: "keeps p (create_fail l e p)"
  unfolding create_fail_def Let_def by (rule keeps_trans [OF keeps_group keeps_retire]) simp

lemma keeps_create_reply:
  assumes "pool_inv p" "l < next_lease p" "g_creating (gstore p (l_group (lstore p l))) = Some l"
  shows "keeps p (snd (create_reply l loadID raw p))"
proof -
  have idl: "l_id (lstore p l) = []"
    using assms by (auto simp: pool_inv_def lease_ok_def group_inv_def route_ok_def Let_def)
  let ?g = "l_group (lstore p l)"
  have s: "keeps q (upd_group ?g (\<lambda>x. x\<lparr>g_creating := None\<rparr>) q)" for q by (rule keeps_group) simp
  have r: "keeps p (upd_group ?g (\<lambda>x. x\<lparr>g_creating := None\<rparr>)
      (upd_group ?g (\<lambda>x. x\<lparr>g_routes := aset i (Some l) (g_routes x)\<rparr>)
        (upd_lease l (\<lambda>x. x\<lparr>l_id := i, l_loading := False\<rparr>) p)))" for i
    by (rule keeps_trans [OF keeps_trans [OF keeps_lease keeps_group] s]) (simp_all add: idl)
  have "keeps p (snd (create_finish l i p))" for i
    using s [of p] keeps_trans [OF s keeps_retire] r
    unfolding create_finish_def Let_def by (auto split: option.splits simp del: upd_simps)
  then show ?thesis by (auto simp: create_reply_def keeps_create_fail split: option.splits)
qed

lemma keeps_ClosePool: "keeps p (ClosePool p)"
proof -
  have "keeps q (fold (\<lambda>g. retireLocked g (Some PErrClosed)) gs q)" for gs q
    by (induction gs arbitrary: q) (auto intro: keeps_trans [OF keeps_retire])
  then have "keeps (p\<lparr>pool_closed := True\<rparr>) (ClosePool p)" by (simp add: ClosePool_def)
  then show ?thesis by (simp add: keeps_def)
qed

lemma keeps_others:
  "keeps p (snd (TryNext l p))" "keeps p (snd (acquire_ready g client e p))" "keeps p (client_fails g x p)"
  "keeps p (reap g e p)" "keeps p (snd (create_begin l loadID p))" "keeps p (p\<lparr>pool_groups := gs\<rparr>)"
proof -
  show "keeps p (snd (TryNext l p))"
    by (auto simp: TryNext_def split: option.splits list.splits intro!: keeps_lease)
  have "keeps p (upd_group g (\<lambda>x. x\<lparr>g_client := client, g_ready := True\<rparr>) p)" by (rule keeps_group) simp
  then show "keeps p (snd (acquire_ready g client e p))"
    using keeps_trans [OF _ keeps_retire] by (auto simp: acquire_ready_def Let_def)
  show "keeps p (client_fails g x p)" unfolding client_fails_def by (rule keeps_group) simp
  show "keeps p (reap g e p)" "keeps p (p\<lparr>pool_groups := gs\<rparr>)" by (simp_all add: keeps_def reap_def)
  have "keeps p (upd_group h (\<lambda>x. x\<lparr>g_creating := Some l\<rparr>)
      (upd_lease l (\<lambda>x. x\<lparr>l_loading := b, l_candidate := loadID\<rparr>) p))" for h b
    by (rule keeps_trans [OF keeps_lease keeps_group]) simp_all
  then show "keeps p (snd (create_begin l loadID p))"
    by (auto simp: create_begin_def Let_def split: option.splits simp del: upd_simps)
qed

lemma step_keeps: "pool_step p q \<Longrightarrow> pool_inv p \<Longrightarrow> keeps p q"
  by (induction rule: pool_step.induct)
    (simp_all add: keeps_acquire keeps_prune keeps_SetIdle keeps_ReleaseIdle CloseLease_def keeps_ClosePool keeps_others
      keeps_deliver keeps_create_reply keeps_create_fail)

lemma steps_keep: "pool_step\<^sup>*\<^sup>* p q \<Longrightarrow> pool_inv p \<Longrightarrow> keeps p q"
proof (induction rule: rtranclp_induct)
  case (step q r)
  then show ?case using keeps_trans step_keeps pl.steps_inv by blast
qed simp

text \<open>
  a retirement is final and its first reason stays: whatever happens afterwards, the group keeps the reason
  and every lease of the group keeps failing; a released lease stays released; a session never changes its
  identifier and never moves to another process.
\<close>

theorem retirement_is_final:
  assumes "new_pool p0" "pool_step\<^sup>*\<^sup>* p0 p" "pool_step\<^sup>*\<^sup>* p q" "l < next_lease p"
  shows "(\<forall>e. g_err (gstore p (l_group (lstore p l))) = Some e \<longrightarrow>
        g_err (gstore q (l_group (lstore p l))) = Some e \<and> errLocked l q \<noteq> None)
    \<and> (l_err (lstore p l) \<noteq> None \<longrightarrow> errLocked l q \<noteq> None)
    \<and> l_group (lstore q l) = l_group (lstore p l)
    \<and> (l_id (lstore p l) \<noteq> [] \<longrightarrow> l_id (lstore q l) = l_id (lstore p l))"
proof -
  have inv: "pool_inv p" using assms(1,2) by (rule pl.reachable_inv)
  then have g: "l_group (lstore p l) < next_group p" using assms(4) by (simp add: pool_inv_def lease_ok_def)
  have "keeps p q" using assms(3) inv by (rule steps_keep)
  then show ?thesis using assms(4) g by (auto simp: keeps_def errLocked_None)
qed

theorem retirement_is_final_witness:
  "new_pool ex_p0 \<and> pool_step\<^sup>*\<^sup>* ex_p0 ex_p4 \<and> pool_step\<^sup>*\<^sup>* ex_p4 ex_p6 \<and> 0 < next_lease ex_p4
   \<and> l_id (lstore ex_p6 0) = ''s1'' \<and> l_group (lstore ex_p6 0) = 0"
  using retirement_is_final [OF ex_reach(1,3,5), of 0] ex_reach
  by (simp add: ex_p4_simps ex_p3_simps live_lease_def)

subsection \<open>Acquiring\<close>

lemma prune_expired_same:
  "pool_groups (snd (prune_expired now gs p)) = pool_groups p \<and> pool_cfg (snd (prune_expired now gs p)) = pool_cfg p
   \<and> pool_closed (snd (prune_expired now gs p)) = pool_closed p
   \<and> pool_cleanupErr (snd (prune_expired now gs p)) = pool_cleanupErr p
   \<and> next_group (snd (prune_expired now gs p)) = next_group p"
  by (induction gs arbitrary: p) (simp_all add: split_beta, simp_all add: retireLocked_def upd_group_def)

lemma prune_excess_same:
  "pool_groups (prune_excess idle p) = pool_groups p \<and> pool_cfg (prune_excess idle p) = pool_cfg p
   \<and> pool_closed (prune_excess idle p) = pool_closed p \<and> pool_cleanupErr (prune_excess idle p) = pool_cleanupErr p
   \<and> next_group (prune_excess idle p) = next_group p"
proof (induction idle p rule: prune_excess.induct)
  case (1 idle p)
  show ?case
  proof (cases "int (length idle) \<le> MaxIdle (pool_cfg p) \<or> idle = []")
    case True
    then show ?thesis by (subst (1 2 3 4 5) prune_excess.simps) (auto split: list.split)
  next
    case False
    then obtain g gs where c: "idle = g # gs" by (cases idle) auto
    have n: "\<not> int (length idle) \<le> MaxIdle (pool_cfg p)" using False by simp
    let ?x = "oldest_of (\<lambda>x. g_idleAt (gstore p x)) g gs"
    have "prune_excess idle p = prune_excess (remove1 ?x idle) (retireLocked ?x (Some PErrClosed) p)"
      by (subst prune_excess.simps) (use n in \<open>simp add: c Let_def\<close>)
    with "1.IH" [OF c n refl] show ?thesis by (simp add: retireLocked_def upd_group_def)
  qed
qed

lemma prune_same [simp]:
  "pool_groups (pruneLocked now p) = pool_groups p" "pool_cfg (pruneLocked now p) = pool_cfg p"
  "pool_closed (pruneLocked now p) = pool_closed p" "pool_cleanupErr (pruneLocked now p) = pool_cleanupErr p"
  "next_group (pruneLocked now p) = next_group p"
  using prune_expired_same prune_excess_same by (auto simp: pruneLocked_def split_beta)

lemma recyclable_spec:
  assumes "recyclable p = Some g"
  shows "g \<in> set (pool_groups p) \<and> g_err (gstore p g) = None \<and> g_busy (gstore p g) = 0"
proof -
  obtain x xs where f: "filter (\<lambda>g. g_err (gstore p g) = None \<and> g_busy (gstore p g) = 0) (pool_groups p) = x # xs"
    and g: "g = oldest_of (\<lambda>x. g_idleAt (gstore p x)) x xs"
    using assms by (auto simp: recyclable_def split: list.splits)
  have "g \<in> set (x # xs)" using oldest_of_mem g by fastforce
  then show ?thesis unfolding f [symmetric] by simp
qed

text \<open>
  what \<open>acquire\<close> returns. A reused lease is a new one on a running, healthy, shared process of the same scope;
  a reserved one belongs to a new process with that scope, which is dedicated exactly when it was prepared; a
  recycled process had no busy lease and is retired; and the pool reports overload only when it is full, no
  process can be shared and, if recycling was allowed, every process is busy or already retired.
\<close>

theorem acquire_outcomes:
  assumes "p' = pruneLocked now p" "acquire False scope recycle prepared now p = (r, q)"
  shows "case r of
      Reused l \<Rightarrow> l = next_lease p' \<and> errLocked l q = None \<and> \<not> prepared
        \<and> (let x = gstore p' (l_group (lstore q l)) in
             g_scope x = scope \<and> g_client x \<and> \<not> g_dedicated x \<and> l_group (lstore q l) \<in> set (pool_groups p)
             \<and> int (g_allocated x) < SessionsPerProcess (pool_cfg p))
    | Reserved g l \<Rightarrow> l = next_lease p' \<and> g = next_group p' \<and> l_group (lstore q l) = g
        \<and> errLocked l q = None \<and> pool_groups q = g # pool_groups p
        \<and> g_scope (gstore q g) = scope \<and> g_dedicated (gstore q g) = prepared
    | Recycling g \<Rightarrow> recycle \<and> g \<in> set (pool_groups p) \<and> g_busy (gstore p' g) = 0
        \<and> g_err (gstore p' g) = None \<and> g_err (gstore q g) \<noteq> None
    | Failed e \<Rightarrow> e = PErrOverloaded \<and> pool_cleanupErr p = None \<longrightarrow>
        MaxProcesses (pool_cfg p) \<le> int (length (pool_groups p))
        \<and> (\<forall>g \<in> set (pool_groups p). \<not> reusable p' scope prepared g)
        \<and> (recycle \<longrightarrow> (\<forall>g \<in> set (pool_groups p). g_err (gstore p' g) \<noteq> None \<or> g_busy (gstore p' g) \<noteq> 0))"
proof (cases "scope = [] \<or> 256 < length scope \<or> pool_cleanupErr p \<noteq> None \<or> pool_closed p")
  case True
  then show ?thesis
    using assms by (auto simp: acquire_def Let_def split: option.splits if_splits)
next
  case False
  then have a: "acquire False scope recycle prepared now p =
     (case find (reusable p' scope prepared) (pool_groups p) of
        Some g \<Rightarrow> (let (l, p2) = newLeaseLocked g p' in (Reused l, p2))
      | None \<Rightarrow> if MaxProcesses (pool_cfg p) \<le> int (length (pool_groups p)) then
           (case (if recycle then recyclable p' else None) of
              Some g \<Rightarrow> (Recycling g, retireLocked g (Some PErrClosed) p')
            | None \<Rightarrow> (Failed PErrOverloaded, p'))
         else (let (g, p1) = new_group scope prepared p'; (l, p2) = newLeaseLocked g p1 in (Reserved g l, p2)))"
    unfolding assms(1) by (simp add: acquire_def Let_def)
  show ?thesis
  proof (cases "find (reusable p' scope prepared) (pool_groups p)")
    case (Some g)
    then have g: "g \<in> set (pool_groups p)" "reusable p' scope prepared g" using find_mem by fast+
    from assms(2) Some a have r: "r = Reused (next_lease p')" "q = snd (newLeaseLocked g p')"
      by (auto simp: split_beta Let_def)
    show ?thesis unfolding r using g assms(1) by (simp add: errLocked_None reusable_def Let_def)
  next
    case None
    then have nr: "\<forall>g \<in> set (pool_groups p). \<not> reusable p' scope prepared g" by (simp add: find_None_iff)
    have rec: "\<forall>g \<in> set (pool_groups p). g_err (gstore p' g) \<noteq> None \<or> g_busy (gstore p' g) \<noteq> 0"
      if "recyclable p' = None"
      using that assms(1) by (auto simp: recyclable_def filter_empty_conv split: list.splits)
    have sp: "g \<in> set (pool_groups p) \<and> g_err (gstore p' g) = None \<and> g_busy (gstore p' g) = 0"
      if "recyclable p' = Some g" for g using recyclable_spec [OF that] assms(1) by simp
    show ?thesis
    proof (cases "MaxProcesses (pool_cfg p) \<le> int (length (pool_groups p))")
      case True
      with a None assms(2) nr rec sp show ?thesis
        by (auto simp: retire_err split: option.splits if_splits)
    next
      case full: False
      with a None assms(2) have "r = Reserved (next_group p') (next_lease p')"
        "q = snd (newLeaseLocked (next_group p') (snd (new_group scope prepared p')))"
        by (auto simp: split_beta Let_def new_group_def)
      then show ?thesis using assms(1) by (simp add: errLocked_None new_group_def Let_def)
    qed
  qed
qed

theorem acquire_outcomes_witness:
  "acquire False ''a'' False False 0 ex_p0 = (Reserved 0 0, ex_p1) \<and> l_group (lstore ex_p1 0) = 0
   \<and> errLocked 0 ex_p1 = None \<and> g_scope (gstore ex_p1 0) = ''a''"
  using acquire_outcomes [OF refl ex_p1_eq] ex_p1_eq by simp



end
