(* ===== verification/GoRunes.thy ===== *)
theory GoRunes
  imports GoText
begin

text \<open>
  Strings as sequences of runes, for the functions of \<open>strings\<close> that work on code points: \<open>TrimSpace\<close>,
  \<open>ToLower\<close> and \<open>FieldsFunc\<close>. ASCII is written out; the Unicode character database above it (which code
  points are letters, and their lower case) is an argument.
\<close>

record unicode_tables =
  uni_letter :: "nat \<Rightarrow> bool"
  uni_lower :: "nat \<Rightarrow> nat"

text \<open>The string cut into its runes; a byte that is not UTF-8 is a piece of its own.\<close>

function rune_pieces :: "bytes \<Rightarrow> bytes list" where
  "rune_pieces [] = []"
| "rune_pieces (c # r) =
     (if rune_len (c # r) = 0 then [c] # rune_pieces r
      else take (rune_len (c # r)) (c # r) # rune_pieces (drop (rune_len (c # r)) (c # r)))"
  by pat_completeness auto
termination
  by (relation "measure length") auto

declare rune_pieces.simps(2) [simp del]

lemma concat_rune_pieces [simp]: "concat (rune_pieces s) = s"
  by (induction s rule: rune_pieces.induct) (auto simp: rune_pieces.simps(2))

text \<open>\<open>unicode.IsSpace\<close>: the White_Space code points.\<close>

definition is_space_rune :: "nat \<Rightarrow> bool" where
  "is_space_rune r \<longleftrightarrow> (9 \<le> r \<and> r \<le> 13) \<or> r = 32 \<or> r = 133 \<or> r = 160 \<or> r = 5760 \<or> (8192 \<le> r \<and> r \<le> 8202)
     \<or> r = 8232 \<or> r = 8233 \<or> r = 8239 \<or> r = 8287 \<or> r = 12288"

definition TrimSpace :: "bytes \<Rightarrow> bytes" where
  "TrimSpace s =
     (let sp = (\<lambda>p. is_space_rune (rune_val p))
      in concat (rev (dropWhile sp (rev (dropWhile sp (rune_pieces s))))))"

definition lower_rune :: "unicode_tables \<Rightarrow> nat \<Rightarrow> nat" where
  "lower_rune u r = (if r < 128 then (if 65 \<le> r \<and> r \<le> 90 then r + 32 else r) else uni_lower u r)"

definition ToLower :: "unicode_tables \<Rightarrow> bytes \<Rightarrow> bytes" where
  "ToLower u s = concat (map (\<lambda>p. encode_rune (lower_rune u (rune_val p))) (rune_pieces s))"

definition is_letter :: "unicode_tables \<Rightarrow> nat \<Rightarrow> bool" where
  "is_letter u r = (if r < 128 then (65 \<le> r \<and> r \<le> 90) \<or> (97 \<le> r \<and> r \<le> 122) else uni_letter u r)"

text \<open>\<open>strings.FieldsFunc\<close> with a predicate on pieces: the maximal runs of pieces that do not satisfy it.\<close>

function fields_func :: "(bytes \<Rightarrow> bool) \<Rightarrow> bytes list \<Rightarrow> bytes list" where
  "fields_func sep ps =
     (case dropWhile sep ps of
        [] \<Rightarrow> []
      | p # r \<Rightarrow> concat (p # takeWhile (\<lambda>x. \<not> sep x) r) # fields_func sep (dropWhile (\<lambda>x. \<not> sep x) r))"
  by pat_completeness auto
termination
proof (relation "measure (\<lambda>(_, ps). length ps)")
  fix sep :: "bytes \<Rightarrow> bool" and ps p r
  assume d: "dropWhile sep ps = p # r"
  have "length (dropWhile (\<lambda>x. \<not> sep x) r) \<le> length r" by (rule length_dropWhile_le)
  also have "\<dots> < length ps" using length_dropWhile_less [OF d] .
  finally show "((sep, dropWhile (\<lambda>x. \<not> sep x) r), sep, ps) \<in> measure (\<lambda>(_, ps). length ps)" by simp
qed simp

declare fields_func.simps [simp del]

definition letter_words :: "unicode_tables \<Rightarrow> bytes \<Rightarrow> bytes list" where
  "letter_words u s = fields_func (\<lambda>p. \<not> is_letter u (rune_val p)) (rune_pieces s)"

end
