(* ===== verification/Messages.thy ===== *)
theory Messages
  imports Wire GoRunes
begin

text \<open>
  The client's Messages request: \<open>internal/anthropic\<close>, files \<open>request.go\<close>, \<open>controls.go\<close>, \<open>media.go\<close> and
  \<open>client_tools.go\<close>. Every failure below the request level is \<open>ErrRequest\<close>, so inner decoders return an
  option. Reading the header of an image (Go's \<open>image\<close> package with the WebP decoder) is an argument.
\<close>

datatype request_error =
    ErrRequest
  | UnsupportedControlError bytes

definition MaxBodyBytes :: nat where "MaxBodyBytes = 16777216"
definition MaxRequestMediaParts :: nat where "MaxRequestMediaParts = 256"
definition MaxRequestMediaTotalBytes :: nat where "MaxRequestMediaTotalBytes = 12582912"
definition MaxMediaParts :: nat where "MaxMediaParts = 20"
definition MaxMediaPartBytes :: nat where "MaxMediaPartBytes = 4194304"
definition MaxMediaTotalBytes :: nat where "MaxMediaTotalBytes = 6291456"
definition MaxImageDimension :: int where "MaxImageDimension = 8000"

record media =
  Kind :: bytes
  MIME :: bytes
  Data :: bytes
  DocText :: bytes
  Title :: bytes
  DocContext :: bytes
  Width :: int
  Height :: int
  Bytes :: nat

record block =
  BType :: bytes
  BText :: bytes
  BRaw :: bytes
  bmedia :: "media option"

record message =
  Role :: bytes
  Content :: "block list"

record client_identity =
  IdSession :: bytes
  IdAgent :: bytes
  IdParentAgent :: bytes

record request =
  Identity :: client_identity
  ReqModel :: bytes
  MaxTokens :: int
  Stream :: bool
  System :: "block list"
  Messages :: "message list"
  ReqTools :: "bytes list"
  Effort :: bytes
  Extra :: "(bytes \<times> bytes) list"
  Warnings :: "bytes list"

text \<open>What \<open>image.DecodeConfig\<close> reports: the format's name, width and height.\<close>

type_synonym decode_config = "bytes \<Rightarrow> (bytes \<times> int \<times> int) option"

subsection \<open>Content blocks\<close>

definition content_block :: "bytes \<Rightarrow> block option" where
  "content_block value =
     do {
       obj \<leftarrow> ndjson_Object value;
       ty \<leftarrow> string_field (field obj ''type'');
       (if ty = [] then None
        else if ty = ''text''
        then map_option (\<lambda>t. \<lparr>BType = ty, BText = t, BRaw = value, bmedia = None\<rparr>) (string_field (field obj ''text''))
        else Some \<lparr>BType = ty, BText = [], BRaw = value, bmedia = None\<rparr>)
     }"

definition content :: "bytes \<Rightarrow> block list option" where
  "content raw = (case raw of
     [] \<Rightarrow> None
   | c # _ \<Rightarrow>
       if c = CHR 0x22 then
         map_option (\<lambda>t. [\<lparr>BType = ''text'', BText = t, BRaw = raw, bmedia = None\<rparr>]) (string_field raw)
       else if c \<noteq> CHR ''['' then None
       else (case unmarshal_raws raw of
           None \<Rightarrow> None
         | Some values \<Rightarrow> if 4096 < length values then None else all_some (map content_block values)))"

subsection \<open>Inline media\<close>

definition Media :: "block \<Rightarrow> media option" where
  "Media b = (case bmedia b of None \<Rightarrow> None | Some m \<Rightarrow> if Kind m = BType b then Some m else None)"

text \<open>One field of a media block; \<open>None\<close> rejects it.\<close>

definition media_field :: "bytes \<Rightarrow> bytes \<times> bytes \<Rightarrow> media \<Rightarrow> media option" where
  "media_field ty kv m =
     (let (key, value) = kv
      in if key \<in> {''type'', ''source'', ''cache_control''} then Some m
         else if key \<in> {''title'', ''context''} then
           (if ty \<noteq> ''document'' then None
            else if value = ''null'' then Some m
            else (case string_field value of
                None \<Rightarrow> None
              | Some text \<Rightarrow>
                  if key = ''title'' then (if 8192 < length text then None else Some (m\<lparr>Title := text\<rparr>))
                  else (if 32768 < length text then None else Some (m\<lparr>DocContext := text\<rparr>))))
         else if key = ''citations'' then
           (case ndjson_Object value of
              None \<Rightarrow> None
            | Some c \<Rightarrow> if ty \<noteq> ''document'' \<or> length c \<noteq> 1 \<or> field c ''enabled'' \<noteq> ''false'' then None else Some m)
         else None)"

fun media_fields :: "bytes \<Rightarrow> (bytes \<times> bytes) list \<Rightarrow> media \<Rightarrow> media option" where
  "media_fields ty [] m = Some m"
| "media_fields ty (kv # kvs) m = (case media_field ty kv m of None \<Rightarrow> None | Some m' \<Rightarrow> media_fields ty kvs m')"

definition image_format :: "bytes \<Rightarrow> bytes option" where
  "image_format mime =
     (if mime = ''image/png'' then Some ''png'' else if mime = ''image/jpeg'' then Some ''jpeg''
      else if mime = ''image/gif'' then Some ''gif'' else if mime = ''image/webp'' then Some ''webp'' else None)"

text \<open>
  \<open>http.DetectContentType\<close> answers \<open>application/pdf\<close> exactly for data that starts with the PDF signature: no
  signature it tries earlier can match such data.
\<close>

definition is_pdf :: "bytes \<Rightarrow> bool" where
  "is_pdf data = has_prefix data ''%PDF-''"

text \<open>The base64 source of a document or an image.\<close>

definition media_base64 :: "decode_config \<Rightarrow> bytes \<Rightarrow> bytes \<Rightarrow> media \<Rightarrow> media option" where
  "media_base64 dc ty data m0 =
     (if data = [] \<or> b64_encoded_len MaxMediaPartBytes < length data \<or> contains_any data [CHR 0x0D, CHR 0x0A] then None
      else case b64_decode data of
          None \<Rightarrow> None
        | Some decoded \<Rightarrow>
            if decoded = [] \<or> MaxMediaPartBytes < length decoded then None
            else let m = m0\<lparr>Data := data, Bytes := length decoded\<rparr>
                 in if ty = ''document'' then (if MIME m \<noteq> ''application/pdf'' \<or> \<not> is_pdf decoded then None else Some m)
                    else (case (image_format (MIME m), dc decoded) of
                        (Some expected, Some (format, w, h)) \<Rightarrow>
                          if format \<noteq> expected \<or> w < 1 \<or> h < 1 \<or> MaxImageDimension < w \<or> MaxImageDimension < h then None
                          else Some (m\<lparr>Width := w, Height := h\<rparr>)
                      | _ \<Rightarrow> None))"

definition decodeMedia :: "decode_config \<Rightarrow> block \<Rightarrow> media option" where
  "decodeMedia dc b =
     do {
       fs \<leftarrow> ndjson_Object (BRaw b);
       m1 \<leftarrow> media_fields (BType b) fs \<lparr>Kind = BType b, MIME = [], Data = [], DocText = [], Title = [], DocContext = [],
               Width = 0, Height = 0, Bytes = 0\<rparr>;
       source \<leftarrow> ndjson_Object (field fs ''source'');
       (if length source \<noteq> 3 then None else Some ());
       kind \<leftarrow> string_field (field source ''type'');
       mime \<leftarrow> string_field (field source ''media_type'');
       data \<leftarrow> string_field (field source ''data'');
       (let m = m1\<lparr>MIME := mime\<rparr>
        in if kind = ''text'' \<and> BType b = ''document'' \<and> mime = ''text/plain'' then
             (if data = [] \<or> MaxMediaPartBytes < length data then None
              else Some (m\<lparr>DocText := data, Bytes := length data\<rparr>))
           else if kind \<noteq> ''base64'' then None
           else media_base64 dc (BType b) data m)
     }"

definition DocumentText :: "media \<Rightarrow> bytes" where
  "DocumentText m = obj_text ([(''type'', quote ''document'')]
     @ (if Title m = [] then [] else [(''title'', quote (Title m))])
     @ (if DocContext m = [] then [] else [(''context'', quote (DocContext m))])
     @ [(''text'', quote (DocText m))])"

subsection \<open>Tool results and uses\<close>

record tool_outcome =
  ToolID :: bytes
  ToolContent :: "block list"
  IsError :: bool

definition DecodeToolResult :: "bytes \<Rightarrow> tool_outcome option" where
  "DecodeToolResult raw =
     do {
       fs \<leftarrow> ndjson_Object raw;
       (if field fs ''type'' \<noteq> ''\"tool_result\"'' then None else Some ());
       i \<leftarrow> string_field (field fs ''tool_use_id'');
       (if i = [] \<or> 96 < length i then None else Some ());
       e \<leftarrow> (case map_of fs ''is_error'' of
               None \<Rightarrow> Some False
             | Some flag \<Rightarrow> if flag \<noteq> ''true'' \<and> flag \<noteq> ''false'' then None else Some (flag = ''true''));
       c \<leftarrow> (case map_of fs ''content'' of None \<Rightarrow> Some [] | Some v \<Rightarrow> content v);
       Some \<lparr>ToolID = i, ToolContent = c, IsError = e\<rparr>
     }"

definition prompt_block :: "decode_config \<Rightarrow> block \<Rightarrow> block option" where
  "prompt_block dc b =
     (if BType b \<noteq> ''image'' then Some b
      else do {
        fs \<leftarrow> ndjson_Object (BRaw b);
        source \<leftarrow> ndjson_Object (field fs ''source'');
        kind \<leftarrow> string_field (field source ''type'');
        (if kind \<noteq> ''base64'' then Some b else map_option (\<lambda>m. b\<lparr>bmedia := Some m\<rparr>) (decodeMedia dc b))
      })"

definition PromptContent :: "decode_config \<Rightarrow> tool_outcome \<Rightarrow> block list option" where
  "PromptContent dc r = all_some (map (prompt_block dc) (ToolContent r))"

record tool_use =
  UID :: bytes
  UName :: bytes
  UInput :: bytes

definition ToolUse_Valid :: "tool_use \<Rightarrow> bool" where
  "ToolUse_Valid t \<longleftrightarrow>
     \<not> (length (UID t) < 1 \<or> 96 < length (UID t) \<or> length (UName t) < 1 \<or> 64 < length (UName t))
     \<and> list_all is_ident_byte (UID t) \<and> list_all is_ident_byte (UName t) \<and> Arguments (UInput t) \<noteq> None"

subsection \<open>The request\<close>

definition user_at :: "message list \<Rightarrow> nat option" where
  "user_at ms = (case dropWhile (\<lambda>m. Role m = ''system'') (rev ms) of
     [] \<Rightarrow> None
   | m # rest \<Rightarrow> if Role m = ''user'' then Some (length rest) else None)"

text \<open>\<open>None\<close> stands for the code's \<open>-1\<close>.\<close>

definition LatestUserIndex :: "request \<Rightarrow> nat option" where
  "LatestUserIndex r = user_at (Messages r)"

text \<open>The media parts of one block count against the request's budget.\<close>

fun media_budget :: "block list \<Rightarrow> nat \<times> nat \<Rightarrow> (nat \<times> nat) option" where
  "media_budget [] b = Some b"
| "media_budget (p # ps) (n, s) = (case Media p of
     None \<Rightarrow> media_budget ps (n, s)
   | Some m \<Rightarrow> if MaxRequestMediaParts < n + 1 \<or> MaxRequestMediaTotalBytes < s + Bytes m then None
               else media_budget ps (n + 1, s + Bytes m))"

definition decode_block :: "decode_config \<Rightarrow> bytes \<Rightarrow> block \<Rightarrow> (block \<times> block list) option" where
  "decode_block dc role b =
     (if BType b = ''image'' \<or> BType b = ''document'' then
        (if role \<noteq> ''user'' then None
         else map_option (\<lambda>m. (b\<lparr>bmedia := Some m\<rparr>, [b\<lparr>bmedia := Some m\<rparr>])) (decodeMedia dc b))
      else if BType b = ''tool_result'' then
        do { r \<leftarrow> DecodeToolResult (BRaw b); ps \<leftarrow> PromptContent dc r; Some (b, ps) }
      else Some (b, []))"

fun decode_blocks :: "decode_config \<Rightarrow> bytes \<Rightarrow> block list \<Rightarrow> nat \<times> nat \<Rightarrow> (block list \<times> nat \<times> nat) option" where
  "decode_blocks dc role [] n = Some ([], n)"
| "decode_blocks dc role (b # bs) n =
     do {
       (b', ps) \<leftarrow> decode_block dc role b;
       n' \<leftarrow> media_budget ps n;
       (bs', n'') \<leftarrow> decode_blocks dc role bs n';
       Some (b' # bs', n'')
     }"

definition decode_message :: "decode_config \<Rightarrow> bytes \<Rightarrow> nat \<times> nat \<Rightarrow> (message \<times> nat \<times> nat) option" where
  "decode_message dc raw n =
     do {
       m \<leftarrow> ndjson_Object raw;
       role \<leftarrow> string_field (field m ''role'');
       (if role \<notin> {''user'', ''assistant'', ''system''} then None else Some ());
       (if has_key m ''output_config'' then None else Some ());
       (case map_of m ''clear_at'' of
          None \<Rightarrow> Some ()
        | Some v \<Rightarrow> if role \<noteq> ''system'' \<or> string_field v \<noteq> Some ''never'' then None else Some ());
       c \<leftarrow> content (field m ''content'');
       (if c = [] then None else Some ());
       (c', n') \<leftarrow> decode_blocks dc role c n;
       (if role = ''system'' \<and> \<not> list_all (\<lambda>b. BType b = ''text'') c' then None else Some ());
       Some (\<lparr>Role = role, Content = c'\<rparr>, n')
     }"

fun decode_messages :: "decode_config \<Rightarrow> bytes list \<Rightarrow> nat \<times> nat \<Rightarrow> message list option" where
  "decode_messages dc [] n = Some []"
| "decode_messages dc (raw # raws) n =
     do { (m, n') \<leftarrow> decode_message dc raw n; ms \<leftarrow> decode_messages dc raws n'; Some (m # ms) }"

definition efforts :: "bytes set" where
  "efforts = {[], ''low'', ''medium'', ''high'', ''xhigh'', ''max''}"

text \<open>Effort and warnings from \<open>output_config\<close>.\<close>

definition decode_effort :: "unicode_tables \<Rightarrow> (bytes \<times> bytes) list \<Rightarrow> bytes \<times> bytes list" where
  "decode_effort u fs = (case map_of fs ''output_config'' of
     None \<Rightarrow> ([], [])
   | Some raw \<Rightarrow> (case unmarshal_fields raw of
       None \<Rightarrow> ([], [''malformed output configuration ignored''])
     | Some output \<Rightarrow> (case map_of output ''effort'' of
         None \<Rightarrow> ([], [])
       | Some effort \<Rightarrow> (case string_field effort of
           None \<Rightarrow> ([], [''malformed effort ignored''])
         | Some e \<Rightarrow> (let e' = ToLower u (TrimSpace e)
                     in if e' \<in> efforts then (e', []) else ([], [''unsupported effort ignored'']))))))"

definition control_allows :: "bytes \<Rightarrow> bytes \<Rightarrow> bool" where
  "control_allows control raw0 =
     (let raw = trim_space raw0
      in if control \<in> {''container'', ''inference_geo''} then raw = ''null''
         else if control \<in> {''mcp_servers'', ''stop_sequences''}
         then 2 \<le> length raw \<and> hd raw = CHR ''['' \<and> last raw = CHR '']'' \<and> trim_space (butlast (tl raw)) = []
         else False)"

definition controls :: "bytes list" where
  "controls = [''mcp_servers'', ''container'', ''inference_geo'', ''service_tier'', ''stop_sequences'', ''temperature'',
     ''top_p'', ''top_k'']"

definition ValidateControls :: "(bytes \<times> bytes) list \<Rightarrow> request_error option" where
  "ValidateControls extra = (case filter (\<lambda>c. \<exists>raw \<in> set_option (map_of extra c). \<not> control_allows c raw) controls of
     [] \<Rightarrow> None
   | c # _ \<Rightarrow> Some (UnsupportedControlError c))"

definition known_fields :: "bytes set" where
  "known_fields = {''model'', ''max_tokens'', ''stream'', ''system'', ''messages'', ''tools''}"

definition decode_model :: "(bytes \<times> bytes) list \<Rightarrow> bytes option" where
  "decode_model fs =
     do {
       m \<leftarrow> string_field (field fs ''model'');
       (if m = [] \<or> 256 < length m \<or> contains_any m [CHR '' '', CHR 0x09, CHR 0x0D, CHR 0x0A, CHR ''/'', CHR 0x5C]
        then None else Some m)
     }"

definition decode_max_tokens :: "(bytes \<times> bytes) list \<Rightarrow> int option" where
  "decode_max_tokens fs =
     (let raw = field fs ''max_tokens''
      in if raw = [] \<or> hd raw = CHR ''n'' then None
         else case unmarshal_int raw of
             None \<Rightarrow> None
           | Some n \<Rightarrow> if n \<le> 0 \<or> 1048576 < n then None else Some n)"

definition decode_system :: "(bytes \<times> bytes) list \<Rightarrow> block list option" where
  "decode_system fs = (case map_of fs ''system'' of
     None \<Rightarrow> Some []
   | Some raw \<Rightarrow> (case content raw of
       None \<Rightarrow> None
     | Some bs \<Rightarrow> if list_all (\<lambda>b. BType b = ''text'') bs then Some bs else None))"

definition decode_request_tools :: "(bytes \<times> bytes) list \<Rightarrow> bytes list option" where
  "decode_request_tools fs = (case map_of fs ''tools'' of
     None \<Rightarrow> Some []
   | Some raw \<Rightarrow>
       if raw = [] \<or> hd raw \<noteq> CHR ''['' then None
       else (case unmarshal_raws raw of
           None \<Rightarrow> None
         | Some ts \<Rightarrow> if 128 < length ts \<or> list_ex (\<lambda>t. ndjson_Object t = None) ts then None else Some ts))"

definition decode_stream :: "(bytes \<times> bytes) list \<Rightarrow> bool option" where
  "decode_stream fs = (case map_of fs ''stream'' of
     None \<Rightarrow> Some False
   | Some raw \<Rightarrow> if raw \<noteq> ''true'' \<and> raw \<noteq> ''false'' then None else Some (raw = ''true''))"

text \<open>Everything that can only fail with \<open>ErrRequest\<close>.\<close>

definition decode_fields :: "unicode_tables \<Rightarrow> decode_config \<Rightarrow> (bytes \<times> bytes) list \<Rightarrow> request option" where
  "decode_fields u dc fs =
     do {
       model \<leftarrow> decode_model fs;
       maxTokens \<leftarrow> decode_max_tokens fs;
       stream \<leftarrow> decode_stream fs;
       system \<leftarrow> decode_system fs;
       raws \<leftarrow> unmarshal_raws (field fs ''messages'');
       (if raws = [] \<or> 4096 < length raws then None else Some ());
       ms \<leftarrow> decode_messages dc raws (0, 0);
       (if user_at ms = None then None else Some ());
       ts \<leftarrow> decode_request_tools fs;
       Some \<lparr>Identity = \<lparr>IdSession = [], IdAgent = [], IdParentAgent = []\<rparr>, ReqModel = model, MaxTokens = maxTokens,
         Stream = stream, System = system, Messages = ms, ReqTools = ts, Effort = fst (decode_effort u fs),
         Extra = filter (\<lambda>(k, _). k \<notin> known_fields) fs, Warnings = snd (decode_effort u fs)\<rparr>
     }"

definition DecodeRequest :: "unicode_tables \<Rightarrow> decode_config \<Rightarrow> bytes \<Rightarrow> request_error + request" where
  "DecodeRequest u dc body =
     (if MaxBodyBytes < length body then Inl ErrRequest
      else case Option.bind (ndjson_Object body) (decode_fields u dc) of
          None \<Rightarrow> Inl ErrRequest
        | Some r \<Rightarrow> (case ValidateControls (Extra r) of Some e \<Rightarrow> Inl e | None \<Rightarrow> Inr r))"

definition TextOnly :: "request \<Rightarrow> bool" where
  "TextOnly r \<longleftrightarrow> ReqTools r = [] \<and> list_all (\<lambda>m. list_all (\<lambda>b. BType b = ''text'') (Content m)) (Messages r)"

subsection \<open>Client content and tool policy\<close>

definition client_block :: "bytes \<Rightarrow> block \<Rightarrow> bool" where
  "client_block role b =
     (if BType b = ''text'' then True
      else if BType b = ''image'' \<or> BType b = ''document'' then role = ''user'' \<and> Media b \<noteq> None
      else if BType b = ''tool_use'' then
        (case ndjson_Object (BRaw b) of
           None \<Rightarrow> False
         | Some fs \<Rightarrow> (case (string_field (field fs ''id''), string_field (field fs ''name'')) of
             (Some i, Some n) \<Rightarrow> role = ''assistant'' \<and> ToolUse_Valid \<lparr>UID = i, UName = n, UInput = field fs ''input''\<rparr>
           | _ \<Rightarrow> False))
      else if BType b = ''tool_result'' then role = ''user'' \<and> DecodeToolResult (BRaw b) \<noteq> None
      else False)"

definition ClientContent :: "request \<Rightarrow> bool" where
  "ClientContent r \<longleftrightarrow> list_all (\<lambda>m. list_all (client_block (Role m)) (Content m)) (Messages r)"

text \<open>\<open>Some True\<close> disables tools; \<open>None\<close> is \<open>ErrRequest\<close>.\<close>

definition ToolPolicy :: "request \<Rightarrow> bool option" where
  "ToolPolicy r = (case map_of (Extra r) ''tool_choice'' of
     None \<Rightarrow> Some False
   | Some raw \<Rightarrow>
       do {
         fs \<leftarrow> ndjson_Object raw;
         kind \<leftarrow> string_field (field fs ''type'');
         (if list_all (\<lambda>(k, v). k = ''type'' \<or> (k = ''disable_parallel_tool_use'' \<and> v = ''false'')) fs
          then Some () else None);
         (if kind = ''auto'' then Some False else if kind = ''none'' then Some True else None)
       })"

definition LatestToolResults :: "request \<Rightarrow> tool_outcome list option" where
  "LatestToolResults r = (case LatestUserIndex r of
     None \<Rightarrow> None
   | Some latest \<Rightarrow>
       all_some (map (\<lambda>b. DecodeToolResult (BRaw b))
         (filter (\<lambda>b. BType b = ''tool_result'') (Content (Messages r ! latest)))))"

end
