(* ===== verification/Messages_Props.thy ===== *)
theory Messages_Props
  imports Messages
begin

text \<open>
  What a decoded Messages request guarantees to the code behind it, and which errors decoding can report.
\<close>

subsection \<open>Media budget\<close>

definition media_list :: "block list \<Rightarrow> media list" where
  "media_list ps = List.map_filter Media ps"

text \<open>The parts of a message block that count: the block itself or the content of a tool result.\<close>

definition block_parts :: "decode_config \<Rightarrow> block \<Rightarrow> block list" where
  "block_parts dc b =
     (if BType b = ''image'' \<or> BType b = ''document'' then [b]
      else if BType b = ''tool_result'' then
        (case Option.bind (DecodeToolResult (BRaw b)) (PromptContent dc) of None \<Rightarrow> [] | Some ps \<Rightarrow> ps)
      else [])"

definition request_media :: "decode_config \<Rightarrow> message list \<Rightarrow> media list" where
  "request_media dc ms = concat (map (\<lambda>m. concat (map (\<lambda>b. media_list (block_parts dc b)) (Content m))) ms)"

definition within_budget :: "nat \<times> nat \<Rightarrow> bool" where
  "within_budget n \<longleftrightarrow> fst n \<le> MaxRequestMediaParts \<and> snd n \<le> MaxRequestMediaTotalBytes"

definition charged :: "nat \<times> nat \<Rightarrow> media list \<Rightarrow> nat \<times> nat" where
  "charged n xs = (fst n + length xs, snd n + (\<Sum>m \<leftarrow> xs. Bytes m))"

lemma charged_append [simp]: "charged (charged n xs) ys = charged n (xs @ ys)"
  by (simp add: charged_def)

lemma charged_Nil [simp]: "charged n [] = n"
  by (simp add: charged_def)

lemma media_budget_spec:
  "media_budget ps n = Some n' \<Longrightarrow> n' = charged n (media_list ps) \<and> (within_budget n \<longrightarrow> within_budget n')"
  by (induction ps n rule: media_budget.induct)
    (auto simp: media_list_def charged_def within_budget_def List.map_filter_simps split: option.splits if_splits)

lemma decode_block_parts:
  "decode_block dc role b = Some (b', ps) \<Longrightarrow> ps = block_parts dc b' \<and> BType b' = BType b"
  by (auto simp: decode_block_def block_parts_def Option.bind_eq_Some_conv split: if_splits)

lemma decode_blocks_spec:
  "decode_blocks dc role bs n = Some (bs', n') \<Longrightarrow>
     n' = charged n (concat (map (\<lambda>b. media_list (block_parts dc b)) bs'))
     \<and> (within_budget n \<longrightarrow> within_budget n') \<and> length bs' = length bs"
proof (induction bs arbitrary: n bs' n')
  case (Cons b bs)
  from Cons.prems obtain b' ps n1 bs1 where
    b: "decode_block dc role b = Some (b', ps)" "media_budget ps n = Some n1"
    "decode_blocks dc role bs n1 = Some (bs1, n')" "bs' = b' # bs1"
    by (auto simp: Option.bind_eq_Some_conv)
  with Cons.IH [OF b(3)] media_budget_spec [OF b(2)] decode_block_parts [OF b(1)] show ?case by auto
qed simp

subsection \<open>Messages\<close>

definition message_ok :: "message \<Rightarrow> bool" where
  "message_ok m \<longleftrightarrow> Role m \<in> {''user'', ''assistant'', ''system''} \<and> Content m \<noteq> []
     \<and> (Role m = ''system'' \<longrightarrow> (\<forall>b \<in> set (Content m). BType b = ''text''))"

lemma decode_message_spec:
  "decode_message dc raw n = Some (m, n') \<Longrightarrow> message_ok m \<and> n' = charged n (request_media dc [m])
     \<and> (within_budget n \<longrightarrow> within_budget n')"
proof -
  assume "decode_message dc raw n = Some (m, n')"
  then obtain role c c' where
    r: "role \<in> {''user'', ''assistant'', ''system''}" "c \<noteq> []"
      "decode_blocks dc role c n = Some (c', n')" "role = ''system'' \<longrightarrow> list_all (\<lambda>b. BType b = ''text'') c'"
      "m = \<lparr>Role = role, Content = c'\<rparr>"
    by (auto simp: decode_message_def Option.bind_eq_Some_conv split: if_splits option.splits)
  with decode_blocks_spec [OF r(3)] show ?thesis
    by (auto simp: message_ok_def request_media_def list_all_iff)
qed

lemma decode_messages_spec:
  "decode_messages dc raws n = Some ms \<Longrightarrow> within_budget n \<Longrightarrow>
     length ms = length raws \<and> (\<forall>m \<in> set ms. message_ok m) \<and> within_budget (charged n (request_media dc ms))"
proof (induction raws arbitrary: n ms)
  case Nil
  then show ?case by (simp add: request_media_def)
next
  case (Cons raw raws)
  from Cons.prems(1) obtain m n1 ms1 where
    m: "decode_message dc raw n = Some (m, n1)" "decode_messages dc raws n1 = Some ms1" "ms = m # ms1"
    by (auto simp: Option.bind_eq_Some_conv)
  have "request_media dc ms = request_media dc [m] @ request_media dc ms1" by (simp add: m(3) request_media_def)
  with Cons.IH [OF m(2)] decode_message_spec [OF m(1)] Cons.prems(2) m(3) show ?case by auto
qed

lemma latest_user_index:
  "LatestUserIndex r = Some i \<longleftrightarrow> i < length (Messages r) \<and> Role (Messages r ! i) = ''user''
     \<and> list_all (\<lambda>m. Role m = ''system'') (drop (Suc i) (Messages r))"
proof -
  define ms where "ms = Messages r"
  have "user_at ms = Some i \<longleftrightarrow> i < length ms \<and> Role (ms ! i) = ''user'' \<and> list_all (\<lambda>m. Role m = ''system'') (drop (Suc i) ms)"
  proof (induction ms rule: rev_induct)
    case (snoc m ms)
    show ?case
    proof (cases "Role m = ''system''")
      case True
      then have "user_at (ms @ [m]) = user_at ms" by (simp add: user_at_def)
      with snoc True show ?thesis by (auto simp: nth_append less_Suc_eq)
    next
      case False
      then show ?thesis by (auto simp: user_at_def nth_append list_all_iff less_Suc_eq Suc_diff_le)
    qed
  qed (simp add: user_at_def)
  then show ?thesis by (simp add: LatestUserIndex_def ms_def)
qed

text \<open>
  The latest user message: \<open>LatestUserIndex\<close> answers \<open>i\<close> exactly when message \<open>i\<close> is a user message and every
  message after it carries the system role; so a request that ends in an assistant message has none.
\<close>

theorem latest_user_index_spec:
  "LatestUserIndex r = Some i \<longleftrightarrow> i < length (Messages r) \<and> Role (Messages r ! i) = ''user''
     \<and> list_all (\<lambda>m. Role m = ''system'') (drop (Suc i) (Messages r))"
  by (rule latest_user_index)

subsection \<open>Requests\<close>

lemma decode_fields_spec:
  assumes "decode_fields u dc fs = Some r"
  shows "decode_model fs = Some (ReqModel r)" "decode_max_tokens fs = Some (MaxTokens r)"
    "decode_system fs = Some (System r)" "decode_request_tools fs = Some (ReqTools r)" "user_at (Messages r) \<noteq> None"
    "\<exists>raws. raws \<noteq> [] \<and> length raws \<le> 4096 \<and> decode_messages dc raws (0, 0) = Some (Messages r)"
    "Effort r = fst (decode_effort u fs)" "Extra r = filter (\<lambda>(k, _). k \<notin> known_fields) fs"
  using assms by (auto simp: decode_fields_def Option.bind_eq_Some_conv split: if_splits)

lemma decode_effort_known: "fst (decode_effort u fs) \<in> efforts"
  by (auto simp: decode_effort_def Let_def efforts_def split: option.splits)

lemma decode_model_plain:
  assumes "decode_model fs = Some m"
  shows "m \<noteq> []" "length m \<le> 256" "\<not> contains_any m '' /''"
proof -
  have m: "m \<noteq> [] \<and> length m \<le> 256 \<and> \<not> contains_any m [CHR '' '', CHR 0x09, CHR 0x0D, CHR 0x0A, CHR ''/'', CHR 0x5C]"
    using assms unfolding decode_model_def Option.bind_eq_Some_conv by (metis linorder_not_less option.distinct(1) option.inject)
  then show "m \<noteq> []" "length m \<le> 256" by blast+
  show "\<not> contains_any m '' /''" using m unfolding contains_any_def list_ex_iff by auto
qed

lemma decode_max_tokens_range: "decode_max_tokens fs = Some n \<Longrightarrow> 1 \<le> n \<and> n \<le> 1048576"
  by (simp add: decode_max_tokens_def Let_def split: if_splits option.splits)

lemma decode_system_text: "decode_system fs = Some bs \<Longrightarrow> \<forall>b \<in> set bs. BType b = ''text''"
  by (auto simp: decode_system_def list_all_iff split: option.splits if_splits)

lemma decode_tools_length: "decode_request_tools fs = Some ts \<Longrightarrow> length ts \<le> 128"
  by (auto simp: decode_request_tools_def split: option.splits if_splits)

lemma controls_allowed:
  "ValidateControls extra = None \<Longrightarrow> c \<in> set controls \<Longrightarrow> map_of extra c = Some raw \<Longrightarrow> control_allows c raw"
  by (auto simp: ValidateControls_def filter_empty_conv split: list.splits)

lemma DecodeRequest_accepts:
  assumes "DecodeRequest u dc body = Inr r"
  obtains fs where "length body \<le> MaxBodyBytes" "ndjson_Object body = Some fs" "decode_fields u dc fs = Some r"
    "ValidateControls (Extra r) = None"
  using assms by (auto simp: DecodeRequest_def Option.bind_eq_Some_conv split: if_splits option.splits)

text \<open>
  C10: a request that \<open>DecodeRequest\<close> accepts is well formed: a plain model name, a token limit between 1 and
  \<open>2^20\<close>, a known effort, 1 to 4096 messages with a known role and content, text-only system content, at most
  128 tools, a latest user message, no control the adapter cannot honour, and inline media over all messages
  (tool results included) of at most 256 parts and 12 MiB.
\<close>

theorem decoded_request_wellformed:
  assumes "DecodeRequest u dc body = Inr r"
  shows "length body \<le> MaxBodyBytes
    \<and> ReqModel r \<noteq> [] \<and> length (ReqModel r) \<le> 256 \<and> \<not> contains_any (ReqModel r) '' /''
    \<and> 1 \<le> MaxTokens r \<and> MaxTokens r \<le> 1048576 \<and> Effort r \<in> efforts
    \<and> 1 \<le> length (Messages r) \<and> length (Messages r) \<le> 4096 \<and> (\<forall>m \<in> set (Messages r). message_ok m)
    \<and> (\<forall>b \<in> set (System r). BType b = ''text'') \<and> length (ReqTools r) \<le> 128 \<and> LatestUserIndex r \<noteq> None
    \<and> (\<forall>c \<in> set controls. \<forall>raw. map_of (Extra r) c = Some raw \<longrightarrow> control_allows c raw)
    \<and> length (request_media dc (Messages r)) \<le> 256
    \<and> (\<Sum>m \<leftarrow> request_media dc (Messages r). Bytes m) \<le> 12582912"
proof -
  from assms obtain fs where body: "length body \<le> MaxBodyBytes" and d: "decode_fields u dc fs = Some r"
    and v: "ValidateControls (Extra r) = None" by (rule DecodeRequest_accepts)
  note s = decode_fields_spec [OF d]
  obtain raws where r: "raws \<noteq> []" "length raws \<le> 4096" "decode_messages dc raws (0, 0) = Some (Messages r)"
    using s(6) by blast
  have m: "length (Messages r) = length raws" "\<forall>m \<in> set (Messages r). message_ok m"
    "within_budget (charged (0, 0) (request_media dc (Messages r)))"
    using decode_messages_spec [OF r(3)] by (simp_all add: within_budget_def)
  show ?thesis
  proof (intro conjI)
    show "\<forall>c \<in> set controls. \<forall>raw. map_of (Extra r) c = Some raw \<longrightarrow> control_allows c raw"
      using controls_allowed [OF v] by blast
    show "length (request_media dc (Messages r)) \<le> 256" "(\<Sum>m \<leftarrow> request_media dc (Messages r). Bytes m) \<le> 12582912"
      using m(3) by (simp_all add: within_budget_def charged_def MaxRequestMediaParts_def MaxRequestMediaTotalBytes_def)
    show "1 \<le> length (Messages r)" "length (Messages r) \<le> 4096" using r m(1) by (simp_all add: Suc_le_eq)
    show "Effort r \<in> efforts" using decode_effort_known s(7) by simp
    show "LatestUserIndex r \<noteq> None" using s(5) by (simp add: LatestUserIndex_def)
  qed (use body m(2) decode_model_plain [OF s(1)] decode_max_tokens_range [OF s(2)] decode_system_text [OF s(3)]
      decode_tools_length [OF s(4)] in blast)+
qed

text \<open>
  decoding reports only \<open>ErrRequest\<close> or a fixed control name: nothing the client sent is part of an error, and
  a named control is present in the body and not in its neutral form.
\<close>

theorem decode_errors_name_fixed_controls:
  "DecodeRequest u dc body = Inl e \<Longrightarrow> e = ErrRequest
     \<or> (\<exists>c fs raw. c \<in> set controls \<and> e = UnsupportedControlError c \<and> ndjson_Object body = Some fs
          \<and> map_of fs c = Some raw \<and> \<not> control_allows c raw)"
proof -
  assume a: "DecodeRequest u dc body = Inl e"
  show ?thesis
  proof (cases "e = ErrRequest")
    case False
    with a obtain fs r where d: "ndjson_Object body = Some fs" "decode_fields u dc fs = Some r"
      and v: "ValidateControls (Extra r) = Some e"
      by (auto simp: DecodeRequest_def Option.bind_eq_Some_conv split: if_splits option.splits)
    from v obtain c cs where f: "filter (\<lambda>c. \<exists>raw \<in> set_option (map_of (Extra r) c). \<not> control_allows c raw) controls = c # cs"
      and e: "e = UnsupportedControlError c"
      by (auto simp: ValidateControls_def split: list.splits)
    have "c \<in> set (c # cs)" by simp
    then obtain raw where c: "c \<in> set controls" "map_of (Extra r) c = Some raw" "\<not> control_allows c raw"
      unfolding f [symmetric] by auto
    moreover have "map_of fs c = Some raw"
      using c(2) unfolding decode_fields_spec(8) [OF d(2)] map_of_filter_keys by (simp split: if_splits)
    ultimately show ?thesis using d(1) e by blast
  qed simp
qed

subsection \<open>A concrete request\<close>

definition ex_unicode :: unicode_tables where
  "ex_unicode = \<lparr>uni_letter = (\<lambda>_. False), uni_lower = (\<lambda>r. r)\<rparr>"

definition ex_dc :: decode_config where "ex_dc = (\<lambda>_. None)"

definition ex_body :: bytes where
  "ex_body = ''{\"model\":\"m\",\"max_tokens\":5,\"messages\":[{\"role\":\"user\",\"content\":\"hi\"}]}''"

definition ex_request :: request where
  "ex_request = \<lparr>Identity = \<lparr>IdSession = [], IdAgent = [], IdParentAgent = []\<rparr>, ReqModel = ''m'', MaxTokens = 5,
     Stream = False, System = [],
     Messages = [\<lparr>Role = ''user'', Content = [\<lparr>BType = ''text'', BText = ''hi'', BRaw = ''\"hi\"'', bmedia = None\<rparr>]\<rparr>],
     ReqTools = [], Effort = [], Extra = [], Warnings = []\<rparr>"

definition ex_body_control :: bytes where
  "ex_body_control = ''{\"model\":\"m\",\"max_tokens\":5,\"top_k\":1,\"messages\":[{\"role\":\"user\",\"content\":\"hi\"}]}''"

lemma ex_decoded: "DecodeRequest ex_unicode ex_dc ex_body = Inr ex_request"
  by code_simp

lemma ex_refused: "DecodeRequest ex_unicode ex_dc ex_body_control = Inl (UnsupportedControlError ''top_k'')"
  by code_simp

theorem decoded_request_wellformed_witness:
  "DecodeRequest ex_unicode ex_dc ex_body = Inr ex_request \<and> ReqModel ex_request \<noteq> [] \<and> 1 \<le> MaxTokens ex_request
   \<and> LatestUserIndex ex_request \<noteq> None \<and> length (request_media ex_dc (Messages ex_request)) \<le> 256"
  using decoded_request_wellformed [OF ex_decoded] ex_decoded by blast

theorem decode_errors_name_fixed_controls_witness:
  "DecodeRequest ex_unicode ex_dc ex_body_control = Inl (UnsupportedControlError ''top_k'')
   \<and> (\<exists>fs raw. ndjson_Object ex_body_control = Some fs \<and> map_of fs ''top_k'' = Some raw \<and> \<not> control_allows ''top_k'' raw)"
  using decode_errors_name_fixed_controls [OF ex_refused] ex_refused by auto

end
