(* ===== verification/History.thy ===== *)
theory History
  imports Messages
begin

text \<open>
  Reconciling a client's conversation with what the backend already holds, \<open>internal/history/history.go\<close>, by
  keyed digests of canonical messages. The keyed hash (HMAC-SHA-256 under the hasher's key) is the argument
  \<open>mac\<close>. The theory also holds \<open>internal/requestfamily/classify.go\<close>, which tells background requests apart.
\<close>

definition MaxNodes :: nat where "MaxNodes = 8192"

datatype mode = Fresh | Extend | Duplicate | Diverged

record node =
  NRole :: bytes
  Digest :: bytes

record pair =
  Assistant :: bytes
  User :: bytes

record snapshot =
  Nodes :: "node list"
  Pairs :: "pair list"

record plan =
  Mode :: mode
  Start :: nat
  plan_nodes :: "node list"

type_synonym mac = "bytes \<Rightarrow> bytes"

text \<open>\<open>Digest\<close> on the marshalled value \<open>b\<close>.\<close>

definition hasher_Digest :: "mac \<Rightarrow> bytes \<Rightarrow> bytes \<Rightarrow> bytes option" where
  "hasher_Digest mac domain b =
     (if MaxBodyBytes < length b then None
      else Some (hex_encode (mac (''dax-history-v1'' @ [CHR 0x00] @ domain @ [CHR 0x00] @ b))))"

definition text_object :: "bytes \<Rightarrow> bytes" where
  "text_object t = obj_text [(''text'', quote t), (''type'', quote ''text'')]"

text \<open>\<open>json.Marshal\<close> of a map of raw messages: sorted keys, compacted values.\<close>

definition marshal_fields :: "(bytes \<times> bytes) list \<Rightarrow> bytes" where
  "marshal_fields fs = obj_text (sort_keys (map (\<lambda>(k, v). (k, compact v)) fs))"

text \<open>The content of a tool result without cache hints; other values stay as they are.\<close>

definition canonical_content :: "bytes \<Rightarrow> bytes option" where
  "canonical_content raw = (case raw of
     [] \<Rightarrow> Some ''[]''
   | c # _ \<Rightarrow>
       if c = CHR 0x22 then map_option (\<lambda>t. arr_text [text_object t]) (unmarshal_string raw)
       else if c = CHR ''['' then
         (case unmarshal_raws raw of
            None \<Rightarrow> None
          | Some values \<Rightarrow>
              map_option (\<lambda>vs. arr_text (map compact vs))
                (all_some (map (\<lambda>v. map_option (\<lambda>obj. marshal_fields (adel ''cache_control'' obj)) (ndjson_Object v)) values)))
       else Some raw)"

definition default_is_error :: "(bytes \<times> bytes) list \<Rightarrow> (bytes \<times> bytes) list" where
  "default_is_error fs = (if has_key fs ''is_error'' then fs else aset ''is_error'' ''false'' fs)"

text \<open>The fields of a block in the form that is hashed: explicit defaults for tool results.\<close>

definition canonical_fields :: "bytes \<Rightarrow> (bytes \<times> bytes) list \<Rightarrow> (bytes \<times> bytes) list option" where
  "canonical_fields ty fs =
     (if ty = ''tool_result'' then
        map_option (\<lambda>c. aset ''content'' c (default_is_error fs)) (canonical_content (field (default_is_error fs) ''content''))
      else Some fs)"

definition canonicalBlock :: "block \<Rightarrow> bytes option" where
  "canonicalBlock b =
     (if BType b = ''text'' \<and> (BRaw b = [] \<or> hd (BRaw b) = CHR 0x22) then Some (text_object (BText b))
      else do {
        all \<leftarrow> ndjson_Object (BRaw b);
        fs \<leftarrow> canonical_fields (BType b) (adel ''cache_control'' all);
        jsoncanon_Object (marshal_fields fs)
      })"

definition message_text :: "bytes \<Rightarrow> bytes list \<Rightarrow> bytes" where
  "message_text role blocks = obj_text [(''Role'', quote role), (''Content'', arr_text (map compact blocks))]"

definition hasher_Message :: "mac \<Rightarrow> message \<Rightarrow> node option" where
  "hasher_Message mac m =
     (if Role m \<notin> {''user'', ''assistant'', ''system''} then None
      else do {
        blocks \<leftarrow> all_some (map canonicalBlock (Content m));
        d \<leftarrow> hasher_Digest mac ''message'' (message_text (Role m) blocks);
        Some \<lparr>NRole = Role m, Digest = d\<rparr>
      })"

definition hasher_Nodes :: "mac \<Rightarrow> message list \<Rightarrow> node list option" where
  "hasher_Nodes mac ms =
     (if ms = [] \<or> MaxNodes < length ms then None else all_some (map (hasher_Message mac) ms))"

fun pairs_from :: "bytes \<Rightarrow> node list \<Rightarrow> pair list" where
  "pairs_from previous [] = []"
| "pairs_from previous (n # ns) =
     (if NRole n = ''assistant'' then pairs_from (Digest n) ns
      else if NRole n = ''user'' then \<lparr>Assistant = previous, User = Digest n\<rparr> # pairs_from [] ns
      else pairs_from previous ns)"

definition pairs :: "node list \<Rightarrow> pair list" where
  "pairs ns = pairs_from [] ns"

definition node_ok :: "node \<Rightarrow> bool" where
  "node_ok n \<longleftrightarrow> NRole n \<in> {''user'', ''assistant'', ''system''} \<and> length (Digest n) = 64
     \<and> (case hex_decode (Digest n) of None \<Rightarrow> False | Some b \<Rightarrow> length b = 32 \<and> hex_encode b = Digest n)"

definition Snapshot_Valid :: "snapshot \<Rightarrow> bool" where
  "Snapshot_Valid s \<longleftrightarrow>
     \<not> (length (Nodes s) < 2 \<or> MaxNodes < length (Nodes s) \<or> Pairs s = [] \<or> NRole (last (Nodes s)) \<noteq> ''assistant'')
     \<and> list_all node_ok (Nodes s) \<and> Pairs s = pairs (Nodes s)"

text \<open>The overlap search: the longest suffix of the stored nodes, with both roles, that starts the request.\<close>

definition both_roles :: "node list \<Rightarrow> bool" where
  "both_roles ns \<longleftrightarrow> list_ex (\<lambda>n. NRole n = ''user'') ns \<and> list_ex (\<lambda>n. NRole n = ''assistant'') ns"

fun overlap :: "node list \<Rightarrow> node list \<Rightarrow> nat \<Rightarrow> nat option" where
  "overlap stored nodes 0 = None"
| "overlap stored nodes (Suc n) =
     (if Suc n < 2 then None
      else if drop (length stored - Suc n) stored = take (Suc n) nodes \<and> both_roles (take (Suc n) nodes) then Some (Suc n)
      else overlap stored nodes n)"

definition Plan :: "mac \<Rightarrow> snapshot \<Rightarrow> request \<Rightarrow> plan option" where
  "Plan mac s r = (case (hasher_Nodes mac (Messages r), LatestUserIndex r) of
     (Some nodes, Some latest) \<Rightarrow>
       (if Nodes s = [] then Some \<lparr>Mode = Fresh, Start = 0, plan_nodes = nodes\<rparr>
        else if \<not> Snapshot_Valid s then None
        else if length nodes = length (Nodes s) - 1 \<and> nodes = butlast (Nodes s)
          then Some \<lparr>Mode = Duplicate, Start = 0, plan_nodes = nodes\<rparr>
        else case (if length (Nodes s) < length nodes \<and> take (length (Nodes s)) nodes = Nodes s
                   then Some (length (Nodes s))
                   else overlap (Nodes s) nodes (min (length (Nodes s)) (length nodes - 1))) of
            None \<Rightarrow> Some \<lparr>Mode = Diverged, Start = 0, plan_nodes = nodes\<rparr>
          | Some start \<Rightarrow>
              if latest < start \<or> MaxNodes \<le> length (Nodes s) + length nodes - start
              then Some \<lparr>Mode = Diverged, Start = 0, plan_nodes = nodes\<rparr>
              else Some \<lparr>Mode = Extend, Start = start, plan_nodes = Nodes s @ drop start nodes\<rparr>)
   | _ \<Rightarrow> None)"

definition Complete :: "mac \<Rightarrow> plan \<Rightarrow> block list \<Rightarrow> snapshot option" where
  "Complete mac p c =
     (if plan_nodes p = [] \<or> MaxNodes \<le> length (plan_nodes p) then None
      else case hasher_Message mac \<lparr>Role = ''assistant'', Content = c\<rparr> of
          None \<Rightarrow> None
        | Some n \<Rightarrow> Some \<lparr>Nodes = plan_nodes p @ [n], Pairs = pairs (plan_nodes p @ [n])\<rparr>)"

definition Pending_snapshot :: "mac \<Rightarrow> message list \<Rightarrow> block list \<Rightarrow> snapshot option" where
  "Pending_snapshot mac ms c = (case hasher_Nodes mac ms of
     None \<Rightarrow> None
   | Some nodes \<Rightarrow> Complete mac \<lparr>Mode = Fresh, Start = 0, plan_nodes = nodes\<rparr> c)"

subsection \<open>Request families\<close>

datatype family = Main | TitleRequest | ToolFollowup | LocalCommand | Resume | Retry

definition stringIs :: "bytes \<Rightarrow> bytes \<Rightarrow> bool" where
  "stringIs raw want \<longleftrightarrow> string_field raw = Some want"

text \<open>The structural signals of a title request: disabled thinking and a schema with one string \<open>title\<close>.\<close>

definition title_schema :: "request \<Rightarrow> bool" where
  "title_schema r \<longleftrightarrow>
     (case map_of (Extra r) ''thinking'' of
        None \<Rightarrow> True
      | Some raw \<Rightarrow> (case ndjson_Object raw of None \<Rightarrow> False | Some t \<Rightarrow> stringIs (field t ''type'') ''disabled''))
     \<and> do {
       output \<leftarrow> ndjson_Object (field (Extra r) ''output_config'');
       fmt \<leftarrow> ndjson_Object (field output ''format'');
       (if stringIs (field fmt ''type'') ''json_schema'' then Some () else None);
       schema \<leftarrow> ndjson_Object (field fmt ''schema'');
       (if stringIs (field schema ''type'') ''object'' then Some () else None);
       properties \<leftarrow> ndjson_Object (field schema ''properties'');
       (if length properties = 1 then Some () else None);
       title \<leftarrow> ndjson_Object (field properties ''title'');
       (if stringIs (field title ''type'') ''string'' then Some () else None);
       required \<leftarrow> unmarshal_strings (field schema ''required'');
       (if required = [''title''] then Some () else None)
     } = Some ()"

definition title_words :: "unicode_tables \<Rightarrow> request \<Rightarrow> bool" where
  "title_words u r =
     (let ws = concat (map (\<lambda>b. letter_words u (ToLower u (BText b))) (System r));
          has = (\<lambda>w. w \<in> set ws)
      in has ''title'' \<and> (has ''conversation'' \<or> has ''session'' \<or> has ''chat'')
         \<and> (has ''create'' \<or> has ''generate'' \<or> has ''write'' \<or> has ''return''))"

definition Classify :: "unicode_tables \<Rightarrow> request \<Rightarrow> family" where
  "Classify u r =
     (if (case LatestToolResults r of None \<Rightarrow> False | Some rs \<Rightarrow> rs \<noteq> []) then ToolFollowup
      else if ReqTools r \<noteq> [] then Main
      else if 32768 < (\<Sum>b \<leftarrow> System r. length (BText b)) \<or> 1024 < length (field (Extra r) ''thinking'')
              \<or> 65536 < length (field (Extra r) ''output_config'') then Main
      else if title_schema r \<and> title_words u r then TitleRequest
      else Main)"

definition Group :: "family \<Rightarrow> bytes" where
  "Group k = (if k = TitleRequest then ''title'' else ''main'')"

end
