(* ===== verification/History_Props.thy ===== *)
theory History_Props
  imports History Messages_Props "HOL-Library.Multiset"
begin

text \<open>
  The reconciliation is sound (a continued session holds exactly the context the request repeats), finds the
  longest overlap, produces valid snapshots, recognises the next turn and a retry, and its digests do not depend
  on key order or cache hints.
\<close>

lemma all_some_length: "all_some xs = Some ys \<Longrightarrow> length ys = length xs"
  by (induction xs arbitrary: ys) (auto split: option.splits)

lemma all_some_nth: "all_some xs = Some ys \<Longrightarrow> i < length xs \<Longrightarrow> xs ! i = Some (ys ! i)"
proof (induction xs arbitrary: ys i)
  case (Cons x xs)
  then show ?case by (cases i) (auto split: option.splits)
qed simp

lemma all_some_set: "all_some xs = Some ys \<Longrightarrow> y \<in> set ys \<Longrightarrow> Some y \<in> set xs"
  by (induction xs arbitrary: ys) (auto split: option.splits)

subsection \<open>Pairs and validity\<close>

lemma pairs_users: "map User (pairs_from prev ns) = map Digest (filter (\<lambda>n. NRole n = ''user'') ns)"
  by (induction prev ns rule: pairs_from.induct) auto

lemma pairs_nonempty: "pairs ns \<noteq> [] \<longleftrightarrow> list_ex (\<lambda>n. NRole n = ''user'') ns"
proof -
  have "pairs ns = [] \<longleftrightarrow> filter (\<lambda>n. NRole n = ''user'') ns = []"
    using pairs_users [of "[]" ns] unfolding pairs_def by (metis map_is_Nil_conv)
  then show ?thesis by (simp add: filter_empty_conv list_ex_iff)
qed

lemma valid_both_roles:
  assumes "Snapshot_Valid s"
  shows "both_roles (Nodes s)"
proof -
  have "Nodes s \<noteq> []" "pairs (Nodes s) \<noteq> []" "NRole (last (Nodes s)) = ''assistant''"
    using assms by (auto simp: Snapshot_Valid_def)
  then show ?thesis unfolding both_roles_def by (auto simp: pairs_nonempty list_ex_iff)
qed

lemma hasher_Message_ok:
  assumes "\<forall>x. length (mac x) = 32" "hasher_Message mac m = Some n"
  shows "node_ok n \<and> NRole n = Role m"
  using assms by (auto simp: hasher_Message_def hasher_Digest_def node_ok_def Option.bind_eq_Some_conv split: if_splits)

lemma hasher_Nodes_ok:
  assumes "\<forall>x. length (mac x) = 32" "hasher_Nodes mac ms = Some ns"
  shows "list_all node_ok ns" "map NRole ns = map Role ms" "ns \<noteq> []"
proof -
  have a: "all_some (map (hasher_Message mac) ms) = Some ns" and ne: "ms \<noteq> []"
    using assms(2) by (auto simp: hasher_Nodes_def split: if_splits)
  have l: "length ns = length ms" using all_some_length [OF a] by simp
  have n: "hasher_Message mac (ms ! i) = Some (ns ! i)" if "i < length ms" for i
    using all_some_nth [OF a, of i] that by simp
  show "ns \<noteq> []" using l ne by auto
  show "list_all node_ok ns"
    using n l hasher_Message_ok [OF assms(1)] by (metis list_all_length)
  show "map NRole ns = map Role ms"
    using n l hasher_Message_ok [OF assms(1)] by - (rule nth_equalityI, simp_all)
qed

subsection \<open>The overlap search\<close>

lemma overlap_sound:
  "overlap st ns m = Some k \<Longrightarrow> 2 \<le> k \<and> k \<le> m \<and> drop (length st - k) st = take k ns \<and> both_roles (take k ns)"
  by (induction m) (auto split: if_splits)

lemma overlap_longest:
  "overlap st ns m = r \<Longrightarrow> j \<le> m \<Longrightarrow> drop (length st - j) st = take j ns \<Longrightarrow> both_roles (take j ns) \<Longrightarrow> 2 \<le> j
     \<Longrightarrow> \<exists>k. r = Some k \<and> j \<le> k"
proof (induction m)
  case (Suc m)
  then show ?case by (cases "j = Suc m") (auto split: if_splits)
qed simp

text \<open>The start \<open>Plan\<close> tries, before the capacity checks.\<close>

definition plan_start :: "node list \<Rightarrow> node list \<Rightarrow> nat option" where
  "plan_start st ns =
     (if length st < length ns \<and> take (length st) ns = st then Some (length st)
      else overlap st ns (min (length st) (length ns - 1)))"

lemma plan_start_sound:
  assumes "plan_start st ns = Some k" "both_roles st" "2 \<le> length st"
  shows "2 \<le> k \<and> k < length ns \<and> (\<exists>pre. st = pre @ take k ns) \<and> both_roles (take k ns)"
proof (cases "length st < length ns \<and> take (length st) ns = st")
  case True
  with assms show ?thesis by (auto simp: plan_start_def)
next
  case False
  then have o: "overlap st ns (min (length st) (length ns - 1)) = Some k" using assms(1) unfolding plan_start_def by presburger
  note os = overlap_sound [OF o]
  then have "st = take (length st - k) st @ take k ns" by (metis append_take_drop_id)
  with os show ?thesis by auto
qed

lemma plan_start_longest:
  assumes "plan_start st ns = r" "2 \<le> j" "j \<le> length st" "j < length ns"
    "drop (length st - j) st = take j ns" "both_roles (take j ns)"
  shows "\<exists>k. r = Some k \<and> j \<le> k"
  using assms overlap_longest [of st ns "min (length st) (length ns - 1)" r j]
  by (auto simp: plan_start_def split: if_splits)

lemma Plan_cases:
  assumes "Plan mac s r = Some p"
  obtains ns latest where "hasher_Nodes mac (Messages r) = Some ns" "LatestUserIndex r = Some latest"
    "Mode p \<noteq> Extend \<Longrightarrow> plan_nodes p = ns"
    "Mode p = Extend \<Longrightarrow> Snapshot_Valid s \<and> plan_start (Nodes s) ns = Some (Start p) \<and> Start p \<le> latest
       \<and> plan_nodes p = Nodes s @ drop (Start p) ns \<and> length (Nodes s) + length ns - Start p < MaxNodes"
    "Mode p = Duplicate \<Longrightarrow> Snapshot_Valid s \<and> ns = butlast (Nodes s)"
    "Mode p = Fresh \<Longrightarrow> Nodes s = []"
proof -
  obtain ns latest where n: "hasher_Nodes mac (Messages r) = Some ns" "LatestUserIndex r = Some latest"
    using assms by (auto simp: Plan_def split: option.splits)
  show ?thesis
    using assms by (intro that [OF n]) (auto simp: Plan_def n plan_start_def [symmetric] split: if_splits option.splits)
qed

text \<open>
  C11: a request continues a session only on evidence. If \<open>Plan\<close> chooses \<open>Extend\<close>, the part of the request before
  \<open>Start\<close> is a suffix of the stored conversation that has both a user and an assistant message, everything from
  \<open>Start\<close> on is new and contains the latest user message, the planned conversation is the stored one followed by
  exactly that new part, and no longer overlap exists.
\<close>

theorem plan_extend_sound:
  assumes "Plan mac s r = Some p" "Mode p = Extend"
  shows "\<exists>ns latest pre. hasher_Nodes mac (Messages r) = Some ns \<and> LatestUserIndex r = Some latest
    \<and> Start p \<le> latest \<and> Start p < length ns
    \<and> Nodes s = pre @ take (Start p) ns \<and> both_roles (take (Start p) ns)
    \<and> plan_nodes p = Nodes s @ drop (Start p) ns \<and> length (plan_nodes p) < MaxNodes
    \<and> (\<forall>j. 2 \<le> j \<and> j \<le> length (Nodes s) \<and> j < length ns \<and> drop (length (Nodes s) - j) (Nodes s) = take j ns
         \<and> both_roles (take j ns) \<longrightarrow> j \<le> Start p)"
proof -
  from assms obtain ns latest where n: "hasher_Nodes mac (Messages r) = Some ns" "LatestUserIndex r = Some latest"
    and e: "Snapshot_Valid s" "plan_start (Nodes s) ns = Some (Start p)" "Start p \<le> latest"
      "plan_nodes p = Nodes s @ drop (Start p) ns" "length (Nodes s) + length ns - Start p < MaxNodes"
    by (elim Plan_cases) auto
  have l: "2 \<le> length (Nodes s)" using e(1) by (auto simp: Snapshot_Valid_def)
  have k: "Start p < length ns" "both_roles (take (Start p) ns)" "\<exists>pre. Nodes s = pre @ take (Start p) ns"
    using plan_start_sound [OF e(2) valid_both_roles [OF e(1)] l] by auto
  then obtain pre where pre: "Nodes s = pre @ take (Start p) ns" by blast
  have "length (plan_nodes p) < MaxNodes" using e(4,5) k(1) by simp
  moreover have "j \<le> Start p" if "2 \<le> j" "j \<le> length (Nodes s)" "j < length ns"
    "drop (length (Nodes s) - j) (Nodes s) = take j ns" "both_roles (take j ns)" for j
    using plan_start_longest [OF e(2) that] by simp
  ultimately show ?thesis using n e(3,4) k(1,2) pre by blast
qed

lemma latest_user_role:
  assumes "LatestUserIndex r = Some i" "hasher_Nodes mac (Messages r) = Some ns" "\<forall>x. length (mac x) = 32"
  shows "list_ex (\<lambda>n. NRole n = ''user'') ns"
proof -
  have i: "i < length (Messages r)" "Role (Messages r ! i) = ''user''"
    using assms(1) by (simp_all add: latest_user_index)
  have m: "map NRole ns = map Role (Messages r)" using hasher_Nodes_ok [OF assms(3,2)] by blast
  then have l: "length ns = length (Messages r)" by (metis length_map)
  then have "NRole (ns ! i) = ''user''" using m i by (metis nth_map)
  with i(1) l show ?thesis by (auto simp: list_ex_iff intro!: bexI [of _ "ns ! i"])
qed

lemma plan_nodes_ok:
  assumes "\<forall>x. length (mac x) = 32" "Plan mac s r = Some p"
  shows "list_all node_ok (plan_nodes p) \<and> list_ex (\<lambda>n. NRole n = ''user'') (plan_nodes p)"
proof -
  obtain ns latest where n: "hasher_Nodes mac (Messages r) = Some ns" "LatestUserIndex r = Some latest"
    "Mode p \<noteq> Extend \<Longrightarrow> plan_nodes p = ns"
    "Mode p = Extend \<Longrightarrow> Snapshot_Valid s \<and> plan_nodes p = Nodes s @ drop (Start p) ns"
    using assms(2) by (elim Plan_cases) blast
  have ok: "list_all node_ok ns" using hasher_Nodes_ok [OF assms(1) n(1)] by blast
  show ?thesis
  proof (cases "Mode p = Extend")
    case True
    then have v: "Snapshot_Valid s" "plan_nodes p = Nodes s @ drop (Start p) ns" using n(4) by auto
    have "list_all node_ok (drop (Start p) ns)" using ok by (auto simp: list_all_iff dest: in_set_dropD)
    then show ?thesis using v valid_both_roles [OF v(1)] by (auto simp: Snapshot_Valid_def both_roles_def)
  next
    case False
    then show ?thesis using n(3) ok latest_user_role [OF n(2,1) assms(1)] by simp
  qed
qed

lemma complete_valid:
  assumes "\<forall>x. length (mac x) = 32" "Plan mac s r = Some p" "Complete mac p c = Some s'"
  shows "Snapshot_Valid s'"
proof -
  obtain n where n: "hasher_Message mac \<lparr>Role = ''assistant'', Content = c\<rparr> = Some n"
    and s': "s' = \<lparr>Nodes = plan_nodes p @ [n], Pairs = pairs (plan_nodes p @ [n])\<rparr>"
    and l: "plan_nodes p \<noteq> []" "length (plan_nodes p) < MaxNodes"
    using assms(3) by (auto simp: Complete_def split: if_splits option.splits)
  have "node_ok n" "NRole n = ''assistant''" using hasher_Message_ok [OF assms(1) n] by simp_all
  moreover have "pairs (plan_nodes p @ [n]) \<noteq> []" using plan_nodes_ok [OF assms(1,2)] by (simp add: pairs_nonempty)
  moreover have "1 \<le> length (plan_nodes p)" using l(1) by (simp add: Suc_le_eq)
  ultimately show ?thesis
    using plan_nodes_ok [OF assms(1,2)] l by (simp add: Snapshot_Valid_def s')
qed

text \<open>
  completing a planned turn always yields a snapshot the store and the next plan accept as valid. The keyed
  hash is only assumed to return 32 bytes.
\<close>

theorem completed_snapshot_valid:
  assumes "\<forall>x. length (mac x) = 32" "Plan mac s r = Some p" "Complete mac p c = Some s'"
  shows "Snapshot_Valid s'"
  by (rule complete_valid [OF assms])


subsection \<open>Digests ignore order and hints\<close>

lemma distinct_last_wins: "distinct (map fst (last_wins ms))"
proof -
  have "distinct (map fst m) \<Longrightarrow> distinct (map fst (fold (\<lambda>(k, v) m. aset k v m) ms m))" for m
    by (induction ms arbitrary: m) auto
  from this [of "[]"] show ?thesis by (simp add: last_wins_def)
qed

lemma ndjson_distinct: "ndjson_Object raw = Some fs \<Longrightarrow> distinct (map fst fs)"
  by (auto simp: ndjson_Object_def unmarshal_fields_def distinct_last_wins split: if_splits option.splits json.splits)

lemma list_of_keys: "distinct (map fst zs) \<Longrightarrow> zs = map (\<lambda>k. (k, the (map_of zs k))) (map fst zs)"
  by (simp, rule map_idI [symmetric]) auto

lemma sort_keys_facts:
  assumes "distinct (map fst xs)"
  shows "distinct (map fst (sort_keys xs))" "sorted (map fst (sort_keys xs))" "map_of (sort_keys xs) = map_of xs"
    "set (map fst (sort_keys xs)) = set (map fst xs)"
proof -
  show d: "distinct (map fst (sort_keys xs))"
    using assms by (simp add: sort_keys_def distinct_map)
  show "sorted (map fst (sort_keys xs))" by (simp add: sort_keys_def)
  show "map_of (sort_keys xs) = map_of xs"
    using d assms by (intro ext) (metis map_of_eq_Some_iff not_None_eq set_sort sort_keys_def)
  show "set (map fst (sort_keys xs)) = set (map fst xs)" by (simp add: sort_keys_def)
qed

lemma sorted_same:
  assumes "distinct (map fst xs)" "distinct (map fst ys)" "map_of xs = map_of ys"
  shows "sort_keys xs = sort_keys (ys :: (bytes \<times> 'v) list)"
proof -
  note x = sort_keys_facts [OF assms(1)] and y = sort_keys_facts [OF assms(2)]
  have "set (map fst xs) = set (map fst ys)" using assms(3) by (metis dom_map_of_conv_image_fst list.set_map)
  then have "map fst (sort_keys xs) = map fst (sort_keys ys)"
    using x y by (intro sorted_distinct_set_unique) simp_all
  then show ?thesis
    using list_of_keys [OF x(1)] list_of_keys [OF y(1)] unfolding x(3) y(3) assms(3) by metis
qed

lemma map_of_map_snd: "map_of (map (\<lambda>(k, v). (k, f v)) xs) = (\<lambda>k. map_option f (map_of xs k))"
  by (induction xs) auto

lemma marshal_fields_cong:
  assumes "distinct (map fst xs)" "distinct (map fst ys)" "map_of xs = map_of ys"
  shows "marshal_fields xs = marshal_fields ys"
proof -
  have k: "map fst (map (\<lambda>(k, v). (k, compact v)) zs) = map fst zs" for zs :: "(bytes \<times> bytes) list"
    by (induction zs) auto
  have "sort_keys (map (\<lambda>(k, v). (k, compact v)) xs) = sort_keys (map (\<lambda>(k, v). (k, compact v)) ys)"
    by (rule sorted_same) (use assms in \<open>simp_all only: k map_of_map_snd\<close>)
  then show ?thesis by (simp add: marshal_fields_def)
qed

lemma has_key_cong: "map_of m = map_of m' \<Longrightarrow> has_key m k = has_key m' k"
  by (simp add: has_key_def)

lemma default_is_error_cong:
  assumes "distinct (map fst xs)" "distinct (map fst ys)" "map_of xs = map_of ys"
  shows "distinct (map fst (default_is_error xs))" "distinct (map fst (default_is_error ys))"
    "map_of (default_is_error xs) = map_of (default_is_error ys)"
  using assms has_key_cong [OF assms(3), of "''is_error''"] by (simp_all add: default_is_error_def)

lemma canonical_fields_cong:
  assumes "distinct (map fst xs)" "distinct (map fst ys)" "map_of xs = map_of ys"
  shows "map_option marshal_fields (canonical_fields ty xs) = map_option marshal_fields (canonical_fields ty ys)"
proof -
  note e = default_is_error_cong [OF assms]
  have f: "field (default_is_error xs) ''content'' = field (default_is_error ys) ''content''" by (simp add: field_def e(3))
  have "marshal_fields (aset ''content'' c (default_is_error xs)) = marshal_fields (aset ''content'' c (default_is_error ys))" for c
    using e by (intro marshal_fields_cong) simp_all
  then show ?thesis
    unfolding canonical_fields_def f using marshal_fields_cong [OF assms]
    by (cases "canonical_content (field (default_is_error ys) ''content'')") simp_all
qed

text \<open>
  what a block contributes to a digest depends only on its fields without \<open>cache_control\<close>: two blocks of the
  same type whose documents have the same other fields, in any key order and with any cache hint, have the same
  canonical form.
\<close>

theorem canonical_block_ignores_order_and_hints:
  assumes "BType b = BType b'" "BType b \<noteq> ''text''"
    and "ndjson_Object (BRaw b) = Some fs" "ndjson_Object (BRaw b') = Some fs'"
    and "(map_of fs)(''cache_control'' := None) = (map_of fs')(''cache_control'' := None)"
  shows "canonicalBlock b = canonicalBlock b'"
proof -
  have d: "distinct (map fst (adel ''cache_control'' fs))" "distinct (map fst (adel ''cache_control'' fs'))"
    using distinct_adel [OF ndjson_distinct [OF assms(3)]] distinct_adel [OF ndjson_distinct [OF assms(4)]] .
  have m: "map_of (adel ''cache_control'' fs) = map_of (adel ''cache_control'' fs')"
    unfolding map_of_adel by (rule assms(5))
  have c: "Option.bind x (\<lambda>y. jsoncanon_Object (marshal_fields y)) = Option.bind (map_option marshal_fields x) jsoncanon_Object"
    for x by (cases x) simp_all
  have t: "(BType b' = ''text'' \<and> X) = False" for X using assms(1,2) by simp
  show ?thesis
    unfolding canonicalBlock_def assms(1,3,4) t if_False Option.bind.bind_lunit c canonical_fields_cong [OF d m] ..
qed

subsection \<open>A concrete conversation\<close>

definition ex_mac :: mac where "ex_mac = (\<lambda>_. replicate 32 (CHR ''k''))"

definition ex_text :: "bytes \<Rightarrow> block" where
  "ex_text t = \<lparr>BType = ''text'', BText = t, BRaw = [], bmedia = None\<rparr>"

definition ex_first :: request where
  "ex_first = ex_request\<lparr>Messages := [\<lparr>Role = ''user'', Content = [ex_text ''hi'']\<rparr>]\<rparr>"

definition ex_second :: request where
  "ex_second = ex_request\<lparr>Messages := [\<lparr>Role = ''user'', Content = [ex_text ''hi'']\<rparr>,
     \<lparr>Role = ''assistant'', Content = [ex_text ''yes'']\<rparr>, \<lparr>Role = ''user'', Content = [ex_text ''go'']\<rparr>]\<rparr>"

definition ex_empty :: snapshot where "ex_empty = \<lparr>Nodes = [], Pairs = []\<rparr>"
definition ex_plan :: plan where "ex_plan = the (Plan ex_mac ex_empty ex_first)"
definition ex_snap :: snapshot where "ex_snap = the (Complete ex_mac ex_plan [ex_text ''yes''])"

definition ex_block :: "bytes \<Rightarrow> block" where
  "ex_block raw = \<lparr>BType = ''x'', BText = [], BRaw = raw, bmedia = None\<rparr>"

lemma ex_mac_length: "\<forall>x. length (ex_mac x) = 32"
  by (simp add: ex_mac_def)

lemma ex_plan_eq: "Plan ex_mac ex_empty ex_first = Some ex_plan" "Mode ex_plan = Fresh"
  by code_simp+

lemma ex_snap_eq: "Complete ex_mac ex_plan [ex_text ''yes''] = Some ex_snap" "length (Nodes ex_snap) = 2"
  by code_simp+

lemma ex_extend: "Plan ex_mac ex_snap ex_second = Some (the (Plan ex_mac ex_snap ex_second))"
  "Mode (the (Plan ex_mac ex_snap ex_second)) = Extend"
  by code_simp+

lemma ex_fields: "ndjson_Object ''{\"type\":\"x\",\"a\":1}'' = Some [(''type'', ''\"x\"''), (''a'', ''1'')]"
  "ndjson_Object ''{\"a\":1,\"cache_control\":2,\"type\":\"x\"}''
     = Some [(''a'', ''1''), (''cache_control'', ''2''), (''type'', ''\"x\"'')]"
  by code_simp+

theorem plan_extend_sound_witness:
  "Plan ex_mac ex_snap ex_second = Some (the (Plan ex_mac ex_snap ex_second))
   \<and> Mode (the (Plan ex_mac ex_snap ex_second)) = Extend
   \<and> (\<exists>ns. hasher_Nodes ex_mac (Messages ex_second) = Some ns
        \<and> plan_nodes (the (Plan ex_mac ex_snap ex_second))
            = Nodes ex_snap @ drop (Start (the (Plan ex_mac ex_snap ex_second))) ns)"
  using plan_extend_sound [OF ex_extend] ex_extend by blast

theorem completed_snapshot_valid_witness:
  "Plan ex_mac ex_empty ex_first = Some ex_plan \<and> Complete ex_mac ex_plan [ex_text ''yes''] = Some ex_snap
   \<and> Snapshot_Valid ex_snap"
  using completed_snapshot_valid [OF ex_mac_length ex_plan_eq(1) ex_snap_eq(1)] ex_plan_eq ex_snap_eq by blast


theorem canonical_block_ignores_order_and_hints_witness:
  "canonicalBlock (ex_block ''{\"type\":\"x\",\"a\":1}'')
   = canonicalBlock (ex_block ''{\"a\":1,\"cache_control\":2,\"type\":\"x\"}'')"
proof (rule canonical_block_ignores_order_and_hints)
  show "ndjson_Object (BRaw (ex_block ''{\"type\":\"x\",\"a\":1}'')) = Some [(''type'', ''\"x\"''), (''a'', ''1'')]"
    "ndjson_Object (BRaw (ex_block ''{\"a\":1,\"cache_control\":2,\"type\":\"x\"}''))
      = Some [(''a'', ''1''), (''cache_control'', ''2''), (''type'', ''\"x\"'')]"
    using ex_fields by (simp_all add: ex_block_def)
qed (auto simp: ex_block_def)

end
