(* ===== verification/ResponseStream.thy ===== *)
theory ResponseStream
  imports Messages
begin

text \<open>
  The response side of the wire: \<open>internal/anthropic/response.go\<close> and \<open>web_search.go\<close>. A response stream
  writes server-sent events; the writer and its flush may fail at any write. The state keeps the events written
  so far (each is one \<open>event:\<close>/\<open>data:\<close> packet) and the outcomes of the writes still to come.
  Parsing a URL (\<open>net/url\<close>) is an argument.
\<close>

record server_tool_usage =
  WebSearchRequests :: nat

record usage =
  UInputTokens :: nat
  UOutputTokens :: nat
  CacheCreation :: nat
  CacheRead :: nat
  ServerTools :: "server_tool_usage option"

record response_block =
  RType :: bytes
  RText :: "bytes option"
  RID :: bytes
  RName :: bytes
  RInput :: bytes
  RToolUseID :: bytes
  RContent :: bytes

record response =
  RespID :: bytes
  RespType :: bytes
  RespRole :: bytes
  RespModel :: bytes
  RespContent :: "response_block list"
  StopReason :: "bytes option"
  StopSequence :: "bytes option"
  RespUsage :: usage

subsection \<open>Encoding\<close>

definition opt_str :: "bytes \<Rightarrow> bytes \<Rightarrow> (bytes \<times> bytes) list" where
  "opt_str k v = (if v = [] then [] else [(k, quote v)])"

definition opt_raw :: "bytes \<Rightarrow> bytes \<Rightarrow> (bytes \<times> bytes) list" where
  "opt_raw k v = (if v = [] then [] else [(k, compact v)])"

definition nullable :: "bytes option \<Rightarrow> bytes" where
  "nullable v = (case v of None \<Rightarrow> ''null'' | Some s \<Rightarrow> quote s)"

definition usage_text :: "usage \<Rightarrow> bytes" where
  "usage_text u = obj_text ([(''input_tokens'', digits_of (UInputTokens u)), (''output_tokens'', digits_of (UOutputTokens u)),
     (''cache_creation_input_tokens'', digits_of (CacheCreation u)), (''cache_read_input_tokens'', digits_of (CacheRead u))]
     @ (case ServerTools u of None \<Rightarrow> []
        | Some s \<Rightarrow> [(''server_tool_use'', obj_text [(''web_search_requests'', digits_of (WebSearchRequests s))])]))"

definition block_text :: "response_block \<Rightarrow> bytes" where
  "block_text b = obj_text ([(''type'', quote (RType b))]
     @ (case RText b of None \<Rightarrow> [] | Some t \<Rightarrow> [(''text'', quote t)])
     @ opt_str ''id'' (RID b) @ opt_str ''name'' (RName b) @ opt_raw ''input'' (RInput b)
     @ opt_str ''tool_use_id'' (RToolUseID b) @ opt_raw ''content'' (RContent b))"

definition response_text :: "response \<Rightarrow> bytes" where
  "response_text r = obj_text [(''id'', quote (RespID r)), (''type'', quote (RespType r)), (''role'', quote (RespRole r)),
     (''model'', quote (RespModel r)), (''content'', arr_text (map block_text (RespContent r))),
     (''stop_reason'', nullable (StopReason r)), (''stop_sequence'', nullable (StopSequence r)),
     (''usage'', usage_text (RespUsage r))]"

definition no_usage :: usage where
  "no_usage = \<lparr>UInputTokens = 0, UOutputTokens = 0, CacheCreation = 0, CacheRead = 0, ServerTools = None\<rparr>"

definition plain_block :: "bytes \<Rightarrow> response_block" where
  "plain_block ty = \<lparr>RType = ty, RText = None, RID = [], RName = [], RInput = [], RToolUseID = [], RContent = []\<rparr>"

definition text_block :: "bytes \<Rightarrow> response_block" where
  "text_block t = (plain_block ''text'')\<lparr>RText := Some t\<rparr>"

definition NewResponse :: "bytes \<Rightarrow> bytes \<Rightarrow> bytes \<Rightarrow> bytes \<Rightarrow> response" where
  "NewResponse i model text reason = \<lparr>RespID = i, RespType = ''message'', RespRole = ''assistant'', RespModel = model,
     RespContent = [text_block text], StopReason = Some reason, StopSequence = None, RespUsage = no_usage\<rparr>"

definition NewBlocksResponse :: "bytes \<Rightarrow> bytes \<Rightarrow> response_block list \<Rightarrow> bytes \<Rightarrow> response" where
  "NewBlocksResponse i model blocks reason = (NewResponse i model [] reason)\<lparr>RespContent := blocks\<rparr>"

definition ErrorBody :: "bytes \<Rightarrow> bytes \<Rightarrow> bytes" where
  "ErrorBody kind msg = obj_text [(''type'', quote ''error''),
     (''error'', obj_text [(''type'', quote kind), (''message'', quote msg)])]"

definition ToolUse_Block :: "tool_use \<Rightarrow> response_block" where
  "ToolUse_Block t = (plain_block ''tool_use'')\<lparr>RID := UID t, RName := UName t, RInput := UInput t\<rparr>"

subsection \<open>Web search exchanges\<close>

definition MaxSearchUses :: nat where "MaxSearchUses = 8"

text \<open>
  \<open>SearchDeclaration\<close>: \<open>None\<close> when no search tool is declared, otherwise the limit or an error. The code decodes
  the type of each tool from a struct with one field: Go then matches keys case-insensitively and keeps the last.
\<close>

definition fold_type :: "bytes \<Rightarrow> bool" where
  "fold_type k \<longleftrightarrow> map ascii_lower k = ''type''"

fun header_values :: "json list \<Rightarrow> bytes \<Rightarrow> bytes option" where
  "header_values [] t = Some t"
| "header_values (v # vs) t = (case v of
     JStr _ d \<Rightarrow> header_values vs d | JNull \<Rightarrow> header_values vs t | _ \<Rightarrow> None)"

definition header_type :: "bytes \<Rightarrow> bytes option" where
  "header_type raw = (case parse raw of
     Some (JObj _ ms) \<Rightarrow> header_values (map snd (filter (\<lambda>(k, _). fold_type k) ms)) []
   | Some JNull \<Rightarrow> Some [] | _ \<Rightarrow> None)"

definition SearchDeclaration :: "bytes list \<Rightarrow> (request_error + nat) option" where
  "SearchDeclaration ts =
     (if \<not> list_ex (\<lambda>raw. case header_type raw of None \<Rightarrow> False | Some t \<Rightarrow> has_prefix t ''web_search_'') ts then None
      else case ts of
          [t] \<Rightarrow> (case unmarshal_fields t of
              None \<Rightarrow> Some (Inl ErrRequest)
            | Some fs \<Rightarrow>
                if \<not> list_all (\<lambda>(k, _). k \<in> {''type'', ''name'', ''max_uses''}) fs
                   \<or> unmarshal_string (field fs ''type'') \<noteq> Some ''web_search_20250305''
                   \<or> unmarshal_string (field fs ''name'') \<noteq> Some ''web_search''
                then Some (Inl ErrRequest)
                else (case map_of fs ''max_uses'' of
                    None \<Rightarrow> Some (Inr MaxSearchUses)
                  | Some raw \<Rightarrow> (case unmarshal_int raw of
                      None \<Rightarrow> Some (Inl ErrRequest)
                    | Some n \<Rightarrow> if raw = ''null'' \<or> n < 1 \<or> int MaxSearchUses < n then Some (Inl ErrRequest)
                               else Some (Inr (nat n)))))
        | _ \<Rightarrow> Some (Inl ErrRequest))"

record search_result =
  SType :: bytes
  SURL :: bytes
  STitle :: bytes

record search_exchange =
  XID :: bytes
  XQuery :: bytes
  XErrorCode :: bytes
  XResults :: "search_result list"

text \<open>What the code reads of a parsed URL.\<close>

record parsed_url =
  Scheme :: bytes
  Hostname :: bytes
  HasUser :: bool
  Opaque :: bytes

type_synonym url_parser = "bytes \<Rightarrow> parsed_url option"

definition searchText :: "bytes \<Rightarrow> nat \<Rightarrow> bool" where
  "searchText s lim \<longleftrightarrow> \<not> (lim < length s \<or> \<not> utf8_valid s)
     \<and> list_all (\<lambda>p. \<not> ((rune_val p < 32 \<and> rune_val p \<noteq> 10 \<and> rune_val p \<noteq> 9) \<or> rune_val p = 127)) (rune_pieces s)"

definition search_codes :: "bytes set" where
  "search_codes = {''unavailable'', ''invalid_tool_input'', ''too_many_requests'', ''query_too_long'', ''request_too_large'',
     ''max_uses_exceeded''}"

definition result_ok :: "url_parser \<Rightarrow> search_result \<Rightarrow> bool" where
  "result_ok url r \<longleftrightarrow> SType r = ''web_search_result'' \<and> searchText (STitle r) 4096 \<and> searchText (SURL r) 8192
     \<and> (case url (SURL r) of
          None \<Rightarrow> False
        | Some u \<Rightarrow> (Scheme u = ''https'' \<or> Scheme u = ''http'') \<and> Hostname u \<noteq> [] \<and> \<not> HasUser u \<and> Opaque u = [])"

definition Exchange_Valid :: "url_parser \<Rightarrow> search_exchange \<Rightarrow> bool" where
  "Exchange_Valid url x \<longleftrightarrow>
     has_prefix (XID x) ''srvtoolu_'' \<and> ToolUse_Valid \<lparr>UID = XID x, UName = ''web_search'', UInput = ''{}''\<rparr>
     \<and> searchText (XQuery x) 4096 \<and> XQuery x \<noteq> [] \<and> length (XResults x) \<le> 32
     \<and> (if XErrorCode x \<noteq> [] then XResults x = [] \<and> XErrorCode x \<in> search_codes
        else list_all (result_ok url) (XResults x))"

definition search_result_text :: "search_result \<Rightarrow> bytes" where
  "search_result_text r = obj_text [(''type'', quote (SType r)), (''url'', quote (SURL r)), (''title'', quote (STitle r))]"

definition Exchange_Blocks :: "search_exchange \<Rightarrow> response_block list" where
  "Exchange_Blocks x =
     (let query = obj_text [(''query'', quote (XQuery x))];
          results = (if XErrorCode x = [] then arr_text (map search_result_text (XResults x))
                     else obj_text [(''type'', quote ''web_search_tool_result_error''), (''error_code'', quote (XErrorCode x))])
      in [(plain_block ''server_tool_use'')\<lparr>RID := XID x, RName := ''web_search'', RInput := query\<rparr>,
          (plain_block ''web_search_tool_result'')\<lparr>RToolUseID := XID x, RContent := results\<rparr>])"

subsection \<open>Stream events\<close>

record stream_event =
  EType :: bytes
  EMessage :: "response option"
  EIndex :: "nat option"
  EBlock :: "response_block option"
  EDelta :: "bytes option"     \<comment> \<open>its JSON text\<close>
  EUsage :: "usage option"

datatype packet = Event stream_event | ErrorPacket bytes

definition event_text :: "stream_event \<Rightarrow> bytes" where
  "event_text e = obj_text ([(''type'', quote (EType e))]
     @ (case EMessage e of None \<Rightarrow> [] | Some m \<Rightarrow> [(''message'', response_text m)])
     @ (case EIndex e of None \<Rightarrow> [] | Some i \<Rightarrow> [(''index'', digits_of i)])
     @ (case EBlock e of None \<Rightarrow> [] | Some b \<Rightarrow> [(''content_block'', block_text b)])
     @ (case EDelta e of None \<Rightarrow> [] | Some d \<Rightarrow> [(''delta'', d)])
     @ (case EUsage e of None \<Rightarrow> [] | Some u \<Rightarrow> [(''usage'', usage_text u)]))"

definition sse :: "bytes \<Rightarrow> bytes \<Rightarrow> bytes" where
  "sse name data = ''event: '' @ name @ [CHR 0x0A] @ ''data: '' @ data @ [CHR 0x0A, CHR 0x0A]"

definition packet_bytes :: "packet \<Rightarrow> bytes" where
  "packet_bytes p = (case p of Event e \<Rightarrow> sse (EType e) (event_text e) | ErrorPacket m \<Rightarrow> sse ''error'' (ErrorBody ''api_error'' m))"

definition ev :: "bytes \<Rightarrow> stream_event" where
  "ev ty = \<lparr>EType = ty, EMessage = None, EIndex = None, EBlock = None, EDelta = None, EUsage = None\<rparr>"

definition packets_length :: "packet list \<Rightarrow> nat" where
  "packets_length ps = (\<Sum>p \<leftarrow> ps. length (packet_bytes p))"

record text_stream =
  index :: nat
  is_open :: bool
  ended :: bool
  searches :: nat
  written :: "packet list"
  outcomes :: "bool list"      \<comment> \<open>of the coming writes and flushes; none left means success\<close>
  room :: int                  \<comment> \<open>the bytes the writer still accepts\<close>

text \<open>One use of the writer or of its flush: whether it succeeds.\<close>

definition take_outcome :: "text_stream \<Rightarrow> bool \<times> text_stream" where
  "take_outcome s = (case outcomes s of [] \<Rightarrow> (True, s) | r # rs \<Rightarrow> (r, s\<lparr>outcomes := rs\<rparr>))"

text \<open>
  One call of the writer's \<open>Write\<close> (the gateway's \<open>responseWriter\<close>): bytes beyond its budget are refused untouched. What
  part of a failed write reached the client is not recorded; no caller writes again after a failure.
\<close>

definition stream_write :: "packet list \<Rightarrow> text_stream \<Rightarrow> bool \<times> text_stream" where
  "stream_write ps s =
     (if room s < int (packets_length ps) then (False, s)
      else let (ok, s1) = take_outcome s
           in if ok then (True, s1\<lparr>written := written s1 @ ps, room := room s1 - int (packets_length ps)\<rparr>) else (False, s1))"

definition emit :: "packet \<Rightarrow> text_stream \<Rightarrow> bool \<times> text_stream" where
  "emit p s = (let (ok, s1) = stream_write [p] s in if ok then take_outcome s1 else (False, s1))"

definition BeginStream :: "int \<Rightarrow> bool list \<Rightarrow> bytes \<Rightarrow> bytes \<Rightarrow> bool \<times> text_stream" where
  "BeginStream rm os i model =
     emit (Event ((ev ''message_start'')\<lparr>EMessage := Some \<lparr>RespID = i, RespType = ''message'', RespRole = ''assistant'',
              RespModel = model, RespContent = [], StopReason = None, StopSequence = None, RespUsage = no_usage\<rparr>\<rparr>))
       \<lparr>index = 0, is_open = False, ended = False, searches = 0, written = [], outcomes = os, room = rm\<rparr>"

definition startText :: "text_stream \<Rightarrow> bool \<times> text_stream" where
  "startText s =
     (let (ok, s1) = emit (Event ((ev ''content_block_start'')\<lparr>EIndex := Some (index s), EBlock := Some (text_block [])\<rparr>)) s
      in if ok then (True, s1\<lparr>is_open := True\<rparr>) else (False, s1))"

definition BeginTextStream :: "int \<Rightarrow> bool list \<Rightarrow> bytes \<Rightarrow> bytes \<Rightarrow> bool \<times> text_stream" where
  "BeginTextStream rm os i model = (let (ok, s) = BeginStream rm os i model in if ok then startText s else (False, s))"

definition text_delta :: "bytes \<Rightarrow> bytes" where
  "text_delta t = obj_text [(''type'', quote ''text_delta''), (''text'', quote t)]"

definition stream_Text :: "bytes \<Rightarrow> text_stream \<Rightarrow> bool \<times> text_stream" where
  "stream_Text t s =
     (if ended s then (False, s)
      else let (ok, s1) = (if is_open s then (True, s) else startText s)
           in if \<not> ok then (False, s1)
              else emit (Event ((ev ''content_block_delta'')\<lparr>EIndex := Some (index s1), EDelta := Some (text_delta t)\<rparr>)) s1)"

definition stopBlock :: "text_stream \<Rightarrow> bool \<times> text_stream" where
  "stopBlock s =
     (if \<not> is_open s then (True, s)
      else let (ok, s1) = emit (Event ((ev ''content_block_stop'')\<lparr>EIndex := Some (index s)\<rparr>)) s
           in if ok then (True, s1\<lparr>is_open := False, index := index s1 + 1\<rparr>) else (False, s1))"

definition json_delta :: "bytes \<Rightarrow> bytes" where
  "json_delta t = obj_text [(''type'', quote ''input_json_delta''), (''partial_json'', quote t)]"

definition toolPacket :: "tool_use \<Rightarrow> nat \<Rightarrow> packet list" where
  "toolPacket t i =
     [Event ((ev ''content_block_start'')\<lparr>EIndex := Some i, EBlock := Some ((ToolUse_Block t)\<lparr>RInput := ''{}''\<rparr>)\<rparr>),
      Event ((ev ''content_block_delta'')\<lparr>EIndex := Some i, EDelta := Some (json_delta (UInput t))\<rparr>),
      Event ((ev ''content_block_stop'')\<lparr>EIndex := Some i\<rparr>)]"

definition next_index :: "text_stream \<Rightarrow> nat" where
  "next_index s = (if is_open s then index s + 1 else index s)"

definition stream_Tool :: "tool_use \<Rightarrow> text_stream \<Rightarrow> bool \<times> text_stream" where
  "stream_Tool t s =
     (if ended s \<or> \<not> ToolUse_Valid t then (False, s)
      else let ps = toolPacket t (next_index s); (ok, s1) = stopBlock s
           in if \<not> ok then (False, s1)
              else let (ok2, s2) = stream_write ps s1
                   in if ok2 then take_outcome (s2\<lparr>index := index s2 + 1\<rparr>) else (False, s2))"

definition ToolBytes :: "tool_use \<Rightarrow> text_stream \<Rightarrow> nat option" where
  "ToolBytes t s =
     (if ended s \<or> \<not> ToolUse_Valid t then None else Some (packets_length (toolPacket t (next_index s)) + 128))"

definition searchPacket :: "search_exchange \<Rightarrow> nat \<Rightarrow> packet list" where
  "searchPacket x i =
     (case Exchange_Blocks x of
        [use, result] \<Rightarrow>
          [Event ((ev ''content_block_start'')\<lparr>EIndex := Some i, EBlock := Some (use\<lparr>RInput := ''{}''\<rparr>)\<rparr>),
           Event ((ev ''content_block_delta'')\<lparr>EIndex := Some i, EDelta := Some (json_delta (RInput use))\<rparr>),
           Event ((ev ''content_block_stop'')\<lparr>EIndex := Some i\<rparr>),
           Event ((ev ''content_block_start'')\<lparr>EIndex := Some (i + 1), EBlock := Some result\<rparr>),
           Event ((ev ''content_block_stop'')\<lparr>EIndex := Some (i + 1)\<rparr>)]
      | _ \<Rightarrow> [])"

definition stream_Search :: "url_parser \<Rightarrow> search_exchange \<Rightarrow> text_stream \<Rightarrow> bool \<times> text_stream" where
  "stream_Search url x s =
     (if ended s \<or> \<not> Exchange_Valid url x \<or> MaxSearchUses \<le> searches s then (False, s)
      else let (ok, s1) = stopBlock s
           in if \<not> ok then (False, s1)
              else let (ok2, s2) = stream_write (searchPacket x (index s1)) s1
                   in if ok2 then take_outcome (s2\<lparr>index := index s2 + 2, searches := searches s2 + 1\<rparr>) else (False, s2))"

definition SearchBytes :: "url_parser \<Rightarrow> search_exchange \<Rightarrow> text_stream \<Rightarrow> nat option" where
  "SearchBytes url x s =
     (if ended s \<or> \<not> Exchange_Valid url x then None else Some (packets_length (searchPacket x (next_index s)) + 128))"

definition stop_delta :: "bytes \<Rightarrow> bytes" where
  "stop_delta reason = obj_text [(''stop_reason'', quote reason), (''stop_sequence'', ''null'')]"

definition stream_End :: "bytes \<Rightarrow> text_stream \<Rightarrow> bool \<times> text_stream" where
  "stream_End reason s =
     (if ended s then (False, s)
      else let (ok0, s0) = (if index s = 0 \<and> \<not> is_open s then startText s else (True, s))
           in if \<not> ok0 then (False, s0)
              else let (ok1, s1) = stopBlock s0
                   in if \<not> ok1 then (False, s1)
                      else let u = no_usage\<lparr>ServerTools := (if 0 < searches s1 then Some \<lparr>WebSearchRequests = searches s1\<rparr> else None)\<rparr>;
                               (ok2, s2) = emit (Event ((ev ''message_delta'')\<lparr>EDelta := Some (stop_delta reason), EUsage := Some u\<rparr>)) s1
                           in if \<not> ok2 then (False, s2)
                              else emit (Event (ev ''message_stop'')) (s2\<lparr>ended := True\<rparr>))"

definition stream_Fail :: "bytes \<Rightarrow> text_stream \<Rightarrow> bool \<times> text_stream" where
  "stream_Fail msg s = emit (ErrorPacket msg) s"

definition stream_Ping :: "text_stream \<Rightarrow> bool \<times> text_stream" where
  "stream_Ping s = (if ended s then (False, s) else emit (Event (ev ''ping'')) s)"

end
