(* ===== verification/ResponseStream_Props.thy ===== *)
theory ResponseStream_Props
  imports ResponseStream Messages_Props
begin

text \<open>
  The event stream refines the documented Messages streaming protocol, given here as an automaton over event
  types and block indices; a reservation made before a tool or search block covers every byte it may write.
\<close>

subsection \<open>The protocol\<close>

datatype phase =
    Start
  | Between nat                \<comment> \<open>no block open; the next block has this index\<close>
  | Inside nat                 \<comment> \<open>the block with this index is open\<close>
  | Stopping
  | Done

definition protocol :: "phase \<Rightarrow> stream_event \<Rightarrow> phase option" where
  "protocol ph e =
     (if EType e = ''ping'' then (if ph = Start \<or> ph = Done then None else Some ph)
      else case ph of
          Start \<Rightarrow> if EType e = ''message_start'' \<and> EMessage e \<noteq> None then Some (Between 0) else None
        | Between n \<Rightarrow>
            if EType e = ''content_block_start'' \<and> EIndex e = Some n \<and> EBlock e \<noteq> None then Some (Inside n)
            else if EType e = ''message_delta'' \<and> 0 < n \<and> EDelta e \<noteq> None then Some Stopping else None
        | Inside n \<Rightarrow>
            if EType e = ''content_block_delta'' \<and> EIndex e = Some n \<and> EDelta e \<noteq> None then Some (Inside n)
            else if EType e = ''content_block_stop'' \<and> EIndex e = Some n then Some (Between (n + 1)) else None
        | Stopping \<Rightarrow> if EType e = ''message_stop'' then Some Done else None
        | Done \<Rightarrow> None)"

text \<open>An error packet may be sent at any time.\<close>

fun follows :: "phase \<Rightarrow> packet list \<Rightarrow> phase option" where
  "follows ph [] = Some ph"
| "follows ph (Event e # ps) = Option.bind (protocol ph e) (\<lambda>ph'. follows ph' ps)"
| "follows ph (ErrorPacket m # ps) = follows ph ps"

lemma follows_append: "follows ph (xs @ ys) = Option.bind (follows ph xs) (\<lambda>ph'. follows ph' ys)"
  by (induction ph xs rule: follows.induct) (auto split: Option.bind_split)

definition phase_of :: "text_stream \<Rightarrow> phase" where
  "phase_of s = (if ended s then Done else if is_open s then Inside (index s) else Between (index s))"

text \<open>A stream whose writes have all succeeded so far is where the protocol is.\<close>

definition in_step :: "text_stream \<Rightarrow> bool" where
  "in_step s \<longleftrightarrow> follows Start (written s) = Some (phase_of s)"

lemma ev_simps [simp]:
  "EType (ev t) = t" "EMessage (ev t) = None" "EIndex (ev t) = None" "EBlock (ev t) = None" "EDelta (ev t) = None"
  by (simp_all add: ev_def)

lemma take_outcome_simps [simp]:
  "written (snd (take_outcome s)) = written s" "index (snd (take_outcome s)) = index s"
  "is_open (snd (take_outcome s)) = is_open s" "ended (snd (take_outcome s)) = ended s"
  "searches (snd (take_outcome s)) = searches s"
  by (simp_all add: take_outcome_def split: list.split)

lemma stream_write_cases:
  "(fst (stream_write ps s) \<and> written (snd (stream_write ps s)) = written s @ ps)
   \<or> (\<not> fst (stream_write ps s) \<and> written (snd (stream_write ps s)) = written s)"
  by (auto simp: stream_write_def split_beta Let_def)

lemma stream_write_simps [simp]:
  "index (snd (stream_write ps s)) = index s" "is_open (snd (stream_write ps s)) = is_open s"
  "ended (snd (stream_write ps s)) = ended s" "searches (snd (stream_write ps s)) = searches s"
  by (simp_all add: stream_write_def split_beta Let_def)

lemma emit_cases:
  obtains (ok) "fst (emit p s)" "written (snd (emit p s)) = written s @ [p]"
    | (part) "\<not> fst (emit p s)" "written (snd (emit p s)) = written s @ [p]"
    | (none) "\<not> fst (emit p s)" "written (snd (emit p s)) = written s"
proof (cases "fst (stream_write [p] s)")
  case True
  then have "written (snd (emit p s)) = written s @ [p]"
    using stream_write_cases [of "[p]" s] by (simp add: emit_def split_beta Let_def)
  then show ?thesis using ok part by blast
next
  case False
  then show ?thesis using none stream_write_cases [of "[p]" s] by (simp add: emit_def split_beta Let_def)
qed

lemma emit_simps [simp]:
  "index (snd (emit p s)) = index s" "is_open (snd (emit p s)) = is_open s"
  "ended (snd (emit p s)) = ended s" "searches (snd (emit p s)) = searches s"
  by (simp_all add: emit_def split_beta Let_def)

text \<open>What an operation must do: stay in step when it succeeds, have written a legal prefix when it fails.\<close>

definition legal :: "bool \<times> text_stream \<Rightarrow> bool" where
  "legal r \<longleftrightarrow> (if fst r then in_step (snd r) else follows Start (written (snd r)) \<noteq> None)"

lemma in_step_legal: "in_step s \<Longrightarrow> legal (b, s)"
  by (simp add: legal_def in_step_def)

lemma emit_follows:
  assumes "in_step s" "protocol (phase_of s) e = Some ph"
  shows "fst (emit (Event e) s) \<Longrightarrow> follows Start (written (snd (emit (Event e) s))) = Some ph"
    and "follows Start (written (snd (emit (Event e) s))) \<noteq> None"
  using assms by (cases rule: emit_cases [of "Event e" s]; simp add: in_step_def follows_append)+

lemma emit_legal: "in_step s \<Longrightarrow> protocol (phase_of s) e = Some (phase_of s) \<Longrightarrow> legal (emit (Event e) s)"
  using emit_follows [of s e "phase_of s"] by (auto simp: legal_def in_step_def phase_of_def)

lemma write_follows:
  assumes "in_step s" "follows (phase_of s) ps = Some ph"
  shows "fst (stream_write ps s) \<Longrightarrow> follows Start (written (snd (stream_write ps s))) = Some ph"
    and "follows Start (written (snd (stream_write ps s))) \<noteq> None"
  using assms stream_write_cases [of ps s] by (auto simp: in_step_def follows_append)

lemma startText_legal:
  assumes "in_step s" "\<not> ended s" "\<not> is_open s"
  shows "legal (startText s)"
proof -
  let ?e = "(ev ''content_block_start'')\<lparr>EIndex := Some (index s), EBlock := Some (text_block [])\<rparr>"
  have "protocol (phase_of s) ?e = Some (Inside (index s))" using assms by (simp add: phase_of_def protocol_def)
  from emit_follows [OF assms(1) this] assms show ?thesis
    by (auto simp: startText_def Let_def split_beta legal_def in_step_def phase_of_def)
qed

lemma startText_simps [simp]:
  "index (snd (startText s)) = index s" "ended (snd (startText s)) = ended s"
  "fst (startText s) \<Longrightarrow> is_open (snd (startText s))" "searches (snd (startText s)) = searches s"
  by (auto simp: startText_def split_beta Let_def)

lemma stopBlock_legal:
  assumes "in_step s" "\<not> ended s"
  shows "legal (stopBlock s)"
proof (cases "is_open s")
  case True
  let ?e = "(ev ''content_block_stop'')\<lparr>EIndex := Some (index s)\<rparr>"
  have "protocol (phase_of s) ?e = Some (Between (index s + 1))" using assms True by (simp add: phase_of_def protocol_def)
  from emit_follows [OF assms(1) this] assms True show ?thesis
    by (auto simp: stopBlock_def Let_def split_beta legal_def in_step_def phase_of_def)
qed (simp add: stopBlock_def in_step_legal assms)

lemma stopBlock_simps [simp]:
  "ended (snd (stopBlock s)) = ended s" "fst (stopBlock s) \<Longrightarrow> \<not> is_open (snd (stopBlock s))"
  "fst (stopBlock s) \<Longrightarrow> index (snd (stopBlock s)) = next_index s" "searches (snd (stopBlock s)) = searches s"
  by (auto simp: stopBlock_def next_index_def split_beta Let_def)

lemma legal_then:
  assumes "legal r" "\<And>s. fst r \<Longrightarrow> in_step s \<Longrightarrow> s = snd r \<Longrightarrow> legal (f s)"
  shows "legal (if \<not> fst r then (False, snd r) else f (snd r))"
  using assms by (auto simp: legal_def)

lemma delta_legal:
  assumes "in_step s" "is_open s" "\<not> ended s"
  shows "legal (emit (Event ((ev ''content_block_delta'')\<lparr>EIndex := Some (index s), EDelta := Some d\<rparr>)) s)"
  using assms by (intro emit_legal) (simp_all add: phase_of_def protocol_def)

lemma stream_Text_legal:
  assumes "in_step s"
  shows "legal (stream_Text t s)"
proof (cases "ended s \<or> is_open s")
  case True
  with assms delta_legal [OF assms] show ?thesis by (auto simp: stream_Text_def in_step_legal)
next
  case False
  then have "legal (startText s)" using assms startText_legal by simp
  then show ?thesis
    using False delta_legal [of "snd (startText s)" "text_delta t"]
    by (auto simp: stream_Text_def Let_def split_beta legal_def split: if_splits)
qed

lemma toolPacket_follows: "follows (Between i) (toolPacket t i) = Some (Between (i + 1))"
  by (simp add: toolPacket_def protocol_def)

lemma searchPacket_follows: "follows (Between i) (searchPacket x i) = Some (Between (i + 2))"
  by (simp add: searchPacket_def Exchange_Blocks_def Let_def protocol_def)

text \<open>A complete block sequence written at once, after which the index moves on.\<close>

lemma blocks_legal:
  assumes "in_step s" "\<not> ended s" "\<not> is_open s" "follows (Between (index s)) ps = Some (Between (index s + n))"
    and "\<And>s1. index (f s1) = index s1 + n \<and> is_open (f s1) = is_open s1 \<and> ended (f s1) = ended s1 \<and> written (f s1) = written s1"
  shows "legal (if fst (stream_write ps s) then take_outcome (f (snd (stream_write ps s))) else (False, snd (stream_write ps s)))"
proof -
  have "follows (phase_of s) ps = Some (Between (index s + n))" using assms by (simp add: phase_of_def)
  from write_follows [OF assms(1) this] assms show ?thesis
    by (auto simp: legal_def in_step_def phase_of_def)
qed

lemma stream_Tool_legal: "in_step s \<Longrightarrow> legal (stream_Tool t s)"
proof (cases "ended s \<or> \<not> ToolUse_Valid t")
  case False
  assume s: "in_step s"
  have "legal (if \<not> fst (stopBlock s) then (False, snd (stopBlock s))
      else if fst (stream_write (toolPacket t (next_index s)) (snd (stopBlock s)))
        then take_outcome ((\<lambda>x. x\<lparr>index := index x + 1\<rparr>) (snd (stream_write (toolPacket t (next_index s)) (snd (stopBlock s)))))
        else (False, snd (stream_write (toolPacket t (next_index s)) (snd (stopBlock s)))))"
    using s False toolPacket_follows [of "next_index s" t]
    by (intro legal_then [OF stopBlock_legal] blocks_legal) auto
  with False show ?thesis by (auto simp: stream_Tool_def Let_def split_beta)
qed (simp add: stream_Tool_def in_step_legal)

lemma stream_Search_legal: "in_step s \<Longrightarrow> legal (stream_Search url x s)"
proof (cases "ended s \<or> \<not> Exchange_Valid url x \<or> MaxSearchUses \<le> searches s")
  case False
  assume s: "in_step s"
  let ?p = "\<lambda>s1. stream_write (searchPacket x (index s1)) s1"
  have "legal (if \<not> fst (stopBlock s) then (False, snd (stopBlock s))
      else if fst (?p (snd (stopBlock s)))
        then take_outcome ((\<lambda>x. x\<lparr>index := index x + 2, searches := searches x + 1\<rparr>) (snd (?p (snd (stopBlock s)))))
        else (False, snd (?p (snd (stopBlock s)))))"
    using s False searchPacket_follows [of _ x]
    by (intro legal_then [OF stopBlock_legal] blocks_legal) auto
  with False show ?thesis by (auto simp: stream_Search_def Let_def split_beta)
qed (auto simp: stream_Search_def in_step_legal)

lemma stream_End_legal:
  assumes "in_step s"
  shows "legal (stream_End reason s)"
proof (cases "ended s")
  case False
  define r0 where "r0 = (if index s = 0 \<and> \<not> is_open s then startText s else (True, s))"
  have l0: "legal r0" using assms False startText_legal in_step_legal by (simp add: r0_def)
  have n0: "\<not> ended (snd r0)" "fst r0 \<Longrightarrow> 0 < next_index (snd r0)"
    using False by (auto simp: r0_def next_index_def)
  define r1 where "r1 = stopBlock (snd r0)"
  define u where "u = no_usage\<lparr>ServerTools := (if 0 < searches (snd r1) then Some \<lparr>WebSearchRequests = searches (snd r1)\<rparr> else None)\<rparr>"
  define e where "e = (ev ''message_delta'')\<lparr>EDelta := Some (stop_delta reason), EUsage := Some u\<rparr>"
  define r2 where "r2 = emit (Event e) (snd r1)"
  define s3 where "s3 = snd r2\<lparr>ended := True\<rparr>"
  have r1: "legal r1" if "fst r0" using l0 that n0 stopBlock_legal by (simp add: r1_def legal_def)
  have p1: "phase_of (snd r1) = Between (next_index (snd r0))" "in_step (snd r1)" if "fst r0" "fst r1"
    using that r1 n0 by (auto simp: r1_def phase_of_def legal_def)
  have "protocol (phase_of (snd r1)) e = Some Stopping" if "fst r0" "fst r1"
    unfolding p1(1) [OF that] using n0(2) that by (simp add: e_def protocol_def)
  then have f2: "fst r2 \<Longrightarrow> follows Start (written (snd r2)) = Some Stopping" "follows Start (written (snd r2)) \<noteq> None"
    if "fst r0" "fst r1" using emit_follows [OF p1(2) [OF that], of e Stopping] that by (auto simp: r2_def)
  have "legal (emit (Event (ev ''message_stop'')) s3)" if "fst r0" "fst r1" "fst r2"
    using f2(1) [OF that]
    by (cases rule: emit_cases [of "Event (ev ''message_stop'')" s3])
       (auto simp: legal_def in_step_def phase_of_def s3_def follows_append protocol_def)
  moreover have "stream_End reason s = (if \<not> fst r0 then (False, snd r0) else if \<not> fst r1 then (False, snd r1)
      else if \<not> fst r2 then (False, snd r2) else emit (Event (ev ''message_stop'')) s3)"
    using False by (simp add: stream_End_def Let_def split_beta r0_def r1_def r2_def s3_def e_def u_def)
  ultimately show ?thesis using l0 r1 f2(2) by (auto simp: legal_def)
qed (simp add: stream_End_def assms in_step_legal)

lemma stream_Ping_legal:
  assumes "in_step s"
  shows "legal (stream_Ping s)"
proof (cases "ended s")
  case False
  then have "protocol (phase_of s) (ev ''ping'') = Some (phase_of s)" by (simp add: protocol_def phase_of_def)
  then show ?thesis using assms False emit_legal by (simp add: stream_Ping_def)
qed (simp add: stream_Ping_def assms in_step_legal)

lemma stream_Fail_legal:
  assumes "in_step s"
  shows "legal (stream_Fail m s)"
  using assms by (cases rule: emit_cases [of "ErrorPacket m" s])
    (auto simp: stream_Fail_def legal_def in_step_def phase_of_def follows_append)

subsection \<open>Runs\<close>

datatype stream_op = OpText bytes | OpTool tool_use | OpSearch search_exchange | OpPing | OpFail bytes | OpEnd bytes

definition stream_step :: "url_parser \<Rightarrow> stream_op \<Rightarrow> text_stream \<Rightarrow> bool \<times> text_stream" where
  "stream_step url op s = (case op of
     OpText t \<Rightarrow> stream_Text t s | OpTool t \<Rightarrow> stream_Tool t s | OpSearch x \<Rightarrow> stream_Search url x s
   | OpPing \<Rightarrow> stream_Ping s | OpFail m \<Rightarrow> stream_Fail m s | OpEnd r \<Rightarrow> stream_End r s)"

text \<open>The caller stops at the first error.\<close>

fun stream_run :: "url_parser \<Rightarrow> stream_op list \<Rightarrow> bool \<times> text_stream \<Rightarrow> bool \<times> text_stream" where
  "stream_run url [] r = r"
| "stream_run url (op # ops) (ok, s) = (if ok then stream_run url ops (stream_step url op s) else (False, s))"

lemma BeginStream_legal: "legal (BeginStream rm os i model)"
  unfolding BeginStream_def
  by (rule emit_cases [where p = "Event ((ev ''message_start'')\<lparr>EMessage := Some \<lparr>RespID = i, RespType = ''message'',
        RespRole = ''assistant'', RespModel = model, RespContent = [], StopReason = None, StopSequence = None,
        RespUsage = no_usage\<rparr>\<rparr>)" and s = "\<lparr>index = 0, is_open = False, ended = False, searches = 0, written = [], outcomes = os, room = rm\<rparr>"])
     (auto simp: legal_def in_step_def phase_of_def protocol_def)

lemma stream_step_legal: "in_step s \<Longrightarrow> legal (stream_step url op s)"
  by (cases op) (simp_all add: stream_step_def stream_Text_legal stream_Tool_legal stream_Search_legal stream_Ping_legal
      stream_Fail_legal stream_End_legal)

lemma legal_True: "legal (True, s) \<longleftrightarrow> in_step s"
  by (simp add: legal_def)

lemma stream_run_legal: "legal r \<Longrightarrow> legal (stream_run url ops r)"
proof (induction url ops r rule: stream_run.induct)
  case (2 url op ops ok s)
  then show ?case by (cases ok) (simp_all add: legal_True stream_step_legal)
qed simp

text \<open>
  C13: the stream refines the Messages streaming protocol. Whatever operations a caller performs after
  \<open>BeginStream\<close>, stopping at the first error, the packets written are a prefix the protocol allows: one
  \<open>message_start\<close>, blocks with consecutive indices that are opened, filled and closed before the next, then
  \<open>message_delta\<close> and \<open>message_stop\<close>. When nothing failed the protocol is exactly where the stream's own state
  says, and a successful \<open>End\<close> leaves a complete message.
\<close>

theorem stream_refines_protocol:
  "follows Start (written (snd (stream_run url ops (BeginStream rm os i model)))) \<noteq> None
   \<and> (fst (stream_run url ops (BeginStream rm os i model)) \<longrightarrow>
        follows Start (written (snd (stream_run url ops (BeginStream rm os i model))))
          = Some (phase_of (snd (stream_run url ops (BeginStream rm os i model)))))"
proof -
  have "legal (stream_run url ops (BeginStream rm os i model))" by (intro stream_run_legal BeginStream_legal)
  then show ?thesis by (auto simp: legal_def in_step_def split: if_splits)
qed

subsection \<open>Reservations\<close>

lemma digits_of_length: "0 < k \<Longrightarrow> n < 10 ^ k \<Longrightarrow> length (digits_of n) \<le> k"
proof (induction k arbitrary: n)
  case (Suc k)
  show ?case
  proof (cases "n < 10")
    case False
    then have "0 < k" using Suc.prems by (cases k) auto
    moreover have "n div 10 < 10 ^ k" using Suc.prems by (simp add: less_mult_imp_div_less mult.commute)
    ultimately show ?thesis using Suc.IH [of "n div 10"] False by (simp add: digits_of.simps [of n])
  qed (simp add: digits_of.simps [of n])
qed simp

lemma stop_packet_length:
  "length (packet_bytes (Event ((ev ''content_block_stop'')\<lparr>EIndex := Some i\<rparr>))) = 72 + length (digits_of i)"
proof -
  have "quote ''type'' = ''\"type\"''" "quote ''index'' = ''\"index\"''" "quote ''content_block_stop'' = ''\"content_block_stop\"''"
    by code_simp+
  then show ?thesis by (simp add: packet_bytes_def sse_def event_text_def ev_def obj_text_def)
qed

lemma packets_length_append [simp]: "packets_length (xs @ ys) = packets_length xs + packets_length ys"
  by (simp add: packets_length_def)

lemma stopBlock_bytes:
  assumes "index s < 2 ^ 63"
  shows "packets_length (written (snd (stopBlock s))) \<le> packets_length (written s) + 128"
proof (cases "is_open s")
  case True
  have "length (digits_of (index s)) \<le> 19" using assms by (intro digits_of_length) simp_all
  then have "length (packet_bytes (Event ((ev ''content_block_stop'')\<lparr>EIndex := Some (index s)\<rparr>))) \<le> 128"
    by (simp add: stop_packet_length)
  then show ?thesis
    using True by (cases rule: emit_cases [of "Event ((ev ''content_block_stop'')\<lparr>EIndex := Some (index s)\<rparr>)" s])
      (simp_all add: stopBlock_def split_beta Let_def packets_length_def)
qed (simp add: stopBlock_def)

lemma write_bytes: "packets_length (written (snd (stream_write ps s))) \<le> packets_length (written s) + packets_length ps"
  using stream_write_cases [of ps s] by auto

text \<open>
  the reservation the gateway makes before a tool or a search block (\<open>ToolBytes\<close>, \<open>SearchBytes\<close>) is enough:
  the operation, including the text block it may have to close first, writes at most that many bytes, for every
  block index a 64-bit integer can hold.
\<close>

theorem reserved_bytes_suffice:
  assumes "index s < 2 ^ 63"
  shows "(\<forall>n. ToolBytes t s = Some n \<longrightarrow>
       packets_length (written (snd (stream_Tool t s))) \<le> packets_length (written s) + n)
    \<and> (\<forall>n. SearchBytes url x s = Some n \<longrightarrow>
       packets_length (written (snd (stream_Search url x s))) \<le> packets_length (written s) + n)"
proof (intro conjI allI impI)
  note b = stopBlock_bytes [OF assms]
  fix n assume n: "ToolBytes t s = Some n"
  show "packets_length (written (snd (stream_Tool t s))) \<le> packets_length (written s) + n"
    using n b write_bytes [of "toolPacket t (next_index s)" "snd (stopBlock s)"]
    by (auto simp: ToolBytes_def stream_Tool_def split_beta Let_def split: if_splits)
next
  note b = stopBlock_bytes [OF assms]
  fix n assume n: "SearchBytes url x s = Some n"
  show "packets_length (written (snd (stream_Search url x s))) \<le> packets_length (written s) + n"
    using n b write_bytes [of "searchPacket x (next_index s)" "snd (stopBlock s)"]
    by (auto simp: SearchBytes_def stream_Search_def split_beta Let_def split: if_splits)
qed

definition ex_tool :: tool_use where
  "ex_tool = \<lparr>UID = ''t1'', UName = ''Read'', UInput = ''{}''\<rparr>"

definition ex_stream :: text_stream where
  "ex_stream = snd (BeginTextStream 100000 [] ''msg_1'' ''m'')"

definition ex_url :: url_parser where "ex_url = (\<lambda>_. None)"

lemma ex_tool_bytes: "ToolBytes ex_tool ex_stream \<noteq> None" "index ex_stream = 0"
  by code_simp+

theorem reserved_bytes_suffice_witness:
  "index ex_stream < 2 ^ 63 \<and> (\<exists>n. ToolBytes ex_tool ex_stream = Some n
     \<and> packets_length (written (snd (stream_Tool ex_tool ex_stream))) \<le> packets_length (written ex_stream) + n)"
proof -
  have "index ex_stream < 2 ^ 63" using ex_tool_bytes by simp
  from reserved_bytes_suffice [OF this, of ex_tool ex_url] ex_tool_bytes this show ?thesis by blast
qed

theorem stream_refines_protocol_witness:
  "fst (stream_run ex_url [OpText ''a'', OpTool ex_tool, OpEnd ''end_turn''] (BeginStream 100000 [] ''msg_1'' ''m''))
   \<and> follows Start (written (snd (stream_run ex_url [OpText ''a'', OpTool ex_tool, OpEnd ''end_turn''] (BeginStream 100000 [] ''msg_1'' ''m''))))
     = Some Done"
proof -
  let ?r = "stream_run ex_url [OpText ''a'', OpTool ex_tool, OpEnd ''end_turn''] (BeginStream 100000 [] ''msg_1'' ''m'')"
  have "fst ?r" "ended (snd ?r)" by code_simp+
  with stream_refines_protocol [of ex_url "[OpText ''a'', OpTool ex_tool, OpEnd ''end_turn'']" 100000 "[]" "''msg_1''" "''m''"]
  show ?thesis by (simp add: phase_of_def)
qed

end
