(* ===== verification/Projection.thy ===== *)
theory Projection
  imports Messages_Props
begin

text \<open>
  Turning a validated request into ACP prompt parts: \<open>internal/projection\<close>, files \<open>text.go\<close> and \<open>media.go\<close>.
  SHA-256, used for document identifiers, is an argument.
\<close>

record prompt_capabilities =
  CapImage :: bool
  CapEmbeddedContext :: bool

datatype part =
    TextPart bytes
  | ImagePart bytes bytes              \<comment> \<open>MIME type, base64 data\<close>
  | ResourcePart bytes bytes bytes     \<comment> \<open>URI, MIME type, blob\<close>

definition part_MarshalJSON :: "part \<Rightarrow> bytes" where
  "part_MarshalJSON p = (case p of
     TextPart t \<Rightarrow> obj_text [(''type'', quote ''text''), (''text'', quote t)]
   | ImagePart mime data \<Rightarrow> obj_text [(''type'', quote ''image''), (''mimeType'', quote mime), (''data'', quote data)]
   | ResourcePart uri mime blob \<Rightarrow> obj_text [(''type'', quote ''resource''),
       (''resource'', obj_text [(''uri'', quote uri), (''mimeType'', quote mime), (''blob'', quote blob)])])"

subsection \<open>Text projection\<close>

definition history_message :: "bytes \<Rightarrow> bytes list \<Rightarrow> bytes" where
  "history_message role texts = obj_text [(''role'', quote role), (''content'', arr_text (map quote texts))]"

definition shown_text :: "block \<Rightarrow> bytes" where
  "shown_text b = (if BType b = ''text'' then BText b else BRaw b)"

definition context_text :: "block list \<Rightarrow> message list \<Rightarrow> bytes" where
  "context_text system ms = obj_text [(''system'', arr_text (map (\<lambda>b. quote (BText b)) system)),
     (''history'', arr_text (map (\<lambda>m. history_message (Role m) (map shown_text (Content m))) ms))]"

text \<open>A block the text projection can show: no media of its own and none inside a tool result.\<close>

definition text_block_ok :: "decode_config \<Rightarrow> block \<Rightarrow> bool" where
  "text_block_ok dc b =
     (if BType b = ''image'' \<or> BType b = ''document'' then False
      else if BType b = ''tool_result'' then
        (case Option.bind (DecodeToolResult (BRaw b)) (PromptContent dc) of
           None \<Rightarrow> False | Some ps \<Rightarrow> list_all (\<lambda>c. Media c = None) ps)
      else True)"

definition current_block :: "block \<Rightarrow> bytes list option" where
  "current_block b =
     (if BType b = ''text'' then Some [BText b]
      else if BType b = ''tool_result'' then
        (if DecodeToolResult (BRaw b) = None then None else Some [''Client tool result follows as JSON.'', BRaw b])
      else None)"

definition context_parts :: "request \<Rightarrow> nat \<Rightarrow> bytes list" where
  "context_parts r latest =
     (if System r \<noteq> [] \<or> 0 < latest
      then [''Conversation context follows as JSON; preserve its role and content order.'',
            context_text (System r) (take latest (Messages r)), ''Current user content follows.'']
      else [])"

definition update_parts :: "message list \<Rightarrow> bytes list" where
  "update_parts ms = concat (map (\<lambda>m. [''Client system update follows as JSON.'',
     history_message (Role m) (map BText (Content m))]) ms)"

definition Full :: "decode_config \<Rightarrow> request \<Rightarrow> bytes list option" where
  "Full dc r =
     (if \<not> ClientContent r \<or> Messages r = [] then None
      else if \<not> list_all (\<lambda>m. list_all (text_block_ok dc) (Content m)) (Messages r) then None
      else case LatestUserIndex r of
          None \<Rightarrow> None
        | Some latest \<Rightarrow>
            do {
              current \<leftarrow> all_some (map current_block (Content (Messages r ! latest)));
              Some (context_parts r latest @ concat current @ update_parts (drop (latest + 1) (Messages r)))
            })"

text \<open>A negative \<open>start\<close> is impossible here; the code checks it because its index is signed.\<close>

definition delta_request :: "request \<Rightarrow> nat \<Rightarrow> request option" where
  "delta_request r start = (case LatestUserIndex r of
     None \<Rightarrow> None
   | Some latest \<Rightarrow> if latest < start then None else Some (r\<lparr>System := [], Messages := drop start (Messages r)\<rparr>))"

definition Delta :: "decode_config \<Rightarrow> request \<Rightarrow> nat \<Rightarrow> bytes list option" where
  "Delta dc r start = Option.bind (delta_request r start) (Full dc)"

subsection \<open>Projection with media\<close>

text \<open>The content of a block as the projection sees it: a tool result's content, or the block itself.\<close>

definition block_content :: "decode_config \<Rightarrow> block \<Rightarrow> block list option" where
  "block_content dc b =
     (if BType b = ''tool_result'' then Option.bind (DecodeToolResult (BRaw b)) (PromptContent dc) else Some [b])"

definition media_allowed :: "prompt_capabilities \<Rightarrow> media \<Rightarrow> bool" where
  "media_allowed caps m \<longleftrightarrow>
     \<not> (Kind m = ''image'' \<and> \<not> CapImage caps \<or> MIME m = ''application/pdf'' \<and> \<not> CapEmbeddedContext caps)"

fun scan_children :: "prompt_capabilities \<Rightarrow> block list \<Rightarrow> nat \<times> nat \<Rightarrow> (nat \<times> nat) option" where
  "scan_children caps [] n = Some n"
| "scan_children caps (c # cs) (n, s) = (case Media c of
     None \<Rightarrow> scan_children caps cs (n, s)
   | Some m \<Rightarrow>
       if MaxMediaParts < n + 1 \<or> MaxMediaTotalBytes < s + Bytes m \<or> \<not> media_allowed caps m then None
       else scan_children caps cs (n + 1, s + Bytes m))"

fun scan_blocks :: "decode_config \<Rightarrow> prompt_capabilities \<Rightarrow> block list \<Rightarrow> nat \<times> nat \<Rightarrow> (nat \<times> nat) option" where
  "scan_blocks dc caps [] n = Some n"
| "scan_blocks dc caps (b # bs) n =
     do { cs \<leftarrow> block_content dc b; n' \<leftarrow> scan_children caps cs n; scan_blocks dc caps bs n' }"

definition nat_text :: "nat \<Rightarrow> bytes" where
  "nat_text n = digits_of n"

definition result_child :: "bytes \<Rightarrow> nat \<times> block \<Rightarrow> part list" where
  "result_child i ic =
     (let (k, c) = ic;
          entry = (\<lambda>content. TextPart (obj_text [(''type'', quote ''tool_result_content''), (''tool_use_id'', quote i),
                     (''content_index'', nat_text k), (''content'', content)]))
      in case Media c of
          None \<Rightarrow> [entry (compact (BRaw c))]
        | Some m \<Rightarrow> [entry ''{\"type\":\"image\",\"source\":\"following_acp_image\"}'', ImagePart (MIME m) (Data m)])"

definition result_parts :: "tool_outcome \<Rightarrow> part list" where
  "result_parts r =
     [TextPart (obj_text [(''type'', quote ''tool_result''), (''tool_use_id'', quote (ToolID r)),
        (''is_error'', bool_text (IsError r)), (''content_blocks'', nat_text (length (ToolContent r)))])]
     @ concat (map (result_child (ToolID r)) (enumerate 0 (ToolContent r)))
     @ [TextPart (obj_text [(''type'', quote ''tool_result_end''), (''tool_use_id'', quote (ToolID r))])]"

text \<open>A tool result with media inside, with its decoded content.\<close>

definition media_result :: "decode_config \<Rightarrow> block \<Rightarrow> tool_outcome option" where
  "media_result dc b =
     (if BType b \<noteq> ''tool_result'' then None
      else do {
        r \<leftarrow> DecodeToolResult (BRaw b);
        cs \<leftarrow> PromptContent dc r;
        (if list_ex (\<lambda>c. Media c \<noteq> None) cs then Some (r\<lparr>ToolContent := cs\<rparr>) else None)
      })"

definition document_uri :: "(bytes \<Rightarrow> bytes) \<Rightarrow> bytes \<Rightarrow> bytes" where
  "document_uri sha256 data = ''urn:dax-kiro-proxy:document:'' @ hex_encode (sha256 data)"

definition block_projection :: "(bytes \<Rightarrow> bytes) \<Rightarrow> decode_config \<Rightarrow> block \<Rightarrow> part list" where
  "block_projection sha256 dc b = (case media_result dc b of
     Some r \<Rightarrow> result_parts r
   | None \<Rightarrow> (case Media b of
       None \<Rightarrow> [TextPart (shown_text b)]
     | Some m \<Rightarrow>
         if Kind m = ''image'' then [ImagePart (MIME m) (Data m)]
         else TextPart (DocumentText m)
              # (if MIME m = ''application/pdf'' then [ResourcePart (document_uri sha256 (Data m)) (MIME m) (Data m)] else [])))"

definition role_marker :: "nat \<Rightarrow> message \<Rightarrow> part" where
  "role_marker i m = TextPart (obj_text [(''role'', quote (Role m)), (''message_index'', nat_text i)])"

definition system_marker :: "block list \<Rightarrow> part list" where
  "system_marker system = (if system = [] then [] else
     [TextPart (obj_text [(''role'', quote ''system''), (''scope'', quote ''top_level''),
        (''content'', arr_text (map (\<lambda>b. quote (BText b)) system))])])"

definition message_projection :: "(bytes \<Rightarrow> bytes) \<Rightarrow> decode_config \<Rightarrow> nat \<times> message \<Rightarrow> part list" where
  "message_projection sha256 dc im =
     (let (i, m) = im in role_marker i m # concat (map (block_projection sha256 dc) (Content m)))"

definition FullWithCapabilities ::
  "(bytes \<Rightarrow> bytes) \<Rightarrow> decode_config \<Rightarrow> request \<Rightarrow> prompt_capabilities \<Rightarrow> part list option" where
  "FullWithCapabilities sha256 dc r caps =
     (if \<not> ClientContent r \<or> LatestUserIndex r = None then None
      else case scan_blocks dc caps (concat (map Content (Messages r))) (0, 0) of
          None \<Rightarrow> None
        | Some (count, _) \<Rightarrow>
            if count = 0 then map_option (map TextPart) (Full dc r)
            else Some ([TextPart ''Conversation messages follow in order. Each JSON role marker introduces that message's ordered text, images and documents.'']
                 @ system_marker (System r)
                 @ concat (map (message_projection sha256 dc) (enumerate 0 (Messages r)))))"

definition DeltaWithCapabilities ::
  "(bytes \<Rightarrow> bytes) \<Rightarrow> decode_config \<Rightarrow> request \<Rightarrow> nat \<Rightarrow> prompt_capabilities \<Rightarrow> part list option" where
  "DeltaWithCapabilities sha256 dc r start caps =
     Option.bind (delta_request r start) (\<lambda>n. FullWithCapabilities sha256 dc n caps)"

end
