(* ===== verification/Projection_Props.thy ===== *)
theory Projection_Props
  imports Projection "HOL-Library.Sublist"
begin

text \<open>
  A projected prompt respects the backend's capabilities and the media limits, and it contains the user's own text
  completely and in order.
\<close>

subsection \<open>Where media comes from\<close>

lemma all_some_mem:
  assumes "all_some (map f xs) = Some ys" "y \<in> set ys"
  obtains x where "x \<in> set xs" "f x = Some y"
proof -
  have "\<exists>x \<in> set xs. f x = Some y" using assms by (induction xs arbitrary: ys) (auto split: option.splits)
  then show ?thesis using that by blast
qed

lemma content_no_media: "content raw = Some bs \<Longrightarrow> b \<in> set bs \<Longrightarrow> bmedia b = None"
proof -
  have cb: "bmedia b = None" if "content_block v = Some b" for v b
    using that by (auto simp: content_block_def Option.bind_eq_Some_conv split: if_splits)
  assume "content raw = Some bs" "b \<in> set bs"
  then show ?thesis
    by (auto simp: content_def split: list.splits if_splits option.splits dest: cb elim!: all_some_mem)
qed

definition media_typed :: "block \<Rightarrow> bool" where
  "media_typed b \<longleftrightarrow> (bmedia b \<noteq> None \<longrightarrow> BType b = ''image'' \<or> BType b = ''document'')"

lemma decode_blocks_typed:
  "decode_blocks dc role bs n = Some (bs', n') \<Longrightarrow> \<forall>b \<in> set bs. bmedia b = None \<Longrightarrow> b \<in> set bs' \<Longrightarrow> media_typed b"
proof (induction bs arbitrary: n bs' n')
  case (Cons c bs)
  from Cons.prems(1) obtain c' ps n1 bs1 where
    c: "decode_block dc role c = Some (c', ps)" "decode_blocks dc role bs n1 = Some (bs1, n')" "bs' = c' # bs1"
    by (auto simp: Option.bind_eq_Some_conv)
  have "media_typed c'"
    using c(1) Cons.prems(2) by (auto simp: decode_block_def media_typed_def Option.bind_eq_Some_conv split: if_splits)
  moreover have "media_typed b" if "b \<in> set bs1" using Cons.IH [OF c(2)] Cons.prems(2) that by simp
  ultimately show ?case using Cons.prems(3) c(3) by auto
qed simp

lemma decode_message_typed:
  assumes "decode_message dc raw n = Some (m, n')" "b \<in> set (Content m)"
  shows "media_typed b"
proof -
  from assms(1) obtain c c' role where c: "content c = Some c'" "decode_blocks dc role c' n = Some (Content m, n')"
    by (auto simp: decode_message_def Option.bind_eq_Some_conv split: if_splits option.splits)
  with assms(2) content_no_media show ?thesis by (blast intro: decode_blocks_typed)
qed

lemma decode_messages_typed:
  "decode_messages dc raws n = Some ms \<Longrightarrow> m \<in> set ms \<Longrightarrow> b \<in> set (Content m) \<Longrightarrow> media_typed b"
  by (induction raws arbitrary: n ms) (auto simp: Option.bind_eq_Some_conv dest: decode_message_typed)

lemma decoded_typed:
  assumes "DecodeRequest u dc body = Inr r" "m \<in> set (Messages r)" "b \<in> set (Content m)"
  shows "media_typed b"
proof -
  from assms(1) obtain fs where "decode_fields u dc fs = Some r" by (rule DecodeRequest_accepts)
  then obtain raws where "decode_messages dc raws (0, 0) = Some (Messages r)" using decode_fields_spec(6) by blast
  with assms(2,3) show ?thesis by (blast intro: decode_messages_typed)
qed

lemma prompt_children:
  assumes "DecodeToolResult raw = Some t" "PromptContent dc t = Some cs" "c \<in> set cs" "Media c = Some m"
  shows "Kind m = ''image''"
proof -
  from assms(1) have "\<forall>b \<in> set (ToolContent t). bmedia b = None"
    using content_no_media by (auto simp: DecodeToolResult_def Option.bind_eq_Some_conv split: if_splits option.splits)
  moreover obtain b where "b \<in> set (ToolContent t)" "prompt_block dc b = Some c"
    using assms(2,3) by (auto simp: PromptContent_def elim: all_some_mem)
  ultimately have "BType c = ''image''"
    using assms(4) by (auto simp: prompt_block_def Media_def Option.bind_eq_Some_conv split: if_splits)
  with assms(4) show ?thesis by (auto simp: Media_def split: option.splits if_splits)
qed

subsection \<open>Media limits\<close>

definition is_media :: "part \<Rightarrow> bool" where
  "is_media p = (case p of TextPart _ \<Rightarrow> False | _ \<Rightarrow> True)"

definition part_allowed :: "prompt_capabilities \<Rightarrow> part \<Rightarrow> bool" where
  "part_allowed caps p = (case p of
     TextPart _ \<Rightarrow> True | ImagePart _ _ \<Rightarrow> CapImage caps | ResourcePart _ _ _ \<Rightarrow> CapEmbeddedContext caps)"

lemma is_media_simps [simp]:
  "is_media (TextPart t) = False" "is_media (ImagePart a d) = True" "is_media (ResourcePart a c d) = True"
  "part_allowed caps (TextPart t)" "part_allowed caps (ImagePart a d) = CapImage caps"
  "part_allowed caps (ResourcePart a c d) = CapEmbeddedContext caps"
  by (simp_all add: is_media_def part_allowed_def)

lemma scan_children_spec:
  "scan_children caps cs n = Some n' \<Longrightarrow> fst n' = fst n + length (media_list cs)
     \<and> (fst n \<le> MaxMediaParts \<longrightarrow> fst n' \<le> MaxMediaParts) \<and> (\<forall>m \<in> set (media_list cs). media_allowed caps m)"
  by (induction caps cs n rule: scan_children.induct)
    (auto simp: media_list_def List.map_filter_simps split: option.splits if_splits)

lemma result_children_media:
  "length (filter is_media (concat (map (result_child i) (enumerate k cs)))) = length (media_list cs)"
  by (induction cs arbitrary: k) (auto simp: result_child_def media_list_def List.map_filter_simps Let_def split: option.splits)

lemma result_child_allowed:
  "(\<And>m. Media c = Some m \<Longrightarrow> CapImage caps) \<Longrightarrow> p \<in> set (result_child i (k, c)) \<Longrightarrow> part_allowed caps p"
  by (cases "Media c") (auto simp: result_child_def)

lemma result_children_allowed:
  assumes "\<forall>c \<in> set cs. \<forall>m. Media c = Some m \<longrightarrow> CapImage caps" "p \<in> set (concat (map (result_child i) (enumerate k cs)))"
  shows "part_allowed caps p"
proof -
  obtain kc where "kc \<in> set (enumerate k cs)" "p \<in> set (result_child i kc)" using assms(2) by auto
  moreover from this have "snd kc \<in> set cs" by (metis enumerate_eq_zip prod.collapse set_zip_rightD)
  ultimately show ?thesis using assms(1) result_child_allowed [of "snd kc" caps p i "fst kc"] by auto
qed

lemma media_list_mem: "m \<in> set (media_list cs) \<longleftrightarrow> (\<exists>c \<in> set cs. Media c = Some m)"
  by (induction cs) (auto simp: media_list_def List.map_filter_simps split: option.splits)

lemma block_projection_media:
  assumes "block_content dc b = Some cs" "media_typed b" "\<forall>m \<in> set (media_list cs). media_allowed caps m"
  shows "length (filter is_media (block_projection sha dc b)) \<le> length (media_list cs)
    \<and> (\<forall>p \<in> set (block_projection sha dc b). part_allowed caps p)"
proof (cases "BType b = ''tool_result''")
  case True
  then have nb: "Media b = None" using assms(2) by (auto simp: media_typed_def Media_def split: option.splits)
  obtain t where t: "DecodeToolResult (BRaw b) = Some t" "PromptContent dc t = Some cs"
    using assms(1) True by (auto simp: block_content_def Option.bind_eq_Some_conv)
  show ?thesis
  proof (cases "media_result dc b")
    case None
    with nb show ?thesis by (simp add: block_projection_def)
  next
    case (Some r)
    then have r: "r = t\<lparr>ToolContent := cs\<rparr>" using t True by (auto simp: media_result_def split: if_splits)
    have "\<forall>c \<in> set cs. \<forall>m. Media c = Some m \<longrightarrow> CapImage caps"
      using prompt_children [OF t] assms(3) by (fastforce simp: media_list_mem media_allowed_def)
    then show ?thesis
      using Some result_children_allowed [of cs caps _ "ToolID r" 0]
      by (auto simp: block_projection_def result_parts_def r result_children_media)
  qed
next
  case False
  then have c: "cs = [b]" and mr: "media_result dc b = None"
    using assms(1) by (auto simp: block_content_def media_result_def)
  show ?thesis
    using assms(3) by (auto simp: block_projection_def mr c media_list_def List.map_filter_simps media_allowed_def split: option.splits)
qed

lemma scan_blocks_media:
  "scan_blocks dc caps bs n = Some n' \<Longrightarrow> \<forall>b \<in> set bs. media_typed b \<Longrightarrow>
     length (filter is_media (concat (map (block_projection sha dc) bs))) + fst n \<le> fst n'
     \<and> (fst n \<le> MaxMediaParts \<longrightarrow> fst n' \<le> MaxMediaParts)
     \<and> (\<forall>p \<in> set (concat (map (block_projection sha dc) bs)). part_allowed caps p)"
proof (induction bs arbitrary: n)
  case (Cons b bs)
  from Cons.prems(1) obtain cs n1 where
    c: "block_content dc b = Some cs" "scan_children caps cs n = Some n1" "scan_blocks dc caps bs n1 = Some n'"
    by (auto simp: Option.bind_eq_Some_conv)
  note s = scan_children_spec [OF c(2)]
  have "media_typed b" using Cons.prems(2) by simp
  note bp = block_projection_media [OF c(1) this, of caps sha]
  show ?case using Cons.IH [OF c(3)] Cons.prems(2) s bp by auto
qed simp

lemma messages_media:
  "filter is_media (concat (map (message_projection sha dc) (enumerate k ms)))
     = filter is_media (concat (map (block_projection sha dc) (concat (map Content ms))))"
  by (induction ms arbitrary: k) (simp_all add: message_projection_def role_marker_def Let_def)

lemma messages_allowed:
  "p \<in> set (concat (map (message_projection sha dc) (enumerate k ms))) \<Longrightarrow> is_media p \<Longrightarrow>
     p \<in> set (concat (map (block_projection sha dc) (concat (map Content ms))))"
proof -
  assume "p \<in> set (concat (map (message_projection sha dc) (enumerate k ms)))" "is_media p"
  then have "p \<in> set (filter is_media (concat (map (message_projection sha dc) (enumerate k ms))))" by simp
  then show ?thesis unfolding messages_media by (metis filter_is_subset subsetD)
qed

text \<open>
  C14: a projected prompt respects what the backend announced and the prompt's media limit: at most 20 media parts,
  images only for a backend with images, embedded documents only for one with embedded context.
\<close>

theorem projection_respects_capabilities:
  assumes "DecodeRequest u dc body = Inr r" "FullWithCapabilities sha dc r caps = Some parts"
  shows "length (filter is_media parts) \<le> MaxMediaParts \<and> list_all (part_allowed caps) parts"
proof -
  obtain n k where s: "scan_blocks dc caps (concat (map Content (Messages r))) (0, 0) = Some (n, k)"
    using assms(2) by (auto simp: FullWithCapabilities_def split: if_splits option.splits)
  have typed: "\<forall>b \<in> set (concat (map Content (Messages r))). media_typed b" using decoded_typed [OF assms(1)] by auto
  note m = scan_blocks_media [OF s typed, of sha]
  show ?thesis
  proof (cases "n = 0")
    case True
    then have "\<exists>ts. parts = map TextPart ts"
      using assms(2) s by (auto simp: FullWithCapabilities_def split: if_splits)
    then show ?thesis by (auto simp: list_all_iff filter_empty_conv)
  next
    case False
    then have parts: "parts = TextPart ''Conversation messages follow in order. Each JSON role marker introduces that message's ordered text, images and documents.''
        # system_marker (System r) @ concat (map (message_projection sha dc) (enumerate 0 (Messages r)))"
      using assms(2) s by (auto simp: FullWithCapabilities_def split: if_splits)
    have sys: "filter is_media (system_marker (System r)) = []" "\<forall>p \<in> set (system_marker (System r)). part_allowed caps p"
      by (simp_all add: system_marker_def)
    have "part_allowed caps p" if "p \<in> set (concat (map (message_projection sha dc) (enumerate 0 (Messages r))))" for p
    proof (cases "is_media p")
      case True
      with messages_allowed [OF that True] m show ?thesis by blast
    next
      case False
      then show ?thesis by (simp add: is_media_def part_allowed_def split: part.splits)
    qed
    moreover have "length (filter is_media parts) \<le> MaxMediaParts"
      unfolding parts using m by (simp only: filter.simps is_media_simps if_False filter_append sys append_Nil messages_media) simp
    ultimately show ?thesis unfolding parts list_all_iff using sys(2) by auto
  qed
qed

subsection \<open>The user's text\<close>

lemma subseq_concat_map:
  "(\<And>x. x \<in> set xs \<Longrightarrow> P x \<Longrightarrow> f x = [g x]) \<Longrightarrow> subseq (map g (filter P xs)) (concat (map f xs))"
  by (induction xs) (auto intro: subseq_drop_many)

lemma subseq_in_concat: "x \<in> set xss \<Longrightarrow> subseq x (concat xss)"
  by (induction xss) (auto intro: subseq_rev_drop_many subseq_drop_many)

lemma all_some_map: "all_some (map f xs) = Some ys \<Longrightarrow> ys = map (\<lambda>x. the (f x)) xs"
  by (induction xs arbitrary: ys) (auto split: option.splits)

lemma text_projection: "BType b = ''text'' \<Longrightarrow> media_typed b \<Longrightarrow> block_projection sha dc b = [TextPart (BText b)]"
  by (auto simp: block_projection_def media_result_def media_typed_def Media_def shown_text_def split: option.splits)

lemma user_text_in_message:
  assumes "\<forall>b \<in> set (Content m). media_typed b" "(i, m) \<in> set (enumerate 0 ms)"
  shows "subseq (map (\<lambda>b. TextPart (BText b)) (filter (\<lambda>b. BType b = ''text'') (Content m)))
    (concat (map (message_projection sha dc) (enumerate 0 ms)))"
proof -
  have "subseq (map (\<lambda>b. TextPart (BText b)) (filter (\<lambda>b. BType b = ''text'') (Content m)))
      (concat (map (block_projection sha dc) (Content m)))"
    using assms(1) by (intro subseq_concat_map text_projection) auto
  from list_emb_Cons [OF this]
  have "subseq (map (\<lambda>b. TextPart (BText b)) (filter (\<lambda>b. BType b = ''text'') (Content m))) (message_projection sha dc (i, m))"
    by (simp add: message_projection_def del: list_emb_code)
  moreover have "message_projection sha dc (i, m) \<in> set (map (message_projection sha dc) (enumerate 0 ms))"
    using assms(2) by (metis image_eqI list.set_map)
  ultimately show ?thesis by (meson subseq_in_concat subseq_order.trans)
qed

lemma Full_user_text:
  assumes "Full dc r = Some ts" "LatestUserIndex r = Some latest"
  shows "subseq (map BText (filter (\<lambda>b. BType b = ''text'') (Content (Messages r ! latest)))) ts"
proof -
  obtain current pre post where c: "all_some (map current_block (Content (Messages r ! latest))) = Some current"
    and ts: "ts = pre @ concat current @ post"
    using assms by (auto simp: Full_def Option.bind_eq_Some_conv split: if_splits)
  have "subseq (map BText (filter (\<lambda>b. BType b = ''text'') (Content (Messages r ! latest))))
      (concat (map (\<lambda>b. the (current_block b)) (Content (Messages r ! latest))))"
    by (rule subseq_concat_map) (simp add: current_block_def)
  then show ?thesis unfolding ts all_some_map [OF c]
    by (intro subseq_drop_many subseq_rev_drop_many)
qed

text \<open>
  the user's words reach the backend: in every prompt projected from a decoded request, the text blocks of the
  latest user message appear as text parts of their own, completely and in their order.
\<close>

theorem projection_keeps_user_text:
  assumes "DecodeRequest u dc body = Inr r" "FullWithCapabilities sha dc r caps = Some parts"
    and "LatestUserIndex r = Some latest"
  shows "subseq (map (\<lambda>b. TextPart (BText b)) (filter (\<lambda>b. BType b = ''text'') (Content (Messages r ! latest)))) parts"
proof -
  obtain n k where s: "scan_blocks dc caps (concat (map Content (Messages r))) (0, 0) = Some (n, k)"
    using assms(2) by (auto simp: FullWithCapabilities_def split: if_splits option.splits)
  have l: "latest < length (Messages r)" using assms(3) by (simp add: latest_user_index)
  show ?thesis
  proof (cases "n = 0")
    case True
    then obtain ts where ts: "Full dc r = Some ts" "parts = map TextPart ts"
      using assms(2) s by (auto simp: FullWithCapabilities_def split: if_splits)
    have "subseq (map TextPart (map BText (filter (\<lambda>b. BType b = ''text'') (Content (Messages r ! latest))))) (map TextPart ts)"
      using Full_user_text [OF ts(1) assms(3)] by (rule subseq_map)
    then show ?thesis by (simp add: ts(2) comp_def)
  next
    case False
    then obtain pre where parts: "parts = pre @ concat (map (message_projection sha dc) (enumerate 0 (Messages r)))"
      using assms(2) s by (auto simp: FullWithCapabilities_def split: if_splits)
    have "(latest, Messages r ! latest) \<in> set (enumerate 0 (Messages r))"
      using l by (simp add: in_set_enumerate_eq)
    moreover have "\<forall>b \<in> set (Content (Messages r ! latest)). media_typed b"
      using decoded_typed [OF assms(1) nth_mem [OF l]] by blast
    ultimately show ?thesis unfolding parts by (intro subseq_drop_many user_text_in_message)
  qed
qed

definition ex_caps :: prompt_capabilities where
  "ex_caps = \<lparr>CapImage = False, CapEmbeddedContext = False\<rparr>"

definition ex_sha :: "bytes \<Rightarrow> bytes" where "ex_sha = (\<lambda>_. [])"

lemma ex_projected: "FullWithCapabilities ex_sha ex_dc ex_request ex_caps = Some [TextPart ''hi'']"
  "LatestUserIndex ex_request = Some 0"
  by code_simp+

theorem projection_respects_capabilities_witness:
  "DecodeRequest ex_unicode ex_dc ex_body = Inr ex_request
   \<and> FullWithCapabilities ex_sha ex_dc ex_request ex_caps = Some [TextPart ''hi'']
   \<and> list_all (part_allowed ex_caps) [TextPart ''hi'']"
  using projection_respects_capabilities [OF ex_decoded ex_projected(1)] ex_decoded ex_projected by blast

theorem projection_keeps_user_text_witness:
  "DecodeRequest ex_unicode ex_dc ex_body = Inr ex_request \<and> LatestUserIndex ex_request = Some 0
   \<and> subseq [TextPart ''hi''] [TextPart ''hi'']"
  using projection_keeps_user_text [OF ex_decoded ex_projected] ex_decoded ex_projected by simp

end
