(* ===== verification/GoFloat.thy ===== *)
theory GoFloat
  imports Complex_Main GoJson
begin

text \<open>
  Go's \<open>float64\<close> as far as the code uses it: values decoded from JSON numbers and compared with bounds. A
  finite double is represented by its value; a JSON number literal is rounded to the nearest double, ties to
  even, and a literal beyond the largest double is a range error (\<open>strconv.ParseFloat\<close>, and
  \<open>json.Unmarshal\<close> into a \<open>float64\<close>).
\<close>

datatype float64 = Fin rat | PosInf | NegInf | NaN

fun bit_length :: "nat \<Rightarrow> nat" where
  "bit_length n = (if n = 0 then 0 else Suc (bit_length (n div 2)))"

declare bit_length.simps [simp del]

definition pow2 :: "int \<Rightarrow> rat" where
  "pow2 e = (if 0 \<le> e then 2 ^ nat e else 1 / 2 ^ nat (- e))"

text \<open>For \<open>q > 0\<close>: the \<open>k\<close> with \<open>2^k \<le> q < 2^(k+1)\<close>.\<close>

definition binary_exponent :: "rat \<Rightarrow> int" where
  "binary_exponent q =
     (let (a, b) = quotient_of q; k = int (bit_length (nat a)) - int (bit_length (nat b))
      in if q < pow2 k then k - 1 else k)"

definition round_half_even :: "rat \<Rightarrow> int" where
  "round_half_even x =
     (let n = \<lfloor>x\<rfloor>; r = x - of_int n in if r < 1 / 2 \<or> (r = 1 / 2 \<and> even n) then n else n + 1)"

text \<open>The least exponent is that of the subnormal doubles.\<close>

definition round_double :: "rat \<Rightarrow> float64" where
  "round_double q =
     (if q \<le> 0 then Fin 0
      else let e = max (- 1074) (binary_exponent q - 52); v = of_int (round_half_even (q / pow2 e)) * pow2 e
           in if pow2 1024 \<le> v then PosInf else Fin v)"

definition pow10 :: "int \<Rightarrow> rat" where
  "pow10 e = (if 0 \<le> e then 10 ^ nat e else 1 / 10 ^ nat (- e))"

definition exponent_value :: "bytes \<Rightarrow> int" where
  "exponent_value t = (case t of
     [] \<Rightarrow> 0
   | _ # r \<Rightarrow> if exp_sign r = ''-'' then - int (digits_val (drop 1 r))
              else int (digits_val (drop (length (exp_sign r)) r)))"

text \<open>The value of the literal without its sign.\<close>

definition decimal_value :: "bytes \<Rightarrow> rat option" where
  "decimal_value t =
     do {
       (i, r1) \<leftarrow> num_int t;
       (f, r2) \<leftarrow> num_frac r1;
       (e, r3) \<leftarrow> num_exp r2;
       if r3 \<noteq> [] then None
       else Some (of_nat (digits_val (i @ drop 1 f)) * pow10 (exponent_value e - int (length (drop 1 f))))
     }"

definition parse_float :: "bytes \<Rightarrow> float64 option" where
  "parse_float t = (case decimal_value (drop (length (num_sign t)) t) of
     None \<Rightarrow> None
   | Some q \<Rightarrow> (case round_double q of
       Fin v \<Rightarrow> Some (Fin (if num_sign t = [] then v else - v))
     | _ \<Rightarrow> None))"

text \<open>\<open>var n float64; json.Unmarshal(raw, &n)\<close>.\<close>

definition unmarshal_float :: "bytes \<Rightarrow> float64 option" where
  "unmarshal_float raw = (case parse raw of
     Some (JNum t) \<Rightarrow> parse_float t | Some JNull \<Rightarrow> Some (Fin 0) | _ \<Rightarrow> None)"

text \<open>Neither NaN nor infinite, not negative, and at most \<open>hi\<close>.\<close>

fun float_within :: "float64 \<Rightarrow> rat \<Rightarrow> bool" where
  "float_within (Fin v) hi = (0 \<le> v \<and> v \<le> hi)"
| "float_within _ _ = False"

end
