(* ===== verification/Kirofeature.thy ===== *)
theory Kirofeature
  imports GoFloat GoRunes Wire Pool
begin

text \<open>
  \<open>internal/kirofeature\<close>: the adapters for Kiro's private extensions. The effort synchroniser is a state
  machine over the operations below; the account usage query and the search inventory are conversations with
  a peer, which is an argument (its answers to calls, its notifications, and what the context says at each
  check); both return the calls they made beside their result.
\<close>

datatype kerror = KUnavailable | KProtocol | KParameters | KAdvertisement | KPeer perror | KRemote int

subsection \<open>effort.go\<close>

datatype capability = Unknown | Current | Unsupported | Unavailable | Configured

type_synonym effort_pair = "bytes \<times> bytes"   \<comment> \<open>model and effort\<close>

record effort_status =
  State :: capability
  StModel :: bytes
  Requested :: bytes
  Applied :: bytes
  Rejected :: bool
  Reason :: bytes

record effort =
  advertised :: bool
  eavailable :: bool
  knownUnsupported :: "effort_pair list"
  rejected :: "effort_pair list"
  applied :: effort_pair
  estatus :: effort_status

definition unknown_status :: effort_status where
  "unknown_status = \<lparr>State = Unknown, StModel = [], Requested = [], Applied = [], Rejected = False, Reason = []\<rparr>"

definition Normalize :: "unicode_tables \<Rightarrow> bytes \<Rightarrow> bytes" where
  "Normalize u value =
     (let v = ToLower u (TrimSpace value)
      in if v \<in> {''low'', ''medium'', ''high'', ''xhigh'', ''max''} then v else [])"

definition MaxPairs :: nat where "MaxPairs = 1280"

fun known_pairs :: "unicode_tables \<Rightarrow> effort_pair list \<Rightarrow> effort_pair list \<Rightarrow> effort_pair list" where
  "known_pairs u [] acc = acc"
| "known_pairs u ((m, e) # ps) acc =
     (if MaxPairs \<le> length acc then acc
      else if m \<noteq> [] \<and> length m \<le> 256 \<and> Normalize u e \<noteq> []
        then known_pairs u ps (List.insert (m, Normalize u e) acc)
      else known_pairs u ps acc)"

definition NewEffort :: "unicode_tables \<Rightarrow> effort_pair list \<Rightarrow> effort" where
  "NewEffort u unsupported = \<lparr>advertised = False, eavailable = False, knownUnsupported = known_pairs u unsupported [],
     rejected = [], applied = ([], []), estatus = unknown_status\<rparr>"

text \<open>The name of one advertised command.\<close>

definition command_name :: "bytes \<Rightarrow> bytes option" where
  "command_name raw =
     do {
       obj \<leftarrow> ndjson_Object raw;
       name \<leftarrow> string_field (field obj ''name'');
       if 256 < length name then None else Some name
     }"

definition Advertise :: "bytes \<Rightarrow> effort \<Rightarrow> (kerror + unit) \<times> effort" where
  "Advertise raw c =
     (if 65536 < length raw then (Inl KAdvertisement, c)
      else case ndjson_Object raw of
        None \<Rightarrow> (Inl KAdvertisement, c)
      | Some fs \<Rightarrow>
          (if take 1 (field fs ''commands'') \<noteq> ''['' then (Inl KAdvertisement, c)
           else case unmarshal_raws (field fs ''commands'') of
             None \<Rightarrow> (Inl KAdvertisement, c)
           | Some commands \<Rightarrow>
               (if 128 < length commands then (Inl KAdvertisement, c)
                else case all_some (map command_name commands) of
                  None \<Rightarrow> (Inl KAdvertisement, c)
                | Some names \<Rightarrow>
                    (Inr (), c\<lparr>advertised := True,
                       eavailable := list_ex (\<lambda>n. n = ''/effort'' \<or> n = ''effort'') names\<rparr>))))"

definition ModelChanged :: "effort \<Rightarrow> effort" where
  "ModelChanged c = c\<lparr>applied := ([], []), estatus := unknown_status\<rparr>"

definition ProcessChanged :: "effort \<Rightarrow> effort" where
  "ProcessChanged c =
     c\<lparr>advertised := False, eavailable := False, applied := ([], []), estatus := unknown_status\<rparr>"

text \<open>A call over the session's connection: the reply, a rejection by the agent, or another failure.\<close>

datatype reply = RpcOk bytes | RpcRejected int | RpcFailed perror

definition effort_params :: "bytes \<Rightarrow> bytes \<Rightarrow> bytes" where
  "effort_params session value = obj_text [(''sessionId'', quote session),
     (''command'', obj_text [(''command'', quote ''effort''), (''args'', obj_text [(''value'', quote value)])])]"

text \<open>What \<open>Sync\<close> decides before any call: an answer, or \<open>None\<close> when the pair is to be probed.\<close>

definition sync_local :: "effort \<Rightarrow> effort_pair \<Rightarrow> effort_status \<Rightarrow> effort_status option" where
  "sync_local c pr s =
     (if snd pr = [] then Some s
      else if fst pr = ''auto'' then Some (s\<lparr>State := Unsupported, Reason := ''automatic model selection''\<rparr>)
      else if pr \<in> set (knownUnsupported c)
        then Some (s\<lparr>State := Unsupported, Reason := ''known unsupported model/effort pair''\<rparr>)
      else if \<not> advertised c then Some (s\<lparr>Reason := ''command availability unknown''\<rparr>)
      else if \<not> eavailable c then Some (s\<lparr>State := Unavailable, Reason := ''effort command not advertised''\<rparr>)
      else if applied c = pr then Some (s\<lparr>State := Current\<rparr>)
      else if pr \<in> set (rejected c) then Some (s\<lparr>Rejected := True, Reason := ''previous probe rejected''\<rparr>)
      else if MaxPairs \<le> length (rejected c) then Some (s\<lparr>Reason := ''capability probe budget reached''\<rparr>)
      else None)"

definition save_status :: "effort_status \<Rightarrow> effort \<Rightarrow> (kerror + effort_status) \<times> effort" where
  "save_status s c = (Inr s, c\<lparr>estatus := s\<rparr>)"

definition reject_pair :: "effort_pair \<Rightarrow> effort_status \<Rightarrow> bytes \<Rightarrow> effort \<Rightarrow> (kerror + effort_status) \<times> effort" where
  "reject_pair pr s why c =
     save_status (s\<lparr>Rejected := True, Reason := why\<rparr>) (c\<lparr>rejected := List.insert pr (rejected c)\<rparr>)"

definition sync_reply :: "effort_pair \<Rightarrow> effort_status \<Rightarrow> reply \<Rightarrow> effort \<Rightarrow> (kerror + effort_status) \<times> effort" where
  "sync_reply pr s r c = (case r of
     RpcFailed e \<Rightarrow> (Inl (KPeer e), c)
   | RpcRejected _ \<Rightarrow> reject_pair pr s ''effort command rejected'' c
   | RpcOk raw \<Rightarrow>
       if (case ndjson_Object raw of None \<Rightarrow> True | Some fs \<Rightarrow> field fs ''success'' \<noteq> ''true'')
       then reject_pair pr s ''effort result did not confirm success'' c
       else save_status (s\<lparr>State := Current, Applied := snd pr\<rparr>) (c\<lparr>applied := pr\<rparr>))"

definition base_status :: "effort \<Rightarrow> bytes \<Rightarrow> bytes \<Rightarrow> effort_status" where
  "base_status c model value = unknown_status\<lparr>StModel := model, Requested := value,
     Applied := (if fst (applied c) = model then snd (applied c) else [])\<rparr>"

text \<open>\<open>Sync\<close>; the last component is the list of calls made (method and parameters).\<close>

definition Sync ::
  "unicode_tables \<Rightarrow> (bytes \<Rightarrow> bytes \<Rightarrow> reply) \<Rightarrow> bytes \<Rightarrow> bytes \<Rightarrow> bytes \<Rightarrow> effort
   \<Rightarrow> (kerror + effort_status) \<times> effort \<times> (bytes \<times> bytes) list" where
  "Sync u rpc session model requested c =
     (let value = Normalize u requested; pr = (model, value); s = base_status c model value
      in if model = [] \<or> 256 < length model \<or> session = [] \<or> 1024 < length session then (Inl KParameters, c, [])
         else case sync_local c pr s of
             Some s' \<Rightarrow> (case save_status s' c of (r, c') \<Rightarrow> (r, c', []))
           | None \<Rightarrow>
               (case sync_reply pr s (rpc ''_kiro.dev/commands/execute'' (effort_params session value)) c of
                  (r, c') \<Rightarrow> (r, c', [(''_kiro.dev/commands/execute'', effort_params session value)])))"

subsection \<open>metadata.go\<close>

record metering =
  MUnit :: bytes
  MValue :: float64

record metadata =
  ContextPercent :: "float64 option"
  DurationMS :: "float64 option"
  Metering :: "metering list"

definition validMetadataNumber :: "float64 \<Rightarrow> rat \<Rightarrow> bool" where
  "validMetadataNumber v hi = float_within v hi"

definition metadataNumber :: "bytes \<Rightarrow> rat \<Rightarrow> float64 option" where
  "metadataNumber raw hi = (case raw of
     [] \<Rightarrow> None
   | c # _ \<Rightarrow> if \<not> is_digit c then None
              else case parse_float raw of
                  Some v \<Rightarrow> if validMetadataNumber v hi then Some v else None
                | None \<Rightarrow> None)"

definition meter_unit :: "bytes \<Rightarrow> bytes option" where
  "meter_unit t =
     (if t = ''credits'' then Some ''credit'' else if t = ''tokens'' then Some ''token''
      else if t = ''credit'' \<or> t = ''token'' then Some t else None)"

fun meter_entries :: "bytes list \<Rightarrow> metering list \<Rightarrow> metering list option" where
  "meter_entries [] acc = Some acc"
| "meter_entries (raw # raws) acc = (case ndjson_Object raw of
     None \<Rightarrow> None
   | Some fs \<Rightarrow> (case string_field (field fs ''unit'') of
       None \<Rightarrow> None
     | Some t \<Rightarrow> (case meter_unit t of
         None \<Rightarrow> meter_entries raws acc
       | Some unit \<Rightarrow> (case metadataNumber (field fs ''value'') (10 ^ 12) of
           None \<Rightarrow> None
         | Some n \<Rightarrow> if unit \<in> set (map MUnit acc) then None
                     else meter_entries raws (acc @ [\<lparr>MUnit = unit, MValue = n\<rparr>])))))"

definition metadataMeters :: "bytes \<Rightarrow> metering list option" where
  "metadataMeters raw =
     (if take 1 raw \<noteq> ''['' then None
      else case unmarshal_raws raw of
        None \<Rightarrow> None
      | Some entries \<Rightarrow>
          (if 16 < length entries then None
           else case meter_entries entries [] of
             None \<Rightarrow> None
           | Some meters \<Rightarrow> if entries = [] \<or> meters \<noteq> [] then Some meters else None))"

definition Metadata_Apply :: "bytes \<Rightarrow> metadata \<Rightarrow> metadata" where
  "Metadata_Apply raw t =
     (if 65536 < length raw then t
      else case ndjson_Object raw of
        None \<Rightarrow> t
      | Some fs \<Rightarrow>
          \<lparr>ContextPercent = (case metadataNumber (field fs ''contextUsagePercentage'') 100 of
               None \<Rightarrow> ContextPercent t | Some n \<Rightarrow> Some n),
           DurationMS = (case metadataNumber (field fs ''turnDurationMs'') 3600000 of
               None \<Rightarrow> DurationMS t | Some n \<Rightarrow> Some n),
           Metering = (case map_of fs ''meteringUsage'' of
               None \<Rightarrow> Metering t
             | Some d \<Rightarrow> (case metadataMeters d of None \<Rightarrow> Metering t | Some ms \<Rightarrow> ms))\<rparr>)"

definition no_metadata :: metadata where
  "no_metadata = \<lparr>ContextPercent = None, DurationMS = None, Metering = []\<rparr>"

definition Metadata_Valid :: "metadata \<Rightarrow> bool" where
  "Metadata_Valid m \<longleftrightarrow>
     (case ContextPercent m of None \<Rightarrow> True | Some v \<Rightarrow> validMetadataNumber v 100)
     \<and> (case DurationMS m of None \<Rightarrow> True | Some v \<Rightarrow> validMetadataNumber v 3600000)
     \<and> length (Metering m) \<le> 2 \<and> distinct (map MUnit (Metering m))
     \<and> list_all (\<lambda>x. (MUnit x = ''credit'' \<or> MUnit x = ''token'') \<and> validMetadataNumber (MValue x) (10 ^ 12)) (Metering m)"

subsection \<open>usage.go\<close>

record account_usage =
  Used :: "float64 option"
  Limit :: "float64 option"

definition usageAmount :: "bytes \<Rightarrow> float64 option" where
  "usageAmount raw = (case raw of
     [] \<Rightarrow> None
   | c # _ \<Rightarrow> if \<not> is_digit c then None
              else case unmarshal_float raw of
                  Some v \<Rightarrow> if float_within v (10 ^ 12) then Some v else None
                | None \<Rightarrow> None)"

definition usageObject :: "bytes \<Rightarrow> (bytes \<times> bytes) list option" where
  "usageObject raw =
     (if 65536 < length raw then None
      else case ndjson_Object raw of None \<Rightarrow> None | Some obj \<Rightarrow> if 128 < length obj then None else Some obj)"

definition usageResult :: "bytes \<Rightarrow> (bytes \<times> bytes) list option" where
  "usageResult raw = (case usageObject raw of
     None \<Rightarrow> None
   | Some fs \<Rightarrow> if field fs ''success'' \<noteq> ''true'' then None else usageObject (field fs ''data''))"

definition usageArray :: "bytes \<Rightarrow> nat \<Rightarrow> bytes list option" where
  "usageArray raw most =
     (if take 1 raw \<noteq> ''['' then None
      else case unmarshal_raws raw of None \<Rightarrow> None | Some vs \<Rightarrow> if most < length vs then None else Some vs)"

definition usage_limit :: "(bytes \<times> bytes) list \<Rightarrow> float64 option option" where
  "usage_limit entry =
     (if field entry ''hasLimit'' = ''true'' then map_option Some (usageAmount (field entry ''limit''))
      else if field entry ''hasLimit'' = ''false'' then Some None
      else None)"

fun usage_entries :: "bytes list \<Rightarrow> account_usage \<Rightarrow> account_usage option" where
  "usage_entries [] a = Some a"
| "usage_entries (raw # raws) a = (case usageObject raw of
     None \<Rightarrow> None
   | Some entry \<Rightarrow> (case string_field (field entry ''resourceType'') of
       None \<Rightarrow> None
     | Some kind \<Rightarrow>
         (if kind \<noteq> ''CREDIT'' then usage_entries raws a
          else if Used a \<noteq> None then None
          else case usageAmount (field entry ''used'') of
            None \<Rightarrow> None
          | Some n \<Rightarrow> (case usage_limit entry of
              None \<Rightarrow> None
            | Some l \<Rightarrow> usage_entries raws (a\<lparr>Used := Some n, Limit := (if l = None then Limit a else l)\<rparr>)))))"

definition DecodeAccountUsage :: "bytes \<Rightarrow> account_usage option" where
  "DecodeAccountUsage raw =
     do {
       dat \<leftarrow> usageResult raw;
       entries \<leftarrow> usageArray (field dat ''usageBreakdowns'') 16;
       a \<leftarrow> usage_entries entries \<lparr>Used = None, Limit = None\<rparr>;
       if Used a = None then None else Some a
     }"

text \<open>
  The peer of a query: its reply to the call with a given method and parameters, the result of its \<open>i\<close>-th
  \<open>Next\<close>, and what \<open>ctx.Err()\<close> answers at the start and before each command.
\<close>

record usage_peer =
  peer_call :: "bytes \<Rightarrow> bytes \<Rightarrow> reply"
  peer_next :: "nat \<Rightarrow> perror + notification"
  peer_ctx :: "nat \<Rightarrow> perror option"

fun reply_result :: "reply \<Rightarrow> kerror + bytes" where
  "reply_result (RpcOk raw) = Inr raw"
| "reply_result (RpcRejected n) = Inl (KRemote n)"
| "reply_result (RpcFailed e) = Inl (KPeer e)"

definition new_params :: "bytes \<Rightarrow> bytes" where
  "new_params directory = obj_text [(''cwd'', quote directory), (''mcpServers'', ''[]'')]"

definition command_params :: "bytes \<Rightarrow> bytes \<Rightarrow> bytes" where
  "command_params session name = obj_text [(''command'', obj_text [(''args'', ''{}''), (''command'', quote name)]),
     (''sessionId'', quote session)]"

text \<open>The advertised command names without a leading slash, each once.\<close>

fun usage_commands :: "bytes list \<Rightarrow> bytes list \<Rightarrow> bytes list option" where
  "usage_commands [] seen = Some seen"
| "usage_commands (raw # raws) seen = (case usageObject raw of
     None \<Rightarrow> None
   | Some cmd \<Rightarrow> (case string_field (field cmd ''name'') of
       None \<Rightarrow> None
     | Some n \<Rightarrow> (let name = (if take 1 n = ''/'' then drop 1 n else n)
                 in if 256 < length n \<or> name = [] \<or> name \<in> set seen then None
                    else usage_commands raws (name # seen))))"

text \<open>The wait for the advertisement: at most 64 notifications and one mebibyte of parameters.\<close>

function usage_wait :: "usage_peer \<Rightarrow> bytes \<Rightarrow> nat \<Rightarrow> nat \<Rightarrow> kerror + unit" where
  "usage_wait peer session count used =
     (if 64 \<le> count then Inl KUnavailable
      else case peer_next peer count of
        Inl e \<Rightarrow> Inl (KPeer e)
      | Inr n \<Rightarrow>
          (if 1048576 < used + length (Params n) then Inl KUnavailable
           else case usageObject (Params n) of
             None \<Rightarrow> Inl KUnavailable
           | Some fs \<Rightarrow>
               (if has_key fs ''sessionId'' \<and> string_field (field fs ''sessionId'') \<noteq> Some session then Inl KUnavailable
                else if Method n = ''_kiro.dev/mcp/server_initialized'' then Inl KUnavailable
                else if Method n \<noteq> ''_kiro.dev/commands/available''
                  then usage_wait peer session (Suc count) (used + length (Params n))
                else if string_field (field fs ''sessionId'') \<noteq> Some session then Inl KUnavailable
                else case usageArray (field fs ''commands'') 128 of
                  None \<Rightarrow> Inl KUnavailable
                | Some cmds \<Rightarrow> (case usage_commands cmds [] of
                    None \<Rightarrow> Inl KUnavailable
                  | Some seen \<Rightarrow> if ''usage'' \<in> set seen \<and> ''tools'' \<in> set seen then Inr () else Inl KUnavailable))))"
  by pat_completeness auto
termination
  by (relation "measure (\<lambda>(_, _, count, _). 64 - count)") auto

declare usage_wait.simps [simp del]

type_synonym 'r called = "(kerror + 'r) \<times> (bytes \<times> bytes) list"

text \<open>One command: the context is checked first, then the call is made.\<close>

definition usage_command :: "usage_peer \<Rightarrow> nat \<Rightarrow> bytes \<Rightarrow> bytes \<Rightarrow> bytes called" where
  "usage_command peer i session name = (case peer_ctx peer i of
     Some e \<Rightarrow> (Inl (KPeer e), [])
   | None \<Rightarrow> (reply_result (peer_call peer ''_kiro.dev/commands/execute'' (command_params session name)),
              [(''_kiro.dev/commands/execute'', command_params session name)]))"

definition called_then :: "'a called \<Rightarrow> ('a \<Rightarrow> 'b called) \<Rightarrow> 'b called" where
  "called_then m f = (case m of
     (Inl e, cs) \<Rightarrow> (Inl e, cs)
   | (Inr x, cs) \<Rightarrow> (case f x of (r, cs') \<Rightarrow> (r, cs @ cs')))"

definition decoded :: "'a option \<Rightarrow> 'a called" where
  "decoded r = ((case r of None \<Rightarrow> Inl KUnavailable | Some x \<Rightarrow> Inr x), [])"

definition usage_session :: "bytes \<Rightarrow> bytes option" where
  "usage_session raw =
     do {
       fs \<leftarrow> usageObject raw;
       session \<leftarrow> string_field (field fs ''sessionId'');
       if session = [] \<or> 1024 < length session \<or> contains_any session [CHR 0x00, CHR 0x0D, CHR 0x0A] then None
       else Some session
     }"

definition no_tools :: "bytes \<Rightarrow> unit option" where
  "no_tools raw =
     do { dat \<leftarrow> usageResult raw; ts \<leftarrow> usageArray (field dat ''tools'') 0; if ts = [] then Some () else None }"

definition ReadAccountUsage :: "usage_peer \<Rightarrow> bytes \<Rightarrow> account_usage called" where
  "ReadAccountUsage peer directory = (case peer_ctx peer 0 of
     Some e \<Rightarrow> (Inl (KPeer e), [])
   | None \<Rightarrow>
       if take 1 directory \<noteq> ''/'' \<or> 4096 < length directory \<or> contains_any directory [CHR 0x00, CHR 0x0D, CHR 0x0A]
       then (Inl KUnavailable, [])
       else called_then (reply_result (peer_call peer ''session/new'' (new_params directory)),
                         [(''session/new'', new_params directory)]) (\<lambda>raw.
            called_then (decoded (usage_session raw)) (\<lambda>session.
            called_then (usage_wait peer session 0 0, []) (\<lambda>_.
            called_then (usage_command peer 1 session ''tools'') (\<lambda>tools.
            called_then (decoded (no_tools tools)) (\<lambda>_.
            called_then (usage_command peer 2 session ''usage'') (\<lambda>reply.
            decoded (DecodeAccountUsage reply))))))))"

subsection \<open>search.go, search_failure.go, search_output.go\<close>

fun inventory_commands :: "bytes list \<Rightarrow> bool \<Rightarrow> bool option" where
  "inventory_commands [] found = Some found"
| "inventory_commands (raw # raws) found = (case usageObject raw of
     None \<Rightarrow> None
   | Some cmd \<Rightarrow> (case string_field (field cmd ''name'') of
       None \<Rightarrow> None
     | Some n \<Rightarrow> inventory_commands raws (found \<or> (if take 1 n = ''/'' then drop 1 n else n) = ''tools'')))"

function inventory_wait :: "usage_peer \<Rightarrow> bytes \<Rightarrow> nat \<Rightarrow> nat \<Rightarrow> kerror + bytes" where
  "inventory_wait peer session count used =
     (if 64 \<le> count then Inl KProtocol
      else case peer_next peer count of
        Inl e \<Rightarrow> Inl (KPeer e)
      | Inr n \<Rightarrow>
          (if 1048576 < used + length (Params n) \<or> (SessionID n \<noteq> [] \<and> SessionID n \<noteq> session)
              \<or> Method n = ''_kiro.dev/mcp/server_initialized'' then Inl KProtocol
           else case usageObject (Params n) of
             None \<Rightarrow> Inl KProtocol
           | Some fs \<Rightarrow>
               (if has_key fs ''sessionId'' \<and> string_field (field fs ''sessionId'') \<noteq> Some session then Inl KProtocol
                else if Method n \<noteq> ''_kiro.dev/commands/available''
                  then inventory_wait peer session (Suc count) (used + length (Params n))
                else if string_field (field fs ''sessionId'') \<noteq> Some session then Inl KProtocol
                else case usageArray (field fs ''commands'') 128 of
                  None \<Rightarrow> Inl KProtocol
                | Some cmds \<Rightarrow>
                    (if inventory_commands cmds False = Some True then Inr (Params n) else Inl KProtocol))))"
  by pat_completeness auto
termination
  by (relation "measure (\<lambda>(_, _, count, _). 64 - count)") auto

declare inventory_wait.simps [simp del]

definition only_search :: "bytes \<Rightarrow> bool" where
  "only_search raw = (case usageResult raw of
     None \<Rightarrow> False
   | Some dat \<Rightarrow> (case usageArray (field dat ''tools'') 1 of
       Some [item] \<Rightarrow> (case usageObject item of
           None \<Rightarrow> False
         | Some tool \<Rightarrow> string_field (field tool ''name'') = Some ''web_search'')
     | _ \<Rightarrow> False))"

definition SearchInventory :: "usage_peer \<Rightarrow> bytes \<Rightarrow> bytes called" where
  "SearchInventory peer session =
     called_then (inventory_wait peer session 0 0, []) (\<lambda>advertisement.
     called_then (reply_result (peer_call peer ''_kiro.dev/commands/execute'' (command_params session ''tools'')),
                  [(''_kiro.dev/commands/execute'', command_params session ''tools'')]) (\<lambda>raw.
     (if only_search raw then Inr advertisement else Inl KProtocol, [])))"

definition failure_part :: "bytes \<Rightarrow> bool" where
  "failure_part raw = (case ndjson_Object raw of
     None \<Rightarrow> False
   | Some part \<Rightarrow> string_field (field part ''type'') = Some ''content''
       \<and> (case ndjson_Object (field part ''content'') of
            None \<Rightarrow> False
          | Some c \<Rightarrow> string_field (field c ''type'') = Some ''text''
              \<and> (case string_field (field c ''text'') of None \<Rightarrow> False | Some t \<Rightarrow> TrimSpace t \<noteq> [])))"

definition StandaloneSearchFailure :: "(bytes \<times> bytes) list \<Rightarrow> bool" where
  "StandaloneSearchFailure fs \<longleftrightarrow>
     list_all (\<lambda>(k, want). string_field (field fs k) = Some want)
       [(''sessionUpdate'', ''tool_call_update''), (''status'', ''failed''), (''kind'', ''search''), (''title'', ''web_search'')]
     \<and> \<not> has_key fs ''rawOutput''
     \<and> (case ndjson_Object (field fs ''rawInput'') of
          None \<Rightarrow> False
        | Some inp \<Rightarrow> (case string_field (field inp ''query'') of
            None \<Rightarrow> False
          | Some query \<Rightarrow> TrimSpace query \<noteq> [] \<and> length query \<le> 4096))
     \<and> length (field fs ''content'') \<le> 65536
     \<and> (case unmarshal_raws (field fs ''content'') of
          None \<Rightarrow> False
        | Some parts \<Rightarrow> parts \<noteq> [] \<and> length parts \<le> 8 \<and> list_all failure_part parts)"

record search_hit =
  HitURL :: bytes
  HitTitle :: bytes

definition search_hit_of :: "bytes \<Rightarrow> search_hit option" where
  "search_hit_of raw =
     do {
       fs \<leftarrow> ndjson_Object raw;
       url \<leftarrow> string_field (field fs ''url'');
       title \<leftarrow> string_field (field fs ''title'');
       if 8192 < length url \<or> 4096 < length title
          \<or> (has_key fs ''snippet'' \<and> string_field (field fs ''snippet'') = None) then None
       else Some \<lparr>HitURL = url, HitTitle = title\<rparr>
     }"

text \<open>The single member of the single entry of \<open>items\<close>, whatever its tag.\<close>

definition search_payload :: "bytes \<Rightarrow> (bytes \<times> bytes) list option" where
  "search_payload raw = (case ndjson_Object raw of
     Some [(k, v)] \<Rightarrow> (if k \<noteq> ''items'' then None
       else case unmarshal_raws v of
         Some [item] \<Rightarrow> (case ndjson_Object item of Some [(_, value)] \<Rightarrow> ndjson_Object value | _ \<Rightarrow> None)
       | _ \<Rightarrow> None)
   | _ \<Rightarrow> None)"

definition SearchResults :: "bytes \<Rightarrow> bytes \<Rightarrow> search_hit list option" where
  "SearchResults raw query =
     (if 524288 < length raw \<or> query = [] then None
      else case search_payload raw of
        None \<Rightarrow> None
      | Some payload \<Rightarrow>
          (if string_field (field payload ''query'') \<noteq> Some query \<or> field payload ''error'' \<noteq> ''null'' then None
           else case parse (field payload ''results'') of
             Some (JArr _ vs) \<Rightarrow> if 32 < length vs then None else all_some (map (\<lambda>v. search_hit_of (raw_of v)) vs)
           | _ \<Rightarrow> None))"

end
