(* ===== verification/Kirofeature_Props.thy ===== *)
theory Kirofeature_Props
  imports Kirofeature "HOL-Library.Sublist"
begin

text \<open>
  The effort synchroniser as a step relation with its invariant, the validity of collected metadata, and the
  calls an account usage query makes.
\<close>

subsection \<open>The effort state machine\<close>

inductive effort_step :: "unicode_tables \<Rightarrow> effort \<Rightarrow> effort \<Rightarrow> bool" for u where
  advertise: "effort_step u c (snd (Advertise raw c))"
| model_changed: "effort_step u c (ModelChanged c)"
| process_changed: "effort_step u c (ProcessChanged c)"
| sync: "effort_step u c (fst (snd (Sync u rpc session model requested c)))"

inductive_cases effort_stepE: "effort_step u c c'"

definition status_ok :: "effort \<Rightarrow> bool" where
  "status_ok c \<longleftrightarrow> (State (estatus c) = Current \<longrightarrow>
     applied c = (StModel (estatus c), Requested (estatus c)) \<and> Applied (estatus c) = Requested (estatus c)
     \<and> Requested (estatus c) \<noteq> [])"

definition effort_inv :: "effort \<Rightarrow> bool" where
  "effort_inv c \<longleftrightarrow> distinct (knownUnsupported c) \<and> length (knownUnsupported c) \<le> MaxPairs
     \<and> distinct (rejected c) \<and> length (rejected c) \<le> MaxPairs
     \<and> set (rejected c) \<inter> set (knownUnsupported c) = {} \<and> applied c \<notin> set (rejected c)
     \<and> (snd (applied c) \<noteq> [] \<longrightarrow> applied c \<notin> set (knownUnsupported c) \<and> fst (applied c) \<noteq> ''auto'')
     \<and> (\<forall>pr\<in>set (rejected c). snd pr \<noteq> [] \<and> fst pr \<noteq> ''auto'') \<and> status_ok c"

lemma known_pairs_bound:
  "length acc \<le> MaxPairs \<Longrightarrow> distinct acc \<Longrightarrow>
   length (known_pairs u ps acc) \<le> MaxPairs \<and> distinct (known_pairs u ps acc)"
  by (induction u ps acc rule: known_pairs.induct) (auto simp: List.insert_def split: if_splits)

lemma NewEffort_inv: "effort_inv (NewEffort u unsupported)"
  using known_pairs_bound [of "[]" u unsupported]
  by (simp add: effort_inv_def NewEffort_def status_ok_def unknown_status_def)

lemma Advertise_simps [simp]:
  "knownUnsupported (snd (Advertise raw c)) = knownUnsupported c"
  "rejected (snd (Advertise raw c)) = rejected c"
  "applied (snd (Advertise raw c)) = applied c"
  "estatus (snd (Advertise raw c)) = estatus c"
  by (simp_all add: Advertise_def split: option.split)

text \<open>What \<open>Sync\<close> has checked when it decides locally, or when it probes.\<close>

lemma sync_local_Some:
  assumes "sync_local c pr s = Some s'" "State s = Unknown"
  shows "StModel s' = StModel s" "Requested s' = Requested s" "Applied s' = Applied s"
    "State s' = Current \<Longrightarrow> applied c = pr \<and> snd pr \<noteq> []"
  using assms by (auto simp: sync_local_def split: if_splits)

lemma sync_local_None:
  "sync_local c pr s = None \<longleftrightarrow> snd pr \<noteq> [] \<and> fst pr \<noteq> ''auto'' \<and> pr \<notin> set (knownUnsupported c)
     \<and> advertised c \<and> eavailable c \<and> applied c \<noteq> pr \<and> pr \<notin> set (rejected c) \<and> length (rejected c) < MaxPairs"
  by (auto simp: sync_local_def)

lemma base_status_simps [simp]:
  "State (base_status c m v) = Unknown" "StModel (base_status c m v) = m" "Requested (base_status c m v) = v"
  "fst (applied c) = m \<Longrightarrow> Applied (base_status c m v) = snd (applied c)"
  by (simp_all add: base_status_def unknown_status_def)

lemma Sync_cases:
  obtains (params) "Sync u rpc session model requested c = (Inl KParameters, c, [])"
  | (answer) s' where "sync_local c (model, Normalize u requested) (base_status c model (Normalize u requested)) = Some s'"
      "Sync u rpc session model requested c = (Inr s', c\<lparr>estatus := s'\<rparr>, [])"
  | (probe) r where "sync_local c (model, Normalize u requested) (base_status c model (Normalize u requested)) = None"
      "r = rpc ''_kiro.dev/commands/execute'' (effort_params session (Normalize u requested))"
      "Sync u rpc session model requested c =
         (fst (sync_reply (model, Normalize u requested) (base_status c model (Normalize u requested)) r c),
          snd (sync_reply (model, Normalize u requested) (base_status c model (Normalize u requested)) r c),
          [(''_kiro.dev/commands/execute'', effort_params session (Normalize u requested))])"
proof (cases "model = [] \<or> 256 < length model \<or> session = [] \<or> 1024 < length session")
  case True
  then have "Sync u rpc session model requested c = (Inl KParameters, c, [])" by (simp add: Sync_def Let_def)
  then show ?thesis by (rule params)
next
  case False
  show ?thesis
  proof (cases "sync_local c (model, Normalize u requested) (base_status c model (Normalize u requested))")
    case None
    show ?thesis by (rule probe [OF None refl]) (use False None in \<open>simp add: Sync_def Let_def case_prod_beta\<close>)
  next
    case (Some s')
    show ?thesis by (rule answer [OF Some]) (use False Some in \<open>simp add: Sync_def Let_def save_status_def\<close>)
  qed
qed

lemma answer_inv:
  assumes "effort_inv c" "sync_local c (m, v) (base_status c m v) = Some s'"
  shows "effort_inv (c\<lparr>estatus := s'\<rparr>)"
proof -
  have "status_ok (c\<lparr>estatus := s'\<rparr>)"
    using sync_local_Some [OF assms(2)] by (auto simp: status_ok_def)
  then show ?thesis using assms(1) by (simp add: effort_inv_def)
qed

lemma reject_inv:
  assumes "effort_inv c" "sync_local c pr s0 = None" "State s = Unknown"
  shows "effort_inv (snd (reject_pair pr s why c))"
  using assms by (auto simp: sync_local_None effort_inv_def reject_pair_def save_status_def status_ok_def)

lemma accept_inv:
  assumes "effort_inv c" "sync_local c pr s0 = None" "StModel s = fst pr" "Requested s = snd pr"
  shows "effort_inv (c\<lparr>applied := pr, estatus := s\<lparr>State := Current, Applied := snd pr\<rparr>\<rparr>)"
  using assms by (auto simp: sync_local_None effort_inv_def status_ok_def)

lemma reply_inv:
  assumes "effort_inv c" "sync_local c (m, v) (base_status c m v) = None"
  shows "effort_inv (snd (sync_reply (m, v) (base_status c m v) r c))"
proof (cases r)
  case (RpcOk raw)
  show ?thesis
    using reject_inv [OF assms] accept_inv [OF assms, of "base_status c m v"] RpcOk
    by (simp add: sync_reply_def save_status_def)
qed (use reject_inv [OF assms] assms(1) in \<open>simp_all add: sync_reply_def\<close>)

lemma effort_step_inv: "effort_step u c c' \<Longrightarrow> effort_inv c \<Longrightarrow> effort_inv c'"
proof (induction rule: effort_step.induct)
  case (sync c rpc session model requested)
  then show ?case
    using answer_inv reply_inv
    by (cases rule: Sync_cases [of u rpc session model requested c]) auto
qed (auto simp: effort_inv_def status_ok_def ModelChanged_def ProcessChanged_def unknown_status_def)

interpretation ef: invariant_machine "\<lambda>c. \<exists>unsupported. c = NewEffort u unsupported" "effort_step u" effort_inv for u
  by unfold_locales (auto intro: NewEffort_inv effort_step_inv)

lemma step_rejected_grows: "effort_step u c c' \<Longrightarrow> set (rejected c) \<subseteq> set (rejected c')"
proof (induction rule: effort_step.induct)
  case (sync c rpc session model requested)
  show ?case
    by (cases rule: Sync_cases [of u rpc session model requested c])
       (auto simp: sync_reply_def reject_pair_def save_status_def split: reply.splits)
qed (auto simp: ModelChanged_def ProcessChanged_def)

lemma steps_rejected_grow: "(effort_step u)\<^sup>*\<^sup>* c c' \<Longrightarrow> set (rejected c) \<subseteq> set (rejected c')"
  by (induction rule: rtranclp_induct) (use step_rejected_grows in fast)+

lemma Sync_no_probe: "pr = (model, Normalize u requested) \<Longrightarrow> pr \<in> set (rejected c) \<Longrightarrow>
    snd (snd (Sync u rpc session model requested c)) = []"
  by (cases rule: Sync_cases [of u rpc session model requested c]) (auto simp: sync_local_None)

lemma Sync_rejected_status: "pr = (model, Normalize u requested) \<Longrightarrow> pr \<in> set (rejected c) \<Longrightarrow> effort_inv c \<Longrightarrow>
    fst (Sync u rpc session model requested c) = Inr s \<Longrightarrow> State s \<noteq> Current"
  by (cases rule: Sync_cases [of u rpc session model requested c])
     (auto simp: effort_inv_def sync_local_None sync_local_def split: if_splits)

lemma effort_reachable: "(effort_step u)\<^sup>*\<^sup>* (NewEffort u unsupported) c \<Longrightarrow> effort_inv c"
  by (rule ef.reachable_inv) auto

lemma Sync_probe:
  assumes "snd (snd (Sync u rpc session model requested c)) \<noteq> []"
  shows "snd (snd (Sync u rpc session model requested c)) =
           [(''_kiro.dev/commands/execute'', effort_params session (Normalize u requested))]
         \<and> Normalize u requested \<noteq> [] \<and> model \<noteq> ''auto'' \<and> advertised c \<and> eavailable c
         \<and> (model, Normalize u requested) \<notin> set (knownUnsupported c) \<union> set (rejected c)
         \<and> applied c \<noteq> (model, Normalize u requested)"
  using assms by (cases rule: Sync_cases [of u rpc session model requested c]) (auto simp: sync_local_None)

text \<open>A synchroniser in use: the command is advertised, then an effort is confirmed, then another one rejected.\<close>

definition ex_tables :: unicode_tables where
  "ex_tables = \<lparr>uni_letter = (\<lambda>_. False), uni_lower = (\<lambda>r. r)\<rparr>"

definition ex_rpc :: "bytes \<Rightarrow> bytes \<Rightarrow> reply" where
  "ex_rpc m ps = (if ps = effort_params ''s1'' ''high'' then RpcOk (obj_text [(''success'', ''true'')]) else RpcRejected 7)"

definition ex_e0 :: effort where
  "ex_e0 = NewEffort ex_tables [(''m1'', ''low'')]"

definition ex_e1 :: effort where
  "ex_e1 = snd (Advertise (obj_text [(''commands'', arr_text [obj_text [(''name'', quote ''/effort'')]])]) ex_e0)"

definition ex_e2 :: effort where
  "ex_e2 = fst (snd (Sync ex_tables ex_rpc ''s1'' ''m1'' ''High'' ex_e1))"

definition ex_e3 :: effort where
  "ex_e3 = fst (snd (Sync ex_tables ex_rpc ''s1'' ''m1'' ''max'' ex_e2))"

lemma ex_effort_steps:
  "(effort_step ex_tables)\<^sup>*\<^sup>* ex_e0 ex_e2" "(effort_step ex_tables)\<^sup>*\<^sup>* ex_e0 ex_e3" "effort_step ex_tables ex_e3 (ModelChanged ex_e3)"
proof -
  have s1: "effort_step ex_tables ex_e0 ex_e1" by (simp add: ex_e1_def effort_step.advertise)
  have s2: "effort_step ex_tables ex_e1 ex_e2" unfolding ex_e2_def by (rule effort_step.sync)
  have s3: "effort_step ex_tables ex_e2 ex_e3" unfolding ex_e3_def by (rule effort_step.sync)
  show 2: "(effort_step ex_tables)\<^sup>*\<^sup>* ex_e0 ex_e2" by (rule rtranclp.rtrancl_into_rtrancl [OF r_into_rtranclp [of "effort_step ex_tables", OF s1] s2])
  show "(effort_step ex_tables)\<^sup>*\<^sup>* ex_e0 ex_e3" by (rule rtranclp.rtrancl_into_rtrancl [OF 2 s3])
  show "effort_step ex_tables ex_e3 (ModelChanged ex_e3)" by (rule effort_step.model_changed)
qed

lemma ex_effort_facts:
  "State (estatus ex_e2) = Current" "(''m1'', ''max'') \<in> set (rejected ex_e3)" "Normalize ex_tables ''max'' = ''max''"
  by code_simp+

text \<open>
  whatever sequence of advertisements, model and process changes and synchronisations has happened, with any
  replies, the status never claims an effort that the process did not confirm for that very model: when it says
  \<open>current\<close>, the requested effort is the one last applied; the pairs remembered as rejected or as known to be
  unsupported stay within 1280 entries each and never hold the pair reported as current.
\<close>

theorem effort_status_truthful:
  assumes "(effort_step u)\<^sup>*\<^sup>* (NewEffort u unsupported) c"
  shows "(State (estatus c) = Current \<longrightarrow>
           applied c = (StModel (estatus c), Requested (estatus c)) \<and> Applied (estatus c) = Requested (estatus c)
           \<and> Requested (estatus c) \<noteq> []
           \<and> (StModel (estatus c), Requested (estatus c)) \<notin> set (rejected c) \<union> set (knownUnsupported c))
         \<and> length (rejected c) \<le> 1280 \<and> length (knownUnsupported c) \<le> 1280"
  using effort_reachable [OF assms] by (auto simp: effort_inv_def status_ok_def MaxPairs_def)

theorem effort_status_truthful_witness:
  "State (estatus ex_e2) = Current \<and> applied ex_e2 = (StModel (estatus ex_e2), Requested (estatus ex_e2))
   \<and> length (rejected ex_e2) \<le> 1280"
  using effort_status_truthful [OF ex_effort_steps(1) [unfolded ex_e0_def]] ex_effort_facts(1) by blast

text \<open>
  C15: a probe is made only for a normalised effort of a concrete model that is neither known to be unsupported nor
  already applied, over a process that advertised the command; and once a pair was rejected it is never probed
  again by this synchroniser, whatever happens in between, nor reported as current.
\<close>

theorem rejected_effort_never_probed_again:
  assumes "(effort_step u)\<^sup>*\<^sup>* (NewEffort u unsupported) c" "(effort_step u)\<^sup>*\<^sup>* c c'"
  shows "(snd (snd (Sync u rpc session model requested c)) \<noteq> [] \<longrightarrow>
           snd (snd (Sync u rpc session model requested c)) =
             [(''_kiro.dev/commands/execute'', effort_params session (Normalize u requested))]
           \<and> Normalize u requested \<noteq> [] \<and> model \<noteq> ''auto'' \<and> advertised c \<and> eavailable c
           \<and> (model, Normalize u requested) \<notin> set (knownUnsupported c) \<union> set (rejected c)
           \<and> applied c \<noteq> (model, Normalize u requested))
       \<and> ((model, Normalize u requested) \<in> set (rejected c) \<longrightarrow>
           snd (snd (Sync u rpc session model requested c')) = []
           \<and> (\<forall>s. fst (Sync u rpc session model requested c') = Inr s \<longrightarrow> State s \<noteq> Current))"
proof -
  have "effort_inv c'" by (rule effort_reachable) (rule rtranclp_trans [OF assms])
  then show ?thesis
    using steps_rejected_grow [OF assms(2)] Sync_no_probe [OF refl] Sync_rejected_status [OF refl] Sync_probe by blast
qed

theorem rejected_effort_never_probed_again_witness:
  "(''m1'', ''max'') \<in> set (rejected ex_e3)
   \<and> snd (snd (Sync ex_tables ex_rpc ''s1'' ''m1'' ''max'' (ModelChanged ex_e3))) = []"
  using rejected_effort_never_probed_again [OF ex_effort_steps(2) [unfolded ex_e0_def]
      r_into_rtranclp [of "effort_step ex_tables", OF ex_effort_steps(3)], of ex_rpc "''s1''" "''m1''" "''max''"]
  by (simp add: ex_effort_facts)

subsection \<open>Metadata\<close>

lemma metadataNumber_valid: "metadataNumber raw hi = Some v \<Longrightarrow> validMetadataNumber v hi"
  by (auto simp: metadataNumber_def split: list.splits if_splits option.splits)

lemma meter_unit_known: "meter_unit t = Some unit \<Longrightarrow> unit = ''credit'' \<or> unit = ''token''"
  by (auto simp: meter_unit_def split: if_splits)

definition meters_ok :: "metering list \<Rightarrow> bool" where
  "meters_ok ms \<longleftrightarrow> distinct (map MUnit ms)
     \<and> list_all (\<lambda>x. (MUnit x = ''credit'' \<or> MUnit x = ''token'') \<and> validMetadataNumber (MValue x) (10 ^ 12)) ms"

lemma meter_entries_ok: "meters_ok acc \<Longrightarrow> meter_entries raws acc = Some ms \<Longrightarrow> meters_ok ms"
proof (induction raws acc rule: meter_entries.induct)
  case (2 raw raws acc)
  show ?case
    using 2 metadataNumber_valid meter_unit_known
    by (auto simp: meters_ok_def split: option.splits if_splits)
qed simp

lemma meters_ok_length: "meters_ok ms \<Longrightarrow> length ms \<le> 2"
proof -
  assume m: "meters_ok ms"
  then have "MUnit ` set ms \<subseteq> {''credit'', ''token''}" by (auto simp: meters_ok_def list_all_iff)
  then have "card (MUnit ` set ms) \<le> card {''credit'', ''token''}" by (intro card_mono) auto
  also have "\<dots> \<le> 2" by (simp add: card_insert_if)
  finally show ?thesis using m distinct_card [of "map MUnit ms"] by (simp add: meters_ok_def)
qed

lemma metadata_valid_iff: "Metadata_Valid m \<longleftrightarrow>
    (\<forall>v. ContextPercent m = Some v \<longrightarrow> validMetadataNumber v 100)
    \<and> (\<forall>v. DurationMS m = Some v \<longrightarrow> validMetadataNumber v 3600000) \<and> meters_ok (Metering m)"
  using meters_ok_length [of "Metering m"] by (auto simp: Metadata_Valid_def meters_ok_def split: option.splits)

lemma metadataMeters_ok: "metadataMeters raw = Some ms \<Longrightarrow> meters_ok ms"
  using meter_entries_ok [of "[]"] by (auto simp: metadataMeters_def meters_ok_def split: if_splits option.splits)

lemma Metadata_Apply_valid: "Metadata_Valid t \<Longrightarrow> Metadata_Valid (Metadata_Apply raw t)"
proof (cases "65536 < length raw \<or> ndjson_Object raw = None")
  case True
  then show "Metadata_Valid t \<Longrightarrow> ?thesis" by (auto simp: Metadata_Apply_def)
next
  case False
  then obtain fs where "ndjson_Object raw = Some fs" "\<not> 65536 < length raw" by auto
  then show "Metadata_Valid t \<Longrightarrow> ?thesis"
    unfolding metadata_valid_iff using metadataNumber_valid metadataMeters_ok
    by (simp add: Metadata_Apply_def split: option.split)
qed

lemma fold_keeps: "P t \<Longrightarrow> (\<And>x t. P t \<Longrightarrow> P (f x t)) \<Longrightarrow> P (fold f xs t)"
  by (induction xs arbitrary: t) simp_all

text \<open>
  Whatever metadata notifications a turn receives, well formed or not, what it has collected is always valid:
  finite numbers within the documented ranges, at most one credit and one token meter, so the turn record is never
  refused because of them.
\<close>

theorem collected_metadata_valid:
  "Metadata_Valid (fold Metadata_Apply raws no_metadata)"
proof -
  have "Metadata_Valid no_metadata" by (simp add: no_metadata_def metadata_valid_iff meters_ok_def)
  then show ?thesis by (rule fold_keeps) (rule Metadata_Apply_valid)
qed

subsection \<open>The account usage query\<close>

definition amount_ok :: "float64 \<Rightarrow> bool" where
  "amount_ok v = float_within v (10 ^ 12)"

lemma usageAmount_within: "usageAmount raw = Some v \<Longrightarrow> amount_ok v"
  by (auto simp: amount_ok_def usageAmount_def split: list.splits if_splits option.splits)

definition usage_ok :: "account_usage \<Rightarrow> bool" where
  "usage_ok a \<longleftrightarrow> pred_option amount_ok (Used a) \<and> pred_option amount_ok (Limit a)"

lemma usage_limit_within: "usage_limit entry = Some l \<Longrightarrow> pred_option amount_ok l"
  using usageAmount_within by (auto simp: usage_limit_def split: if_splits)

lemma usage_ok_credit:
  "usage_ok a \<Longrightarrow> amount_ok n \<Longrightarrow> pred_option amount_ok l \<Longrightarrow>
   usage_ok (a\<lparr>Used := Some n, Limit := (if l = None then Limit a else l)\<rparr>)"
  by (simp add: usage_ok_def)

lemma usage_entries_ok: "usage_ok a \<Longrightarrow> usage_entries raws a = Some a' \<Longrightarrow> usage_ok a'"
proof (induction raws arbitrary: a)
  case (Cons raw raws)
  from Cons.prems(2) consider "usage_entries raws a = Some a'"
    | entry n l where "usageAmount (field entry ''used'') = Some n" "usage_limit entry = Some l"
        "usage_entries raws (a\<lparr>Used := Some n, Limit := (if l = None then Limit a else l)\<rparr>) = Some a'"
    by (simp split: option.split_asm if_split_asm)
  then show ?case
  proof cases
    case 1
    then show ?thesis by (rule Cons.IH [OF Cons.prems(1)])
  next
    case (2 entry n l)
    show ?thesis
      by (rule Cons.IH [OF usage_ok_credit [OF Cons.prems(1) usageAmount_within [OF 2(1)] usage_limit_within [OF 2(2)]] 2(3)])
  qed
qed simp

lemma DecodeAccountUsage_ok: "DecodeAccountUsage raw = Some a \<Longrightarrow> Used a \<noteq> None \<and> usage_ok a"
  using usage_entries_ok [of "\<lparr>Used = None, Limit = None\<rparr>"]
  by (auto simp: DecodeAccountUsage_def Option.bind_eq_Some_conv usage_ok_def split: if_splits)

lemma called_then_Inr: "fst (called_then m f) = Inr y \<longleftrightarrow> (\<exists>x. fst m = Inr x \<and> fst (f x) = Inr y)"
  by (auto simp: called_then_def split: prod.splits sum.splits)

lemma called_then_calls: "snd (called_then m f) = snd m @ (case fst m of Inl _ \<Rightarrow> [] | Inr x \<Rightarrow> snd (f x))"
  by (auto simp: called_then_def split: prod.splits sum.splits)

lemma ReadAccountUsage_Inr:
  "fst (ReadAccountUsage peer directory) = Inr a \<Longrightarrow> \<exists>raw. DecodeAccountUsage raw = Some a"
  by (auto simp: ReadAccountUsage_def called_then_Inr decoded_def split: option.splits if_splits)

text \<open>
  reading the account usage creates one session and then runs at most the tools command and the usage command
  in it, in that order and never a prompt; the usage command is sent only after the tools command reported that the
  agent has no tool at all; and a reported amount is finite, not negative and at most 10^12.
\<close>

theorem usage_query_is_read_only:
  "(\<exists>s. prefix (snd (ReadAccountUsage peer directory))
      [(''session/new'', new_params directory),
       (''_kiro.dev/commands/execute'', command_params s ''tools''),
       (''_kiro.dev/commands/execute'', command_params s ''usage'')]
     \<and> (length (snd (ReadAccountUsage peer directory)) = 3 \<longrightarrow>
         (\<exists>raw. peer_call peer ''_kiro.dev/commands/execute'' (command_params s ''tools'') = RpcOk raw
            \<and> no_tools raw = Some ())))
   \<and> (\<forall>a. fst (ReadAccountUsage peer directory) = Inr a \<longrightarrow>
        (\<exists>v. Used a = Some v \<and> float_within v (10 ^ 12))
        \<and> (\<forall>v. Limit a = Some v \<longrightarrow> float_within v (10 ^ 12)))"
proof
  have reply_Inr: "reply_result r = Inr x \<Longrightarrow> r = RpcOk x" for r x by (cases r) auto
  show "\<exists>s. prefix (snd (ReadAccountUsage peer directory))
      [(''session/new'', new_params directory),
       (''_kiro.dev/commands/execute'', command_params s ''tools''),
       (''_kiro.dev/commands/execute'', command_params s ''usage'')]
     \<and> (length (snd (ReadAccountUsage peer directory)) = 3 \<longrightarrow>
         (\<exists>raw. peer_call peer ''_kiro.dev/commands/execute'' (command_params s ''tools'') = RpcOk raw
            \<and> no_tools raw = Some ()))"
    by (auto simp: ReadAccountUsage_def called_then_calls usage_command_def decoded_def dest!: reply_Inr
        split: option.splits sum.splits)
  show "\<forall>a. fst (ReadAccountUsage peer directory) = Inr a \<longrightarrow>
        (\<exists>v. Used a = Some v \<and> float_within v (10 ^ 12))
        \<and> (\<forall>v. Limit a = Some v \<longrightarrow> float_within v (10 ^ 12))"
    using ReadAccountUsage_Inr DecodeAccountUsage_ok by (fastforce simp: usage_ok_def amount_ok_def)
qed

text \<open>A peer without tools that reports five credits used.\<close>

definition ex_entry :: bytes where
  "ex_entry = obj_text [(''resourceType'', quote ''CREDIT''), (''used'', ''5''), (''hasLimit'', ''false'')]"

definition ex_usage_reply :: bytes where
  "ex_usage_reply = obj_text [(''success'', ''true''), (''data'', obj_text [(''usageBreakdowns'', arr_text [ex_entry])])]"

definition ex_peer :: usage_peer where
  "ex_peer = \<lparr>
     peer_call = (\<lambda>m ps. RpcOk (if m = ''session/new'' then obj_text [(''sessionId'', quote ''s'')]
       else if ps = command_params ''s'' ''tools''
         then obj_text [(''success'', ''true''), (''data'', obj_text [(''tools'', arr_text [])])]
       else ex_usage_reply)),
     peer_next = (\<lambda>_. Inr \<lparr>Method = ''_kiro.dev/commands/available'', SessionID = ''s'',
       Params = obj_text [(''sessionId'', quote ''s''),
         (''commands'', arr_text [obj_text [(''name'', quote ''/usage'')], obj_text [(''name'', quote ''tools'')]])]\<rparr>),
     peer_ctx = (\<lambda>_. None)\<rparr>"

lemma parse_float_five: "parse_float ''5'' = Some (Fin 5)"
proof -
  have k: "binary_exponent 5 = 2" by (simp add: binary_exponent_def pow2_def bit_length.simps)
  have "round_double 5 = Fin 5" by (simp add: round_double_def k pow2_def round_half_even_def)
  moreover have "decimal_value ''5'' = Some 5"
    by (simp add: decimal_value_def num_int_def num_frac_def num_exp_def is_digit_def pow10_def exponent_value_def
        digits_val_def byte_def)
  ultimately show ?thesis by (simp add: parse_float_def num_sign_def)
qed

lemma ex_amount: "usageAmount ''5'' = Some (Fin 5)"
proof -
  have "parse ''5'' = Some (JNum ''5'')" by code_simp
  then show ?thesis by (simp add: usageAmount_def unmarshal_float_def parse_float_five is_digit_def byte_def)
qed

lemma ex_usage_decoded: "DecodeAccountUsage ex_usage_reply = Some \<lparr>Used = Some (Fin 5), Limit = None\<rparr>"
proof -
  have 1: "do { dat \<leftarrow> usageResult ex_usage_reply; usageArray (field dat ''usageBreakdowns'') 16 } = Some [ex_entry]"
    by code_simp
  have 2: "usageObject ex_entry = Some [(''resourceType'', quote ''CREDIT''), (''used'', ''5''), (''hasLimit'', ''false'')]"
    and 3: "string_field (quote ''CREDIT'') = Some ''CREDIT''" by code_simp+
  from 1 obtain dat where dat: "usageResult ex_usage_reply = Some dat" "usageArray (field dat ''usageBreakdowns'') 16 = Some [ex_entry]"
    by (auto simp: Option.bind_eq_Some_conv)
  have "usage_entries [ex_entry] \<lparr>Used = None, Limit = None\<rparr> = Some \<lparr>Used = Some (Fin 5), Limit = None\<rparr>"
    by (simp add: 2 3 field_def ex_amount usage_limit_def)
  then show ?thesis by (simp add: DecodeAccountUsage_def dat del: usage_entries.simps)
qed

lemma ex_usage_read:
  "snd (ReadAccountUsage ex_peer ''/d'') =
     [(''session/new'', new_params ''/d''), (''_kiro.dev/commands/execute'', command_params ''s'' ''tools''),
      (''_kiro.dev/commands/execute'', command_params ''s'' ''usage'')]"
  "fst (ReadAccountUsage ex_peer ''/d'') = Inr \<lparr>Used = Some (Fin 5), Limit = None\<rparr>"
proof -
  have d: "\<not> contains_any ''/d'' [CHR 0x00, CHR 0x0D, CHR 0x0A]" by code_simp
  have s: "usage_session (obj_text [(''sessionId'', quote ''s'')]) = Some ''s''" by code_simp
  have w: "usage_wait ex_peer ''s'' 0 0 = Inr ()" by code_simp
  have n: "no_tools (obj_text [(''success'', ''true''), (''data'', obj_text [(''tools'', arr_text [])])]) = Some ()"
    by code_simp
  have ne: "command_params ''s'' ''usage'' \<noteq> command_params ''s'' ''tools''" by code_simp
  have "ReadAccountUsage ex_peer ''/d'' =
     (Inr \<lparr>Used = Some (Fin 5), Limit = None\<rparr>,
      [(''session/new'', new_params ''/d''), (''_kiro.dev/commands/execute'', command_params ''s'' ''tools''),
       (''_kiro.dev/commands/execute'', command_params ''s'' ''usage'')])"
    using d s w n ne
    by (simp add: ReadAccountUsage_def called_then_def decoded_def usage_command_def ex_peer_def ex_usage_decoded)
  then show "snd (ReadAccountUsage ex_peer ''/d'') =
     [(''session/new'', new_params ''/d''), (''_kiro.dev/commands/execute'', command_params ''s'' ''tools''),
      (''_kiro.dev/commands/execute'', command_params ''s'' ''usage'')]"
    and "fst (ReadAccountUsage ex_peer ''/d'') = Inr \<lparr>Used = Some (Fin 5), Limit = None\<rparr>" by simp_all
qed

theorem usage_query_is_read_only_witness:
  "length (snd (ReadAccountUsage ex_peer ''/d'')) = 3 \<and> float_within (Fin 5) (10 ^ 12)"
  using usage_query_is_read_only [of ex_peer "''/d''"] by (simp add: ex_usage_read)

end
