(* ===== verification/Estimate.thy ===== *)
theory Estimate
  imports Messages
begin

text \<open>
  \<open>internal/status/estimate.go\<close>: the local token estimate of a request, with its bounded cache of measured
  parts. The keyed hash is an argument. Counters are naturals: the byte budget is checked before a part is measured,
  so no 64-bit sum can wrap.
\<close>

subsection \<open>The estimate\<close>

record estimate =
  Approximate :: bool
  EstMethod :: bytes
  InputContextTokens :: nat
  VisibleOutputTokens :: nat
  LogicalPrefixTokens :: nat
  MediaExcluded :: bool
  HiddenThinkingExcluded :: bool

definition Estimate_valid :: "estimate \<Rightarrow> bool" where
  "Estimate_valid e \<longleftrightarrow> Approximate e \<and> EstMethod e = ''utf8-bytes/4-v1'' \<and> MediaExcluded e \<and> HiddenThinkingExcluded e
     \<and> InputContextTokens e \<le> 8388608 \<and> VisibleOutputTokens e \<le> 274877906944
     \<and> LogicalPrefixTokens e \<le> InputContextTokens e"

record estimate_part =
  part_key :: bytes
  part_size :: nat

record input_estimate =
  parts :: "estimate_part list"
  input_bytes :: nat

record estimator =
  cache :: "(bytes \<times> estimate_part) list"
  order :: "bytes list"
  next_slot :: nat
  computations :: nat

definition CacheSlots :: nat where "CacheSlots = 128"
definition EstimateBudget :: nat where "EstimateBudget = 33554432"

definition NewEstimator :: estimator where
  "NewEstimator = \<lparr>cache = [], order = replicate CacheSlots (replicate 32 (CHR 0x00)), next_slot = 0, computations = 0\<rparr>"

subsection \<open>Bytes of one block and one tool\<close>

definition result_item_bytes :: "bytes \<Rightarrow> nat option" where
  "result_item_bytes raw =
     do {
       item \<leftarrow> ndjson_Object raw;
       typ \<leftarrow> unmarshal_string (field item ''type'');
       if typ = ''text'' then map_option length (unmarshal_string (field item ''text'')) else Some 0
     }"

definition result_bytes :: "bytes \<Rightarrow> nat option" where
  "result_bytes raw =
     (if raw = [] then Some 0
      else if take 1 raw = [CHR 0x22] then map_option length (unmarshal_string raw)
      else if take 1 raw \<noteq> ''['' then None
      else case unmarshal_raws raw of
        None \<Rightarrow> None
      | Some items \<Rightarrow> if 4096 < length items then None
                     else map_option sum_list (all_some (map result_item_bytes items)))"

definition blockBytes :: "block \<Rightarrow> nat option" where
  "blockBytes b =
     (if BType b = ''text'' then Some (length (BText b))
      else if BType b \<in> {''image'', ''document'', ''thinking'', ''redacted_thinking''} then Some 0
      else if BType b = ''tool_use'' then
        do {
          fs \<leftarrow> ndjson_Object (BRaw b);
          name \<leftarrow> unmarshal_string (field fs ''name'');
          canonical \<leftarrow> jsoncanon_Object (field fs ''input'');
          Some (length name + length canonical)
        }
      else if BType b = ''tool_result'' then
        do { fs \<leftarrow> ndjson_Object (BRaw b); result_bytes (field fs ''content'') }
      else None)"

definition text_bytes :: "(bytes \<times> bytes) list \<Rightarrow> bytes \<Rightarrow> nat option" where
  "text_bytes fs name = (case map_of fs name of
     None \<Rightarrow> Some 0 | Some raw \<Rightarrow> map_option length (unmarshal_string raw))"

definition tool_bytes :: "bytes \<Rightarrow> nat option" where
  "tool_bytes raw =
     do {
       fs \<leftarrow> ndjson_Object raw;
       n \<leftarrow> text_bytes fs ''name'';
       d \<leftarrow> text_bytes fs ''description'';
       s \<leftarrow> (case map_of fs ''input_schema'' of
              None \<Rightarrow> Some 0 | Some schema \<Rightarrow> map_option length (jsoncanon_Object schema));
       Some (n + d + s)
     }"

definition part_bytes :: "block list \<Rightarrow> bytes list \<Rightarrow> nat option" where
  "part_bytes bs ts =
     do {
       ns \<leftarrow> all_some (map blockBytes bs);
       ms \<leftarrow> all_some (map tool_bytes ts);
       Some (sum_list ns + sum_list ms)
     }"

subsection \<open>The cache\<close>

definition be64 :: "nat \<Rightarrow> bytes" where
  "be64 n = map (\<lambda>i. char_of (n div 256 ^ (7 - i) mod 256)) [0..<8]"

definition hashPiece :: "bytes \<Rightarrow> bytes" where
  "hashPiece value = be64 (length value) @ value"

text \<open>What the keyed hash is fed for one part.\<close>

definition part_text :: "bytes \<Rightarrow> block list \<Rightarrow> bytes list \<Rightarrow> bytes" where
  "part_text kind bs ts =
     ''dax-estimate-v1'' @ [CHR 0x00] @ hashPiece kind
     @ concat (map (\<lambda>b. hashPiece (BType b) @ hashPiece (BText b) @ hashPiece (BRaw b)) bs)
     @ concat (map hashPiece ts)"

definition remember_part :: "bytes \<Rightarrow> estimate_part \<Rightarrow> estimator \<Rightarrow> estimator" where
  "remember_part key p e =
     e\<lparr>cache := aset key p (if length (cache e) = length (order e) then adel (order e ! next_slot e) (cache e) else cache e),
       order := (order e)[next_slot e := key],
       next_slot := (next_slot e + 1) mod length (order e),
       computations := computations e + 1\<rparr>"

definition Estimator_part ::
  "(bytes \<Rightarrow> bytes) \<Rightarrow> bytes \<Rightarrow> block list \<Rightarrow> bytes list \<Rightarrow> estimator \<Rightarrow> estimate_part option \<times> estimator" where
  "Estimator_part mac kind bs ts e =
     (let key = mac (part_text kind bs ts)
      in case map_of (cache e) key of
          Some p \<Rightarrow> (Some p, e)
        | None \<Rightarrow> (case part_bytes bs ts of
            None \<Rightarrow> (None, e)
          | Some n \<Rightarrow> (Some \<lparr>part_key = key, part_size = n\<rparr>, remember_part key \<lparr>part_key = key, part_size = n\<rparr> e)))"

subsection \<open>Measuring a request\<close>

definition block_budget :: "block list \<Rightarrow> nat" where
  "block_budget bs = sum_list (map (\<lambda>b. length (BType b) + length (BText b) + length (BRaw b)) bs)"

fun budget_check :: "block list list \<Rightarrow> nat \<times> nat \<Rightarrow> (nat \<times> nat) option" where
  "budget_check [] n = Some n"
| "budget_check (bs # rest) (budget, blocks) =
     (if blocks + length bs \<le> 65536 \<and> budget + block_budget bs \<le> EstimateBudget
      then budget_check rest (budget + block_budget bs, blocks + length bs) else None)"

definition measurable :: "request \<Rightarrow> bool" where
  "measurable r \<longleftrightarrow> Messages r \<noteq> [] \<and> length (Messages r) \<le> 4096 \<and> length (ReqTools r) \<le> 128
     \<and> (case budget_check (System r # map Content (Messages r)) (0, 0) of
          None \<Rightarrow> False
        | Some (budget, _) \<Rightarrow> budget + sum_list (map length (ReqTools r)) \<le> EstimateBudget)"

text \<open>The parts in the order they are added; the flag is the role check made just before.\<close>

record item =
  item_ok :: bool
  item_kind :: bytes
  item_content :: "block list"
  item_tools :: "bytes list"

definition message_item :: "message \<Rightarrow> item" where
  "message_item m = \<lparr>item_ok = (Role m = ''user'' \<or> Role m = ''assistant'' \<or> Role m = ''system''),
     item_kind = ''message:'' @ Role m, item_content = Content m, item_tools = []\<rparr>"

definition request_items :: "request \<Rightarrow> item list" where
  "request_items r =
     \<lparr>item_ok = True, item_kind = ''system'', item_content = System r, item_tools = []\<rparr>
     # \<lparr>item_ok = True, item_kind = ''tools'', item_content = [], item_tools = ReqTools r\<rparr>
     # map message_item (Messages r)"

fun add_parts ::
  "(bytes \<Rightarrow> bytes) \<Rightarrow> item list \<Rightarrow> input_estimate \<Rightarrow> estimator \<Rightarrow> input_estimate option \<times> estimator" where
  "add_parts mac [] acc e = (Some acc, e)"
| "add_parts mac (i # rest) acc e =
     (if \<not> item_ok i then (None, e)
      else case Estimator_part mac (item_kind i) (item_content i) (item_tools i) e of
        (None, e') \<Rightarrow> (None, e')
      | (Some p, e') \<Rightarrow>
          if EstimateBudget < input_bytes acc + part_size p then (None, e')
          else add_parts mac rest \<lparr>parts = parts acc @ [p], input_bytes = input_bytes acc + part_size p\<rparr> e')"

definition Measure :: "(bytes \<Rightarrow> bytes) \<Rightarrow> request \<Rightarrow> estimator \<Rightarrow> input_estimate option \<times> estimator" where
  "Measure mac r e =
     (if \<not> measurable r then (None, e)
      else add_parts mac (request_items r) \<lparr>parts = [], input_bytes = 0\<rparr> e)"

subsection \<open>Visible output and the summary\<close>

record visible_output =
  out_bytes :: nat
  out_invalid :: bool

definition no_output :: visible_output where
  "no_output = \<lparr>out_bytes = 0, out_invalid = False\<rparr>"

definition out_add :: "nat \<Rightarrow> visible_output \<Rightarrow> visible_output" where
  "out_add n v = (if 1099511627776 - out_bytes v < n then v\<lparr>out_invalid := True\<rparr>
                  else v\<lparr>out_bytes := out_bytes v + n\<rparr>)"

definition AddText :: "bytes \<Rightarrow> visible_output \<Rightarrow> visible_output" where
  "AddText text v = out_add (length text) v"

fun AddTools :: "tool_use list \<Rightarrow> visible_output \<Rightarrow> visible_output" where
  "AddTools [] v = v"
| "AddTools (t # ts) v = (case jsoncanon_Object (UInput t) of
     None \<Rightarrow> v\<lparr>out_invalid := True\<rparr>
   | Some canonical \<Rightarrow> AddTools ts (out_add (length canonical) v))"

definition Tokens :: "input_estimate \<Rightarrow> nat" where
  "Tokens i = (input_bytes i + 3) div 4"

fun prefix_bytes :: "estimate_part list \<Rightarrow> estimate_part list \<Rightarrow> nat" where
  "prefix_bytes (p # ps) (q # qs) = (if part_key p = part_key q then part_size p + prefix_bytes ps qs else 0)"
| "prefix_bytes _ _ = 0"

definition Summary :: "input_estimate \<Rightarrow> input_estimate \<Rightarrow> visible_output \<Rightarrow> estimate option" where
  "Summary i previous out =
     (if parts i = [] \<or> out_invalid out then None
      else Some \<lparr>Approximate = True, EstMethod = ''utf8-bytes/4-v1'', InputContextTokens = Tokens i,
        VisibleOutputTokens = (out_bytes out + 3) div 4,
        LogicalPrefixTokens = (prefix_bytes (parts i) (parts previous) + 3) div 4,
        MediaExcluded = True, HiddenThinkingExcluded = True\<rparr>)"

end
