(* ===== verification/Estimate_Props.thy ===== *)
theory Estimate_Props
  imports Estimate
begin

text \<open>
  The estimator's cache: its ring never holds more than 128 parts, and it is transparent, that is, a sequence of
  measurements gives what measuring each request from scratch gives, as long as the keyed hash has no collision
  among the parts measured. The estimate built from a measurement is within the limits its consumers check.
\<close>

subsection \<open>The hashed text determines the part\<close>

lemma length_be64 [simp]: "length (be64 n) = 8"
  by (simp add: be64_def)

lemma be64_nth: "i < 8 \<Longrightarrow> of_char (be64 n ! i) = (n div 256 ^ (7 - i) mod 256 :: nat)"
  by (simp add: be64_def)

lemma be64_digit: "be64 m = be64 n \<Longrightarrow> k < 8 \<Longrightarrow> m div 256 ^ k mod 256 = n div 256 ^ k mod (256 :: nat)"
  using be64_nth [of "7 - k" m] be64_nth [of "7 - k" n] by simp

lemma digits_agree:
  assumes "\<forall>i<k. m div 256 ^ i mod 256 = n div 256 ^ i mod (256 :: nat)"
  shows "m mod 256 ^ k = n mod 256 ^ k"
  using assms
proof (induction k)
  case (Suc k)
  have "a mod 256 ^ Suc k = a mod 256 ^ k + 256 ^ k * (a div 256 ^ k mod 256)" for a :: nat
    by (metis add.commute mod_mult2_eq mult.commute power_Suc)
  then show ?case using Suc by simp
qed simp

lemma be64_inj: "be64 m = be64 n \<Longrightarrow> m < 2 ^ 64 \<Longrightarrow> n < 2 ^ 64 \<Longrightarrow> m = n"
  using digits_agree [of 8 m n] be64_digit [of m n] by simp

lemma hashPiece_nonempty [simp]: "hashPiece x \<noteq> []"
  using length_be64 by (metis append_is_Nil_conv hashPiece_def length_0_conv zero_neq_numeral)

lemma hashPiece_append:
  assumes "hashPiece x @ s = hashPiece y @ t" "length x < 2 ^ 64" "length y < 2 ^ 64"
  shows "x = y \<and> s = t"
proof -
  have "be64 (length x) = be64 (length y)" "x @ s = y @ t"
    using assms(1) by (auto simp: hashPiece_def append_eq_append_conv)
  with be64_inj [of "length x" "length y"] assms(2,3) show ?thesis by simp
qed

lemma pieces_inj:
  "concat (map hashPiece xs) = concat (map hashPiece ys) \<Longrightarrow> \<forall>x\<in>set xs \<union> set ys. length x < 2 ^ 64 \<Longrightarrow> xs = ys"
proof (induction xs arbitrary: ys)
  case Nil
  then show ?case by (cases ys) simp_all
next
  case (Cons x xs)
  then obtain y ys' where ys: "ys = y # ys'" by (cases ys) simp_all
  have "x = y \<and> concat (map hashPiece xs) = concat (map hashPiece ys')"
    by (rule hashPiece_append) (use Cons.prems ys in auto)
  with Cons.IH [of ys'] Cons.prems ys show ?case by auto
qed

definition block_pieces :: "block list \<Rightarrow> bytes list" where
  "block_pieces bs = concat (map (\<lambda>b. [BType b, BText b, BRaw b]) bs)"

lemma block_pieces_simps [simp]:
  "block_pieces [] = []" "block_pieces (b # bs) = BType b # BText b # BRaw b # block_pieces bs"
  by (simp_all add: block_pieces_def)

lemma part_text_pieces:
  "part_text kind bs ts = ''dax-estimate-v1'' @ [CHR 0x00] @ concat (map hashPiece (kind # block_pieces bs @ ts))"
  by (induction bs) (simp_all add: part_text_def)

lemma block_pieces_bytes: "block_pieces bs = block_pieces cs \<Longrightarrow> map blockBytes bs = map blockBytes cs"
proof (induction bs arbitrary: cs)
  case Nil
  then show ?case by (cases cs) simp_all
next
  case (Cons b bs)
  then obtain c cs' where cs: "cs = c # cs'" by (cases cs) simp_all
  with Cons.prems have eq: "BType b = BType c" "BText b = BText c" "BRaw b = BRaw c" "block_pieces bs = block_pieces cs'"
    by simp_all
  have "blockBytes b = blockBytes c" by (simp add: blockBytes_def eq)
  then show ?case using Cons.IH [OF eq(4)] cs by simp
qed

text \<open>An item that fits the budget; only the tools item carries tools, and it carries nothing else.\<close>

definition sized_item :: "item \<Rightarrow> bool" where
  "sized_item i \<longleftrightarrow> (\<forall>x\<in>set (item_kind i # block_pieces (item_content i) @ item_tools i). length x < 2 ^ 64)
     \<and> (if item_kind i = ''tools'' then item_content i = [] else item_tools i = [])"

definition item_text :: "item \<Rightarrow> bytes" where
  "item_text i = part_text (item_kind i) (item_content i) (item_tools i)"

definition item_bytes :: "item \<Rightarrow> nat option" where
  "item_bytes i = part_bytes (item_content i) (item_tools i)"

lemma item_text_bytes:
  assumes "item_text i = item_text j" "sized_item i" "sized_item j"
  shows "item_bytes i = item_bytes j"
proof -
  define ps where "ps = block_pieces (item_content i)"
  define qs where "qs = block_pieces (item_content j)"
  have c: "concat (map hashPiece (item_kind i # ps @ item_tools i)) = concat (map hashPiece (item_kind j # qs @ item_tools j))"
    using assms(1) unfolding item_text_def part_text_pieces ps_def qs_def by (simp only: same_append_eq)
  have "\<forall>x\<in>set (item_kind i # ps @ item_tools i) \<union> set (item_kind j # qs @ item_tools j). length x < 2 ^ 64"
    using assms(2,3) unfolding sized_item_def ps_def [symmetric] qs_def [symmetric] by (metis (no_types, lifting) UnE)
  from pieces_inj [OF c this] have *: "item_kind i = item_kind j" "ps @ item_tools i = qs @ item_tools j" by simp_all
  have "ps = qs \<and> item_tools i = item_tools j"
    using * assms(2,3) by (cases "item_kind j = ''tools''") (simp_all add: sized_item_def ps_def qs_def)
  then show ?thesis using block_pieces_bytes [of "item_content i" "item_content j"]
    by (simp add: item_bytes_def part_bytes_def ps_def qs_def)
qed

subsection \<open>The cache invariant\<close>

text \<open>Measuring without a cache.\<close>

definition fresh_part :: "(bytes \<Rightarrow> bytes) \<Rightarrow> item \<Rightarrow> estimate_part option" where
  "fresh_part mac i = map_option (\<lambda>n. \<lparr>part_key = mac (item_text i), part_size = n\<rparr>) (item_bytes i)"

definition ring_inv :: "estimator \<Rightarrow> bool" where
  "ring_inv e \<longleftrightarrow> length (order e) = CacheSlots \<and> distinct (map fst (cache e)) \<and> length (cache e) \<le> CacheSlots
     \<and> next_slot e < CacheSlots \<and> (length (cache e) < CacheSlots \<longrightarrow> next_slot e = length (cache e))
     \<and> set (map fst (cache e)) = set (take (length (cache e)) (order e)) \<and> distinct (take (length (cache e)) (order e))"

definition cached_from :: "(bytes \<Rightarrow> bytes) \<Rightarrow> item set \<Rightarrow> estimator \<Rightarrow> bool" where
  "cached_from mac T e \<longleftrightarrow>
     (\<forall>k p. map_of (cache e) k = Some p \<longrightarrow> (\<exists>i\<in>T. k = mac (item_text i) \<and> fresh_part mac i = Some p))"

lemma NewEstimator_ring: "ring_inv NewEstimator"
  by (simp add: ring_inv_def NewEstimator_def CacheSlots_def)

lemma ring_remember_grow:
  assumes "ring_inv e" "map_of (cache e) key = None" "length (cache e) < CacheSlots"
  shows "ring_inv (remember_part key p e)"
proof -
  have k: "key \<notin> set (map fst (cache e))" using assms(2) by (simp add: map_of_eq_None_iff)
  then have l: "length (aset key p (cache e)) = Suc (length (cache e))" by (simp add: length_aset has_key_iff)
  have t: "take (Suc (length (cache e))) ((order e)[length (cache e) := key]) = take (length (cache e)) (order e) @ [key]"
    using assms(1,3) by (simp add: ring_inv_def take_Suc_conv_app_nth)
  show ?thesis
    using assms k l t by (auto simp: ring_inv_def remember_part_def)
qed

lemma ring_remember_full:
  assumes "ring_inv e" "map_of (cache e) key = None" "length (cache e) = CacheSlots"
  shows "ring_inv (remember_part key p e)"
proof -
  define old where "old = order e ! next_slot e"
  have o: "length (order e) = CacheSlots" "next_slot e < CacheSlots" "distinct (map fst (cache e))" "distinct (order e)"
    "fst ` set (cache e) = set (order e)"
    using assms(1,3) by (auto simp: ring_inv_def)
  have k: "key \<notin> set (order e)" using assms(2) o(5) by (metis map_of_eq_None_iff)
  have old: "old \<in> set (order e)" using o(1,2) by (simp add: old_def)
  have la: "length (adel old (cache e)) = CacheSlots - 1"
    using old o(3,5) assms(3) by (simp add: length_adel has_key_iff)
  have "\<not> has_key (adel old (cache e)) key" using k o(5) by (simp add: has_key_iff)
  then have l: "length (aset key p (adel old (cache e))) = CacheSlots"
    using la by (simp add: length_aset CacheSlots_def)
  have s: "set ((order e)[next_slot e := key]) = insert key (set (order e) - {old})"
    using o(1,2,4) by (auto simp: set_update_distinct old_def)
  have d: "distinct ((order e)[next_slot e := key])"
    using o(4) k by (simp add: distinct_list_update)
  have p: "0 < CacheSlots" by (simp add: CacheSlots_def)
  show ?thesis
    using o l s d p assms(3) unfolding ring_inv_def remember_part_def old_def [symmetric] by simp
qed

lemma ring_remember: "ring_inv e \<Longrightarrow> map_of (cache e) key = None \<Longrightarrow> ring_inv (remember_part key p e)"
  using ring_remember_grow ring_remember_full by (metis le_less ring_inv_def)

lemma Estimator_part_ring: "ring_inv e \<Longrightarrow> ring_inv (snd (Estimator_part mac kind bs ts e))"
  using ring_remember [of e] by (simp add: Estimator_part_def Let_def split: option.split)

lemma remember_lookup:
  "map_of (cache (remember_part key p e)) k = Some q \<Longrightarrow> (k = key \<and> q = p) \<or> map_of (cache e) k = Some q"
  by (auto simp: remember_part_def split: if_splits)

lemma Estimator_part_hit:
  assumes "inj_on mac (item_text ` T)" "i \<in> T" "\<forall>j\<in>T. sized_item j" "cached_from mac T e"
  shows "fst (Estimator_part mac (item_kind i) (item_content i) (item_tools i) e) = fresh_part mac i"
    and "cached_from mac T (snd (Estimator_part mac (item_kind i) (item_content i) (item_tools i) e))"
proof -
  define key where "key = mac (item_text i)"
  have hit: "fresh_part mac i = Some p" if "map_of (cache e) key = Some p" for p
  proof -
    from assms(4) that obtain j where j: "j \<in> T" "key = mac (item_text j)" "fresh_part mac j = Some p"
      unfolding cached_from_def by blast
    have eq: "item_text i = item_text j"
      by (rule inj_onD [OF assms(1)]) (use assms(2) j(1,2) key_def in simp_all)
    have "sized_item i" "sized_item j" using assms(2,3) j(1) by blast+
    from item_text_bytes [OF eq this] j(3) show ?thesis unfolding fresh_part_def eq by simp
  qed
  have part: "Estimator_part mac (item_kind i) (item_content i) (item_tools i) e =
      (case map_of (cache e) key of Some p \<Rightarrow> (Some p, e)
       | None \<Rightarrow> (case item_bytes i of None \<Rightarrow> (None, e)
           | Some n \<Rightarrow> (Some \<lparr>part_key = key, part_size = n\<rparr>, remember_part key \<lparr>part_key = key, part_size = n\<rparr> e)))"
    unfolding Estimator_part_def Let_def key_def item_text_def item_bytes_def ..
  show "fst (Estimator_part mac (item_kind i) (item_content i) (item_tools i) e) = fresh_part mac i"
  proof (cases "map_of (cache e) key")
    case None
    then show ?thesis unfolding part by (simp add: fresh_part_def key_def split: option.split)
  next
    case (Some p)
    then show ?thesis unfolding part by (simp add: hit)
  qed
  have "cached_from mac T (remember_part key \<lparr>part_key = key, part_size = n\<rparr> e)" if n: "item_bytes i = Some n" for n
    unfolding cached_from_def
  proof (intro allI impI)
    fix k q
    assume "map_of (cache (remember_part key \<lparr>part_key = key, part_size = n\<rparr> e)) k = Some q"
    from remember_lookup [OF this] show "\<exists>j\<in>T. k = mac (item_text j) \<and> fresh_part mac j = Some q"
    proof
      assume "k = key \<and> q = \<lparr>part_key = key, part_size = n\<rparr>"
      then have "k = mac (item_text i) \<and> fresh_part mac i = Some q" using n by (simp add: fresh_part_def key_def)
      then show ?thesis using assms(2) by blast
    next
      assume "map_of (cache e) k = Some q"
      then show ?thesis using assms(4) unfolding cached_from_def by blast
    qed
  qed
  then show "cached_from mac T (snd (Estimator_part mac (item_kind i) (item_content i) (item_tools i) e))"
    unfolding part using assms(4) by (simp split: option.split)
qed

text \<open>Measuring a list of items without a cache.\<close>

fun fresh_parts :: "(bytes \<Rightarrow> bytes) \<Rightarrow> item list \<Rightarrow> input_estimate \<Rightarrow> input_estimate option" where
  "fresh_parts mac [] acc = Some acc"
| "fresh_parts mac (i # rest) acc =
     (if \<not> item_ok i then None
      else case fresh_part mac i of
        None \<Rightarrow> None
      | Some p \<Rightarrow>
          if EstimateBudget < input_bytes acc + part_size p then None
          else fresh_parts mac rest \<lparr>parts = parts acc @ [p], input_bytes = input_bytes acc + part_size p\<rparr>)"

definition fresh_measure :: "(bytes \<Rightarrow> bytes) \<Rightarrow> request \<Rightarrow> input_estimate option" where
  "fresh_measure mac r = (if measurable r then fresh_parts mac (request_items r) \<lparr>parts = [], input_bytes = 0\<rparr> else None)"

lemma add_parts_fresh:
  assumes "inj_on mac (item_text ` T)" "\<forall>j\<in>T. sized_item j" "\<forall>i\<in>set items. item_ok i \<longrightarrow> i \<in> T" "cached_from mac T e"
  shows "fst (add_parts mac items acc e) = fresh_parts mac items acc \<and> cached_from mac T (snd (add_parts mac items acc e))"
  using assms(3,4)
proof (induction items arbitrary: acc e)
  case (Cons i rest)
  show ?case
  proof (cases "item_ok i")
    case True
    obtain po e' where pe: "Estimator_part mac (item_kind i) (item_content i) (item_tools i) e = (po, e')" by fastforce
    have i: "i \<in> T" "\<forall>i\<in>set rest. item_ok i \<longrightarrow> i \<in> T" using Cons.prems True by simp_all
    have po: "po = fresh_part mac i" "cached_from mac T e'"
      using Estimator_part_hit [OF assms(1) i(1) assms(2) Cons.prems(2)] pe by simp_all
    show ?thesis using pe po Cons.IH [OF i(2) po(2)] True by (auto split: option.split)
  next
    case False
    then show ?thesis using Cons.prems(2) by simp
  qed
qed simp

lemma add_parts_ring: "ring_inv e \<Longrightarrow> ring_inv (snd (add_parts mac items acc e))"
proof (induction items arbitrary: acc e)
  case (Cons i rest)
  show ?case
    using Estimator_part_ring [OF Cons.prems, of mac "item_kind i" "item_content i" "item_tools i"] Cons
    by (auto split: prod.split option.split)
qed simp

subsection \<open>Requests within the budget\<close>

lemma budget_check_le:
  "budget_check bss (b, n) = Some (b', n') \<Longrightarrow> \<forall>bs\<in>set bss. block_budget bs \<le> EstimateBudget"
  by (induction bss arbitrary: b n) (auto split: if_splits)

lemma block_pieces_length: "x \<in> set (block_pieces bs) \<Longrightarrow> length x \<le> block_budget bs"
  by (induction bs) (auto simp: block_budget_def)

lemma member_sum_list: "x \<in> set xs \<Longrightarrow> f x \<le> sum_list (map f xs)" for f :: "'a \<Rightarrow> nat"
  by (simp add: member_le_sum_list)

lemma sized_content:
  "block_budget bs \<le> EstimateBudget \<Longrightarrow> length kind < 100 \<Longrightarrow> kind \<noteq> ''tools'' \<Longrightarrow>
   sized_item \<lparr>item_ok = ok, item_kind = kind, item_content = bs, item_tools = []\<rparr>"
  using block_pieces_length [of _ bs] by (fastforce simp: sized_item_def EstimateBudget_def)

definition measured_items :: "request list \<Rightarrow> item set" where
  "measured_items rs = {i. item_ok i \<and> (\<exists>r\<in>set rs. measurable r \<and> i \<in> set (request_items r))}"

lemma measurable_sized:
  assumes "measurable r" "i \<in> set (request_items r)" "item_ok i"
  shows "sized_item i"
proof -
  from assms(1) obtain b n where b: "budget_check (System r # map Content (Messages r)) (0, 0) = Some (b, n)"
      "b + sum_list (map length (ReqTools r)) \<le> EstimateBudget"
    by (auto simp: measurable_def split: option.splits)
  have c: "block_budget (System r) \<le> EstimateBudget" "\<And>m. m \<in> set (Messages r) \<Longrightarrow> block_budget (Content m) \<le> EstimateBudget"
    using budget_check_le [OF b(1)] by auto
  have t: "length x \<le> EstimateBudget" if "x \<in> set (ReqTools r)" for x
    using member_sum_list [OF that, of length] b(2) by linarith
  have m: "sized_item (message_item m)" if "m \<in> set (Messages r)" "item_ok (message_item m)" for m
    unfolding message_item_def by (rule sized_content) (use c(2) that in \<open>auto simp: message_item_def\<close>)
  consider "i = \<lparr>item_ok = True, item_kind = ''system'', item_content = System r, item_tools = []\<rparr>"
    | "i = \<lparr>item_ok = True, item_kind = ''tools'', item_content = [], item_tools = ReqTools r\<rparr>"
    | m where "m \<in> set (Messages r)" "i = message_item m"
    using assms(2) by (auto simp: request_items_def)
  then show ?thesis
  proof cases
    case 1
    show ?thesis unfolding 1 by (rule sized_content) (use c(1) in simp_all)
  next
    case 2
    then show ?thesis using t by (fastforce simp: sized_item_def EstimateBudget_def)
  next
    case 3
    then show ?thesis using m assms(3) by simp
  qed
qed

subsection \<open>Properties\<close>

fun measure_all :: "(bytes \<Rightarrow> bytes) \<Rightarrow> request list \<Rightarrow> estimator \<Rightarrow> input_estimate option list \<times> estimator" where
  "measure_all mac [] e = ([], e)"
| "measure_all mac (r # rs) e =
     (case Measure mac r e of (i, e') \<Rightarrow> (case measure_all mac rs e' of (is', e'') \<Rightarrow> (i # is', e'')))"

lemma measure_all_fresh:
  assumes "inj_on mac (item_text ` T)" "\<forall>j\<in>T. sized_item j"
    and "measured_items rs \<subseteq> T" "cached_from mac T e" "ring_inv e"
  shows "fst (measure_all mac rs e) = map (fresh_measure mac) rs \<and> ring_inv (snd (measure_all mac rs e))"
  using assms(3-)
proof (induction rs arbitrary: e)
  case (Cons r rs)
  obtain i e' where m: "Measure mac r e = (i, e')" by fastforce
  have "\<forall>i\<in>set (request_items r). item_ok i \<longrightarrow> i \<in> T" if "measurable r"
    using Cons.prems(1) that by (auto simp: measured_items_def)
  then have i: "i = fresh_measure mac r \<and> cached_from mac T e'"
    using m Cons.prems(2) add_parts_fresh [OF assms(1,2) _ Cons.prems(2), of "request_items r" "\<lparr>parts = [], input_bytes = 0\<rparr>"]
    by (cases "measurable r") (auto simp: Measure_def fresh_measure_def)
  have "ring_inv e'"
    using m Cons.prems(3) add_parts_ring [OF Cons.prems(3), of mac "request_items r" "\<lparr>parts = [], input_bytes = 0\<rparr>"]
    by (cases "measurable r") (auto simp: Measure_def)
  moreover have "measured_items rs \<subseteq> T" using Cons.prems(1) by (auto simp: measured_items_def)
  ultimately show ?case using Cons.IH [of e'] i m by (auto split: prod.split)
qed simp

text \<open>
  C16: the estimator's cache is transparent and bounded: whatever requests are measured one after the other with one
  estimator, each result is what measuring that request without any cache gives, cached, evicted or recomputed, and
  never more than 128 parts are retained. The keyed hash is assumed not to collide on the parts measured; that
  different parts are hashed as different texts is proved, not assumed.
\<close>

theorem estimator_cache_transparent:
  assumes "inj_on mac (item_text ` measured_items rs)"
  shows "fst (measure_all mac rs NewEstimator) = map (fresh_measure mac) rs
         \<and> length (cache (snd (measure_all mac rs NewEstimator))) \<le> 128"
proof -
  have "cached_from mac (measured_items rs) NewEstimator" by (simp add: cached_from_def NewEstimator_def)
  moreover have "\<forall>j\<in>measured_items rs. sized_item j" using measurable_sized by (auto simp: measured_items_def)
  ultimately show ?thesis
    using measure_all_fresh [OF assms _ order_refl] NewEstimator_ring by (auto simp: ring_inv_def CacheSlots_def)
qed

text \<open>A request with a system text and one message, measured twice.\<close>

definition ex_text :: "bytes \<Rightarrow> block" where
  "ex_text t = \<lparr>BType = ''text'', BText = t, BRaw = [], bmedia = None\<rparr>"

definition ex_measured :: request where
  "ex_measured = \<lparr>Identity = \<lparr>IdSession = [], IdAgent = [], IdParentAgent = []\<rparr>, ReqModel = ''m'', MaxTokens = 1,
     Stream = False, System = [ex_text ''Be brief.''], Messages = [\<lparr>Role = ''user'', Content = [ex_text ''Hello'']\<rparr>],
     ReqTools = [], Effort = [], Extra = [], Warnings = []\<rparr>"

lemma ex_fresh_measure:
  "map_option input_bytes (fresh_measure (\<lambda>t. t) ex_measured) = Some 14"
  by code_simp

theorem estimator_cache_transparent_witness:
  "map (map_option input_bytes) (fst (measure_all (\<lambda>t. t) [ex_measured, ex_measured] NewEstimator)) = [Some 14, Some 14]"
  using estimator_cache_transparent [of "\<lambda>t. t" "[ex_measured, ex_measured]"] ex_fresh_measure by simp

lemma add_parts_sum:
  "fst (add_parts mac items acc e) = Some i \<Longrightarrow> input_bytes acc = sum_list (map part_size (parts acc)) \<Longrightarrow>
   input_bytes acc \<le> EstimateBudget \<Longrightarrow>
   input_bytes i = sum_list (map part_size (parts i)) \<and> input_bytes i \<le> EstimateBudget
   \<and> length (parts i) = length (parts acc) + length items"
proof (induction items arbitrary: acc e)
  case (Cons x rest)
  obtain po e' where pe: "Estimator_part mac (item_kind x) (item_content x) (item_tools x) e = (po, e')" by fastforce
  with Cons.prems(1) obtain p where p: "po = Some p" "input_bytes acc + part_size p \<le> EstimateBudget"
      "fst (add_parts mac rest \<lparr>parts = parts acc @ [p], input_bytes = input_bytes acc + part_size p\<rparr> e') = Some i"
    by (cases po) (auto split: if_splits)
  show ?case using Cons.IH [OF p(3)] Cons.prems(2,3) p(2) by simp
qed simp

lemma prefix_bytes_le: "prefix_bytes ps qs \<le> sum_list (map part_size ps)"
  by (induction ps qs rule: prefix_bytes.induct) auto

lemma out_add_le: "out_bytes v \<le> 1099511627776 \<Longrightarrow> out_bytes (out_add n v) \<le> 1099511627776"
  by (auto simp: out_add_def)

lemma AddTools_le: "out_bytes v \<le> 1099511627776 \<Longrightarrow> out_bytes (AddTools ts v) \<le> 1099511627776"
  by (induction ts v rule: AddTools.induct) (auto simp: out_add_le split: option.split)

definition collect_output :: "(bytes + tool_use list) list \<Rightarrow> visible_output" where
  "collect_output ops = fold (case_sum AddText AddTools) ops no_output"

lemma collect_output_le: "out_bytes (collect_output ops) \<le> 1099511627776"
proof -
  have "out_bytes v \<le> 1099511627776 \<Longrightarrow> out_bytes (fold (case_sum AddText AddTools) ops v) \<le> 1099511627776" for v
    by (induction ops arbitrary: v) (auto simp: AddText_def out_add_le AddTools_le split: sum.split)
  then show ?thesis by (simp add: collect_output_def no_output_def)
qed

text \<open>
  Every measurement has one part for the system text, one for the tools and one per message, and the estimate
  made from it, whatever the previous request and the text and tools produced, always passes the check its
  consumers make: the input at most 8388608 tokens, the reused prefix not above it, the visible output at most 2^38.
  Without an overflow of the output counter there always is an estimate.
\<close>

theorem summary_within_limits:
  assumes "fst (Measure mac r e) = Some i"
  shows "length (parts i) = length (Messages r) + 2
       \<and> (case Summary i previous (collect_output ops) of
            Some s \<Rightarrow> Estimate_valid s
          | None \<Rightarrow> out_invalid (collect_output ops))"
proof -
  have m: "fst (add_parts mac (request_items r) \<lparr>parts = [], input_bytes = 0\<rparr> e) = Some i"
    using assms by (simp add: Measure_def split: if_splits)
  have i: "input_bytes i = sum_list (map part_size (parts i))" "input_bytes i \<le> EstimateBudget"
      "length (parts i) = length (request_items r)"
    using add_parts_sum [OF m] by simp_all
  have l: "length (request_items r) = length (Messages r) + 2" by (simp add: request_items_def)
  have "prefix_bytes (parts i) (parts previous) \<le> input_bytes i" using prefix_bytes_le i(1) by simp
  then have "(prefix_bytes (parts i) (parts previous) + 3) div 4 \<le> (input_bytes i + 3) div 4" by (simp add: div_le_mono)
  moreover have "(input_bytes i + 3) div 4 \<le> 8388608" using i(2) by (simp add: EstimateBudget_def)
  moreover have "(out_bytes (collect_output ops) + 3) div 4 \<le> 274877906944" using collect_output_le [of ops] by simp
  ultimately show ?thesis using i(3) l by (auto simp: Summary_def Estimate_valid_def Tokens_def)
qed

lemma ex_measure: "\<exists>i. fst (Measure (\<lambda>t. t) ex_measured NewEstimator) = Some i \<and> parts i \<noteq> []"
proof -
  have "map_option (\<lambda>i. parts i \<noteq> []) (fst (Measure (\<lambda>t. t) ex_measured NewEstimator)) = Some True" by code_simp
  then show ?thesis by auto
qed

theorem summary_within_limits_witness:
  "\<exists>i. fst (Measure (\<lambda>t. t) ex_measured NewEstimator) = Some i \<and>
     (\<exists>s. Summary i i (collect_output [Inl ''Hi'']) = Some s \<and> Estimate_valid s)"
proof -
  obtain i where i: "fst (Measure (\<lambda>t. t) ex_measured NewEstimator) = Some i" "parts i \<noteq> []" using ex_measure by blast
  have "\<not> out_invalid (collect_output [Inl ''Hi''])"
    by (simp add: collect_output_def no_output_def AddText_def out_add_def)
  with summary_within_limits [OF i(1), of "[Inl ''Hi'']" i] i(1) show ?thesis by (auto split: option.splits)
qed

end
