(* ===== verification/Status.thy ===== *)
theory Status
  imports Kirofeature Estimate
begin

text \<open>
  \<open>internal/status\<close>: the queue of completed turns (\<open>metrics.go\<close>), the account usage cache (\<open>usage.go\<close>), the
  model label (\<open>display.go\<close>) and the launch notice (\<open>notice.go\<close>).
\<close>

subsection \<open>metrics.go\<close>

record turn_record =
  Sequence :: nat
  Scope :: bytes
  TModel :: bytes
  TMultiplier :: "float64 option"
  SessionState :: bytes
  ElapsedMS :: int
  TEffort :: effort_status
  TMetadata :: metadata
  TEstimate :: "estimate option"

record turn_queue =
  records :: "turn_record list"
  latest :: "turn_record option"
  qsequence :: nat
  dropped :: nat

definition hex_byte :: "char \<Rightarrow> bool" where
  "hex_byte c \<longleftrightarrow> is_digit c \<or> (97 \<le> byte c \<and> byte c \<le> 102)"

definition alias_byte :: "char \<Rightarrow> bool" where
  "alias_byte c \<longleftrightarrow> is_lower c \<or> is_digit c \<or> c = CHR ''-'' \<or> c = CHR ''_''"

definition validRecord :: "unicode_tables \<Rightarrow> turn_record \<Rightarrow> bool" where
  "validRecord u r \<longleftrightarrow>
     (case TEstimate r of None \<Rightarrow> True | Some e \<Rightarrow> Estimate_valid e)
     \<and> length (Scope r) = 64 \<and> length (TModel r) \<le> 256 \<and> has_prefix (TModel r) ''claude-dax-''
     \<and> 0 \<le> ElapsedMS r \<and> ElapsedMS r \<le> 7200000 \<and> Metadata_Valid (TMetadata r)
     \<and> list_all hex_byte (Scope r) \<and> list_all alias_byte (TModel r)
     \<and> SessionState r \<in> {''created'', ''reused'', ''loaded''}
     \<and> Normalize u (Requested (TEffort r)) = Requested (TEffort r) \<and> Normalize u (Applied (TEffort r)) = Applied (TEffort r)
     \<and> (case TMultiplier r of None \<Rightarrow> True | Some v \<Rightarrow> float_within v (10 ^ 12))"

definition QueueSlots :: nat where "QueueSlots = 32"
definition MaxSequence :: nat where "MaxSequence = 9007199254740991"

definition NewTurnQueue :: turn_queue where
  "NewTurnQueue = \<lparr>records = [], latest = None, qsequence = 0, dropped = 0\<rparr>"

definition stamped :: "turn_record \<Rightarrow> nat \<Rightarrow> turn_record" where
  "stamped r n = r\<lparr>TEffort := (TEffort r)\<lparr>StModel := TModel r, Reason := []\<rparr>, Sequence := n\<rparr>"

definition Push :: "unicode_tables \<Rightarrow> turn_record \<Rightarrow> turn_queue \<Rightarrow> bool \<times> turn_queue" where
  "Push u r q =
     (if \<not> validRecord u r \<or> MaxSequence \<le> qsequence q then (False, q)
      else let r' = stamped r (qsequence q + 1); full = (length (records q) = QueueSlots)
           in (True, \<lparr>records = (if full then drop 1 (records q) else records q) @ [r'], latest = Some r',
                      qsequence = qsequence q + 1, dropped = (if full then dropped q + 1 else dropped q)\<rparr>))"

record metrics_page =
  PageRecords :: "turn_record list"
  PageDropped :: nat

definition Drain :: "turn_queue \<Rightarrow> metrics_page \<times> turn_queue" where
  "Drain q = (\<lparr>PageRecords = records q, PageDropped = dropped q\<rparr>, q\<lparr>records := []\<rparr>)"

definition Latest :: "turn_queue \<Rightarrow> turn_record option" where
  "Latest q = latest q"

subsection \<open>usage.go\<close>

text \<open>
  Times are nanoseconds since Go's zero time. A refresh in flight is the flag of the code; its result arrives in
  \<open>refresh_done\<close>.
\<close>

record usage_data =
  UsedCredits :: "float64 option"
  LimitCredits :: "float64 option"
  RemainingCredits :: "float64 option"

record usage_cache =
  ttl :: int
  has_fetch :: bool
  udata :: usage_data
  updated :: int
  next_refresh :: int
  uavailable :: bool
  refreshing :: bool
  uclosed :: bool
  ustate :: bytes

record usage_snapshot =
  SnapAvailable :: bool
  SnapRefreshing :: bool
  SnapStale :: bool
  SnapState :: bytes
  SnapData :: usage_data
  UpdatedAt :: "int option"

definition no_usage_data :: usage_data where
  "no_usage_data = \<lparr>UsedCredits = None, LimitCredits = None, RemainingCredits = None\<rparr>"

definition validUsage :: "usage_data \<Rightarrow> bool" where
  "validUsage d \<longleftrightarrow>
     (let ns = [UsedCredits d, LimitCredits d, RemainingCredits d]
      in list_ex (\<lambda>n. n \<noteq> None) ns
         \<and> list_all (\<lambda>n. case n of None \<Rightarrow> True | Some v \<Rightarrow> float_within v (10 ^ 12)) ns)"

definition NewUsageCache :: "int \<Rightarrow> int \<Rightarrow> bool \<Rightarrow> usage_cache option" where
  "NewUsageCache ttl0 timeout0 fetch =
     (let t = (if ttl0 = 0 then 60000000000 else ttl0); timeout = (if timeout0 = 0 then 5000000000 else timeout0)
      in if t \<le> 0 \<or> 3600000000000 < t \<or> timeout \<le> 0 \<or> 30000000000 < timeout then None
         else Some \<lparr>ttl = t, has_fetch = fetch, udata = no_usage_data, updated = 0, next_refresh = 0, uavailable = False,
                    refreshing = False, uclosed = False, ustate = (if fetch then ''unavailable'' else ''unsupported'')\<rparr>)"

definition usage_stale :: "int \<Rightarrow> usage_cache \<Rightarrow> bool" where
  "usage_stale now c \<longleftrightarrow> uavailable c \<and> updated c + ttl c \<le> now"

definition usage_starts :: "int \<Rightarrow> usage_cache \<Rightarrow> bool" where
  "usage_starts now c \<longleftrightarrow> \<not> uclosed c \<and> has_fetch c \<and> \<not> refreshing c \<and> (\<not> uavailable c \<or> usage_stale now c)
     \<and> next_refresh c \<le> now"

definition Read_usage :: "int \<Rightarrow> usage_cache \<Rightarrow> usage_snapshot \<times> usage_cache" where
  "Read_usage now c =
     (let c' = (if usage_starts now c then c\<lparr>refreshing := True, next_refresh := now + ttl c\<rparr> else c)
      in (\<lparr>SnapAvailable = uavailable c', SnapRefreshing = refreshing c', SnapStale = usage_stale now c, SnapState = ustate c',
           SnapData = udata c', UpdatedAt = (if uavailable c' then Some (updated c') else None)\<rparr>, c'))"

text \<open>The end of a refresh; \<open>None\<close> is an error of the fetch or of its context.\<close>

definition refresh_done :: "int \<Rightarrow> usage_data option \<Rightarrow> usage_cache \<Rightarrow> usage_cache" where
  "refresh_done now result c0 =
     (let c = c0\<lparr>refreshing := False\<rparr>
      in if uclosed c then c
         else let c' = c\<lparr>next_refresh := now + ttl c\<rparr>
              in case result of
                  None \<Rightarrow> c'\<lparr>ustate := ''refresh_failed''\<rparr>
                | Some d \<Rightarrow> if validUsage d then c'\<lparr>udata := d, updated := now, uavailable := True, ustate := ''current''\<rparr>
                           else c'\<lparr>ustate := ''refresh_failed''\<rparr>)"

definition Close_usage :: "usage_cache \<Rightarrow> usage_cache" where
  "Close_usage c = c\<lparr>uclosed := True\<rparr>"

subsection \<open>display.go and notice.go\<close>

definition split_last_dash :: "bytes \<Rightarrow> (bytes \<times> bytes) option" where
  "split_last_dash s =
     (if CHR ''-'' \<notin> set s then None
      else let tl = rev (takeWhile (\<lambda>c. c \<noteq> CHR ''-'') (rev s))
           in Some (take (length s - length tl - 1) s, tl))"

definition ModelLabel :: "bytes \<Rightarrow> bytes option" where
  "ModelLabel a =
     (if \<not> has_prefix a ''claude-dax-'' \<or> length a \<le> 11 \<or> 256 < length a \<or> \<not> list_all alias_byte a then None
      else let label = drop 11 a
           in case split_last_dash label of
               Some (name, digest) \<Rightarrow>
                 Some (if name \<noteq> [] \<and> length digest = 16 \<and> list_all hex_byte digest then name else label)
             | None \<Rightarrow> Some label)"

record model_notice =
  NVersion :: int
  NModel :: bytes
  ImageInput :: bytes
  PDFInput :: bytes
  NativeWebSearch :: bytes
  NEffort :: bytes
  ClientTools :: bytes
  ProviderTokenUsage :: bytes

definition LaunchNotice :: "bytes \<Rightarrow> model_notice option" where
  "LaunchNotice model = (case ModelLabel model of
     None \<Rightarrow> None
   | Some _ \<Rightarrow> Some \<lparr>NVersion = 1, NModel = model, ImageInput = ''unknown'', PDFInput = ''unknown'',
       NativeWebSearch = ''unsupported'', NEffort = ''unknown'', ClientTools = ''client_permissions'',
       ProviderTokenUsage = ''unreported''\<rparr>)"

definition notice_keys :: "bytes list" where
  "notice_keys = [''version'', ''model'', ''image_input'', ''pdf_input'', ''native_web_search'', ''effort'',
     ''client_tools'', ''provider_token_usage'']"

text \<open>All eight keys are present and there are eight, so decoding into the struct reads exactly these.\<close>

definition decode_notice :: "(bytes \<times> bytes) list \<Rightarrow> model_notice option" where
  "decode_notice fs =
     do {
       v \<leftarrow> unmarshal_int (field fs ''version'');
       m \<leftarrow> unmarshal_string (field fs ''model'');
       i \<leftarrow> unmarshal_string (field fs ''image_input'');
       p \<leftarrow> unmarshal_string (field fs ''pdf_input'');
       s \<leftarrow> unmarshal_string (field fs ''native_web_search'');
       e \<leftarrow> unmarshal_string (field fs ''effort'');
       t \<leftarrow> unmarshal_string (field fs ''client_tools'');
       k \<leftarrow> unmarshal_string (field fs ''provider_token_usage'');
       Some \<lparr>NVersion = v, NModel = m, ImageInput = i, PDFInput = p, NativeWebSearch = s, NEffort = e, ClientTools = t,
         ProviderTokenUsage = k\<rparr>
     }"

definition FormatNotice :: "bytes \<Rightarrow> bytes \<Rightarrow> bytes option" where
  "FormatNotice raw model =
     do {
       expected \<leftarrow> LaunchNotice model;
       label \<leftarrow> ModelLabel model;
       fs \<leftarrow> (if 65536 < length raw then None else ndjson_Object raw);
       if length fs \<noteq> 8 \<or> \<not> list_all (\<lambda>k. has_key fs k \<and> field fs k \<noteq> ''null'') notice_keys then None
       else do {
         got \<leftarrow> decode_notice fs;
         let limited = (NativeWebSearch got = ''limited'');
         if got \<noteq> (if limited then expected\<lparr>NativeWebSearch := ''limited''\<rparr> else expected) then None
         else Some (''Kiro launch '' @ label
           @ ''. Tools follow client permissions. Image/PDF and effort support: unverified. Native web search: ''
           @ (if limited then ''limited one-shot support'' else ''unavailable'')
           @ ''. Provider token usage: unreported.'')
       }
     }"

end
