(* ===== verification/Catalog.thy ===== *)
theory Catalog
  imports GoFloat GoRunes Wire
begin

text \<open>
  \<open>internal/catalog\<close>: the model catalogue with its reversible client aliases, its decoding from the agent's
  session answer, and the cache of discovered catalogues. SHA-256 is an argument, as are the Unicode tables.
\<close>

subsection \<open>catalog.go: building\<close>

datatype catalog_error = ErrCatalog | ErrModel

definition MaxBytes :: nat where "MaxBytes = 1048576"
definition MaxModels :: nat where "MaxModels = 256"

record backend =
  MID :: bytes
  MName :: bytes
  MDescription :: bytes
  Multiplier :: "float64 option"

record catalog =
  models :: "backend list"
  clientIDs :: "bytes list"
  reverse :: "(bytes \<times> nat) list"
  backends :: "(bytes \<times> nat) list"
  current :: bytes

text \<open>\<open>unicode.IsControl\<close>: the control category is the C0 and C1 ranges and DEL.\<close>

definition is_control_rune :: "nat \<Rightarrow> bool" where
  "is_control_rune r \<longleftrightarrow> r < 32 \<or> (127 \<le> r \<and> r < 160)"

definition validID :: "bytes \<Rightarrow> bool" where
  "validID s \<longleftrightarrow> s \<noteq> [] \<and> length s \<le> 256 \<and> utf8_valid s
     \<and> list_all (\<lambda>p. \<not> is_space_rune (rune_val p) \<and> \<not> is_control_rune (rune_val p)) (rune_pieces s)"

definition displayText :: "bytes \<Rightarrow> nat \<Rightarrow> bool" where
  "displayText s most \<longleftrightarrow> length s \<le> most \<and> utf8_valid s
     \<and> list_all (\<lambda>p. \<not> (is_control_rune (rune_val p) \<and> rune_val p \<notin> {10, 9, 13})) (rune_pieces s)"

text \<open>The loop of \<open>clientID\<close> over the runes of the lower-cased backend name.\<close>

definition alnum_rune :: "nat \<Rightarrow> bool" where
  "alnum_rune r \<longleftrightarrow> (97 \<le> r \<and> r \<le> 122) \<or> (48 \<le> r \<and> r \<le> 57)"

fun normalize_runes :: "nat list \<Rightarrow> bool \<Rightarrow> bytes \<Rightarrow> bytes" where
  "normalize_runes [] lastDash acc = acc"
| "normalize_runes (r # rs) lastDash acc =
     (if 48 \<le> length acc then acc
      else if alnum_rune r then normalize_runes rs False (acc @ [char_of r])
      else if \<not> lastDash then normalize_runes rs True (acc @ ''-'')
      else normalize_runes rs lastDash acc)"

definition trim_dashes :: "bytes \<Rightarrow> bytes" where
  "trim_dashes s = rev (dropWhile (\<lambda>c. c = CHR ''-'') (rev (dropWhile (\<lambda>c. c = CHR ''-'') s)))"

definition client_name :: "unicode_tables \<Rightarrow> bytes \<Rightarrow> bytes" where
  "client_name u backend =
     (let name = trim_dashes (normalize_runes (map rune_val (rune_pieces (ToLower u backend))) True [])
      in if name = [] then ''model'' else name)"

definition clientID :: "unicode_tables \<Rightarrow> (bytes \<Rightarrow> bytes) \<Rightarrow> bytes \<Rightarrow> bytes" where
  "clientID u sha256 backend = ''claude-dax-'' @ client_name u backend @ ''-'' @ hex_encode (take 8 (sha256 backend))"

definition backend_ok :: "backend \<Rightarrow> bool" where
  "backend_ok m \<longleftrightarrow> validID (MID m) \<and> displayText (MName m) 256 \<and> displayText (MDescription m) 8192
     \<and> (case Multiplier m of None \<Rightarrow> True | Some v \<Rightarrow> float_within v 1000)"

text \<open>The first loop of \<open>newWithID\<close>: every model is checked before it is indexed.\<close>

fun index_models :: "backend list \<Rightarrow> (bytes \<times> nat) list \<Rightarrow> backend list \<Rightarrow> ((bytes \<times> nat) list \<times> backend list) option" where
  "index_models [] ix ms = Some (ix, ms)"
| "index_models (m # rest) ix ms =
     (if \<not> backend_ok m \<or> has_key ix (MID m) then None
      else index_models rest (aset (MID m) (length ms) ix) (ms @ [m]))"

fun index_ids :: "(bytes \<Rightarrow> bytes) \<Rightarrow> backend list \<Rightarrow> nat \<Rightarrow> (bytes \<times> nat) list \<Rightarrow> bytes list
    \<Rightarrow> ((bytes \<times> nat) list \<times> bytes list) option" where
  "index_ids derive [] i rv ids = Some (rv, ids)"
| "index_ids derive (m # rest) i rv ids =
     (if has_key rv (derive (MID m)) then None
      else index_ids derive rest (Suc i) (aset (derive (MID m)) i rv) (ids @ [derive (MID m)]))"

text \<open>
  The size of the encoded models: \<open>json.Marshal\<close> with the shortest decimal form of a multiplier, which is an
  argument.
\<close>

definition backend_text :: "(float64 \<Rightarrow> bytes) \<Rightarrow> backend \<Rightarrow> bytes" where
  "backend_text ftoa m = obj_text ([(''id'', quote (MID m))]
     @ (if MName m = [] then [] else [(''name'', quote (MName m))])
     @ (if MDescription m = [] then [] else [(''description'', quote (MDescription m))])
     @ (case Multiplier m of None \<Rightarrow> [] | Some v \<Rightarrow> [(''multiplier'', ftoa v)]))"

definition with_current :: "bytes \<Rightarrow> (bytes \<times> nat) list \<Rightarrow> backend list \<Rightarrow> (bytes \<times> nat) list \<times> backend list" where
  "with_current cur ix ms =
     (if cur \<noteq> [] \<and> \<not> has_key ix cur
      then (aset cur (length ms) ix, ms @ [\<lparr>MID = cur, MName = cur, MDescription = [], Multiplier = None\<rparr>])
      else (ix, ms))"

definition newWithID ::
  "(float64 \<Rightarrow> bytes) \<Rightarrow> (bytes \<Rightarrow> bytes) \<Rightarrow> backend list \<Rightarrow> bytes \<Rightarrow> catalog option" where
  "newWithID ftoa derive ms0 cur =
     (if MaxModels < length ms0 \<or> (cur \<noteq> [] \<and> \<not> validID cur) then None
      else do {
        (ix0, ms1) \<leftarrow> index_models ms0 [] [];
        let (ix, ms) = with_current cur ix0 ms1;
        if ms = [] \<or> MaxModels < length ms then None
        else do {
          (rv, ids) \<leftarrow> index_ids derive ms 0 [] [];
          if MaxBytes < length (arr_text (map (backend_text ftoa) ms)) then None
          else Some \<lparr>models = ms, clientIDs = ids, reverse = rv, backends = ix, current = cur\<rparr>
        }
      })"

text \<open>The standard library functions the catalogue needs beside the plain ones.\<close>

record runtime =
  tables :: unicode_tables
  sha256 :: "bytes \<Rightarrow> bytes"
  ftoa :: "float64 \<Rightarrow> bytes"

definition New :: "runtime \<Rightarrow> backend list \<Rightarrow> bytes \<Rightarrow> catalog option" where
  "New rt ms cur = newWithID (ftoa rt) (clientID (tables rt) (sha256 rt)) ms cur"

subsection \<open>catalog.go: lookups\<close>

definition Resolve :: "catalog \<Rightarrow> bytes \<Rightarrow> backend option" where
  "Resolve c i = (case map_of (reverse c) i of None \<Rightarrow> None | Some n \<Rightarrow> Some (models c ! n))"

definition ClientID :: "catalog \<Rightarrow> bytes \<Rightarrow> bytes option" where
  "ClientID c b = (case map_of (backends c) b of None \<Rightarrow> None | Some n \<Rightarrow> Some (clientIDs c ! n))"

definition Backend :: "catalog \<Rightarrow> bytes \<Rightarrow> backend option" where
  "Backend c b = (case map_of (backends c) b of None \<Rightarrow> None | Some n \<Rightarrow> Some (models c ! n))"

subsection \<open>catalog.go: decoding\<close>

definition decode_backend :: "bytes \<Rightarrow> bytes \<Rightarrow> backend option" where
  "decode_backend key entry =
     do {
       obj \<leftarrow> ndjson_Object entry;
       i \<leftarrow> string_field (field obj key);
       n \<leftarrow> (if has_key obj ''name'' then string_field (field obj ''name'') else Some []);
       d \<leftarrow> (if has_key obj ''description'' then string_field (field obj ''description'') else Some []);
       Some \<lparr>MID = i, MName = n, MDescription = d, Multiplier = None\<rparr>
     }"

definition decodeList :: "bytes \<Rightarrow> bytes \<Rightarrow> backend list option" where
  "decodeList raw key =
     (if take 1 raw \<noteq> ''['' then None
      else case unmarshal_raws raw of
        None \<Rightarrow> None
      | Some entries \<Rightarrow> if MaxModels < length entries then None else all_some (map (decode_backend key) entries))"

text \<open>One entry of \<open>configOptions\<close>: not a model selector, or the catalogue and its selector.\<close>

definition decode_option :: "runtime \<Rightarrow> bytes \<Rightarrow> (catalog \<times> bytes) option option" where
  "decode_option rt raw =
     do {
       obj \<leftarrow> ndjson_Object raw;
       category \<leftarrow> (if has_key obj ''category'' then string_field (field obj ''category'') else Some []);
       if category \<noteq> ''model'' then Some None
       else do {
         i \<leftarrow> string_field (field obj ''id'');
         typ \<leftarrow> string_field (field obj ''type'');
         cur \<leftarrow> string_field (field obj ''currentValue'');
         if \<not> validID i \<or> typ \<noteq> ''select'' then None
         else do {
           ms \<leftarrow> decodeList (field obj ''options'') ''value'';
           c \<leftarrow> New rt ms cur;
           Some (Some (c, i))
         }
       }
     }"

fun decode_options :: "runtime \<Rightarrow> bytes list \<Rightarrow> (catalog \<times> bytes) option \<Rightarrow> (catalog \<times> bytes) option option" where
  "decode_options rt [] chosen = Some chosen"
| "decode_options rt (raw # raws) chosen = (case decode_option rt raw of
     None \<Rightarrow> None
   | Some None \<Rightarrow> decode_options rt raws chosen
   | Some (Some c) \<Rightarrow> if chosen \<noteq> None then None else decode_options rt raws (Some c))"

definition decode_state :: "runtime \<Rightarrow> bytes \<Rightarrow> (catalog \<times> bytes) option" where
  "decode_state rt raw =
     (if MaxBytes < length raw then None
      else do {
        st \<leftarrow> ndjson_Object raw;
        cur \<leftarrow> (if has_key st ''currentModelId'' then string_field (field st ''currentModelId'') else Some []);
        ms \<leftarrow> (if has_key st ''availableModels'' then decodeList (field st ''availableModels'') ''modelId'' else Some []);
        c \<leftarrow> New rt ms cur;
        Some (c, [])
      })"

definition DecodeModels :: "runtime \<Rightarrow> (bytes \<times> bytes) list \<Rightarrow> (catalog \<times> bytes) option" where
  "DecodeModels rt fs = (case map_of fs ''configOptions'' of
     None \<Rightarrow> decode_state rt (field fs ''models'')
   | Some options \<Rightarrow>
       if MaxBytes < length options \<or> take 1 options \<noteq> ''['' then None
       else case unmarshal_raws options of
         None \<Rightarrow> None
       | Some configs \<Rightarrow>
           (if 64 < length configs then None
            else case decode_options rt configs None of
              None \<Rightarrow> None
            | Some (Some c) \<Rightarrow> Some c
            | Some None \<Rightarrow> decode_state rt (field fs ''models'')))"

record session_info =
  InfoID :: bytes
  InfoCatalog :: catalog
  ConfigID :: bytes

definition DecodeSession :: "runtime \<Rightarrow> bytes \<Rightarrow> session_info option" where
  "DecodeSession rt raw =
     do {
       fs \<leftarrow> ndjson_Object raw;
       i \<leftarrow> string_field (field fs ''sessionId'');
       if i = [] \<or> 1024 < length i then None
       else do {
         (c, sel) \<leftarrow> DecodeModels rt fs;
         Some \<lparr>InfoID = i, InfoCatalog = c, ConfigID = sel\<rparr>
       }
     }"

subsection \<open>cache.go: the discovery cache\<close>

text \<open>
  Times are nanoseconds since Go's zero time, so a reading of the clock is positive and the zero time is 0. A
  discovery in flight is a flag; what it returns arrives in \<open>finish_discovery\<close>, which also says whether writing
  the cache file succeeded.
\<close>

record cache_config =
  TTL :: int
  RetryInterval :: int
  RefreshTimeout :: int

record catalog_cache =
  cfg :: cache_config
  cdata :: "catalog option"
  created :: int
  lastAttempt :: int
  flight :: bool
  cclosed :: bool

definition hour :: int where "hour = 3600000000000"
definition second :: int where "second = 1000000000"

definition default_int :: "int \<Rightarrow> int \<Rightarrow> int" where
  "default_int d v = (if v = 0 then d else v)"

definition NewCache :: "cache_config \<Rightarrow> (catalog \<times> int) option \<Rightarrow> catalog_cache option" where
  "NewCache c0 stored =
     (let c = \<lparr>TTL = default_int (24 * hour) (TTL c0), RetryInterval = default_int (60 * second) (RetryInterval c0),
               RefreshTimeout = default_int (30 * second) (RefreshTimeout c0)\<rparr>
      in if TTL c \<le> 0 \<or> 168 * hour < TTL c \<or> RetryInterval c \<le> 0 \<or> hour < RetryInterval c
            \<or> RefreshTimeout c \<le> 0 \<or> 60 * second < RefreshTimeout c then None
         else Some \<lparr>cfg = c, cdata = map_option fst stored, created = (case stored of None \<Rightarrow> 0 | Some (_, t) \<Rightarrow> t),
                    lastAttempt = 0, flight = False, cclosed = False\<rparr>)"

datatype get_outcome =
    Answer catalog bool          \<comment> \<open>the snapshot and whether it is stale\<close>
  | Refused
  | Await                        \<comment> \<open>wait for the discovery in flight\<close>

definition start_discovery :: "int \<Rightarrow> catalog_cache \<Rightarrow> catalog_cache" where
  "start_discovery now c = c\<lparr>flight := True, lastAttempt := now\<rparr>"

definition Get :: "int \<Rightarrow> bool \<Rightarrow> catalog_cache \<Rightarrow> get_outcome \<times> catalog_cache" where
  "Get now discover c =
     (if cclosed c then (Refused, c)
      else case cdata c of
        Some d \<Rightarrow>
          (let stale = (TTL (cfg c) \<le> now - created c \<or> now < created c)
           in (Answer d stale,
               if stale \<and> \<not> flight c \<and> RetryInterval (cfg c) \<le> now - lastAttempt c \<and> discover
               then start_discovery now c else c))
      | None \<Rightarrow>
          if flight c then (Await, c)
          else if \<not> discover \<or> (lastAttempt c \<noteq> 0 \<and> now - lastAttempt c < RetryInterval (cfg c)) then (Refused, c)
          else (Await, start_discovery now c))"

text \<open>The second half of \<open>Get\<close>, after the discovery it awaited has ended.\<close>

definition Get_awaited :: "int \<Rightarrow> catalog_cache \<Rightarrow> get_outcome" where
  "Get_awaited now c = (case cdata c of
     None \<Rightarrow> Refused
   | Some d \<Rightarrow> if cclosed c then Refused else Answer d (TTL (cfg c) \<le> now - created c))"

definition finish_discovery :: "int \<Rightarrow> catalog option \<Rightarrow> bool \<Rightarrow> catalog_cache \<Rightarrow> catalog_cache" where
  "finish_discovery now found written c = (case found of
     Some d \<Rightarrow> if \<not> cclosed c \<and> written then c\<lparr>cdata := Some d, created := now, flight := False\<rparr> else c\<lparr>flight := False\<rparr>
   | None \<Rightarrow> c\<lparr>flight := False\<rparr>)"

definition Close_cache :: "catalog_cache \<Rightarrow> catalog_cache" where
  "Close_cache c = c\<lparr>cclosed := True\<rparr>"

end
