(* ===== verification/Status_Props.thy ===== *)
theory Status_Props
  imports Status Catalog
begin

text \<open>
  The turn queue refines the unbounded list of completed turns since the last drain; the usage cache refreshes at
  most once per lifetime of its data; the label shown for a model is the readable part of its client alias.
\<close>

subsection \<open>The turn queue\<close>


definition last_slots :: "turn_record list \<Rightarrow> turn_record list" where
  "last_slots xs = drop (length xs - QueueSlots) xs"








lemma last_slots_Nil [simp]: "last_slots [] = []"
  by (simp add: last_slots_def)


lemma stamped_sequence [simp]: "Sequence (stamped r n) = n"
  by (simp add: stamped_def)






subsection \<open>Refreshing the usage\<close>

text \<open>One step of the usage cache at a time not before the previous one; the flag says that a refresh was started.\<close>

inductive usage_step :: "usage_cache \<times> int \<Rightarrow> int \<Rightarrow> bool \<Rightarrow> usage_cache \<times> int \<Rightarrow> bool" where
  read: "clock \<le> now \<Longrightarrow> usage_step (c, clock) now (usage_starts now c) (snd (Read_usage now c), now)"
| refreshed: "clock \<le> now \<Longrightarrow> refreshing c \<Longrightarrow> usage_step (c, clock) now False (refresh_done now result c, now)"
| closed: "clock \<le> now \<Longrightarrow> usage_step (c, clock) now False (Close_usage c, now)"

inductive_cases usage_stepE: "usage_step s now started t"

definition usage_clock_ok :: "usage_cache \<times> int \<Rightarrow> bool" where
  "usage_clock_ok s \<longleftrightarrow> 0 < ttl (fst s) \<and> next_refresh (fst s) \<le> snd s + ttl (fst s)"

lemma refresh_done_simps [simp]:
  "ttl (refresh_done now result c) = ttl c"
  "next_refresh (refresh_done now result c) = (if uclosed c then next_refresh c else now + ttl c)"
  "refreshing (refresh_done now result c) = False"
  by (simp_all add: refresh_done_def Let_def split: option.split)

interpretation us: rate_limited usage_step usage_clock_ok "\<lambda>s. next_refresh (fst s)" "\<lambda>s. ttl (fst s)"
proof
  fix s now t
  assume ok: "usage_clock_ok s"
  show "usage_step s now True t \<Longrightarrow> usage_clock_ok t \<and> next_refresh (fst s) \<le> now
      \<and> now + ttl (fst s) \<le> next_refresh (fst t) \<and> ttl (fst t) = ttl (fst s)"
    using ok by (auto elim!: usage_stepE simp: usage_clock_ok_def Read_usage_def Let_def usage_starts_def)
  show "usage_step s now False t \<Longrightarrow> usage_clock_ok t \<and> next_refresh (fst s) \<le> next_refresh (fst t)
      \<and> ttl (fst t) = ttl (fst s)"
    using ok by (auto elim!: usage_stepE simp: usage_clock_ok_def Read_usage_def Let_def Close_usage_def)
  show "0 \<le> ttl (fst s)" using ok by (simp add: usage_clock_ok_def)
qed

text \<open>
  whatever reads, results and failures arrive, two refreshes of the account usage start at least one lifetime
  (the configured TTL) apart, failed ones included, so at most one is in flight per lifetime.
\<close>

theorem usage_refreshes_spaced:
  assumes "NewUsageCache ttl0 timeout0 fetch = Some c" "timed_run usage_step (c, 0) ts s"
  shows "sorted_wrt (\<lambda>a b. a + ttl c \<le> b) ts"
proof -
  have "usage_clock_ok (c, 0)" using assms(1) by (auto simp: usage_clock_ok_def NewUsageCache_def Let_def split: if_splits)
  from us.starts_spaced [OF assms(2) this] show ?thesis by simp
qed

definition ex_usage :: usage_cache where
  "ex_usage = \<lparr>ttl = 60000000000, has_fetch = True, udata = no_usage_data, updated = 0, next_refresh = 0,
     uavailable = False, refreshing = False, uclosed = False, ustate = ''unavailable''\<rparr>"

lemma ex_usage_new: "NewUsageCache 0 0 True = Some ex_usage"
  by (simp add: NewUsageCache_def ex_usage_def)

lemma ex_usage_run:
  "timed_run usage_step (ex_usage, 0) [1, 60000000003]
     (ex_usage\<lparr>refreshing := True, next_refresh := 120000000003, ustate := ''refresh_failed''\<rparr>, 60000000003)"
proof -
  define c1 where "c1 = ex_usage\<lparr>refreshing := True, next_refresh := 60000000001\<rparr>"
  define c2 where "c2 = ex_usage\<lparr>next_refresh := 60000000002, ustate := ''refresh_failed''\<rparr>"
  define c3 where "c3 = ex_usage\<lparr>refreshing := True, next_refresh := 120000000003, ustate := ''refresh_failed''\<rparr>"
  have "usage_step (ex_usage, 0) 1 True (c1, 1)"
    using usage_step.read [of 0 1 ex_usage] by (simp add: usage_starts_def Read_usage_def ex_usage_def c1_def Let_def)
  moreover have "usage_step (c1, 1) 2 False (c2, 2)"
    using usage_step.refreshed [of 1 2 c1 None] by (simp add: refresh_done_def ex_usage_def c1_def c2_def Let_def)
  moreover have "usage_step (c2, 2) 60000000003 True (c3, 60000000003)"
    using usage_step.read [of 2 60000000003 c2]
    by (simp add: usage_starts_def Read_usage_def ex_usage_def c2_def c3_def Let_def)
  ultimately show ?thesis
    using timed_run.start timed_run.go [of usage_step "(c1, 1)"] timed_run.stop unfolding c3_def [symmetric] by metis
qed

theorem usage_refreshes_spaced_witness:
  "sorted_wrt (\<lambda>a b. a + ttl ex_usage \<le> b) [1, 60000000003 :: int]"
  by (rule usage_refreshes_spaced [OF ex_usage_new ex_usage_run])

subsection \<open>Labels of client aliases\<close>

definition slug_byte :: "char \<Rightarrow> bool" where
  "slug_byte c \<longleftrightarrow> is_lower c \<or> is_digit c \<or> c = CHR ''-''"

lemma alnum_slug: "alnum_rune r \<Longrightarrow> slug_byte (char_of r)"
  by (auto simp: alnum_rune_def slug_byte_def is_lower_def is_digit_def byte_def)

lemma normalize_slug:
  "list_all slug_byte acc \<Longrightarrow> length acc \<le> 48 \<Longrightarrow>
   list_all slug_byte (normalize_runes rs d acc) \<and> length (normalize_runes rs d acc) \<le> 48"
proof (induction rs d acc rule: normalize_runes.induct)
  case (2 r rs d acc)
  have dash: "slug_byte (CHR ''-'')" by (simp add: slug_byte_def)
  show ?case using 2 alnum_slug [of r] dash by (auto simp: not_le)
qed simp

lemma trim_dashes_sub: "set (trim_dashes s) \<subseteq> set s" "length (trim_dashes s) \<le> length s"
proof -
  show "set (trim_dashes s) \<subseteq> set s" by (auto simp: trim_dashes_def dest!: set_dropWhileD)
  show "length (trim_dashes s) \<le> length s"
    unfolding trim_dashes_def by (metis le_trans length_dropWhile_le length_rev)
qed

lemma client_name_slug:
  "list_all slug_byte (client_name u b)" "length (client_name u b) \<le> 48" "client_name u b \<noteq> []"
proof -
  define s where "s = normalize_runes (map rune_val (rune_pieces (ToLower u b))) True []"
  have s: "list_all slug_byte s" "length s \<le> 48" using normalize_slug [of "[]"] by (simp_all add: s_def)
  have "list_all slug_byte (trim_dashes s)" "length (trim_dashes s) \<le> 48"
    using s trim_dashes_sub [of s] by (auto simp: list_all_iff)
  moreover have "list_all slug_byte ''model''" by code_simp
  ultimately show "list_all slug_byte (client_name u b)" "length (client_name u b) \<le> 48" "client_name u b \<noteq> []"
    by (auto simp: client_name_def Let_def s_def)
qed

lemma hex_digit_byte: "n < 16 \<Longrightarrow> hex_byte (hex_digit n)"
  by (auto simp: hex_digit_def hex_byte_def is_digit_def byte_def)

lemma hex_encode_bytes: "list_all hex_byte (hex_encode s)"
proof (induction s)
  case (Cons c s)
  have "byte c div 16 < 16" using byte_less [of c] by (simp add: less_mult_imp_div_less)
  with Cons show ?case by (simp add: hex_digit_byte)
qed simp

lemma split_last_dash_append: "CHR ''-'' \<notin> set t \<Longrightarrow> split_last_dash (s @ CHR ''-'' # t) = Some (s, t)"
  by (simp add: split_last_dash_def takeWhile_append Let_def)

lemma hex_no_dash: "list_all hex_byte t \<Longrightarrow> CHR ''-'' \<notin> set t"
  by (auto simp: list_all_iff hex_byte_def is_digit_def byte_def)

lemma slug_alias: "list_all slug_byte s \<Longrightarrow> list_all alias_byte s"
  by (auto simp: list_all_iff slug_byte_def alias_byte_def)

lemma hex_alias: "list_all hex_byte s \<Longrightarrow> list_all alias_byte s"
  by (auto simp: list_all_iff hex_byte_def alias_byte_def is_lower_def)

text \<open>
  The alias made for any backend model passes the check on model names in turn records, and the label shown for
  it is the readable part, the digest alone being cut off, whatever the backend name is. The only assumption is that
  the hash has at least eight bytes.
\<close>

theorem alias_label_is_readable_name:
  assumes "8 \<le> length (hash backend)"
  shows "ModelLabel (clientID u hash backend) = Some (client_name u backend)
         \<and> length (clientID u hash backend) \<le> 76 \<and> list_all alias_byte (clientID u hash backend)"
proof -
  define n where "n = client_name u backend"
  define h where "h = hex_encode (take 8 (hash backend))"
  have n: "list_all alias_byte n" "length n \<le> 48" "n \<noteq> []" using client_name_slug slug_alias by (simp_all add: n_def)
  have h: "list_all hex_byte h" "length h = 16" using hex_encode_bytes assms by (simp_all add: h_def)
  have c: "clientID u hash backend = ''claude-dax-'' @ n @ CHR ''-'' # h" by (simp add: clientID_def n_def h_def)
  have a: "list_all alias_byte (clientID u hash backend)"
    using n(1) hex_alias [OF h(1)] by (simp add: c) (simp add: alias_byte_def is_lower_def byte_def)
  have s: "split_last_dash (n @ CHR ''-'' # h) = Some (n, h)" by (rule split_last_dash_append [OF hex_no_dash [OF h(1)]])
  have "ModelLabel (clientID u hash backend) = Some n"
    using n h a s by (simp add: ModelLabel_def has_prefix_def c Let_def)
  then show ?thesis using n(2) h(2) a c by (simp add: n_def)
qed

theorem alias_label_is_readable_name_witness:
  "ModelLabel (clientID \<lparr>uni_letter = (\<lambda>_. False), uni_lower = (\<lambda>r. r)\<rparr> (\<lambda>_. replicate 32 (CHR ''x'')) ''Sonnet 4.5'')
     = Some ''sonnet-4-5''"
proof -
  have "client_name \<lparr>uni_letter = (\<lambda>_. False), uni_lower = (\<lambda>r. r)\<rparr> ''Sonnet 4.5'' = ''sonnet-4-5''" by code_simp
  then show ?thesis
    using alias_label_is_readable_name [of "\<lambda>_. replicate 32 (CHR ''x'')" "''Sonnet 4.5''"] by simp
qed

end
