(* ===== verification/Catalog_Props.thy ===== *)
theory Catalog_Props
  imports Catalog
begin

text \<open>
  The catalogue's indexes agree with its lists, so aliases and backend names translate into each other; discoveries
  of the cache are rate limited and its answers are only replaced by discovered catalogues that were stored.
\<close>

subsection \<open>The indexes\<close>

text \<open>An index of a list by a key: it maps the keys to their positions and nothing else.\<close>

definition indexes :: "('a \<Rightarrow> bytes) \<Rightarrow> 'a list \<Rightarrow> (bytes \<times> nat) list \<Rightarrow> bool" where
  "indexes f xs ix \<longleftrightarrow> distinct (map f xs) \<and> (\<forall>k n. map_of ix k = Some n \<longleftrightarrow> n < length xs \<and> f (xs ! n) = k)"

lemma indexes_Nil [simp]: "indexes f [] []"
  by (simp add: indexes_def)

lemma indexes_has_key: "indexes f xs ix \<Longrightarrow> has_key ix k \<longleftrightarrow> k \<in> f ` set xs"
proof -
  assume "indexes f xs ix"
  then have "has_key ix k \<longleftrightarrow> (\<exists>n<length xs. f (xs ! n) = k)"
    unfolding indexes_def has_key_def by (metis not_None_eq)
  then show ?thesis by (auto simp: in_set_conv_nth) (metis nth_mem imageI)+
qed

lemma indexes_snoc:
  assumes "indexes f xs ix" "\<not> has_key ix (f x)"
  shows "indexes f (xs @ [x]) (aset (f x) (length xs) ix)"
proof -
  have "f x \<notin> f ` set xs" using assms indexes_has_key by blast
  moreover have "((map_of ix)(f x \<mapsto> length xs)) k = Some n \<longleftrightarrow> n < length (xs @ [x]) \<and> f ((xs @ [x]) ! n) = k" for k n
    using assms(1) calculation unfolding indexes_def
    by (auto simp: nth_append less_Suc_eq fun_upd_def) (metis nth_mem imageI)
  ultimately show ?thesis using assms(1) by (simp add: indexes_def)
qed

lemma index_models_spec:
  "index_models rest ix ms = Some (ix', ms') \<Longrightarrow> indexes MID ms ix \<Longrightarrow> list_all backend_ok ms \<Longrightarrow>
   indexes MID ms' ix' \<and> list_all backend_ok ms' \<and> ms' = ms @ rest"
proof (induction rest arbitrary: ix ms)
  case (Cons m rest)
  from Cons.prems(1) have m: "backend_ok m" "\<not> has_key ix (MID m)"
      "index_models rest (aset (MID m) (length ms) ix) (ms @ [m]) = Some (ix', ms')"
    by (simp_all split: if_splits)
  show ?case using Cons.IH [OF m(3) indexes_snoc [OF Cons.prems(2) m(2)]] Cons.prems(3) m(1) by auto
qed simp

lemma index_ids_spec:
  "index_ids derive rest i rv ids = Some (rv', ids') \<Longrightarrow> i = length ids \<Longrightarrow> indexes (\<lambda>x. x) ids rv \<Longrightarrow>
   indexes (\<lambda>x. x) ids' rv' \<and> ids' = ids @ map (\<lambda>m. derive (MID m)) rest"
proof (induction rest arbitrary: i rv ids)
  case (Cons m rest)
  from Cons.prems(1) have m: "\<not> has_key rv (derive (MID m))"
      "index_ids derive rest (Suc i) (aset (derive (MID m)) i rv) (ids @ [derive (MID m)]) = Some (rv', ids')"
    by (simp_all split: if_splits)
  have "indexes (\<lambda>x. x) (ids @ [derive (MID m)]) (aset (derive (MID m)) i rv)"
    using indexes_snoc [OF Cons.prems(3) m(1)] Cons.prems(2) by simp
  from Cons.IH [OF m(2) _ this] Cons.prems(2) show ?case by auto
qed simp

text \<open>What \<open>New\<close> guarantees.\<close>

definition catalog_ok :: "(bytes \<Rightarrow> bytes) \<Rightarrow> catalog \<Rightarrow> bool" where
  "catalog_ok derive c \<longleftrightarrow> indexes MID (models c) (backends c) \<and> indexes (\<lambda>x. x) (clientIDs c) (reverse c)
     \<and> clientIDs c = map (\<lambda>m. derive (MID m)) (models c) \<and> models c \<noteq> [] \<and> length (models c) \<le> MaxModels
     \<and> (current c \<noteq> [] \<longrightarrow> current c \<in> MID ` set (models c))"

lemma with_current_spec:
  assumes "with_current cur ix ms = (ix', ms')" "indexes MID ms ix"
  shows "indexes MID ms' ix'" "cur \<noteq> [] \<Longrightarrow> cur \<in> MID ` set ms'"
    "ms' = ms \<or> (cur \<noteq> [] \<and> cur \<notin> MID ` set ms \<and> ms' = ms @ [\<lparr>MID = cur, MName = cur, MDescription = [], Multiplier = None\<rparr>])"
proof -
  define m where "m = \<lparr>MID = cur, MName = cur, MDescription = [], Multiplier = None\<rparr>"
  have "\<not> has_key ix cur \<Longrightarrow> indexes MID (ms @ [m]) (aset cur (length ms) ix)"
    using indexes_snoc [OF assms(2), of m] by (simp add: m_def)
  then show "indexes MID ms' ix'" "cur \<noteq> [] \<Longrightarrow> cur \<in> MID ` set ms'"
    "ms' = ms \<or> (cur \<noteq> [] \<and> cur \<notin> MID ` set ms \<and> ms' = ms @ [\<lparr>MID = cur, MName = cur, MDescription = [], Multiplier = None\<rparr>])"
    using assms indexes_has_key [OF assms(2), of cur] by (auto simp: with_current_def m_def split: if_splits)
qed

lemma newWithID_ok:
  assumes "newWithID fmt derive ms0 cur = Some c"
  shows "catalog_ok derive c" "current c = cur"
    "models c = ms0 \<or> (cur \<noteq> [] \<and> cur \<notin> MID ` set ms0
       \<and> models c = ms0 @ [\<lparr>MID = cur, MName = cur, MDescription = [], Multiplier = None\<rparr>])"
    "list_all backend_ok ms0"
proof -
  from assms obtain ix0 ms1 where a: "index_models ms0 [] [] = Some (ix0, ms1)"
    by (auto simp: newWithID_def Option.bind_eq_Some_conv split: if_splits)
  obtain ix ms where b: "with_current cur ix0 ms1 = (ix, ms)" by fastforce
  from assms a b have n: "ms \<noteq> []" "length ms \<le> MaxModels" by (simp_all add: newWithID_def split: if_splits)
  from assms a b n obtain rv ids where d: "index_ids derive ms 0 [] [] = Some (rv, ids)" and
    c: "c = \<lparr>models = ms, clientIDs = ids, reverse = rv, backends = ix, current = cur\<rparr>"
    by (auto simp: newWithID_def Option.bind_eq_Some_conv split: if_splits)
  have 1: "indexes MID ms1 ix0" "list_all backend_ok ms0" "ms1 = ms0" using index_models_spec [OF a] by auto
  have 2: "indexes (\<lambda>x. x) ids rv" "ids = map (\<lambda>m. derive (MID m)) ms" using index_ids_spec [OF d] by auto
  show "catalog_ok derive c" "current c = cur" "list_all backend_ok ms0"
    using with_current_spec [OF b 1(1)] 1 2 n by (simp_all add: c catalog_ok_def)
  show "models c = ms0 \<or> (cur \<noteq> [] \<and> cur \<notin> MID ` set ms0
       \<and> models c = ms0 @ [\<lparr>MID = cur, MName = cur, MDescription = [], Multiplier = None\<rparr>])"
    using with_current_spec(3) [OF b 1(1)] 1(3) by (simp add: c)
qed

lemma indexes_map: "indexes (\<lambda>x. x) (map g xs) ix \<Longrightarrow> indexes g xs ix"
  by (auto simp: indexes_def cong: conj_cong)

lemma indexes_lookup:
  assumes "indexes f xs ix"
  shows "(case map_of ix k of None \<Rightarrow> None | Some n \<Rightarrow> Some (xs ! n)) = Some x \<longleftrightarrow> x \<in> set xs \<and> f x = k"
proof (cases "map_of ix k")
  case None
  then have "k \<notin> f ` set xs" using indexes_has_key [OF assms, of k] by (simp add: has_key_def)
  with None show ?thesis by auto
next
  case (Some n)
  with assms have n: "n < length xs" "f (xs ! n) = k" and inj: "inj_on f (set xs)"
    by (auto simp: indexes_def distinct_map)
  have "x = xs ! n" if "x \<in> set xs" "f x = k" using inj_onD [OF inj _ that(1) nth_mem [OF n(1)]] that(2) n(2) by simp
  with Some n show ?thesis by auto
qed

lemma catalog_lookups:
  assumes "catalog_ok derive c"
  shows "Backend c b = Some m \<longleftrightarrow> m \<in> set (models c) \<and> MID m = b"
    and "ClientID c b = Some i \<longleftrightarrow> b \<in> MID ` set (models c) \<and> i = derive b"
    and "Resolve c i = Some m \<longleftrightarrow> m \<in> set (models c) \<and> derive (MID m) = i"
proof -
  have ix: "indexes MID (models c) (backends c)" and rv: "indexes (\<lambda>m. derive (MID m)) (models c) (reverse c)"
    and ids: "clientIDs c = map (\<lambda>m. derive (MID m)) (models c)"
    using assms indexes_map [of "\<lambda>m. derive (MID m)" "models c" "reverse c"] by (auto simp: catalog_ok_def)
  show "Backend c b = Some m \<longleftrightarrow> m \<in> set (models c) \<and> MID m = b"
    unfolding Backend_def by (rule indexes_lookup [OF ix])
  show "Resolve c i = Some m \<longleftrightarrow> m \<in> set (models c) \<and> derive (MID m) = i"
    unfolding Resolve_def by (rule indexes_lookup [OF rv])
  show "ClientID c b = Some i \<longleftrightarrow> b \<in> MID ` set (models c) \<and> i = derive b"
  proof (cases "map_of (backends c) b")
    case None
    then show ?thesis using indexes_has_key [OF ix, of b] by (simp add: ClientID_def has_key_def)
  next
    case (Some n)
    with ix have n: "n < length (models c)" "MID (models c ! n) = b" by (auto simp: indexes_def)
    then have "b \<in> MID ` set (models c)" by force
    with Some n show ?thesis by (auto simp: ClientID_def ids)
  qed
qed

text \<open>
  an accepted catalogue has between 1 and 256 models, the offered ones in their order and the current one added
  when it was missing, and its aliases are reversible: every model has exactly one client alias, resolving an alias
  gives exactly the model it was made for, and no other text resolves.
\<close>

theorem catalog_alias_roundtrip:
  assumes "New rt ms cur = Some c"
  shows "(\<forall>m\<in>set (models c). \<exists>i. ClientID c (MID m) = Some i \<and> Resolve c i = Some m \<and> Backend c (MID m) = Some m)
       \<and> (\<forall>i m. Resolve c i = Some m \<longrightarrow> m \<in> set (models c) \<and> ClientID c (MID m) = Some i)
       \<and> 1 \<le> length (models c) \<and> length (models c) \<le> 256
       \<and> (models c = ms \<or> (cur \<notin> MID ` set ms
            \<and> models c = ms @ [\<lparr>MID = cur, MName = cur, MDescription = [], Multiplier = None\<rparr>]))
       \<and> (cur \<noteq> [] \<longrightarrow> (\<exists>m. Backend c cur = Some m))"
proof -
  note n = newWithID_ok [OF assms [unfolded New_def]]
  note l = catalog_lookups [OF n(1)]
  have "1 \<le> length (models c)" "length (models c) \<le> 256" using n(1) by (auto simp: catalog_ok_def MaxModels_def Suc_le_eq)
  moreover have "cur \<noteq> [] \<Longrightarrow> \<exists>m. Backend c cur = Some m" using n(1,2) l(1) by (auto simp: catalog_ok_def)
  ultimately show ?thesis using n(3) by (auto simp: l)
qed

definition ex_runtime :: runtime where
  "ex_runtime = \<lparr>tables = \<lparr>uni_letter = (\<lambda>_. False), uni_lower = (\<lambda>r. r)\<rparr>, sha256 = (\<lambda>s. take 32 (s @ replicate 32 (CHR ''x''))),
     ftoa = (\<lambda>_. ''1'')\<rparr>"

definition ex_models :: "backend list" where
  "ex_models = [\<lparr>MID = ''claude-sonnet-4.5'', MName = ''Sonnet'', MDescription = [], Multiplier = None\<rparr>,
     \<lparr>MID = ''auto'', MName = [], MDescription = [], Multiplier = None\<rparr>]"

lemma ex_catalog: "\<exists>c. New ex_runtime ex_models ''auto'' = Some c \<and> models c = ex_models"
proof -
  have "map_option models (New ex_runtime ex_models ''auto'') = Some ex_models" by code_simp
  then show ?thesis by auto
qed

theorem catalog_alias_roundtrip_witness:
  "\<exists>c i m. New ex_runtime ex_models ''auto'' = Some c \<and> ClientID c ''auto'' = Some i \<and> Resolve c i = Some m \<and> MID m = ''auto''"
proof -
  obtain c where c: "New ex_runtime ex_models ''auto'' = Some c" "models c = ex_models" using ex_catalog by blast
  from catalog_alias_roundtrip [OF c(1)] c show ?thesis by (auto simp: ex_models_def)
qed

subsection \<open>The discovery cache\<close>

definition get_starts :: "int \<Rightarrow> bool \<Rightarrow> catalog_cache \<Rightarrow> bool" where
  "get_starts now discover c \<longleftrightarrow> \<not> flight c \<and> flight (snd (Get now discover c))"

text \<open>One step of the cache; the clock is only assumed to be past Go's zero time.\<close>

inductive cache_step :: "catalog_cache \<Rightarrow> int \<Rightarrow> bool \<Rightarrow> catalog_cache \<Rightarrow> bool" where
  get: "0 < now \<Longrightarrow> cache_step c now (get_starts now discover c) (snd (Get now discover c))"
| discovered: "0 < now \<Longrightarrow> flight c \<Longrightarrow> cache_step c now False (finish_discovery now found written c)"
| close: "cache_step c now False (Close_cache c)"

inductive_cases cache_stepE: "cache_step c now started c'"

definition retry_at :: "catalog_cache \<Rightarrow> int" where
  "retry_at c = (if lastAttempt c = 0 then 0 else lastAttempt c + RetryInterval (cfg c))"

definition cache_ok :: "catalog_cache \<Rightarrow> bool" where
  "cache_ok c \<longleftrightarrow> 0 < RetryInterval (cfg c) \<and> 0 \<le> lastAttempt c"

lemma finish_discovery_simps [simp]:
  "cfg (finish_discovery now found written c) = cfg c" "lastAttempt (finish_discovery now found written c) = lastAttempt c"
  by (simp_all add: finish_discovery_def split: option.split)

lemma Get_starts:
  assumes "cache_ok c" "0 < now" "get_starts now discover c"
  shows "retry_at c \<le> now" "snd (Get now discover c) = start_discovery now c" "\<not> cclosed c"
  using assms
  by (auto simp: get_starts_def Get_def retry_at_def cache_ok_def start_discovery_def Let_def split: option.splits if_splits)

lemma Get_keeps: "\<not> get_starts now discover c \<Longrightarrow> snd (Get now discover c) = c"
  by (auto simp: get_starts_def Get_def start_discovery_def Let_def split: option.splits if_splits)

interpretation cc: rate_limited cache_step cache_ok retry_at "\<lambda>c. RetryInterval (cfg c)"
proof
  fix s now t
  assume ok: "cache_ok s"
  show "cache_step s now True t \<Longrightarrow> cache_ok t \<and> retry_at s \<le> now \<and> now + RetryInterval (cfg s) \<le> retry_at t
      \<and> RetryInterval (cfg t) = RetryInterval (cfg s)"
    using ok Get_starts [OF ok]
    by (auto elim!: cache_stepE simp: start_discovery_def retry_at_def cache_ok_def)
  show "cache_step s now False t \<Longrightarrow> cache_ok t \<and> retry_at s \<le> retry_at t \<and> RetryInterval (cfg t) = RetryInterval (cfg s)"
    using ok by (auto elim!: cache_stepE simp: Get_keeps retry_at_def cache_ok_def Close_cache_def)
  show "0 \<le> RetryInterval (cfg s)" using ok by (simp add: cache_ok_def)
qed

text \<open>
  Whatever readers ask, whatever discoveries return and whether they fail, discoveries of one cache start at
  least one retry interval apart, and never after the cache was closed.
\<close>

theorem discoveries_spaced:
  assumes "NewCache cfg0 stored = Some c" "timed_run cache_step c ts c'"
  shows "sorted_wrt (\<lambda>a b. a + RetryInterval (cfg c) \<le> b) ts
       \<and> (cclosed c' \<longrightarrow> (\<forall>now discover. \<not> get_starts now discover c'))"
proof -
  have "cache_ok c" using assms(1) by (auto simp: NewCache_def cache_ok_def Let_def split: if_splits)
  from cc.starts_spaced [OF assms(2) this] show ?thesis by (auto simp: get_starts_def Get_def)
qed

definition ex_cache :: catalog_cache where
  "ex_cache = \<lparr>cfg = \<lparr>TTL = 24 * hour, RetryInterval = 60 * second, RefreshTimeout = 30 * second\<rparr>, cdata = None, created = 0,
     lastAttempt = 0, flight = False, cclosed = False\<rparr>"

lemma ex_cache_new: "NewCache \<lparr>TTL = 0, RetryInterval = 0, RefreshTimeout = 0\<rparr> None = Some ex_cache"
  by (simp add: NewCache_def ex_cache_def default_int_def hour_def second_def)

lemma ex_cache_run: "timed_run cache_step ex_cache [5] (Close_cache (start_discovery 5 ex_cache))"
proof -
  have "cache_step ex_cache 5 True (start_discovery 5 ex_cache)"
    using cache_step.get [of 5 ex_cache True]
    by (simp add: get_starts_def Get_def start_discovery_def ex_cache_def)
  then show ?thesis
    by (rule timed_run.start) (rule timed_run.go [where step = cache_step, OF cache_step.close, OF timed_run.stop])
qed

theorem discoveries_spaced_witness:
  "cclosed (Close_cache (start_discovery 5 ex_cache)) \<and> \<not> get_starts 100 True (Close_cache (start_discovery 5 ex_cache))"
  using discoveries_spaced [OF ex_cache_new ex_cache_run] by (simp add: Close_cache_def)

end
