(* ===== verification/Websearch.thy ===== *)
theory Websearch
  imports ResponseStream Projection Kirofeature
begin

text \<open>
  \<open>internal/websearch\<close>: admission of a search request (\<open>request.go\<close>), the budget of search uses (\<open>budget.go\<close>)
  and the collector that turns the agent's notifications into validated search exchanges (\<open>collector.go\<close>). Every
  failure of the collector ends the search, so its operations return an option. SHA-256 and the URL parser are
  arguments.
\<close>

subsection \<open>request.go\<close>

definition search_prompt_text :: "bytes list \<Rightarrow> bytes" where
  "search_prompt_text ps = arr_text (map (\<lambda>t. obj_text [(''type'', quote ''text''), (''text'', quote t)]) ps)"

definition ValidateRequest :: "decode_config \<Rightarrow> request \<Rightarrow> nat \<Rightarrow> bytes list option" where
  "ValidateRequest dc r spec =
     (if \<not> ClientContent r \<or> ValidateControls (Extra r) \<noteq> None \<or> SearchDeclaration (ReqTools r) \<noteq> Some (Inr spec)
         \<or> \<not> list_all (\<lambda>m. list_all (\<lambda>b. BType b = ''text'') (Content m)) (Messages r)
         \<or> ToolPolicy r \<noteq> Some False then None
      else case Full dc r of
        None \<Rightarrow> None
      | Some prompt \<Rightarrow> if 524288 < length (search_prompt_text prompt) then None else Some prompt)"

subsection \<open>budget.go\<close>

text \<open>
  The budget directory: the slot files that exist. Exclusive creation is atomic, so an invocation either finds a
  slot taken or takes it; a failure of the file system ends it without a slot.
\<close>

definition budget_root :: "nat \<Rightarrow> bool" where
  "budget_root uses \<longleftrightarrow> 1 \<le> uses \<and> uses \<le> MaxSearchUses"

fun take_slot :: "(nat \<Rightarrow> bool) \<Rightarrow> nat list \<Rightarrow> nat list \<Rightarrow> bool \<times> nat list" where
  "take_slot fails [] slots = (False, slots)"
| "take_slot fails (i # rest) slots =
     (if fails i then (False, slots)
      else if i \<in> set slots then take_slot fails rest slots
      else (True, i # slots))"

definition TakeBudget :: "(nat \<Rightarrow> bool) \<Rightarrow> nat \<Rightarrow> nat list \<Rightarrow> bool \<times> nat list" where
  "TakeBudget fails uses slots = (if budget_root uses then take_slot fails [0..<uses] slots else (False, slots))"

definition BudgetCount :: "nat \<Rightarrow> nat list \<Rightarrow> nat option" where
  "BudgetCount uses slots = (if budget_root uses then Some (length (filter (\<lambda>i. i \<in> set slots) [0..<uses])) else None)"

subsection \<open>collector.go: decoding\<close>

text \<open>Decoding into a struct of strings: keys match case-insensitively, later members win, null keeps the value.\<close>

definition struct_string :: "(bytes \<times> json) list \<Rightarrow> bytes \<Rightarrow> bytes option" where
  "struct_string ms name = header_values (map snd (filter (\<lambda>(k, _). map ascii_lower k = name) ms)) []"

definition text_part :: "bytes \<Rightarrow> (bytes \<times> bytes) option" where
  "text_part raw = (case parse raw of
     Some (JObj _ ms) \<Rightarrow> do { ty \<leftarrow> struct_string ms ''type''; tx \<leftarrow> struct_string ms ''text''; Some (ty, tx) }
   | Some JNull \<Rightarrow> Some ([], [])
   | _ \<Rightarrow> None)"

fun nested_members :: "json list \<Rightarrow> (bytes \<times> json) list option" where
  "nested_members [] = Some []"
| "nested_members (v # vs) = (case v of
     JObj _ ms \<Rightarrow> map_option ((@) ms) (nested_members vs)
   | JNull \<Rightarrow> nested_members vs
   | _ \<Rightarrow> None)"

definition public_result :: "json \<Rightarrow> search_result option" where
  "public_result v = (case v of
     JObj _ ms \<Rightarrow>
       do {
         ty \<leftarrow> struct_string ms ''type'';
         inner \<leftarrow> nested_members (map snd (filter (\<lambda>(k, _). map ascii_lower k = ''content'') ms));
         kind \<leftarrow> struct_string inner ''type'';
         uri \<leftarrow> struct_string inner ''uri'';
         name \<leftarrow> struct_string inner ''name'';
         title \<leftarrow> struct_string inner ''title'';
         if ty \<noteq> ''content'' \<or> kind \<noteq> ''resource_link'' then None
         else Some \<lparr>SType = ''web_search_result'', SURL = uri, STitle = (if title = [] then name else title)\<rparr>
       }
   | _ \<Rightarrow> None)"

definition publicResults :: "bytes \<Rightarrow> search_result list option" where
  "publicResults raw =
     (if take 1 raw \<noteq> ''['' then None
      else case parse raw of
        Some (JArr _ vs) \<Rightarrow> if 32 < length vs then None else all_some (map public_result vs)
      | _ \<Rightarrow> None)"

definition canonicalDigest :: "(bytes \<Rightarrow> bytes) \<Rightarrow> bytes \<Rightarrow> bytes option" where
  "canonicalDigest hash raw = map_option hash (jsoncanon_Object (''{\"value\":'' @ raw @ ''}''))"

subsection \<open>collector.go: the collector\<close>

record search_call =
  exchange :: search_exchange
  cstatus :: bytes
  input_digest :: bytes
  output_digest :: bytes
  hasOutput :: bool
  ccontent :: bytes
  native :: bytes
  nativeDigest :: bytes
  hasNative :: bool

record collector =
  csession :: bytes
  climit :: nat
  cevents :: nat
  cbytes :: nat
  calls :: "(bytes \<times> search_call) list"
  corder :: "bytes list"
  ctext_out :: bytes
  progress :: bool

definition newCollector :: "bytes \<Rightarrow> nat \<Rightarrow> collector" where
  "newCollector session most = \<lparr>csession = session, climit = most, cevents = 0, cbytes = 0, calls = [], corder = [],
     ctext_out = [], progress = False\<rparr>"

definition terminal :: "search_call \<Rightarrow> bool" where
  "terminal c \<longleftrightarrow> cstatus c = ''completed'' \<or> cstatus c = ''failed''"

definition new_call :: "(bytes \<Rightarrow> bytes) \<Rightarrow> bytes \<Rightarrow> bytes \<Rightarrow> search_call" where
  "new_call hash session i = \<lparr>
     exchange = \<lparr>XID = ''srvtoolu_'' @ hex_encode (take 16 (hash (session @ [CHR 0x00] @ i))), XQuery = [], XErrorCode = [],
                 XResults = []\<rparr>,
     cstatus = [], input_digest = replicate 32 (CHR 0x00), output_digest = replicate 32 (CHR 0x00), hasOutput = False,
     ccontent = [], native = [], nativeDigest = replicate 32 (CHR 0x00), hasNative = False\<rparr>"

text \<open>The checks on kind and title, the call id and the status of an update.\<close>

definition tool_header :: "(bytes \<times> bytes) list \<Rightarrow> (bytes \<times> bytes) option" where
  "tool_header fs =
     do {
       i \<leftarrow> unmarshal_string (field fs ''toolCallId'');
       st \<leftarrow> (if has_key fs ''status'' then unmarshal_string (field fs ''status'') else Some []);
       if (has_key fs ''kind'' \<and> unmarshal_string (field fs ''kind'') \<noteq> Some ''search'')
          \<or> (has_key fs ''title'' \<and> (case unmarshal_string (field fs ''title'') of
               None \<Rightarrow> True | Some t \<Rightarrow> TrimSpace t = [] \<or> 4096 < length t))
          \<or> i = [] \<or> 256 < length i then None
       else Some (i, st)
     }"

definition find_call ::
  "(bytes \<Rightarrow> bytes) \<Rightarrow> bytes \<Rightarrow> (bytes \<times> bytes) list \<Rightarrow> bytes \<Rightarrow> collector \<Rightarrow> (search_call \<times> collector) option" where
  "find_call hash kind fs i c = (case map_of (calls c) i of
     Some call \<Rightarrow> Some (call, c)
   | None \<Rightarrow>
       if (kind \<noteq> ''tool_call'' \<and> \<not> StandaloneSearchFailure fs) \<or> climit c \<le> length (calls c) \<or> \<not> has_key fs ''title'' then None
       else Some (new_call hash (csession c) i,
                  c\<lparr>calls := aset i (new_call hash (csession c) i) (calls c), corder := corder c @ [i]\<rparr>))"

definition tool_query :: "(bytes \<times> bytes) list \<Rightarrow> bytes option" where
  "tool_query obj = (if has_key obj ''query'' then unmarshal_string (field obj ''query'') else Some [])"

definition tool_input :: "(bytes \<Rightarrow> bytes) \<Rightarrow> (bytes \<times> bytes) list \<Rightarrow> search_call \<Rightarrow> search_call option" where
  "tool_input hash fs call = (case map_of fs ''rawInput'' of
     None \<Rightarrow> Some call
   | Some raw \<Rightarrow>
       do {
         obj \<leftarrow> ndjson_Object raw;
         query \<leftarrow> tool_query obj;
         digest \<leftarrow> canonicalDigest hash raw;
         if (cstatus call = ''in_progress'' \<or> terminal call) \<and> XQuery (exchange call) \<noteq> []
            \<and> (query \<noteq> XQuery (exchange call) \<or> digest \<noteq> input_digest call) then None
         else Some (call\<lparr>exchange := (exchange call)\<lparr>XQuery := query\<rparr>, input_digest := digest\<rparr>)
       })"

definition provisional_ok :: "url_parser \<Rightarrow> search_call \<Rightarrow> bool" where
  "provisional_ok url call =
     Exchange_Valid url (if XQuery (exchange call) = [] then (exchange call)\<lparr>XQuery := ''pending''\<rparr> else exchange call)"

definition tool_content :: "(bytes \<Rightarrow> bytes) \<Rightarrow> (bytes \<times> bytes) list \<Rightarrow> search_call \<Rightarrow> search_call option" where
  "tool_content hash fs call = (case map_of fs ''content'' of
     None \<Rightarrow> Some call
   | Some raw \<Rightarrow>
       do {
         digest \<leftarrow> canonicalDigest hash raw;
         if terminal call
         then (if \<not> hasOutput call \<or> digest \<noteq> output_digest call then None else Some call)
         else Some (call\<lparr>ccontent := raw, output_digest := digest, hasOutput := True\<rparr>)
       })"

definition tool_native :: "(bytes \<Rightarrow> bytes) \<Rightarrow> (bytes \<times> bytes) list \<Rightarrow> search_call \<Rightarrow> search_call option" where
  "tool_native hash fs call = (case map_of fs ''rawOutput'' of
     None \<Rightarrow> Some call
   | Some raw \<Rightarrow>
       do {
         digest \<leftarrow> canonicalDigest hash raw;
         if terminal call
         then (if \<not> hasNative call \<or> digest \<noteq> nativeDigest call then None else Some call)
         else Some (call\<lparr>native := raw, nativeDigest := digest, hasNative := True\<rparr>)
       })"

definition tool_status :: "bytes \<Rightarrow> search_call \<Rightarrow> search_call option" where
  "tool_status st call =
     (if st = [] then Some call
      else if terminal call then (if st \<noteq> cstatus call then None else Some call)
      else if (cstatus call = ''in_progress'' \<and> st = ''pending'')
        \<or> st \<notin> {''pending'', ''in_progress'', ''completed'', ''failed''} then None
      else if st = ''failed''
        then Some (call\<lparr>cstatus := st, exchange := (exchange call)\<lparr>XResults := [], XErrorCode := ''unavailable''\<rparr>\<rparr>)
      else Some (call\<lparr>cstatus := st\<rparr>))"

definition call_results :: "search_call \<Rightarrow> search_result list option" where
  "call_results call =
     (if hasNative call
      then map_option (map (\<lambda>h. \<lparr>SType = ''web_search_result'', SURL = HitURL h, STitle = HitTitle h\<rparr>))
             (SearchResults (native call) (XQuery (exchange call)))
      else publicResults (ccontent call))"

definition tool_results :: "url_parser \<Rightarrow> search_call \<Rightarrow> search_call option" where
  "tool_results url call =
     (if cstatus call = ''completed'' \<and> (hasOutput call \<or> hasNative call)
      then do {
        results \<leftarrow> call_results call;
        let x = (exchange call)\<lparr>XResults := results\<rparr>;
        if Exchange_Valid url x then Some (call\<lparr>exchange := x\<rparr>) else None
      }
      else Some call)"

text \<open>The changes of one update to its call, in the order of the code.\<close>

definition update_call ::
  "(bytes \<Rightarrow> bytes) \<Rightarrow> url_parser \<Rightarrow> (bytes \<times> bytes) list \<Rightarrow> bytes \<Rightarrow> search_call \<Rightarrow> search_call option" where
  "update_call hash url fs st call0 =
     do {
       call1 \<leftarrow> tool_input hash fs call0;
       call2 \<leftarrow> (if provisional_ok url call1 then tool_content hash fs call1 else None);
       call3 \<leftarrow> tool_native hash fs call2;
       call4 \<leftarrow> tool_status st call3;
       tool_results url call4
     }"

definition collector_tool ::
  "(bytes \<Rightarrow> bytes) \<Rightarrow> url_parser \<Rightarrow> bytes \<Rightarrow> (bytes \<times> bytes) list \<Rightarrow> collector \<Rightarrow> collector option" where
  "collector_tool hash url kind fs c =
     do {
       (i, st) \<leftarrow> tool_header fs;
       (call, c') \<leftarrow> find_call hash kind fs i c;
       call' \<leftarrow> update_call hash url fs st call;
       Some (c'\<lparr>calls := aset i call' (calls c')\<rparr>)
     }"

definition observe_update ::
  "(bytes \<Rightarrow> bytes) \<Rightarrow> url_parser \<Rightarrow> (bytes \<times> bytes) list \<Rightarrow> collector \<Rightarrow> collector option" where
  "observe_update hash url fs c =
     do {
       update \<leftarrow> ndjson_Object (field fs ''update'');
       kind \<leftarrow> unmarshal_string (field update ''sessionUpdate'');
       if kind = ''agent_message_chunk'' then
         do {
           (ty, tx) \<leftarrow> text_part (field update ''content'');
           if ty \<noteq> ''text'' \<or> 1048576 < length (ctext_out c) + length tx then None
           else Some (c\<lparr>ctext_out := ctext_out c @ tx, progress := (tx \<noteq> [])\<rparr>)
         }
       else if kind = ''agent_thought_chunk'' then
         Some (c\<lparr>progress := (case text_part (field update ''content'') of
           None \<Rightarrow> False | Some (ty, tx) \<Rightarrow> ty = ''text'' \<and> TrimSpace tx \<noteq> [])\<rparr>)
       else if kind = ''tool_call'' \<or> kind = ''tool_call_update'' then
         map_option (\<lambda>c'. c'\<lparr>progress := True\<rparr>) (collector_tool hash url kind update c)
       else Some c
     }"

definition counted :: "notification \<Rightarrow> collector \<Rightarrow> collector" where
  "counted n c = c\<lparr>progress := False, cevents := cevents c + 1, cbytes := cbytes c + length (Params n)\<rparr>"

definition observe :: "(bytes \<Rightarrow> bytes) \<Rightarrow> url_parser \<Rightarrow> notification \<Rightarrow> collector \<Rightarrow> collector option" where
  "observe hash url n c0 =
     (let c = counted n c0
      in if 4096 < cevents c \<or> 4194304 < cbytes c \<or> (SessionID n \<noteq> [] \<and> SessionID n \<noteq> csession c) then None
         else case ndjson_Object (Params n) of
           None \<Rightarrow> None
         | Some fs \<Rightarrow>
             (if has_key fs ''sessionId'' \<and> unmarshal_string (field fs ''sessionId'') \<noteq> Some (csession c) then None
              else if Method n = ''_kiro.dev/mcp/server_initialized'' then None
              else if Method n \<noteq> ''session/update'' then Some c
              else if \<not> has_key fs ''sessionId'' \<and> csession c \<noteq> [] then None
              else observe_update hash url fs c))"

definition call_finished :: "url_parser \<Rightarrow> search_call \<Rightarrow> bool" where
  "call_finished url call \<longleftrightarrow> terminal call \<and> (cstatus call = ''completed'' \<longrightarrow> hasOutput call \<or> hasNative call)
     \<and> Exchange_Valid url (exchange call)"

definition finish :: "url_parser \<Rightarrow> collector \<Rightarrow> (search_exchange list \<times> bytes) option" where
  "finish url c =
     (if corder c = [] then None
      else let cs = map (\<lambda>i. map_of (calls c) i) (corder c)
           in if list_all (\<lambda>m. case m of None \<Rightarrow> False | Some call \<Rightarrow> call_finished url call) cs
              then Some (map (\<lambda>m. exchange (the m)) cs, ctext_out c)
              else None)"

subsection \<open>engine.go: one run\<close>

text \<open>
  \<open>Run\<close> after the prompt has been sent: all notifications up to its completion are observed, then the stop reason,
  the exchanges and the number of budget slots used are checked.
\<close>

fun observe_all :: "(bytes \<Rightarrow> bytes) \<Rightarrow> url_parser \<Rightarrow> notification list \<Rightarrow> collector \<Rightarrow> collector option" where
  "observe_all hash url [] c = Some c"
| "observe_all hash url (n # ns) c = (case observe hash url n c of None \<Rightarrow> None | Some c' \<Rightarrow> observe_all hash url ns c')"

definition search_run ::
  "(bytes \<Rightarrow> bytes) \<Rightarrow> url_parser \<Rightarrow> bytes \<Rightarrow> nat \<Rightarrow> notification list \<Rightarrow> bytes \<Rightarrow> nat list \<Rightarrow> (search_exchange list \<times> bytes) option" where
  "search_run hash url session most ns result slots =
     do {
       c \<leftarrow> observe_all hash url ns (newCollector session most);
       fs \<leftarrow> ndjson_Object result;
       stop \<leftarrow> unmarshal_string (field fs ''stopReason'');
       if stop \<noteq> ''end_turn'' then None
       else do {
         (xs, tx) \<leftarrow> finish url c;
         n \<leftarrow> BudgetCount most slots;
         if n \<noteq> length xs then None else Some (xs, tx)
       }
     }"

end
