(* ===== verification/Websearch_Props.thy ===== *)
theory Websearch_Props
  imports Websearch
begin

text \<open>
  What a successful search run guarantees, that finished calls are final, and that the budget hook never grants more
  uses than the request allows.
\<close>

subsection \<open>The budget\<close>

lemma take_slot_cases:
  "take_slot fails is' slots = (b, slots') \<Longrightarrow>
   (b \<and> (\<exists>i\<in>set is'. i \<notin> set slots \<and> slots' = i # slots)) \<or> (\<not> b \<and> slots' = slots)"
  by (induction is') (auto split: if_splits)

fun take_all :: "(nat \<Rightarrow> bool) list \<Rightarrow> nat \<Rightarrow> nat list \<Rightarrow> bool list \<times> nat list" where
  "take_all [] uses slots = ([], slots)"
| "take_all (fails # rest) uses slots =
     (case TakeBudget fails uses slots of (b, slots') \<Rightarrow>
      case take_all rest uses slots' of (bs, slots'') \<Rightarrow> (b # bs, slots''))"

lemma TakeBudget_cases:
  assumes "TakeBudget fails uses slots = (b, slots')" "distinct slots" "set slots \<subseteq> {0..<uses}"
  shows "distinct slots'" "set slots' \<subseteq> {0..<uses}" "length slots' = length slots + (if b then 1 else 0)"
proof -
  from assms(1) have "(b \<and> (\<exists>i\<in>{0..<uses}. i \<notin> set slots \<and> slots' = i # slots)) \<or> (\<not> b \<and> slots' = slots)"
    using take_slot_cases [of fails "[0..<uses]" slots b slots'] by (auto simp: TakeBudget_def split: if_splits)
  then show "distinct slots'" "set slots' \<subseteq> {0..<uses}" "length slots' = length slots + (if b then 1 else 0)"
    using assms(2,3) by auto
qed

lemma take_all_spec:
  "take_all fs uses slots = (bs, slots') \<Longrightarrow> distinct slots \<Longrightarrow> set slots \<subseteq> {0..<uses} \<Longrightarrow>
   distinct slots' \<and> set slots' \<subseteq> {0..<uses} \<and> length slots' = length slots + length (filter (\<lambda>b. b) bs)"
proof (induction fs arbitrary: slots bs)
  case (Cons f fs)
  obtain b s1 where b: "TakeBudget f uses slots = (b, s1)" by fastforce
  with Cons.prems(1) obtain bs1 where bs: "take_all fs uses s1 = (bs1, slots')" "bs = b # bs1"
    by (auto split: prod.splits)
  note t = TakeBudget_cases [OF b Cons.prems(2,3)]
  from Cons.IH [OF bs(1) t(1,2)] t(3) bs(2) show ?case by auto
qed simp

text \<open>
  the budget hook is safe: however many invocations run, in whatever order and with whatever file system
  failures, at most the allowed number of them (and never more than 8) are granted, and the count read afterwards is
  exactly the number granted.
\<close>

theorem search_budget_exact:
  assumes "budget_root uses"
  shows "length (filter (\<lambda>b. b) (fst (take_all fails uses []))) \<le> uses \<and> uses \<le> 8
       \<and> BudgetCount uses (snd (take_all fails uses [])) = Some (length (filter (\<lambda>b. b) (fst (take_all fails uses []))))"
proof -
  obtain bs slots where t: "take_all fails uses [] = (bs, slots)" by fastforce
  have s: "distinct slots" "set slots \<subseteq> {0..<uses}" "length slots = length (filter (\<lambda>b. b) bs)"
    using take_all_spec [OF t] by simp_all
  have "length slots \<le> uses" using s(1,2) distinct_card [of slots] card_mono [OF finite_atLeastLessThan s(2)] by simp
  moreover have "length (filter (\<lambda>i. i \<in> set slots) [0..<uses]) = length slots"
  proof -
    have "set (filter (\<lambda>i. i \<in> set slots) [0..<uses]) = set slots" using s(2) by auto
    then show ?thesis using s(1) by (metis distinct_card distinct_filter distinct_upt)
  qed
  ultimately show ?thesis using assms s(3) t by (simp add: BudgetCount_def budget_root_def MaxSearchUses_def)
qed

theorem search_budget_exact_witness:
  "BudgetCount 2 (snd (take_all [\<lambda>_. False, \<lambda>i. i = 1, \<lambda>_. False, \<lambda>_. False] 2 [])) = Some 2"
proof -
  have "budget_root 2" by (simp add: budget_root_def MaxSearchUses_def)
  moreover have "length (filter (\<lambda>b. b) (fst (take_all [\<lambda>_. False, \<lambda>i. i = 1, \<lambda>_. False, \<lambda>_. False] 2 []))) = 2" by code_simp
  ultimately show ?thesis using search_budget_exact [of 2 "[\<lambda>_. False, \<lambda>i. i = 1, \<lambda>_. False, \<lambda>_. False]"] by simp
qed

subsection \<open>The collector's bounds\<close>

definition collector_inv :: "collector \<Rightarrow> bool" where
  "collector_inv c \<longleftrightarrow> distinct (corder c) \<and> set (corder c) = fst ` set (calls c) \<and> distinct (map fst (calls c))
     \<and> length (calls c) \<le> climit c \<and> length (ctext_out c) \<le> 1048576 \<and> cevents c \<le> 4096 \<and> cbytes c \<le> 4194304"

definition same_owner :: "collector \<Rightarrow> collector \<Rightarrow> bool" where
  "same_owner c c' \<longleftrightarrow> csession c' = csession c \<and> climit c' = climit c \<and> cevents c' = cevents c"

lemma find_call_cases:
  assumes "find_call hash kind fs i c = Some (call, c')"
  obtains (known) "map_of (calls c) i = Some call" "c' = c"
  | (fresh) "map_of (calls c) i = None" "length (calls c) < climit c" "call = new_call hash (csession c) i"
      "c' = c\<lparr>calls := aset i call (calls c), corder := corder c @ [i]\<rparr>"
  using assms by (auto simp: find_call_def not_le split: option.splits if_splits)

lemma find_call_inv:
  assumes "find_call hash kind fs i c = Some (call, c')" "collector_inv c"
  shows "collector_inv c'" "same_owner c c'" "map_of (calls c') i = Some call"
  using assms(1)
proof (atomize (full), cases rule: find_call_cases)
  case fresh
  have i: "i \<notin> fst ` set (calls c)" using fresh(1) by (simp add: map_of_eq_None_iff)
  then have "length (aset i call (calls c)) = Suc (length (calls c))" by (simp add: length_aset has_key_iff)
  then show "collector_inv c' \<and> same_owner c c' \<and> map_of (calls c') i = Some call"
    using fresh assms(2) i by (auto simp: collector_inv_def same_owner_def)
qed (use assms(2) in \<open>auto simp: same_owner_def\<close>)

lemma aset_known: "map_of m i = Some x \<Longrightarrow> length (aset i y m) = length m \<and> fst ` set (aset i y m) = fst ` set m"
  using map_of_SomeD [of m i x] by (force simp: length_aset has_key_def)

lemma collector_tool_inv:
  assumes "collector_tool hash url kind fs c = Some c'" "collector_inv c"
  shows "collector_inv c' \<and> same_owner c c'"
proof -
  from assms(1) obtain i st call c1 call' where t: "find_call hash kind fs i c = Some (call, c1)"
      "c' = c1\<lparr>calls := aset i call' (calls c1)\<rparr>"
    by (auto simp: collector_tool_def Option.bind_eq_Some_conv)
  note f = find_call_inv [OF t(1) assms(2)]
  from f aset_known [OF f(3), of call'] t(2) show ?thesis by (auto simp: collector_inv_def same_owner_def)
qed

lemma observe_update_cases:
  assumes "observe_update hash url fs c = Some c'"
  obtains (chunk) tx b where "c' = c\<lparr>ctext_out := ctext_out c @ tx, progress := b\<rparr>" "length (ctext_out c @ tx) \<le> 1048576"
  | (thought) b where "c' = c\<lparr>progress := b\<rparr>"
  | (tool) kind upd c1 where "collector_tool hash url kind upd c = Some c1" "c' = c1\<lparr>progress := True\<rparr>"
  | (other) "c' = c"
proof -
  from assms obtain upd kind where k: "ndjson_Object (field fs ''update'') = Some upd"
      "unmarshal_string (field upd ''sessionUpdate'') = Some kind"
    unfolding observe_update_def by (auto simp: Option.bind_eq_Some_conv)
  consider (m) "kind = ''agent_message_chunk''" | (t) "kind = ''agent_thought_chunk''"
    | (c) "kind = ''tool_call'' \<or> kind = ''tool_call_update''"
    | (o) "kind \<noteq> ''agent_message_chunk''" "kind \<noteq> ''agent_thought_chunk''" "\<not> (kind = ''tool_call'' \<or> kind = ''tool_call_update'')"
    by blast
  then show ?thesis
  proof cases
    case m
    from assms obtain ty tx where "c' = c\<lparr>ctext_out := ctext_out c @ tx, progress := (tx \<noteq> [])\<rparr>"
        "length (ctext_out c) + length tx \<le> 1048576"
      unfolding observe_update_def k m by (auto simp: k m Option.bind_eq_Some_conv not_less split: if_split_asm)
    then show ?thesis using chunk by simp
  next
    case t
    from assms thought show ?thesis unfolding observe_update_def k t by (simp add: k t) blast
  next
    case c
    then have "kind \<noteq> ''agent_message_chunk''" "kind \<noteq> ''agent_thought_chunk''" by auto
    with assms c tool show ?thesis unfolding observe_update_def k by (simp add: k) blast
  next
    case o
    with assms other show ?thesis unfolding observe_update_def k by (simp add: k)
  qed
qed

lemma observe_update_inv:
  assumes "observe_update hash url fs c = Some c'" "collector_inv c"
  shows "collector_inv c' \<and> same_owner c c'"
  using assms(1)
proof (cases rule: observe_update_cases)
  case (tool kind upd c1)
  with collector_tool_inv [OF tool(1) assms(2)] show ?thesis by (simp add: collector_inv_def same_owner_def)
qed (use assms(2) in \<open>simp_all add: collector_inv_def same_owner_def\<close>)

lemma observe_cases:
  assumes "observe hash url n c = Some c'"
  obtains "cevents (counted n c) \<le> 4096" "cbytes (counted n c) \<le> 4194304" "c' = counted n c"
  | fs where "cevents (counted n c) \<le> 4096" "cbytes (counted n c) \<le> 4194304" "observe_update hash url fs (counted n c) = Some c'"
proof -
  define d where "d = counted n c"
  have g: "\<not> (4096 < cevents d \<or> 4194304 < cbytes d \<or> (SessionID n \<noteq> [] \<and> SessionID n \<noteq> csession d))"
    using assms unfolding observe_def Let_def d_def [symmetric] by (metis option.distinct(1))
  with assms obtain fs where fs: "ndjson_Object (Params n) = Some fs"
    unfolding observe_def Let_def d_def [symmetric] by (cases "ndjson_Object (Params n)") simp_all
  have "Some c' = Some d \<or> Some c' = observe_update hash url fs d"
    using assms g fs unfolding observe_def Let_def d_def [symmetric]
    by (simp only: if_False option.case) (metis option.distinct(1))
  with g that show ?thesis unfolding d_def by (metis not_less option.inject)
qed

lemma counted_simps [simp]:
  "calls (counted n c) = calls c" "corder (counted n c) = corder c" "csession (counted n c) = csession c"
  "climit (counted n c) = climit c" "ctext_out (counted n c) = ctext_out c"
  by (simp_all add: counted_def)

lemma observe_inv:
  assumes "observe hash url n c = Some c'" "collector_inv c"
  shows "collector_inv c' \<and> climit c' = climit c \<and> cevents c' = Suc (cevents c)"
proof -
  have d: "cevents (counted n c) \<le> 4096 \<Longrightarrow> cbytes (counted n c) \<le> 4194304 \<Longrightarrow> collector_inv (counted n c)"
    "cevents (counted n c) = Suc (cevents c)"
    using assms(2) by (simp_all add: collector_inv_def counted_def)
  from assms(1) show ?thesis
  proof (cases rule: observe_cases)
    case 1
    with d show ?thesis by (simp add: same_owner_def)
  next
    case (2 fs)
    with d observe_update_inv [OF 2(3)] show ?thesis by (simp add: same_owner_def)
  qed
qed

lemma observe_all_inv:
  "observe_all hash url ns c = Some c' \<Longrightarrow> collector_inv c \<Longrightarrow>
   collector_inv c' \<and> climit c' = climit c \<and> cevents c' = length ns + cevents c"
proof (induction ns arbitrary: c)
  case (Cons n ns)
  then obtain d where d: "observe hash url n c = Some d" "observe_all hash url ns d = Some c'" by (auto split: option.splits)
  with Cons.IH [OF d(2)] observe_inv [OF d(1) Cons.prems(2)] show ?case by simp
qed simp

lemma newCollector_inv: "collector_inv (newCollector session most)"
  by (simp add: collector_inv_def newCollector_def)

lemma finish_spec:
  assumes "finish url c = Some (xs, tx)"
  shows "xs \<noteq> []" "length xs = length (corder c)" "list_all (Exchange_Valid url) xs" "tx = ctext_out c"
  using assms by (auto simp: finish_def Let_def list_all_iff call_finished_def split: if_splits option.splits)

text \<open>
  C18: a search run that succeeds returns at least one exchange and at most the allowed number of uses (at most 8),
  each valid (known error code or up to 32 results with http or https URLs and bounded texts), exactly as many as
  budget slots were taken by the hook, with at most one mebibyte of text and after at most 4096 notifications.
\<close>

theorem search_run_validated:
  assumes "search_run hash url session most ns result slots = Some (xs, tx)"
  shows "xs \<noteq> [] \<and> length xs \<le> most \<and> most \<le> 8 \<and> list_all (Exchange_Valid url) xs
       \<and> length (filter (\<lambda>i. i \<in> set slots) [0..<most]) = length xs \<and> length tx \<le> 1048576 \<and> length ns \<le> 4096"
proof -
  from assms obtain c where c: "observe_all hash url ns (newCollector session most) = Some c" "finish url c = Some (xs, tx)"
      "BudgetCount most slots = Some (length xs)"
    unfolding search_run_def by (auto simp: Option.bind_eq_Some_conv split: if_split_asm)
  have i: "collector_inv c" "climit c = most" "cevents c = length ns"
    using observe_all_inv [OF c(1) newCollector_inv] by (simp_all add: newCollector_def)
  have "length (corder c) = length (calls c)"
    using i(1) distinct_card [of "corder c"] distinct_card [of "map fst (calls c)"] by (simp add: collector_inv_def)
  then show ?thesis
    using finish_spec [OF c(2)] i c(3)
    by (auto simp: collector_inv_def BudgetCount_def budget_root_def MaxSearchUses_def split: if_splits)
qed

subsection \<open>Finished calls are final\<close>

definition results_ok :: "search_call \<Rightarrow> bool" where
  "results_ok call \<longleftrightarrow> (cstatus call = ''completed'' \<and> (hasOutput call \<or> hasNative call) \<longrightarrow>
     call_results call = Some (XResults (exchange call)))"

lemma call_results_cong:
  "call_results (call\<lparr>exchange := (exchange call)\<lparr>XResults := r\<rparr>\<rparr>) = call_results call"
  by (simp add: call_results_def)

lemma tool_results_ok:
  assumes "tool_results url call = Some call'"
  shows "results_ok call'"
proof (cases "cstatus call = ''completed'' \<and> (hasOutput call \<or> hasNative call)")
  case True
  with assms obtain r where "call_results call = Some r" "call' = call\<lparr>exchange := (exchange call)\<lparr>XResults := r\<rparr>\<rparr>"
    by (auto simp: tool_results_def Option.bind_eq_Some_conv Let_def split: if_split_asm)
  then show ?thesis by (simp add: results_ok_def call_results_cong)
next
  case False
  with assms show ?thesis by (auto simp: tool_results_def results_ok_def)
qed

lemma update_call_results: "update_call hash url fs st call = Some call' \<Longrightarrow> results_ok call'"
  using tool_results_ok by (auto simp: update_call_def Option.bind_eq_Some_conv)

definition finished :: "search_call \<Rightarrow> bool" where
  "finished call \<longleftrightarrow> terminal call \<and> XQuery (exchange call) \<noteq> []"

lemma tool_input_frozen:
  assumes "tool_input hash fs call = Some call'" "finished call"
  shows "call' = call"
proof (cases "map_of fs ''rawInput''")
  case (Some raw)
  with assms obtain q d where "call' = call\<lparr>exchange := (exchange call)\<lparr>XQuery := q\<rparr>, input_digest := d\<rparr>"
      "q = XQuery (exchange call)" "d = input_digest call"
    by (auto simp: tool_input_def finished_def Option.bind_eq_Some_conv split: if_split_asm)
  then show ?thesis by simp
qed (use assms in \<open>simp add: tool_input_def\<close>)

lemma tool_outputs_frozen:
  "tool_content hash fs call = Some call' \<Longrightarrow> terminal call \<Longrightarrow> call' = call"
  "tool_native hash fs call = Some call' \<Longrightarrow> terminal call \<Longrightarrow> call' = call"
  "tool_status st call = Some call' \<Longrightarrow> terminal call \<Longrightarrow> call' = call"
  by (auto simp: tool_content_def tool_native_def tool_status_def Option.bind_eq_Some_conv
      split: option.split_asm if_split_asm)

lemma tool_results_frozen:
  assumes "tool_results url call = Some call'" "results_ok call"
  shows "call' = call"
proof (cases "cstatus call = ''completed'' \<and> (hasOutput call \<or> hasNative call)")
  case True
  with assms have "call' = call\<lparr>exchange := (exchange call)\<lparr>XResults := XResults (exchange call)\<rparr>\<rparr>"
    by (auto simp: tool_results_def results_ok_def Let_def split: if_split_asm)
  then show ?thesis by simp
next
  case False
  with assms show ?thesis by (auto simp: tool_results_def)
qed

lemma update_call_frozen:
  assumes "update_call hash url fs st call = Some call'" "finished call" "results_ok call"
  shows "call' = call"
proof -
  from assms(1) obtain c1 c2 c3 c4 where s: "tool_input hash fs call = Some c1" "tool_content hash fs c1 = Some c2"
      "tool_native hash fs c2 = Some c3" "tool_status st c3 = Some c4" "tool_results url c4 = Some call'"
    unfolding update_call_def by (auto simp: Option.bind_eq_Some_conv split: if_split_asm)
  have t: "terminal call" using assms(2) by (simp add: finished_def)
  have 1: "c1 = call" by (rule tool_input_frozen [OF s(1) assms(2)])
  have 2: "c2 = call" using tool_outputs_frozen(1) [OF s(2)] t 1 by simp
  have 3: "c3 = call" using tool_outputs_frozen(2) [OF s(3)] t 2 by simp
  have 4: "c4 = call" using tool_outputs_frozen(3) [OF s(4)] t 3 by simp
  show ?thesis using tool_results_frozen [OF s(5)] assms(3) 4 by simp
qed

definition calls_ok :: "collector \<Rightarrow> bool" where
  "calls_ok c \<longleftrightarrow> (\<forall>i call. map_of (calls c) i = Some call \<longrightarrow> results_ok call)"

lemma collector_tool_final:
  assumes "collector_tool hash url kind fs c = Some c'" "calls_ok c"
  shows "calls_ok c'" "map_of (calls c) i = Some call \<Longrightarrow> finished call \<Longrightarrow> map_of (calls c') i = Some call"
proof -
  from assms(1) obtain j st k c1 k' where t: "find_call hash kind fs j c = Some (k, c1)"
      "update_call hash url fs st k = Some k'" "c' = c1\<lparr>calls := aset j k' (calls c1)\<rparr>"
    unfolding collector_tool_def by (auto simp: Option.bind_eq_Some_conv)
  have ok': "results_ok k'" by (rule update_call_results [OF t(2)])
  have lookup: "map_of (calls c') = (map_of (calls c))(j \<mapsto> k')"
    using t(1) by (cases rule: find_call_cases) (simp_all add: t(3))
  show "calls_ok c'" using assms(2) ok' by (auto simp: calls_ok_def lookup)
  assume m: "map_of (calls c) i = Some call" and f: "finished call"
  show "map_of (calls c') i = Some call"
  proof (cases "i = j")
    case True
    have "k = call" using t(1) by (cases rule: find_call_cases) (use m True in simp_all)
    moreover have "results_ok call" using assms(2) m by (auto simp: calls_ok_def)
    ultimately have "k' = call" using update_call_frozen [OF t(2)] f by simp
    with True show ?thesis by (simp add: lookup)
  qed (simp add: lookup m)
qed

lemma observe_final:
  assumes "observe hash url n c = Some c'" "calls_ok c"
  shows "calls_ok c' \<and> (map_of (calls c) i = Some call \<longrightarrow> finished call \<longrightarrow> map_of (calls c') i = Some call)"
  using assms(1)
proof (cases rule: observe_cases)
  case 1
  then show ?thesis using assms(2) by (simp add: calls_ok_def)
next
  case (2 fs)
  have ok: "calls_ok (counted n c)" using assms(2) by (simp add: calls_ok_def)
  from 2(3) show ?thesis
  proof (cases rule: observe_update_cases)
    case (tool kind upd c1)
    from collector_tool_final [OF tool(1) ok] tool(2) show ?thesis by (simp add: calls_ok_def)
  qed (use ok in \<open>simp_all add: calls_ok_def\<close>)
qed

lemma observe_all_final:
  "observe_all hash url ns c = Some c' \<Longrightarrow> calls_ok c \<Longrightarrow>
   calls_ok c' \<and> (map_of (calls c) i = Some call \<longrightarrow> finished call \<longrightarrow> map_of (calls c') i = Some call)"
proof (induction ns arbitrary: c)
  case (Cons n ns)
  then obtain d where d: "observe hash url n c = Some d" "observe_all hash url ns d = Some c'" by (auto split: option.splits)
  with Cons.IH [OF d(2)] observe_final [OF d(1) Cons.prems(2)] show ?case by blast
qed simp

text \<open>
  a call that has completed or failed with its query known is final: whatever further notifications are accepted,
  its query, results, error code and status stay exactly as they are.
\<close>

theorem finished_search_is_final:
  assumes "observe_all hash url ns (newCollector session most) = Some c" "map_of (calls c) i = Some call"
    and "cstatus call = ''completed'' \<or> cstatus call = ''failed''" "XQuery (exchange call) \<noteq> []"
    and "observe_all hash url ns' c = Some c'"
  shows "map_of (calls c') i = Some call"
proof -
  have "calls_ok (newCollector session most)" by (simp add: calls_ok_def newCollector_def)
  then have "calls_ok c" using observe_all_final [OF assms(1)] by blast
  with observe_all_final [OF assms(5)] assms(2-4) show ?thesis by (simp add: finished_def terminal_def)
qed

subsection \<open>An example run\<close>

definition ex_hash :: "bytes \<Rightarrow> bytes" where "ex_hash = (\<lambda>_. ''x'')"

definition ex_url :: url_parser where "ex_url = (\<lambda>_. None)"

definition ex_note :: notification where
  "ex_note = \<lparr>Method = ''session/update'', SessionID = ''s'', Params = obj_text [(''sessionId'', quote ''s''),
     (''update'', obj_text [(''sessionUpdate'', quote ''tool_call''), (''toolCallId'', quote ''t''), (''title'', quote ''w''),
       (''status'', quote ''failed''), (''rawInput'', obj_text [(''query'', quote ''go'')])])]\<rparr>"

definition ex_call :: search_call where
  "ex_call = (new_call ex_hash ''s'' ''t'')\<lparr>
     exchange := \<lparr>XID = ''srvtoolu_78'', XQuery = ''go'', XErrorCode = ''unavailable'', XResults = []\<rparr>,
     cstatus := ''failed'', input_digest := ''x''\<rparr>"

definition ex_collected :: "nat \<Rightarrow> collector" where
  "ex_collected n = (newCollector ''s'' 1)\<lparr>cevents := n, cbytes := n * length (Params ex_note), calls := [(''t'', ex_call)],
     corder := [''t''], progress := True\<rparr>"

lemma ex_observed:
  "observe ex_hash ex_url ex_note (newCollector ''s'' 1) = Some (ex_collected 1)"
  "observe ex_hash ex_url ex_note (ex_collected 1) = Some (ex_collected 2)"
  by code_simp+

lemma ex_finished: "finish ex_url (ex_collected 1) = Some ([exchange ex_call], [])"
  by code_simp

lemma ex_search_run:
  "search_run ex_hash ex_url ''s'' 1 [ex_note] (obj_text [(''stopReason'', quote ''end_turn'')]) [0] = Some ([exchange ex_call], [])"
proof -
  have "do { fs \<leftarrow> ndjson_Object (obj_text [(''stopReason'', quote ''end_turn'')]); unmarshal_string (field fs ''stopReason'') } = Some ''end_turn''"
    and b: "BudgetCount 1 [0] = Some 1"
    by code_simp+
  then obtain fs where fs: "ndjson_Object (obj_text [(''stopReason'', quote ''end_turn'')]) = Some fs"
      "unmarshal_string (field fs ''stopReason'') = Some ''end_turn''"
    by (auto simp: Option.bind_eq_Some_conv)
  show ?thesis by (simp add: search_run_def ex_observed ex_finished fs b del: One_nat_def)
qed

theorem search_run_validated_witness:
  "search_run ex_hash ex_url ''s'' 1 [ex_note] (obj_text [(''stopReason'', quote ''end_turn'')]) [0] = Some ([exchange ex_call], [])
   \<and> list_all (Exchange_Valid ex_url) [exchange ex_call]"
  using search_run_validated [OF ex_search_run] ex_search_run by blast

theorem finished_search_is_final_witness:
  "observe_all ex_hash ex_url [ex_note] (ex_collected 1) = Some (ex_collected 2) \<and> map_of (calls (ex_collected 2)) ''t'' = Some ex_call"
proof -
  have c: "observe_all ex_hash ex_url [ex_note] (newCollector ''s'' 1) = Some (ex_collected 1)"
    "observe_all ex_hash ex_url [ex_note] (ex_collected 1) = Some (ex_collected 2)"
    by (simp_all add: ex_observed del: One_nat_def)
  have m: "map_of (calls (ex_collected 1)) ''t'' = Some ex_call" by (simp add: ex_collected_def)
  have "cstatus ex_call = ''completed'' \<or> cstatus ex_call = ''failed''" "XQuery (exchange ex_call) \<noteq> []"
    by (simp_all add: ex_call_def)
  from finished_search_is_final [OF c(1) m this c(2)] c(2) show ?thesis by blast
qed

end
