(* ===== verification/Continuation.thy ===== *)
theory Continuation
  imports History ResponseStream Projection Broker
begin

text \<open>
  The decisions of \<open>internal/session\<close> about a request that answers tool calls: \<open>continuation.go\<close>, the validation
  parts of \<open>interruption.go\<close> and \<open>continuation_restart.go\<close>, and \<open>progress.go\<close>. SHA-256 and the history's keyed
  hash are arguments.
\<close>

subsection \<open>Results\<close>

text \<open>The set of the code is the list of distinct identifiers not yet matched.\<close>

fun match_ids :: "bytes list \<Rightarrow> tool_outcome list \<Rightarrow> bytes list option" where
  "match_ids left [] = Some left"
| "match_ids left (r # rs) = (if ToolID r \<in> set left then match_ids (removeAll (ToolID r) left) rs else None)"

definition sameResultIDs :: "bytes list \<Rightarrow> tool_outcome list \<Rightarrow> bool" where
  "sameResultIDs ids results \<longleftrightarrow> ids \<noteq> [] \<and> length ids = length results \<and> match_ids (remdups ids) results = Some []"

definition text_content :: "bytes \<Rightarrow> content" where
  "text_content t = \<lparr>ctype = ''text'', ctext = t, cdata = [], cmime = []\<rparr>"

definition relay_block :: "block \<Rightarrow> content option" where
  "relay_block b =
     (if BType b = ''text'' then Some (text_content (BText b))
      else if BType b = ''image'' then
        do {
          fs \<leftarrow> ndjson_Object (BRaw b);
          source \<leftarrow> ndjson_Object (field fs ''source'');
          kind \<leftarrow> GoJson.string_field (field source ''type'');
          if kind = ''base64'' then
            do {
              d \<leftarrow> GoJson.string_field (field source ''data'');
              mime \<leftarrow> GoJson.string_field (field source ''media_type'');
              Some \<lparr>ctype = ''image'', ctext = [], cdata = d, cmime = mime\<rparr>
            }
          else Some (text_content (BRaw b))
        }
      else Some (text_content (BRaw b)))"

definition relay_result :: "tool_outcome \<Rightarrow> (bytes \<times> tool_result) option" where
  "relay_result r =
     do { cs \<leftarrow> all_some (map relay_block (ToolContent r)); Some (ToolID r, \<lparr>rcontent = cs, risError = IsError r\<rparr>) }"

definition relayResults :: "tool_outcome list \<Rightarrow> (bytes \<times> tool_result) list option" where
  "relayResults rs = (if 64 < length rs then None else all_some (map relay_result rs))"

subsection \<open>Compatibility stamps\<close>

definition identity_text :: "client_identity \<Rightarrow> bytes" where
  "identity_text i = obj_text [(''Session'', quote (IdSession i)), (''Agent'', quote (IdAgent i)), (''ParentAgent'', quote (IdParentAgent i))]"

definition compatibility_text :: "request \<Rightarrow> registry option \<Rightarrow> bytes \<Rightarrow> bool \<Rightarrow> bytes" where
  "compatibility_text r reg metadata disabled = obj_text
     [(''Version'', ''2''), (''Identity'', identity_text (Identity r)), (''Model'', quote (ReqModel r)),
      (''Effort'', quote (Effort r)), (''Registry'', quote (case reg of None \<Rightarrow> [] | Some g \<Rightarrow> fingerprint g)),
      (''System'', arr_text (map (\<lambda>b. quote (BText b)) (System r))), (''Metadata'', compact metadata),
      (''ToolsDisabled'', bool_text disabled)]"

definition compatibility :: "(bytes \<Rightarrow> bytes) \<Rightarrow> request \<Rightarrow> registry option \<Rightarrow> bytes option" where
  "compatibility hash r reg =
     do {
       metadata \<leftarrow> (case map_of (Extra r) ''metadata'' of None \<Rightarrow> Some ''{}'' | Some raw \<Rightarrow> jsoncanon_Object raw);
       disabled \<leftarrow> ToolPolicy r;
       Some (hash (compatibility_text r reg metadata disabled))
     }"

definition reusableCompatibility :: "(bytes \<Rightarrow> bytes) \<Rightarrow> request \<Rightarrow> registry option \<Rightarrow> bytes option" where
  "reusableCompatibility hash r reg = compatibility hash (r\<lparr>ReqModel := [], Effort := []\<rparr>) reg"

definition processCompatibility :: "(bytes \<Rightarrow> bytes) \<Rightarrow> request \<Rightarrow> registry option \<Rightarrow> bytes option" where
  "processCompatibility hash r reg =
     reusableCompatibility hash
       (r\<lparr>Identity := \<lparr>IdSession = [], IdAgent = [], IdParentAgent = []\<rparr>, Extra := []\<rparr>) reg"

subsection \<open>Standing system messages\<close>

definition text_only_message :: "message \<Rightarrow> bool" where
  "text_only_message m \<longleftrightarrow> list_all (\<lambda>b. BType b = ''text'') (Content m)"

text \<open>The last node is the assistant's; the one before it is a single standing system node.\<close>

definition one_standing :: "snapshot \<Rightarrow> bool" where
  "one_standing pend \<longleftrightarrow>
     (let n = length (Nodes pend)
      in 2 \<le> n \<and> NRole (Nodes pend ! (n - 2)) = ''system'' \<and> \<not> (3 \<le> n \<and> NRole (Nodes pend ! (n - 3)) = ''system''))"

definition one_system_text :: "message list \<Rightarrow> bool" where
  "one_system_text suffix = (case suffix of
     [m] \<Rightarrow> Role m = ''system'' \<and> Content m \<noteq> [] \<and> text_only_message m
   | _ \<Rightarrow> False)"

definition rotatedStanding :: "snapshot \<Rightarrow> message list \<Rightarrow> bool" where
  "rotatedStanding pend suffix \<longleftrightarrow> one_system_text suffix \<and> one_standing pend"

definition repeatedSystem :: "mac \<Rightarrow> snapshot \<Rightarrow> message list \<Rightarrow> bool" where
  "repeatedSystem mac pend suffix \<longleftrightarrow>
     suffix = []
     \<or> (Suc (length suffix) \<le> length (Nodes pend)
        \<and> (let start = length (Nodes pend) - 1 - length suffix
           in \<not> (0 < start \<and> NRole (Nodes pend ! (start - 1)) = ''system'')
              \<and> list_all (\<lambda>m. Role m = ''system'' \<and> text_only_message m) suffix
              \<and> list_all2 (\<lambda>m n. hasher_Message mac m = Some n) suffix (take (length suffix) (drop start (Nodes pend)))))"

definition suffix_after :: "request \<Rightarrow> nat \<Rightarrow> message list" where
  "suffix_after r i = drop (Suc i) (Messages r)"

definition continuationPlan :: "mac \<Rightarrow> snapshot \<Rightarrow> request \<Rightarrow> tool_outcome list \<Rightarrow> plan option" where
  "continuationPlan mac pend r results = (case Plan mac pend r of
     None \<Rightarrow> None
   | Some p \<Rightarrow>
       if Mode p = Extend \<and> LatestUserIndex r = Some (Start p) \<and> length (Content (Messages r ! Start p)) = length results
          \<and> (repeatedSystem mac pend (suffix_after r (Start p)) \<or> rotatedStanding pend (suffix_after r (Start p)))
       then Some p else None)"

definition tool_use_text :: "use \<Rightarrow> bytes" where
  "tool_use_text u = block_text (ToolUse_Block \<lparr>UID = UseId u, UName = UseName u, UInput = UseInput u\<rparr>)"

definition assistantContent :: "bytes \<Rightarrow> use list \<Rightarrow> block list \<times> bytes list" where
  "assistantContent text calls =
     ((if text = [] then [] else [\<lparr>BType = ''text'', BText = text, BRaw = [], bmedia = None\<rparr>])
      @ map (\<lambda>u. \<lparr>BType = ''tool_use'', BText = [], BRaw = tool_use_text u, bmedia = None\<rparr>) calls,
      map UseId calls)"

subsection \<open>Denied batches and changed continuations\<close>

text \<open>The latest user message: the results first, then only text, some of it not blank.\<close>

definition results_then_text :: "block list \<Rightarrow> nat \<Rightarrow> bool" where
  "results_then_text bs n \<longleftrightarrow>
     list_all (\<lambda>b. BType b = ''tool_result'') (take n bs) \<and> list_all (\<lambda>b. BType b = ''text'') (drop n bs)
     \<and> list_ex (\<lambda>b. TrimSpace (BText b) \<noteq> []) (drop n bs)"

datatype denial = NotDenial | BadDenial | Denial nat

text \<open>The checks of \<open>restartAfterDenial\<close> before the lock.\<close>

definition denial_request :: "request \<Rightarrow> tool_outcome list \<Rightarrow> denial" where
  "denial_request r results = (case LatestUserIndex r of
     None \<Rightarrow> NotDenial
   | Some i \<Rightarrow>
       (let bs = Content (Messages r ! i)
        in if results = [] \<or> length bs = length results then NotDenial
           else if \<not> list_all IsError results \<or> \<not> results_then_text bs (length results) then BadDenial
           else Denial i))"

definition denial_valid ::
  "mac \<Rightarrow> bytes \<Rightarrow> snapshot \<Rightarrow> bytes list \<Rightarrow> bytes \<Rightarrow> nat \<Rightarrow> request \<Rightarrow> tool_outcome list \<Rightarrow> bool" where
  "denial_valid mac stamp pend ids owner i r results \<longleftrightarrow>
     owner = stamp \<and> sameResultIDs ids results
     \<and> (case Plan mac pend r of None \<Rightarrow> False | Some p \<Rightarrow> Mode p = Extend \<and> Start p = i)
     \<and> (repeatedSystem mac pend (suffix_after r i) \<or> rotatedStanding pend (suffix_after r i))"

datatype recreation = KeepTurn | RejectRequest | Recreate

text \<open>
  The checks of \<open>restartForContinuation\<close> on the suspended turn: whether the request continues it as it is, is
  refused, or recreates it. \<open>policy\<close> is the stamp without the registry, \<open>count\<close> the recreations so far.
\<close>

definition additional_text :: "request \<Rightarrow> nat \<Rightarrow> tool_outcome list \<Rightarrow> bool" where
  "additional_text r i results \<longleftrightarrow> length (Content (Messages r ! i)) \<noteq> length results"

definition recreation_decision ::
  "mac \<Rightarrow> bytes \<Rightarrow> bytes \<Rightarrow> snapshot \<Rightarrow> bytes list \<Rightarrow> bytes \<Rightarrow> bytes \<Rightarrow> nat \<Rightarrow> nat \<Rightarrow> nat \<Rightarrow> request \<Rightarrow> tool_outcome list \<Rightarrow> recreation" where
  "recreation_decision mac stamp policy pend ids owner policyCompat count most i r results =
     (let suffix = suffix_after r i; repeated = repeatedSystem mac pend suffix
      in if stamp = owner \<and> (repeated \<or> rotatedStanding pend suffix) \<and> \<not> additional_text r i results then KeepTurn
         else if policy \<noteq> policyCompat \<or> most \<le> count then RejectRequest
         else if \<not> repeated \<and> \<not> one_system_text suffix then RejectRequest
         else if hasher_Nodes mac (take i (Messages r)) \<noteq> Some (Nodes pend) \<or> \<not> Snapshot_Valid pend
              \<or> (\<not> repeated \<and> \<not> one_standing pend) \<or> \<not> sameResultIDs ids results then RejectRequest
         else Recreate)"

text \<open>The check of the request's own shape before the lock; \<open>None\<close> leaves it to the other paths.\<close>

definition continuation_shape :: "request \<Rightarrow> tool_outcome list \<Rightarrow> (unit + nat) option" where
  "continuation_shape r results = (case LatestUserIndex r of
     None \<Rightarrow> None
   | Some i \<Rightarrow>
       if results = [] then None
       else if \<not> additional_text r i results then Some (Inr i)
       else if list_all IsError results then None
       else if results_then_text (Content (Messages r ! i)) (length results) then Some (Inr i)
       else Some (Inl ()))"

subsection \<open>progress.go\<close>

definition progressText :: "bytes \<Rightarrow> bool" where
  "progressText raw = (case GoJson.string_field raw of None \<Rightarrow> False | Some t \<Rightarrow> TrimSpace t \<noteq> [])"

definition progressEnum :: "bytes \<Rightarrow> bool \<Rightarrow> bytes list \<Rightarrow> bool" where
  "progressEnum raw optional values =
     (if raw = [] then optional
      else case GoJson.string_field raw of None \<Rightarrow> False | Some v \<Rightarrow> v \<in> set values)"

definition maxProgressTools :: nat where "maxProgressTools = 4096"

definition plan_entry :: "bytes \<Rightarrow> bool" where
  "plan_entry raw = (case ndjson_Object raw of
     None \<Rightarrow> False
   | Some e \<Rightarrow> progressText (field e ''content'') \<and> progressEnum (field e ''priority'') False [''high'', ''medium'', ''low'']
       \<and> progressEnum (field e ''status'') False [''pending'', ''in_progress'', ''completed''])"

text \<open>The result and the set of tool keys seen.\<close>

definition turn_progress ::
  "(bytes \<Rightarrow> bytes) \<Rightarrow> bytes \<Rightarrow> (bytes \<times> bytes) list \<Rightarrow> bytes list \<Rightarrow> bool \<times> bytes list" where
  "turn_progress hash kind fs seen_tools =
     (if kind = ''agent_thought_chunk'' then
        ((case ndjson_Object (field fs ''content'') of
            None \<Rightarrow> False
          | Some c \<Rightarrow> progressEnum (field c ''type'') False [''text''] \<and> progressText (field c ''text'')), seen_tools)
      else if kind = ''plan'' then
        ((case unmarshal_raws (field fs ''entries'') of
            None \<Rightarrow> False
          | Some es \<Rightarrow> es \<noteq> [] \<and> length es \<le> 4096 \<and> list_all plan_entry es), seen_tools)
      else if kind = ''tool_call'' \<or> kind = ''tool_call_update'' then
        (case GoJson.string_field (field fs ''toolCallId'') of
           None \<Rightarrow> (False, seen_tools)
         | Some i \<Rightarrow>
             if TrimSpace i = [] \<or> 1024 < length i
                \<or> \<not> progressEnum (field fs ''kind'') True
                    [''read'', ''edit'', ''delete'', ''move'', ''search'', ''execute'', ''think'', ''fetch'', ''other'']
                \<or> \<not> progressEnum (field fs ''status'') (kind = ''tool_call'') [''pending'', ''in_progress'', ''completed'', ''failed'']
             then (False, seen_tools)
             else if kind = ''tool_call_update'' then
               ((\<not> has_key fs ''title'' \<or> progressText (field fs ''title'')) \<and> hash i \<in> set seen_tools, seen_tools)
             else if \<not> progressText (field fs ''title'') then (False, seen_tools)
             else (True, if length seen_tools < maxProgressTools then List.insert (hash i) seen_tools else seen_tools))
      else (False, seen_tools))"

end
