(* ===== verification/Driver.thy ===== *)
theory Driver
  imports Continuation Status
begin

text \<open>
  The session driver of \<open>internal/session\<close>: \<open>turn.go\<close>, the critical sections of \<open>continuation.go\<close>,
  \<open>interruption.go\<close> and \<open>continuation_restart.go\<close>, and the state changes of \<open>driver.go\<close>. A turn is named by a
  number (its identity as an object); a round belongs to one turn. Calls into the process pool, the persistence
  lease and the metrics queue are returned, in order, as effects. What other goroutines report (the state of the
  client, the owned context, the clock) is an argument of the operation that reads it.
\<close>

datatype session_error =
    SErrRequest | SErrBusy | SCanceled | SDeadline | SAuthentication | SProtocol | SFrameTooLarge | SClosed
  | SRelay berror | SOther nat

datatype driver_state = Unstarted | Starting | Idle | Prompting | WaitingTools | Closed

datatype effect =
    PersistIdle snapshot bytes   \<comment> \<open>save the idle record with this history and stamp\<close>
  | PushMetrics turn_record
  | LeaseIdle
  | CloseRelay
  | CloseClient

record terminal_outcome =
  oc_compat :: bytes
  oc_ids :: "bytes list"
  oc_pending :: snapshot
  oc_err :: session_error
  oc_expires :: int

record turn =
  turn_no :: nat
  session_id :: bytes
  model_id :: bytes
  tbroker :: "broker option"
  tcompat :: bytes
  treuse :: bytes
  tpolicy :: bytes
  tplan :: plan
  pendingHistory :: snapshot
  lastIDs :: "bytes list"
  started :: int
  owned_deadline :: int
  recreations :: nat
  session_state :: bytes
  tmultiplier :: "float64 option"
  teffort :: effort_status
  tmetadata :: metadata
  inputEstimate :: input_estimate
  previousEstimate :: input_estimate
  visibleOutput :: visible_output
  progressTools :: "bytes list"
  delivery :: bool               \<comment> \<open>a completed response not yet delivered\<close>

record driver =
  dstate :: driver_state
  current_turn :: "turn option"
  dclosed :: bool
  cleanup_failed :: bool
  initialUsed :: bool
  outcome :: "terminal_outcome option"
  dsnapshot :: snapshot
  dreuse :: bytes
  deffort :: effort
  destimator :: "estimator option"
  lastEstimate :: input_estimate
  metrics_scope :: "bytes option"  \<comment> \<open>the scope when a metrics queue is configured\<close>
  maxRecreations :: nat
  next_turn :: nat

record round =
  round_turn :: nat
  rterminal :: bool
  rsuccess :: bool
  rbatch :: "64 word"
  rtext :: bytes
  rdone :: bool                  \<comment> \<open>\<open>Finish\<close> or \<open>Cancel\<close> has run\<close>

definition empty_snapshot :: snapshot where
  "empty_snapshot = \<lparr>Nodes = [], Pairs = []\<rparr>"

definition no_input :: input_estimate where
  "no_input = \<lparr>parts = [], input_bytes = 0\<rparr>"

definition is_current :: "driver \<Rightarrow> nat \<Rightarrow> bool" where
  "is_current d n \<longleftrightarrow> map_option turn_no (current_turn d) = Some n"

definition newDriver :: "effort \<Rightarrow> bytes option \<Rightarrow> nat \<Rightarrow> driver" where
  "newDriver e scope most = \<lparr>dstate = Unstarted, current_turn = None, dclosed = False, cleanup_failed = False,
     initialUsed = False, outcome = None, dsnapshot = empty_snapshot, dreuse = replicate 32 (CHR 0x00), deffort = e,
     destimator = (case scope of None \<Rightarrow> None | Some _ \<Rightarrow> Some NewEstimator), lastEstimate = no_input,
     metrics_scope = scope, maxRecreations = most, next_turn = 0\<rparr>"

subsection \<open>Starting a prompt\<close>

text \<open>\<open>prepare\<close> takes the driver into setup; a failed or refused setup leaves it unstarted.\<close>

definition begin_setup :: "driver \<Rightarrow> session_error option \<times> driver" where
  "begin_setup d =
     (if dclosed d \<or> cleanup_failed d then (Some SClosed, d)
      else if dstate d \<in> {Starting, Prompting, WaitingTools} then (Some SErrBusy, d)
      else (None, d\<lparr>dstate := Starting\<rparr>))"

definition discardStart :: "bool \<Rightarrow> driver \<Rightarrow> driver" where
  "discardStart failed d =
     d\<lparr>cleanup_failed := (cleanup_failed d \<or> failed), current_turn := None, dsnapshot := empty_snapshot,
       dstate := (if dclosed d then dstate d else Unstarted)\<rparr>"

text \<open>The last critical section of \<open>Start\<close>; \<open>lapsed\<close> is the error of the setup context.\<close>

definition begin_prompt :: "session_error option \<Rightarrow> turn \<Rightarrow> driver \<Rightarrow> (session_error + nat) \<times> driver" where
  "begin_prompt lapsed t d =
     (if dclosed d \<or> lapsed \<noteq> None
      then (Inl (case lapsed of None \<Rightarrow> SClosed | Some e \<Rightarrow> e), discardStart False d)
      else case tbroker t of
          None \<Rightarrow> (Inr (next_turn d), d\<lparr>current_turn := Some (t\<lparr>turn_no := next_turn d, previousEstimate := lastEstimate d\<rparr>),
                    outcome := None, dstate := Prompting, next_turn := next_turn d + 1\<rparr>)
        | Some b \<Rightarrow> (case BeginTurn b of
            (Some _, _) \<Rightarrow> (Inl SProtocol, discardStart False d)
          | (None, b') \<Rightarrow> (Inr (next_turn d), d\<lparr>current_turn := Some (t\<lparr>turn_no := next_turn d, tbroker := Some b',
                    previousEstimate := lastEstimate d\<rparr>),
                    outcome := None, dstate := Prompting, next_turn := next_turn d + 1\<rparr>)))"

subsection \<open>Settling a turn\<close>

definition abortReason :: "session_error \<Rightarrow> turn \<Rightarrow> bool \<Rightarrow> session_error" where
  "abortReason reason t deadline =
     (if reason = SAuthentication then reason
      else if (case tbroker t of None \<Rightarrow> False | Some b \<Rightarrow> err b = Some ErrTimeout) then SRelay ErrTimeout
      else if deadline then SDeadline
      else reason)"

text \<open>
  \<open>abort\<close> of the turn \<open>n\<close>; the second and later settlements of a turn do nothing, and a turn is current until it
  settles. \<open>deadline\<close> says that the owned context has expired, \<open>auth\<close> that the backend reported an expired account,
  \<open>failed\<close> that the cleanup failed.
\<close>

definition abort ::
  "nat \<Rightarrow> session_error \<Rightarrow> bool \<Rightarrow> bool \<Rightarrow> bool \<Rightarrow> int \<Rightarrow> driver \<Rightarrow> driver \<times> effect list" where
  "abort n reason deadline auth failed now d = (case current_turn d of
     None \<Rightarrow> (d, [])
   | Some t \<Rightarrow>
       if turn_no t \<noteq> n then (d, [])
       else let why = (if auth then SAuthentication else abortReason reason t deadline)
            in (d\<lparr>cleanup_failed := (cleanup_failed d \<or> failed),
                  outcome := (if \<not> dclosed d \<and> lastIDs t \<noteq> []
                              then Some \<lparr>oc_compat = tcompat t, oc_ids = lastIDs t, oc_pending = pendingHistory t,
                                         oc_err = why, oc_expires = now + 300000000000\<rparr>
                              else outcome d),
                  current_turn := None, dsnapshot := empty_snapshot,
                  dstate := (if dclosed d then dstate d else Unstarted)\<rparr>,
                [CloseRelay, CloseClient]))"

definition metrics_record :: "turn \<Rightarrow> bytes \<Rightarrow> int \<Rightarrow> turn_record" where
  "metrics_record t scope now = \<lparr>Sequence = 0, Scope = scope, TModel = model_id t, TMultiplier = tmultiplier t,
     SessionState = session_state t, ElapsedMS = (now - started t) div 1000000, TEffort = teffort t,
     TMetadata = tmetadata t, TEstimate = Summary (inputEstimate t) (previousEstimate t) (visibleOutput t)\<rparr>"

text \<open>\<open>complete\<close>; the client is a lease of the pool.\<close>

definition complete_turn ::
  "mac \<Rightarrow> nat \<Rightarrow> bytes \<Rightarrow> bool \<Rightarrow> bool \<Rightarrow> bool \<Rightarrow> int \<Rightarrow> driver \<Rightarrow> driver \<times> effect list" where
  "complete_turn mac n text deadline auth failed now d = (case current_turn d of
     None \<Rightarrow> (d, [])
   | Some t \<Rightarrow>
       if turn_no t \<noteq> n then (d, [])
       else case Complete mac (tplan t) [\<lparr>BType = ''text'', BText = text, BRaw = [], bmedia = None\<rparr>] of
           None \<Rightarrow> abort n SProtocol deadline auth failed now d
         | Some s \<Rightarrow>
             if dclosed d then (d\<lparr>dsnapshot := s, dreuse := treuse t, current_turn := None, initialUsed := True\<rparr>, [])
             else (d\<lparr>dsnapshot := s, dreuse := treuse t, current_turn := None, initialUsed := True, dstate := Idle,
                     lastEstimate := (if metrics_scope d = None then lastEstimate d else inputEstimate t)\<rparr>,
                   [PersistIdle s (treuse t)]
                   @ (case metrics_scope d of None \<Rightarrow> [] | Some scope \<Rightarrow> [PushMetrics (metrics_record t scope now)])
                   @ [LeaseIdle]))"

subsection \<open>Rounds\<close>

definition new_round :: "nat \<Rightarrow> round" where
  "new_round n = \<lparr>round_turn = n, rterminal = False, rsuccess = False, rbatch = 0, rtext = [], rdone = False\<rparr>"

text \<open>\<open>end\<close> of a round: only the current prompting turn may deliver its last event.\<close>

definition round_end :: "bytes \<Rightarrow> round \<Rightarrow> driver \<Rightarrow> (session_error + bytes) \<times> round \<times> driver" where
  "round_end stop r d = (case current_turn d of
     Some t \<Rightarrow>
       if dclosed d \<or> turn_no t \<noteq> round_turn r \<or> dstate d \<noteq> Prompting then (Inl SCanceled, r, d)
       else (Inr stop, r\<lparr>rterminal := True, rsuccess := True\<rparr>, d\<lparr>current_turn := Some (t\<lparr>delivery := True\<rparr>)\<rparr>)
   | None \<Rightarrow> (Inl SCanceled, r, d))"

definition set_broker :: "turn \<Rightarrow> broker \<Rightarrow> driver \<Rightarrow> driver" where
  "set_broker t b d = d\<lparr>current_turn := Some (t\<lparr>tbroker := Some b\<rparr>)\<rparr>"

definition sealTools :: "mac \<Rightarrow> round \<Rightarrow> driver \<Rightarrow> (session_error + batch) \<times> driver" where
  "sealTools mac r d = (case current_turn d of
     None \<Rightarrow> (Inl SCanceled, d)
   | Some t \<Rightarrow>
       if turn_no t \<noteq> round_turn r \<or> dclosed d \<or> dstate d \<noteq> Prompting then (Inl SCanceled, d)
       else case tbroker t of
         None \<Rightarrow> (Inl SCanceled, d)
       | Some b \<Rightarrow> (case Seal b of
           (Inl e, b') \<Rightarrow> (Inl (SRelay e), set_broker t b' d)
         | (Inr sel, b') \<Rightarrow>
             (case assistantContent (rtext r) (Calls sel) of (bs, ids) \<Rightarrow>
              (case Complete mac (tplan t) bs of
                 None \<Rightarrow> (Inl SProtocol, set_broker t b' d)
               | Some pend \<Rightarrow>
                   (Inr sel, d\<lparr>current_turn := Some (t\<lparr>tbroker := Some b', pendingHistory := pend, lastIDs := ids\<rparr>)\<rparr>)))))"

text \<open>The tool event of \<open>Next\<close> after sealing.\<close>

definition use_of :: "use \<Rightarrow> tool_use" where
  "use_of u = \<lparr>UID = UseId u, UName = UseName u, UInput = UseInput u\<rparr>"

definition next_tools :: "mac \<Rightarrow> round \<Rightarrow> driver \<Rightarrow> (session_error + tool_use list) \<times> round \<times> driver" where
  "next_tools mac r d = (case sealTools mac r d of
     (Inl e, d') \<Rightarrow> (Inl e, r, d')
   | (Inr sel, d') \<Rightarrow>
       (Inr (map use_of (Calls sel)), r\<lparr>rbatch := Number sel\<rparr>,
        (case (destimator d', current_turn d') of
           (Some _, Some t) \<Rightarrow>
             d'\<lparr>current_turn := Some (t\<lparr>visibleOutput := AddTools (map use_of (Calls sel)) (visibleOutput t)\<rparr>)\<rparr>
         | _ \<Rightarrow> d')))"

definition cancel_round ::
  "round \<Rightarrow> bool \<Rightarrow> bool \<Rightarrow> bool \<Rightarrow> int \<Rightarrow> driver \<Rightarrow> round \<times> driver \<times> effect list" where
  "cancel_round r deadline auth failed now d =
     (if rdone r then (r, d, [])
      else (r\<lparr>rdone := True\<rparr>, abort (round_turn r) SCanceled deadline auth failed now d))"

definition Finish ::
  "mac \<Rightarrow> round \<Rightarrow> bool \<Rightarrow> bool \<Rightarrow> bool \<Rightarrow> int \<Rightarrow> driver \<Rightarrow> round \<times> driver \<times> effect list" where
  "Finish mac r deadline auth failed now d =
     (if \<not> rsuccess r then cancel_round r deadline auth failed now d
      else if rdone r then (r, d, [])
      else (r\<lparr>rdone := True\<rparr>,
        if rbatch r = 0 then complete_turn mac (round_turn r) (rtext r) deadline auth failed now d
        else if \<not> is_current d (round_turn r) \<or> dclosed d then abort (round_turn r) SCanceled deadline auth failed now d
        else case current_turn d of
            None \<Rightarrow> (d, [])
          | Some t \<Rightarrow> (case tbroker t of
              None \<Rightarrow> (d, [])
            | Some b \<Rightarrow> (case Delivered (rbatch r) b of
                (None, b') \<Rightarrow>
                  (d\<lparr>dstate := WaitingTools, current_turn := Some (t\<lparr>tbroker := Some b', delivery := False\<rparr>)\<rparr>, [])
              | (Some e, b') \<Rightarrow>
                  abort (round_turn r) (SRelay e) deadline auth failed now ((set_broker t b' d)\<lparr>dstate := WaitingTools\<rparr>)))))"

subsection \<open>Notifications of a round\<close>

datatype event = TextEvent bytes | ProgressEvent

definition notification_text :: "(bytes \<times> bytes) list \<Rightarrow> bytes option" where
  "notification_text update =
     do {
       c \<leftarrow> ndjson_Object (field update ''content'');
       ty \<leftarrow> GoJson.string_field (field c ''type'');
       tx \<leftarrow> GoJson.string_field (field c ''text'');
       if ty \<noteq> ''text'' then None else Some tx
     }"

text \<open>The current turn, the effort synchroniser and the round's text are what a notification may change.\<close>

definition notify ::
  "(bytes \<Rightarrow> bytes) \<Rightarrow> notification \<Rightarrow> round \<Rightarrow> turn \<Rightarrow> effort
   \<Rightarrow> (session_error + event option) \<times> round \<times> turn \<times> effort" where
  "notify hash note r t e =
     (if SessionID note \<noteq> [] \<and> SessionID note \<noteq> session_id t then (Inl SProtocol, r, t, e)
      else if Method note \<noteq> ''session/update'' then
        (Inr None, r,
         (if Method note = ''_kiro.dev/metadata'' \<and> SessionID note = session_id t
          then t\<lparr>tmetadata := Metadata_Apply (Params note) (tmetadata t)\<rparr> else t),
         (if Method note = ''_kiro.dev/commands/available'' \<and> SessionID note = session_id t then snd (Advertise (Params note) e) else e))
      else if SessionID note \<noteq> session_id t then (Inl SProtocol, r, t, e)
      else case do { fs \<leftarrow> ndjson_Object (Params note); update \<leftarrow> ndjson_Object (field fs ''update'');
                     kind \<leftarrow> GoJson.string_field (field update ''sessionUpdate''); Some (update, kind) } of
        None \<Rightarrow> (Inl SProtocol, r, t, e)
      | Some (update, kind) \<Rightarrow>
          if kind \<noteq> ''agent_message_chunk'' then
            (case turn_progress hash kind update (progressTools t) of (b, seen_tools) \<Rightarrow>
               (Inr (if b then Some ProgressEvent else None), r, t\<lparr>progressTools := seen_tools\<rparr>, e))
          else (case notification_text update of
              None \<Rightarrow> (Inl SProtocol, r, t, e)
            | Some tx \<Rightarrow>
                if tx = [] then (Inr None, r, t, e)
                else if 16777216 < length (rtext r) + length tx then (Inl SFrameTooLarge, r, t, e)
                else (Inr (Some (TextEvent tx)), r\<lparr>rtext := rtext r @ tx\<rparr>,
                      t\<lparr>visibleOutput := AddText tx (visibleOutput t)\<rparr>, e)))"

text \<open>The stop reason of the prompt's reply.\<close>

definition stop_reason :: "bytes \<Rightarrow> session_error + bytes" where
  "stop_reason result = (case do { fs \<leftarrow> ndjson_Object result; GoJson.string_field (field fs ''stopReason'') } of
     None \<Rightarrow> Inl SProtocol
   | Some stop \<Rightarrow>
       if stop = ''max_turn_requests'' then Inr ''pause_turn''
       else if stop \<in> {''end_turn'', ''max_tokens'', ''refusal''} then Inr stop
       else if stop = ''cancelled'' then Inl SCanceled
       else Inl SProtocol)"

subsection \<open>Continuing a suspended turn\<close>

definition live_outcome :: "int \<Rightarrow> driver \<Rightarrow> terminal_outcome option" where
  "live_outcome now d = (case outcome d of
     Some oc \<Rightarrow> if oc_expires oc < now then None else Some oc
   | None \<Rightarrow> None)"

definition measured :: "(bytes \<Rightarrow> bytes) \<Rightarrow> request \<Rightarrow> driver \<Rightarrow> input_estimate \<times> driver" where
  "measured emac r d = (case destimator d of
     None \<Rightarrow> (no_input, d)
   | Some e \<Rightarrow> (case Measure emac r e of (i, e') \<Rightarrow>
       ((case i of None \<Rightarrow> no_input | Some x \<Rightarrow> x), d\<lparr>destimator := Some e'\<rparr>)))"

record hashes =
  h_sha :: "bytes \<Rightarrow> bytes"
  h_mac :: mac
  h_estimate :: "bytes \<Rightarrow> bytes"

definition resume_waiting ::
  "hashes \<Rightarrow> bytes \<Rightarrow> (bytes \<times> tool_result) list \<Rightarrow> input_estimate \<Rightarrow> request \<Rightarrow> tool_outcome list \<Rightarrow> turn \<Rightarrow> driver
   \<Rightarrow> (session_error + nat) \<times> driver" where
  "resume_waiting h stamp converted est r results t d =
     (if results = [] then (Inl SErrBusy, d)
      else if tcompat t \<noteq> stamp then (Inl SErrRequest, d)
      else case continuationPlan (h_mac h) (pendingHistory t) r results of
          None \<Rightarrow> (Inl SErrRequest, d)
        | Some p \<Rightarrow> (case tbroker t of
            None \<Rightarrow> (Inl SErrRequest, d)
          | Some b \<Rightarrow> (case Resolve (Owner (creds b)) converted b of
              (Some _, b') \<Rightarrow> (Inl SErrRequest, set_broker t b' d)
            | (None, b') \<Rightarrow>
                (Inr (turn_no t), d\<lparr>dstate := Prompting,
                   current_turn := Some (t\<lparr>tplan := p, inputEstimate := est, pendingHistory := empty_snapshot, lastIDs := [],
                                            tbroker := Some b'\<rparr>)\<rparr>))))"

definition resume ::
  "hashes \<Rightarrow> registry option \<Rightarrow> request \<Rightarrow> tool_outcome list \<Rightarrow> session_error option \<Rightarrow> int \<Rightarrow> driver
   \<Rightarrow> (session_error + nat) \<times> driver" where
  "resume h reg r results ctx now d0 =
     (case (compatibility (h_sha h) r reg, relayResults results) of
        (Some stamp, Some converted) \<Rightarrow>
          (case measured (h_estimate h) r d0 of (est, d1) \<Rightarrow>
             if ctx \<noteq> None then (Inl (the ctx), d1)
             else if dstate d1 = Prompting \<or> dstate d1 = Starting then (Inl SErrBusy, d1)
             else let d = d1\<lparr>outcome := live_outcome now d1\<rparr>
                  in case (dstate d = WaitingTools, current_turn d) of
                      (True, Some t) \<Rightarrow> resume_waiting h stamp converted est r results t d
                    | _ \<Rightarrow> (case outcome d of
                        None \<Rightarrow> (Inl SErrRequest, d)
                      | Some oc \<Rightarrow>
                          if oc_compat oc = stamp \<and> sameResultIDs (oc_ids oc) results
                             \<and> continuationPlan (h_mac h) (oc_pending oc) r results \<noteq> None
                          then (Inl (oc_err oc), d) else (Inl SErrRequest, d)))
      | _ \<Rightarrow> (Inl SErrRequest, d0))"

text \<open>
  \<open>restartAfterDenial\<close>: \<open>Inr True\<close> when the suspended work is given up and a fresh prompt follows. What the abort of
  the previous turn reports (\<open>deadline\<close>, \<open>auth\<close>, \<open>failed\<close>) are arguments.
\<close>

definition denial_owner :: "int \<Rightarrow> driver \<Rightarrow> (snapshot \<times> bytes list \<times> bytes) \<times> nat option" where
  "denial_owner now d = (case (dstate d = WaitingTools, current_turn d) of
     (True, Some t) \<Rightarrow> ((pendingHistory t, lastIDs t, tcompat t), Some (turn_no t))
   | _ \<Rightarrow> (case outcome d of
       Some oc \<Rightarrow> if dstate d = Unstarted \<and> now < oc_expires oc then ((oc_pending oc, oc_ids oc, oc_compat oc), None)
                 else ((empty_snapshot, [], replicate 32 (CHR 0x00)), None)
     | None \<Rightarrow> ((empty_snapshot, [], replicate 32 (CHR 0x00)), None)))"

definition restartAfterDenial ::
  "hashes \<Rightarrow> registry option \<Rightarrow> request \<Rightarrow> tool_outcome list \<Rightarrow> session_error option \<Rightarrow> bool \<Rightarrow> bool \<Rightarrow> bool \<Rightarrow> int \<Rightarrow> driver
   \<Rightarrow> (session_error + bool) \<times> driver \<times> effect list" where
  "restartAfterDenial h reg r results ctx deadline auth failed now d = (case denial_request r results of
     NotDenial \<Rightarrow> (Inr False, d, [])
   | BadDenial \<Rightarrow> (Inl SErrRequest, d, [])
   | Denial i \<Rightarrow> (case compatibility (h_sha h) r reg of
       None \<Rightarrow> (Inl SErrRequest, d, [])
     | Some stamp \<Rightarrow> (case denial_owner now d of ((pend, ids, owner), previous) \<Rightarrow>
         if \<not> denial_valid (h_mac h) stamp pend ids owner i r results then (Inl SErrRequest, d, [])
         else if ctx \<noteq> None then (Inl (the ctx), d, [])
         else (case (case previous of None \<Rightarrow> (d, []) | Some n \<Rightarrow> abort n SCanceled deadline auth failed now d) of (d', es) \<Rightarrow>
           if dclosed d' \<or> cleanup_failed d' then (Inl SClosed, d', es)
           else (Inr True, d'\<lparr>outcome := None\<rparr>, es)))))"

text \<open>
  \<open>restartForContinuation\<close>; \<open>prompt_fits\<close> says that the full projection exists and fits a frame. The result is
  \<open>None\<close> (not this path) or the window of the recreated turn: its deadline, start and number of recreations.
\<close>

definition restartForContinuation ::
  "hashes \<Rightarrow> registry option \<Rightarrow> request \<Rightarrow> tool_outcome list \<Rightarrow> bool \<Rightarrow> session_error option \<Rightarrow> bool \<Rightarrow> bool \<Rightarrow> bool \<Rightarrow> int \<Rightarrow> driver
   \<Rightarrow> (session_error + (int \<times> int \<times> nat) option) \<times> driver \<times> effect list" where
  "restartForContinuation h reg r results prompt_fits ctx deadline auth failed now d = (case continuation_shape r results of
     None \<Rightarrow> (Inr None, d, [])
   | Some (Inl _) \<Rightarrow> (Inl SErrRequest, d, [])
   | Some (Inr i) \<Rightarrow>
       (case (compatibility (h_sha h) r reg, compatibility (h_sha h) r None) of
          (Some stamp, Some policy) \<Rightarrow>
            (case (dstate d = WaitingTools, current_turn d) of
               (True, Some t) \<Rightarrow>
                 (case recreation_decision (h_mac h) stamp policy (pendingHistory t) (lastIDs t) (tcompat t) (tpolicy t)
                         (recreations t) (maxRecreations d) i r results of
                    KeepTurn \<Rightarrow> (Inr None, d, [])
                  | RejectRequest \<Rightarrow> (Inl SErrRequest, d, [])
                  | Recreate \<Rightarrow> (case relayResults results of
                      None \<Rightarrow> (Inl SErrRequest, d, [])
                    | Some converted \<Rightarrow>
                        if ctx \<noteq> None then (Inl (the ctx), d, [])
                        else if owned_deadline t \<le> now then (Inl SDeadline, d, [])
                        else case (prompt_fits, tbroker t) of
                            (True, Some b) \<Rightarrow>
                              (case Abandon (Owner (creds b)) converted b of
                                 (Some _, b') \<Rightarrow> (Inl SErrRequest, set_broker t b' d, [])
                               | (None, b') \<Rightarrow>
                                   (case abort (turn_no t) SCanceled deadline auth failed now (set_broker t b' d) of (d', es) \<Rightarrow>
                                      if dclosed d' \<or> cleanup_failed d' then (Inl SClosed, d', es)
                                      else if map_option oc_err (outcome d') = Some SAuthentication
                                        then (Inl SAuthentication, d'\<lparr>outcome := None\<rparr>, es)
                                      else (Inr (Some (owned_deadline t, started t, recreations t + 1)), d'\<lparr>outcome := None\<rparr>, es)))
                          | _ \<Rightarrow> (Inl SErrRequest, d, [])))
             | _ \<Rightarrow> (Inr None, d, []))
        | _ \<Rightarrow> (Inl SErrRequest, d, [])))"

text \<open>\<open>Close\<close>: no state but \<open>Closed\<close> follows, and the current turn is aborted.\<close>

definition Close_driver :: "bool \<Rightarrow> bool \<Rightarrow> bool \<Rightarrow> int \<Rightarrow> driver \<Rightarrow> driver \<times> effect list" where
  "Close_driver deadline auth failed now d =
     (let d' = d\<lparr>dclosed := True, dstate := Closed\<rparr>
      in case current_turn d of
          None \<Rightarrow> (d', [CloseClient, CloseRelay])
        | Some t \<Rightarrow> (case abort (turn_no t) SCanceled deadline auth failed now d' of
            (d'', es) \<Rightarrow> (d'', es @ [CloseClient, CloseRelay])))"

end
