(* ===== verification/Driver_Inv.thy ===== *)
theory Driver_Inv
  imports Driver Broker_Inv
begin

text \<open>
  The driver with its active round as a transition system: every operation of the driver, interleaved with the
  relay's own activity on the turn's broker, and the invariant that ties the driver's state, its current turn, the
  delivered batch and the round together.
\<close>

subsection \<open>What the relay does on its own\<close>

inductive relay_step :: "broker \<Rightarrow> broker \<Rightarrow> bool" where
  admit: "relay_step b (snd (call_admit c x b))"
| commit: "0 < reserved b \<Longrightarrow> fresh_entropy e b \<Longrightarrow>
    v = ValidateCall (registry b) (CallAlias c) (CallArguments c) \<or> (\<exists>y. v = Inl y) \<Longrightarrow>
    relay_step b (snd (call_commit c v x e b))"
| take_result: "receive k b = Some (v, b') \<Longrightarrow> relay_step b b'"
| cancel_call: "relay_step b (failPending i k ErrCanceled b)"
| expire_call: "relay_step b (expire i k b)"
| end_turn: "relay_step b (snd (EndTurn b))"
| shut: "relay_step b (Close b)"

lemma relay_broker_step: "relay_step b b' \<Longrightarrow> broker_step b b'"
  by (induction rule: relay_step.induct) (auto intro: broker_step.intros)

text \<open>Suspended calls are stored under the identifier of their use.\<close>

definition keyed :: "broker \<Rightarrow> bool" where
  "keyed b \<longleftrightarrow> (\<forall>i p. map_of (pending b) i = Some p \<longrightarrow> UseId (puse p) = i)"

lemma keyed_failLocked: "keyed b \<Longrightarrow> keyed (failLocked e b)"
  by (simp add: keyed_def failLocked_def)

lemma keyed_same: "keyed b \<Longrightarrow> pending b' = pending b \<Longrightarrow> keyed b'"
  by (simp add: keyed_def)

lemma keyed_suspend: "keyed b \<Longrightarrow> pending b' = pending b \<Longrightarrow> keyed (suspend u b')"
  by (auto simp: keyed_def suspend_def)

lemma keyed_commit: "keyed b \<Longrightarrow> keyed (snd (call_commit c v x e b))"
  by (cases rule: call_commit_cases [of c v x e b]) (auto intro: keyed_same keyed_suspend)

lemma keyed_steps:
  assumes "keyed b"
  shows "keyed (snd (call_admit c x b))" "keyed (snd (BeginTurn b))" "keyed (snd (EndTurn b))" "keyed (snd (Seal b))"
    "keyed (snd (Delivered n b))" "keyed (failPending i k e b)" "keyed (expire i k b)" "keyed (Close b)"
    "keyed (snd (Abandon owner rs b))"
  using assms keyed_failLocked [OF assms] keyed_same [OF assms]
  by (auto simp: call_admit_def BeginTurn_def EndTurn_def Seal_def Delivered_def failPending_def expire_def Close_def
      Abandon_def Let_def intro: keyed_failLocked split: option.splits)

lemma keyed_receive: "receive k b = Some (v, b') \<Longrightarrow> keyed b \<Longrightarrow> keyed b'"
  by (auto simp: receive_def keyed_def split: list.splits)

lemma keyed_Resolve:
  assumes "broker_inv b" "keyed b"
  shows "keyed (snd (Resolve owner rs b))"
  using assms(1)
proof (cases rule: Resolve_cases [of b owner rs])
  case (resolved b')
  then show ?thesis using assms(2) by (auto simp: keyed_def map_of_filter_keys)
qed (simp add: assms(2))

lemma relay_step_keyed: "relay_step b b' \<Longrightarrow> keyed b \<Longrightarrow> keyed b'"
  by (induction rule: relay_step.induct) (auto intro: keyed_steps keyed_commit keyed_receive)

text \<open>Until the broker fails, the relay leaves the sealed batch alone.\<close>

definition batch_kept :: "broker \<Rightarrow> broker \<Rightarrow> bool" where
  "batch_kept b b' \<longleftrightarrow> err b' = None \<longrightarrow> err b = None \<and> sealed b' = sealed b \<and> delivered b' = delivered b"

lemma relay_step_batch: "relay_step b b' \<Longrightarrow> batch_kept b b'"
proof (induction rule: relay_step.induct)
  case (commit b e v c x)
  show ?case by (cases rule: call_commit_cases [of c v x e b]) (auto simp: batch_kept_def suspend_def)
qed (auto simp: batch_kept_def call_admit_def receive_def failPending_def expire_def EndTurn_def Close_def failLocked_def
      Let_def split: list.splits option.splits if_splits)

subsection \<open>The transition system\<close>

type_synonym system = "driver \<times> round"

definition fresh_turn :: "turn \<Rightarrow> bool" where
  "fresh_turn t \<longleftrightarrow> lastIDs t = [] \<and> \<not> delivery t \<and> (\<forall>b. tbroker t = Some b \<longrightarrow> broker_inv b \<and> keyed b)"

inductive driver_step :: "hashes \<Rightarrow> system \<Rightarrow> system \<Rightarrow> bool" for h where
  started: "driver_step h (d, r) (snd (begin_setup d), r)"
| discarded: "dstate d \<in> {Starting, Closed} \<Longrightarrow> driver_step h (d, r) (discardStart failed d, r)"
| ready: "dstate d = Starting \<Longrightarrow> \<not> dclosed d \<Longrightarrow> driver_step h (d, r) (d\<lparr>dstate := Idle\<rparr>, r)"
| prompt_failed: "dstate d \<in> {Starting, Closed} \<Longrightarrow> fresh_turn t \<Longrightarrow> begin_prompt lapsed t d = (Inl e, d') \<Longrightarrow> driver_step h (d, r) (d', r)"
| prompted: "dstate d \<in> {Starting, Closed} \<Longrightarrow> fresh_turn t \<Longrightarrow> begin_prompt lapsed t d = (Inr n, d') \<Longrightarrow>
    driver_step h (d, r) (d', new_round n)"
| relayed: "current_turn d = Some t \<Longrightarrow> tbroker t = Some b \<Longrightarrow> relay_step b b' \<Longrightarrow> driver_step h (d, r) (set_broker t b' d, r)"
| notified: "current_turn d = Some t \<Longrightarrow> dstate d = Prompting \<Longrightarrow> notify (h_sha h) n r t (deffort d) = (x, r', t', e') \<Longrightarrow>
    driver_step h (d, r) (d\<lparr>current_turn := Some t', deffort := e'\<rparr>, r')"
| tools: "rbatch r = 0 \<Longrightarrow> \<not> rdone r \<Longrightarrow> next_tools (h_mac h) r d = (x, r', d') \<Longrightarrow> driver_step h (d, r) (d', r')"
| ended: "round_end stop r d = (x, r', d') \<Longrightarrow> driver_step h (d, r) (d', r')"
| finished: "Finish (h_mac h) r deadline auth failed now d = (r', d', es) \<Longrightarrow> driver_step h (d, r) (d', r')"
| canceled: "cancel_round r deadline auth failed now d = (r', d', es) \<Longrightarrow> driver_step h (d, r) (d', r')"
| aborted: "driver_step h (d, r) (fst (abort n reason deadline auth failed now d), r)"
| refused: "resume h reg q results ctx now d = (Inl e, d') \<Longrightarrow> driver_step h (d, r) (d', r)"
| resumed: "resume h reg q results ctx now d = (Inr n, d') \<Longrightarrow> driver_step h (d, r) (d', new_round n)"
| denied: "restartAfterDenial h reg q results ctx deadline auth failed now d = (x, d', es) \<Longrightarrow> driver_step h (d, r) (d', r)"
| recreated: "restartForContinuation h reg q results fits ctx deadline auth failed now d = (x, d', es) \<Longrightarrow>
    driver_step h (d, r) (d', r)"
| closed: "driver_step h (d, r) (fst (Close_driver deadline auth failed now d), r)"

subsection \<open>The invariant\<close>

text \<open>The batch the client holds: either the broker failed, or its delivered batch is exactly the turn's.\<close>

definition batch_held :: "turn \<Rightarrow> bool \<Rightarrow> bool" where
  "batch_held t done \<longleftrightarrow> lastIDs t \<noteq> []
     \<and> (\<exists>b. tbroker t = Some b \<and> (err b = None \<longrightarrow> sealed b = lastIDs t \<and> (done \<longrightarrow> delivered b)))"

definition turn_ok :: "turn \<Rightarrow> bool" where
  "turn_ok t \<longleftrightarrow> (\<forall>b. tbroker t = Some b \<longrightarrow> broker_inv b \<and> keyed b)"

definition turn_inv :: "driver \<Rightarrow> round \<Rightarrow> turn \<Rightarrow> bool" where
  "turn_inv d r t \<longleftrightarrow> turn_ok t \<and> turn_no t = round_turn r
     \<and> (dstate d = WaitingTools \<and> batch_held t True
        \<or> dstate d = Prompting \<and> \<not> rdone r \<and> (rbatch r \<noteq> 0 \<longrightarrow> batch_held t False))"

definition system_inv :: "system \<Rightarrow> bool" where
  "system_inv s \<longleftrightarrow> (case s of (d, r) \<Rightarrow>
     (dclosed d \<longleftrightarrow> dstate d = Closed)
     \<and> (case current_turn d of
          None \<Rightarrow> dstate d \<notin> {Prompting, WaitingTools}
        | Some t \<Rightarrow> turn_inv d r t))"

lemma batch_held_kept:
  "batch_held t x \<Longrightarrow> tbroker t = Some b \<Longrightarrow> batch_kept b b' \<Longrightarrow> batch_held (t\<lparr>tbroker := Some b'\<rparr>) x"
  by (auto simp: batch_held_def batch_kept_def)

lemma idle_inv: "(dclosed d \<longleftrightarrow> dstate d = Closed) \<Longrightarrow> current_turn d = None \<Longrightarrow> dstate d \<notin> {Prompting, WaitingTools} \<Longrightarrow> system_inv (d, r)"
  by (simp add: system_inv_def)

text \<open>Settling operations leave no turn.\<close>

lemma abort_inv:
  assumes "system_inv (d, r)"
  shows "system_inv (fst (abort n reason deadline auth failed now d), r')
    \<or> (fst (abort n reason deadline auth failed now d) = d \<and> \<not> is_current d n)"
  using assms by (auto simp: abort_def system_inv_def is_current_def Let_def split: option.splits)

lemma discard_inv: "(dclosed d \<longleftrightarrow> dstate d = Closed) \<Longrightarrow> system_inv (discardStart failed d, r)"
  by (auto simp: discardStart_def system_inv_def)

lemma begin_setup_inv: "system_inv (d, r) \<Longrightarrow> system_inv (snd (begin_setup d), r)"
  by (auto simp: begin_setup_def system_inv_def turn_inv_def split: option.splits)

lemma abort_current:
  assumes "system_inv (d, r)" "is_current d n"
  shows "system_inv (fst (abort n reason deadline auth failed now d), r')"
  using assms by (auto simp: abort_def system_inv_def is_current_def Let_def split: option.splits)

lemma abort_any:
  assumes "system_inv (d, r)"
  shows "system_inv (fst (abort n reason deadline auth failed now d), r)"
  using assms by (auto simp: abort_def system_inv_def Let_def split: option.splits)

lemma abort_any':
  assumes "system_inv (d, r)" "abort n reason deadline auth failed now d = (d', es)"
  shows "system_inv (d', r)"
  using abort_any [OF assms(1), of n reason deadline auth failed now] assms(2) by simp

lemma begin_prompt_inv:
  assumes "system_inv (d, r)" "dstate d \<in> {Starting, Closed}" "fresh_turn t" "begin_prompt lapsed t d = (x, d')"
  shows "system_inv (d', case x of Inl _ \<Rightarrow> r | Inr n \<Rightarrow> new_round n)"
proof -
  have c: "dclosed d \<longleftrightarrow> dstate d = Closed" using assms(1) by (simp add: system_inv_def)
  have k: "broker_inv b' \<and> keyed b'" if "tbroker t = Some b" "BeginTurn b = (None, b')" for b b'
    using that assms(3) BeginTurn_inv [of b] keyed_steps(2) [of b] by (auto simp: fresh_turn_def)
  show ?thesis
  proof (cases "dclosed d \<or> lapsed \<noteq> None")
    case True
    with assms(4) have "x = Inl (case lapsed of None \<Rightarrow> SClosed | Some e \<Rightarrow> e)" "d' = discardStart False d"
      by (auto simp: begin_prompt_def)
    then show ?thesis using discard_inv [OF c] by simp
  next
    case False
    then have s: "dstate d = Starting" using assms(2) c by auto
    consider (refused) "x = Inl SProtocol" "d' = discardStart False d"
      | (begun) t' where "x = Inr (next_turn d)" "d' = d\<lparr>current_turn := Some t', outcome := None, dstate := Prompting, next_turn := next_turn d + 1\<rparr>"
          "turn_no t' = next_turn d" "turn_ok t'"
      using assms(4) False k by (auto simp: begin_prompt_def turn_ok_def split: option.splits prod.splits)
    then show ?thesis
    proof cases
      case refused
      then show ?thesis using discard_inv [OF c] by simp
    next
      case begun
      then show ?thesis using s c by (simp add: system_inv_def turn_inv_def new_round_def)
    qed
  qed
qed

text \<open>Changes of the current turn that keep what the invariant reads.\<close>

definition same_turn :: "turn \<Rightarrow> turn \<Rightarrow> bool" where
  "same_turn t t' \<longleftrightarrow> turn_no t' = turn_no t \<and> tbroker t' = tbroker t \<and> lastIDs t' = lastIDs t"

lemma turn_inv_same:
  assumes "turn_inv d r t" "same_turn t t'" "dstate d' = dstate d"
    "round_turn r' = round_turn r" "rdone r' = rdone r" "rbatch r' = rbatch r"
  shows "turn_inv d' r' t'"
  using assms by (auto simp: turn_inv_def same_turn_def turn_ok_def batch_held_def)

lemma notify_same:
  assumes "notify hash n r t e = (x, r', t', e')"
  shows "same_turn t t' \<and> round_turn r' = round_turn r \<and> rdone r' = rdone r \<and> rbatch r' = rbatch r"
  using assms by (auto simp: notify_def same_turn_def split: option.splits prod.splits if_splits)

lemma system_inv_turn: "system_inv (d, r) \<Longrightarrow> current_turn d = Some t \<Longrightarrow> turn_inv d r t"
  by (simp add: system_inv_def)

lemma system_inv_update:
  assumes "system_inv (d, r)" "turn_inv d' r' t'" "current_turn d' = Some t'" "dclosed d' = dclosed d" "dstate d' = dstate d"
  shows "system_inv (d', r')"
  using assms by (simp add: system_inv_def)

lemma notify_inv:
  assumes "system_inv (d, r)" "current_turn d = Some t" "notify hash n r t (deffort d) = (x, r', t', e')"
  shows "system_inv (d\<lparr>current_turn := Some t', deffort := e'\<rparr>, r')"
  by (rule system_inv_update [OF assms(1) turn_inv_same [OF system_inv_turn [OF assms(1,2)]]])
     (use notify_same [OF assms(3)] in auto)

lemma relay_inv:
  assumes "system_inv (d, r)" "current_turn d = Some t" "tbroker t = Some b" "broker_inv b'" "keyed b'" "batch_kept b b'"
  shows "system_inv (set_broker t b' d, r)"
proof (rule system_inv_update [OF assms(1)])
  show "turn_inv (set_broker t b' d) r (t\<lparr>tbroker := Some b'\<rparr>)"
    using system_inv_turn [OF assms(1,2)] batch_held_kept [OF _ assms(3,6)] assms(4,5)
    by (auto simp: turn_inv_def turn_ok_def set_broker_def)
qed (simp_all add: set_broker_def)

lemma relay_step_inv:
  assumes "system_inv (d, r)" "current_turn d = Some t" "tbroker t = Some b" "relay_step b b'"
  shows "system_inv (set_broker t b' d, r)"
proof -
  have "broker_inv b" "keyed b" using system_inv_turn [OF assms(1,2)] assms(3) by (auto simp: turn_inv_def turn_ok_def)
  then show ?thesis
    by (intro relay_inv [OF assms(1-3)] broker_step_inv [OF relay_broker_step [OF assms(4)]] relay_step_keyed [OF assms(4)]
        relay_step_batch [OF assms(4)])
qed

subsection \<open>Sealing and delivering a batch\<close>

lemma keyed_sealed:
  assumes "broker_inv b" "keyed b" "Seal b = (Inr sel, b')"
  shows "sealed b' = map UseId (Calls sel) \<and> sealed b' \<noteq> [] \<and> err b' = None \<and> Number sel = number b'"
proof -
  have "UseId (puse p) = i" if "(i, p) \<in> set (seal_prefix (pending b) 0 (queued b))" for i p
    using seal_prefix_pending [OF that] assms(2) by (simp add: keyed_def)
  then show ?thesis
    using assms(3) by (auto simp: Seal_def Let_def split: if_splits intro!: map_cong)
qed

lemma sealTools_cases:
  assumes "system_inv (d, r)"
  obtains (refused) e where "sealTools mac r d = (Inl e, d)"
  | (broken) e t b b' where "sealTools mac r d = (Inl e, set_broker t b' d)" "current_turn d = Some t" "tbroker t = Some b"
      "broker_inv b'" "keyed b'" "dstate d = Prompting"
  | (batched) sel t b' pend where
      "sealTools mac r d = (Inr sel, d\<lparr>current_turn := Some (t\<lparr>tbroker := Some b', pendingHistory := pend, lastIDs := map UseId (Calls sel)\<rparr>)\<rparr>)"
      "current_turn d = Some t" "dstate d = Prompting" "broker_inv b'" "keyed b'" "sealed b' = map UseId (Calls sel)" "sealed b' \<noteq> []"
proof (cases "\<exists>t b. current_turn d = Some t \<and> turn_no t = round_turn r \<and> \<not> dclosed d \<and> dstate d = Prompting \<and> tbroker t = Some b")
  case False
  then have "\<exists>e. sealTools mac r d = (Inl e, d)" by (auto simp: sealTools_def split: option.splits)
  then show ?thesis using refused by blast
next
  case True
  then obtain t b where t: "current_turn d = Some t" "turn_no t = round_turn r" "\<not> dclosed d" "dstate d = Prompting" "tbroker t = Some b"
    by blast
  have ok: "broker_inv b" "keyed b" using system_inv_turn [OF assms t(1)] t(5) by (auto simp: turn_inv_def turn_ok_def)
  obtain x b' where x: "Seal b = (x, b')" by (cases "Seal b")
  have ok': "broker_inv b'" "keyed b'" using Seal_inv [OF ok(1)] keyed_steps(4) [OF ok(2)] x by auto
  show ?thesis
  proof (cases x)
    case (Inl e)
    then show ?thesis using x t ok'
      by (intro broken [where e = "SRelay e" and t = t and b = b and b' = b']) (auto simp: sealTools_def)
  next
    case (Inr sel)
    note k = keyed_sealed [OF ok x [unfolded Inr]]
    show ?thesis
    proof (cases "Complete mac (tplan t) (fst (assistantContent (rtext r) (Calls sel)))")
      case None
      then show ?thesis using x Inr t ok'
        by (intro broken [where e = SProtocol and t = t and b = b and b' = b'])
           (auto simp: sealTools_def assistantContent_def)
    next
      case (Some pend)
      then show ?thesis using x Inr t ok' k
        by (intro batched [where sel = sel and t = t and b' = b' and pend = pend])
           (auto simp: sealTools_def assistantContent_def)
    qed
  qed
qed

lemma next_tools_inv:
  assumes inv: "system_inv (d, r)" and r: "rbatch r = 0" and n: "next_tools mac r d = (x, r', d')"
  shows "system_inv (d', r')"
  using inv
proof (cases rule: sealTools_cases [where mac = mac])
  case refused
  with n inv show ?thesis by (simp add: next_tools_def)
next
  case (broken e t b b')
  have "system_inv (set_broker t b' d, r)"
  proof (rule system_inv_update [OF inv])
    show "turn_inv (set_broker t b' d) r (t\<lparr>tbroker := Some b'\<rparr>)"
      using system_inv_turn [OF inv broken(2)] broken(4-6) r by (auto simp: turn_inv_def turn_ok_def set_broker_def)
  qed (simp_all add: set_broker_def)
  with n broken(1) show ?thesis by (simp add: next_tools_def)
next
  case (batched sel t b' pend)
  obtain t' where t': "current_turn d' = Some t'" "turn_no t' = turn_no t" "tbroker t' = Some b'" "lastIDs t' = map UseId (Calls sel)"
    and d': "dclosed d' = dclosed d" "dstate d' = dstate d" and r': "r' = r\<lparr>rbatch := Number sel\<rparr>"
    using n batched(1) by (auto simp: next_tools_def split: option.splits)
  show ?thesis
  proof (rule system_inv_update [OF inv _ t'(1) d'])
    show "turn_inv d' r' t'"
      using system_inv_turn [OF inv batched(2)] t' d' r' batched(3-7) by (auto simp: turn_inv_def turn_ok_def batch_held_def)
  qed
qed

lemma round_end_inv: "system_inv (d, r) \<Longrightarrow> round_end stop r d = (x, r', d') \<Longrightarrow> system_inv (d', r')"
  by (auto simp: round_end_def system_inv_def turn_inv_def turn_ok_def batch_held_def split: option.splits if_splits)

lemma cancel_inv:
  assumes "system_inv (d, r)" "cancel_round r deadline auth failed now d = (r', d', es)"
  shows "system_inv (d', r')"
proof (cases "rdone r \<or> \<not> is_current d (round_turn r)")
  case True
  have "turn_no t = round_turn r" if "current_turn d = Some t" for t using system_inv_turn [OF assms(1) that] by (simp add: turn_inv_def)
  with True assms show ?thesis
    by (auto simp: cancel_round_def abort_def is_current_def system_inv_def split: option.splits if_splits)
next
  case False
  then show ?thesis
    using assms abort_current [OF assms(1), of "round_turn r" SCanceled deadline auth failed now r'] by (auto simp: cancel_round_def)
qed

lemma complete_turn_inv:
  assumes "system_inv (d, r)" "is_current d n"
  shows "system_inv (fst (complete_turn mac n tx deadline auth failed now d), r')"
  using assms abort_current [OF assms, of SProtocol deadline auth failed now r']
  by (auto simp: complete_turn_def system_inv_def is_current_def split: option.splits)

text \<open>A turn that is not current leaves nothing for its round to settle.\<close>

lemma idle_round:
  assumes "system_inv (d, r)" "\<not> is_current d (round_turn r)"
  shows "current_turn d = None"
  using assms by (auto simp: system_inv_def turn_inv_def is_current_def split: option.splits)

lemma no_turn_inv: "system_inv (d, r) \<Longrightarrow> current_turn d = None \<Longrightarrow> system_inv (d, r')"
  by (simp add: system_inv_def)

lemma settle_no_turn:
  assumes "current_turn d = None"
  shows "abort n reason deadline auth failed now d = (d, [])" "complete_turn mac n tx deadline auth failed now d = (d, [])"
  using assms by (simp_all add: abort_def complete_turn_def)

lemma Delivered_held:
  assumes "Delivered n b = (None, b')"
  shows "err b' = None \<and> sealed b' = sealed b \<and> delivered b' \<and> err b = None"
  using assms by (auto simp: Delivered_def split: if_splits)

lemma Delivered_refused: "Delivered n b = (Some e, b') \<Longrightarrow> b' = b"
  by (auto simp: Delivered_def split: if_splits)

lemma round_delivered_inv:
  assumes inv: "system_inv (d, r)" and c: "current_turn d = Some t" and b: "tbroker t = Some b" "Delivered (rbatch r) b = (None, b')"
    and n: "\<not> rdone r" "rbatch r \<noteq> 0" "\<not> dclosed d"
  shows "system_inv (d\<lparr>dstate := WaitingTools, current_turn := Some (t\<lparr>tbroker := Some b', delivery := False\<rparr>)\<rparr>, r\<lparr>rdone := True\<rparr>)"
proof -
  note t = system_inv_turn [OF inv c]
  have "broker_inv b" "keyed b" using t b by (auto simp: turn_inv_def turn_ok_def)
  then have "broker_inv b'" "keyed b'" using Delivered_inv [of b] keyed_steps(5) [of b] b(2) by (metis snd_conv)+
  then show ?thesis
    using t inv b n Delivered_held [OF b(2)]
    by (auto simp: system_inv_def turn_inv_def turn_ok_def batch_held_def)
qed

lemma Finish_inv:
  assumes inv: "system_inv (d, r)" and f: "Finish mac r deadline auth failed now d = (r', d', es)"
  shows "system_inv (d', r')"
proof (cases "rsuccess r \<and> \<not> rdone r")
  case False
  with f inv cancel_inv [OF inv] show ?thesis by (auto simp: Finish_def split: if_splits)
next
  case True
  then have r': "r' = r\<lparr>rdone := True\<rparr>" using f by (auto simp: Finish_def)
  show ?thesis
  proof (cases "is_current d (round_turn r)")
    case False
    note c = idle_round [OF inv False]
    with f True False have "d' = d" by (auto simp: Finish_def settle_no_turn split: if_splits)
    with no_turn_inv [OF inv c] show ?thesis by simp
  next
    case cur: True
    then obtain t where c: "current_turn d = Some t" "turn_no t = round_turn r" by (auto simp: is_current_def)
    note tv = system_inv_turn [OF inv c(1)]
    show ?thesis
    proof (cases "rbatch r = 0 \<or> dclosed d")
      case True
      with f \<open>rsuccess r \<and> \<not> rdone r\<close> cur complete_turn_inv [OF inv cur] abort_current [OF inv cur]
      show ?thesis by (auto simp: Finish_def r' split: if_splits) (metis fst_conv)+
    next
      case False
      then obtain b where b: "tbroker t = Some b" using tv by (auto simp: turn_inv_def batch_held_def)
      obtain x b' where x: "Delivered (rbatch r) b = (x, b')" by (cases "Delivered (rbatch r) b")
      show ?thesis
      proof (cases x)
        case None
        with round_delivered_inv [OF inv c(1) b] x True False f cur c b show ?thesis by (auto simp: Finish_def r')
      next
        case (Some e)
        define d0 where "d0 = (set_broker t b' d)\<lparr>dstate := WaitingTools\<rparr>"
        have "current_turn d0 = Some (t\<lparr>tbroker := Some b'\<rparr>)" "dclosed d0 = dclosed d" "dstate d0 = WaitingTools"
          by (simp_all add: d0_def set_broker_def)
        moreover have "(d', es) = abort (round_turn r) (SRelay e) deadline auth failed now d0"
          using x Some True False f cur c b by (auto simp: Finish_def d0_def)
        ultimately show ?thesis using c False by (auto simp: abort_def system_inv_def Let_def)
      qed
    qed
  qed
qed

subsection \<open>Continuing, recreating and closing\<close>

text \<open>What the invariant does not read.\<close>

lemma system_inv_frame:
  assumes "system_inv (d, r)" "dstate d' = dstate d" "current_turn d' = current_turn d" "dclosed d' = dclosed d"
  shows "system_inv (d', r)"
  using assms by (auto simp: system_inv_def turn_inv_def split: option.splits)

lemma measured_frame:
  assumes "measured emac q d = (est, d')"
  shows "dstate d' = dstate d \<and> current_turn d' = current_turn d \<and> dclosed d' = dclosed d \<and> outcome d' = outcome d"
  using assms by (auto simp: measured_def split: option.splits prod.splits)

lemma set_broker_same: "current_turn d = Some t \<Longrightarrow> tbroker t = Some b \<Longrightarrow> set_broker t b d = d"
  by (simp add: set_broker_def)

lemma Resolve_error: "Resolve owner rs b = (Some e, b') \<Longrightarrow> b' = b"
  by (auto simp: Resolve_def Let_def split: option.splits if_splits)

lemma Abandon_error: "Abandon owner rs b = (Some e, b') \<Longrightarrow> b' = b"
  by (auto simp: Abandon_def split: option.splits if_splits)

definition resumed_turn :: "turn \<Rightarrow> plan \<Rightarrow> input_estimate \<Rightarrow> broker \<Rightarrow> turn" where
  "resumed_turn t p est b = t\<lparr>tplan := p, inputEstimate := est, pendingHistory := empty_snapshot, lastIDs := [], tbroker := Some b\<rparr>"

lemma resume_waiting_cases:
  assumes "turn_ok t" "current_turn d = Some t"
  obtains (refused) e where "resume_waiting h stamp converted est q results t d = (Inl e, d)"
  | (taken) p b b' where "tcompat t = stamp" "continuationPlan (h_mac h) (pendingHistory t) q results = Some p"
      "tbroker t = Some b" "Resolve (Owner (creds b)) converted b = (None, b')"
      "resume_waiting h stamp converted est q results t d =
         (Inr (turn_no t), d\<lparr>dstate := Prompting, current_turn := Some (resumed_turn t p est b')\<rparr>)"
proof (cases "\<exists>p b b'. results \<noteq> [] \<and> tcompat t = stamp \<and> continuationPlan (h_mac h) (pendingHistory t) q results = Some p
    \<and> tbroker t = Some b \<and> Resolve (Owner (creds b)) converted b = (None, b')")
  case True
  then obtain p b b' where "results \<noteq> []" "tcompat t = stamp" "continuationPlan (h_mac h) (pendingHistory t) q results = Some p"
    "tbroker t = Some b" "Resolve (Owner (creds b)) converted b = (None, b')" by blast
  then show ?thesis by (intro taken) (simp_all add: resume_waiting_def resumed_turn_def)
next
  case False
  then have "\<exists>e. resume_waiting h stamp converted est q results t d = (Inl e, d)"
    by (auto simp: resume_waiting_def set_broker_same [OF assms(2)] split: option.splits prod.splits dest!: Resolve_error)
  then show ?thesis using refused by blast
qed

lemma resume_waiting_inv:
  assumes inv: "system_inv (d, r)" and w: "dstate d = WaitingTools" "current_turn d = Some t"
    and s: "resume_waiting h stamp converted est q results t d = (x, d')"
  shows "system_inv (d', case x of Inl _ \<Rightarrow> r | Inr n \<Rightarrow> new_round n)"
proof -
  have ok: "turn_ok t" using system_inv_turn [OF inv w(2)] by (simp add: turn_inv_def)
  show ?thesis
    using ok w(2)
  proof (cases rule: resume_waiting_cases [of t d h stamp converted est q results])
    case refused
    with s inv show ?thesis by auto
  next
    case (taken p b b')
    have "broker_inv b" "keyed b" using ok taken(3) by (simp_all add: turn_ok_def)
    then have "broker_inv b'" "keyed b'"
      using Resolve_inv [of b "Owner (creds b)" converted] keyed_Resolve [of b "Owner (creds b)" converted] taken(4) by auto
    then show ?thesis using taken(5) s inv w(1)
      by (auto simp: system_inv_def turn_inv_def turn_ok_def new_round_def resumed_turn_def)
  qed
qed

lemma resume_inv:
  assumes inv: "system_inv (d, r)" and s: "resume h reg q results ctx now d = (x, d')"
  shows "system_inv (d', case x of Inl _ \<Rightarrow> r | Inr n \<Rightarrow> new_round n)"
proof (cases "\<exists>e. x = Inl e \<and> dstate d' = dstate d \<and> current_turn d' = current_turn d \<and> dclosed d' = dclosed d")
  case True
  then show ?thesis using system_inv_frame [OF inv] by auto
next
  case False
  obtain est d1 where m: "measured (h_estimate h) q d = (est, d1)" by (cases "measured (h_estimate h) q d")
  note f = measured_frame [OF m]
  obtain stamp converted t where w: "dstate d = WaitingTools" "current_turn d = Some t"
    "resume_waiting h stamp converted est q results t (d1\<lparr>outcome := live_outcome now d1\<rparr>) = (x, d')"
    using s False f by (auto simp: resume_def m Let_def split: option.splits if_splits bool.splits)
  have "system_inv (d1\<lparr>outcome := live_outcome now d1\<rparr>, r)" using system_inv_frame [OF inv] f by simp
  from resume_waiting_inv [OF this _ _ w(3)] w f show ?thesis by simp
qed

lemma forget_outcome: "system_inv (d, r) \<Longrightarrow> system_inv (d\<lparr>outcome := None\<rparr>, r)"
  by (erule system_inv_frame) simp_all

lemma denial_inv:
  assumes inv: "system_inv (d, r)" and s: "restartAfterDenial h reg q results ctx deadline auth failed now d = (x, d', es)"
  shows "system_inv (d', r)"
  using s inv
  by (auto simp: restartAfterDenial_def split: denial.splits option.splits if_splits prod.splits
      dest!: abort_any' [OF inv] intro!: forget_outcome)

lemma recreation_inv:
  assumes inv: "system_inv (d, r)" and s: "restartForContinuation h reg q results fits ctx deadline auth failed now d = (x, d', es)"
  shows "system_inv (d', r)"
proof -
  have ab: "system_inv (d1, r)" if "current_turn d = Some t" "abort (turn_no t) SCanceled deadline auth failed now (set_broker t b' d) = (d1, es')"
    for t b' d1 es'
    using that inv by (auto simp: abort_def set_broker_def system_inv_def Let_def)
  consider "d' = d"
    | t b b' d1 es' where "current_turn d = Some t" "abort (turn_no t) SCanceled deadline auth failed now (set_broker t b' d) = (d1, es')"
        "d' = d1 \<or> d' = d1\<lparr>outcome := None\<rparr>"
    using s by (auto simp: restartForContinuation_def set_broker_same
        split: option.splits sum.splits bool.splits recreation.splits prod.splits if_splits dest!: Abandon_error)
  then show ?thesis
    using inv ab forget_outcome by cases blast+
qed

lemma Close_driver_inv: "system_inv (d, r) \<Longrightarrow> system_inv (fst (Close_driver deadline auth failed now d), r)"
  by (auto simp: Close_driver_def abort_def system_inv_def Let_def split: option.splits)

text \<open>Every step keeps the invariant.\<close>

lemma driver_step_inv:
  assumes "driver_step h s s'" "system_inv s"
  shows "system_inv s'"
  using assms
proof (induction rule: driver_step.induct)
  case (ready d r)
  then show ?case by (auto simp: system_inv_def turn_inv_def split: option.splits)
next
  case (prompt_failed d t lapsed e d' r)
  with begin_prompt_inv [of d r t lapsed "Inl e" d'] show ?case by auto
next
  case (prompted d t lapsed n d' r)
  with begin_prompt_inv [of d r t lapsed "Inr n" d'] show ?case by auto
next
  case (refused reg q results ctx now d e d' r)
  with resume_inv [of d r h reg q results ctx now "Inl e" d'] show ?case by auto
next
  case (resumed reg q results ctx now d n d' r)
  with resume_inv [of d r h reg q results ctx now "Inr n" d'] show ?case by auto
next
  case (discarded d r failed)
  then show ?case by (intro discard_inv) (simp add: system_inv_def)
qed (blast intro: begin_setup_inv relay_step_inv notify_inv next_tools_inv round_end_inv Finish_inv cancel_inv abort_any
      denial_inv recreation_inv Close_driver_inv)+

definition fresh_system :: "system \<Rightarrow> bool" where
  "fresh_system s \<longleftrightarrow> (\<exists>e scope most r. s = (newDriver e scope most, r))"

lemma fresh_system_inv: "fresh_system s \<Longrightarrow> system_inv s"
  by (auto simp: fresh_system_def newDriver_def system_inv_def)

interpretation dr: invariant_machine fresh_system "driver_step h" system_inv
  by unfold_locales (auto dest: fresh_system_inv driver_step_inv)

end
