(* ===== verification/Driver_Props.thy ===== *)
theory Driver_Props
  imports Driver_Inv Broker_Props History_Props "HOL-Library.Multiset"
begin

text \<open>The properties of the session driver, with their witnesses.\<close>

subsection \<open>Result identifiers\<close>

lemma match_ids_mset: "distinct left \<Longrightarrow> match_ids left rs = Some [] \<longleftrightarrow> mset (map ToolID rs) = mset left"
proof (induction rs arbitrary: left)
  case (Cons r rs)
  show ?case
  proof (cases "ToolID r \<in> set left")
    case True
    have e: "mset (removeAll (ToolID r) left) = mset left - {#ToolID r#}"
      using Cons.prems by (simp add: distinct_remove1_removeAll [symmetric])
    have "mset (map ToolID (r # rs)) = mset left \<longleftrightarrow> mset (map ToolID rs) = mset left - {#ToolID r#}"
      using True by (metis add_mset_remove_trivial insert_DiffM list.simps(9) mset.simps(2) set_mset_mset)
    then show ?thesis using Cons.IH [of "removeAll (ToolID r) left"] Cons.prems True e by (simp add: distinct_removeAll)
  next
    case False
    then have "mset (map ToolID (r # rs)) \<noteq> mset left" by (metis list.set_intros(1) list.simps(9) set_mset_mset)
    then show ?thesis using False by simp
  qed
qed (auto simp: eq_commute)

lemma same_ids_distinct:
  assumes "sameResultIDs ids results"
  shows "distinct ids"
proof -
  have "mset (map ToolID results) = mset (remdups ids)" "length ids = length results"
    using assms match_ids_mset [of "remdups ids" results] by (auto simp: sameResultIDs_def)
  then have "length (remdups ids) = length ids" by (metis length_map size_mset)
  then show ?thesis by (metis length_remdups_eq remdups_id_iff_distinct)
qed

text \<open>
  The identifiers of a request's results match a delivered batch exactly when the batch is not empty, has no
  repeated identifier, and the results answer every call of it once, in any order.
\<close>

theorem same_result_ids_iff:
  "sameResultIDs ids results \<longleftrightarrow> ids \<noteq> [] \<and> distinct ids \<and> mset (map ToolID results) = mset ids"
proof
  assume a: "sameResultIDs ids results"
  with same_ids_distinct [OF a] match_ids_mset [of ids results] show "ids \<noteq> [] \<and> distinct ids \<and> mset (map ToolID results) = mset ids"
    by (simp add: sameResultIDs_def distinct_remdups_id)
next
  assume a: "ids \<noteq> [] \<and> distinct ids \<and> mset (map ToolID results) = mset ids"
  then have "length (map ToolID results) = length ids" by (metis size_mset)
  with a match_ids_mset [of ids results] show "sameResultIDs ids results"
    by (simp add: sameResultIDs_def distinct_remdups_id)
qed

subsection \<open>The state of the driver\<close>

lemma reachable_system: "fresh_system s \<Longrightarrow> (driver_step h)\<^sup>*\<^sup>* s s' \<Longrightarrow> system_inv s'"
  by (rule dr.reachable_inv)


subsection \<open>Resuming a suspended turn\<close>

lemma relayResults_ids: "relayResults results = Some converted \<Longrightarrow> map fst converted = map ToolID results"
proof -
  have "all_some (map relay_result rs) = Some cs \<Longrightarrow> map fst cs = map ToolID rs" for rs cs
    by (induction rs arbitrary: cs) (auto simp: relay_result_def split: bind_splits option.splits)
  then show "relayResults results = Some converted \<Longrightarrow> map fst converted = map ToolID results"
    by (simp add: relayResults_def split: if_splits)
qed

lemma resume_success:
  assumes "resume h reg q results ctx now d = (Inr n, d')"
  obtains stamp converted est d1 t where "compatibility (h_sha h) q reg = Some stamp" "relayResults results = Some converted"
    "dstate d = WaitingTools" "current_turn d = Some t" "current_turn d1 = Some t"
    "resume_waiting h stamp converted est q results t d1 = (Inr n, d')"
proof -
  obtain est d0 where m: "measured (h_estimate h) q d = (est, d0)" by (cases "measured (h_estimate h) q d")
  note f = measured_frame [OF m]
  obtain stamp converted t where "compatibility (h_sha h) q reg = Some stamp" "relayResults results = Some converted"
    "dstate d = WaitingTools" "current_turn d = Some t"
    "resume_waiting h stamp converted est q results t (d0\<lparr>outcome := live_outcome now d0\<rparr>) = (Inr n, d')"
    using assms f by (auto simp: resume_def m Let_def split: option.splits if_splits bool.splits)
  with f show ?thesis
    by (intro that [where stamp = stamp and converted = converted and t = t and est = est
          and ?d1.0 = "d0\<lparr>outcome := live_outcome now d0\<rparr>"]) simp_all
qed

lemma Resolve_sends:
  assumes inv: "broker_inv b" and r: "Resolve owner rs b = (None, b')"
  shows "err b = None \<and> delivered b \<and> distinct (sealed b) \<and> distinct (map fst rs) \<and> set (sealed b) = set (map fst rs)
    \<and> (\<forall>i \<in> set (sealed b). map_of (pending b') i = None \<and> chan b' (pending_handle b i) = [the (map_of rs i)])"
  using inv
proof (cases rule: Resolve_cases [of b owner rs])
  case rejected
  with r show ?thesis by simp
next
  case (resolved b'')
  have e: "b'' = b'" using r resolved(1) by simp
  have sub: "set (sealed b) \<subseteq> fst ` set (pending b)" "distinct (sealed b)" and ic: "inv_chan b"
    using inv by (auto simp: inv_defs)
  have "map_of (pending b') i = None \<and> chan b' (pending_handle b i) = [the (map_of rs i)]" if i: "i \<in> set (sealed b)" for i
  proof -
    obtain p where p: "map_of (pending b) i = Some p" using sub(1) i by (cases "map_of (pending b) i") (auto simp: map_of_eq_None_iff)
    have "chan b (handle p) = []" using ic map_of_SomeD [OF p] by (force simp: inv_chan_def handles_def)
    with fold_send_same [OF pending_handle_distinct [OF inv sub(2,1)] i] p
    show ?thesis using i unfolding e [symmetric] resolved(7) by (simp add: map_of_filter_keys)
  qed
  with resolved(2-6) sub(2) show ?thesis by simp
qed

lemma resumed_turn_simps:
  "turn_no (resumed_turn t p est b) = turn_no t" "lastIDs (resumed_turn t p est b) = []" "tbroker (resumed_turn t p est b) = Some b"
  by (simp_all add: resumed_turn_def)

text \<open>
  C20: A request resumes a suspended turn only in the waiting state, with the turn's own compatibility stamp and with
  results that answer the delivered batch: every identifier of it once and no other. Then each suspended call of the
  batch has been sent exactly its own result, none of them is suspended any more, and the driver prompts again
  with no batch outstanding.
\<close>

theorem resume_answers_delivered_batch:
  assumes "fresh_system s" and "(driver_step h)\<^sup>*\<^sup>* s (d, r)"
    and "resume h reg q results ctx now d = (Inr n, d')"
  shows "\<exists>t b t' b' converted. dstate d = WaitingTools \<and> current_turn d = Some t \<and> turn_no t = n \<and> tbroker t = Some b
     \<and> compatibility (h_sha h) q reg = Some (tcompat t)
     \<and> sealed b = lastIDs t \<and> delivered b \<and> mset (map ToolID results) = mset (lastIDs t)
     \<and> dstate d' = Prompting \<and> current_turn d' = Some t' \<and> turn_no t' = n \<and> lastIDs t' = [] \<and> tbroker t' = Some b'
     \<and> relayResults results = Some converted
     \<and> (\<forall>i \<in> set (lastIDs t). map_of (pending b') i = None
          \<and> chan b' (pending_handle b i) = [the (map_of converted i)])"
proof -
  have inv: "system_inv (d, r)" using assms(1,2) by (rule reachable_system)
  obtain stamp converted est d1 t where r: "compatibility (h_sha h) q reg = Some stamp" "relayResults results = Some converted"
    "dstate d = WaitingTools" "current_turn d = Some t" "current_turn d1 = Some t"
    "resume_waiting h stamp converted est q results t d1 = (Inr n, d')"
    using assms(3) by (rule resume_success)
  have tv: "turn_ok t" "batch_held t True" using system_inv_turn [OF inv r(4)] r(3) by (auto simp: turn_inv_def)
  show ?thesis
    using tv(1) r(5)
  proof (cases rule: resume_waiting_cases [of t d1 h stamp converted est q results])
    case refused
    with r(6) show ?thesis by simp
  next
    case (taken p b b')
    have b: "broker_inv b" using tv(1) taken(3) by (simp add: turn_ok_def)
    note sends = Resolve_sends [OF b taken(4)]
    have held: "sealed b = lastIDs t" "delivered b" using tv(2) taken(3) sends by (auto simp: batch_held_def)
    have ids: "set (map ToolID results) = set (lastIDs t)" "distinct (map ToolID results)" "distinct (lastIDs t)"
      using sends held(1) unfolding relayResults_ids [OF r(2), symmetric] by simp_all
    have ms: "mset (map ToolID results) = mset (lastIDs t)"
      using set_eq_iff_mset_eq_distinct [OF ids(2,3)] ids(1) by simp
    have e: "turn_no t = n" "dstate d' = Prompting" "current_turn d' = Some (resumed_turn t p est b')"
      using taken(5) r(6) by auto
    have all: "\<forall>i \<in> set (lastIDs t). map_of (pending b') i = None \<and> chan b' (pending_handle b i) = [the (map_of converted i)]"
      using sends unfolding held(1) by blast
    show ?thesis
      by (rule exI [of _ t], rule exI [of _ b], rule exI [of _ "resumed_turn t p est b'"], rule exI [of _ b'], rule exI [of _ converted])
         (use r(1-4) taken(1,3) held ms all e in \<open>simp only: resumed_turn_simps simp_thms\<close>)
  qed
qed

subsection \<open>Retired outcomes\<close>

text \<open>The same continuation submitted at each of the given times.\<close>

primrec resubmit :: "hashes \<Rightarrow> registry option \<Rightarrow> request \<Rightarrow> tool_outcome list \<Rightarrow> int list \<Rightarrow> driver \<Rightarrow> (session_error + nat) list" where
  "resubmit h reg q results [] d = []"
| "resubmit h reg q results (now # ts) d = (case resume h reg q results None now d of (x, d') \<Rightarrow> x # resubmit h reg q results ts d')"

definition answers :: "hashes \<Rightarrow> registry option \<Rightarrow> request \<Rightarrow> tool_outcome list \<Rightarrow> terminal_outcome \<Rightarrow> bool" where
  "answers h reg q results oc \<longleftrightarrow> compatibility (h_sha h) q reg = Some (oc_compat oc) \<and> relayResults results \<noteq> None
     \<and> sameResultIDs (oc_ids oc) results \<and> continuationPlan (h_mac h) (oc_pending oc) q results \<noteq> None"

lemma resume_retired:
  assumes "dstate d = Unstarted" "outcome d = Some oc" "answers h reg q results oc"
  shows "\<exists>d'. resume h reg q results None now d = (if oc_expires oc < now then Inl SErrRequest else Inl (oc_err oc), d')
    \<and> dstate d' = Unstarted \<and> (now \<le> oc_expires oc \<longrightarrow> outcome d' = Some oc)"
proof -
  obtain est d1 where m: "measured (h_estimate h) q d = (est, d1)" by (cases "measured (h_estimate h) q d")
  note f = measured_frame [OF m]
  obtain converted where c: "relayResults results = Some converted" using assms(3) by (auto simp: answers_def)
  show ?thesis
    using assms f by (auto simp: resume_def m c answers_def live_outcome_def Let_def)
qed

lemma resubmit_retired:
  assumes "dstate d = Unstarted" "outcome d = Some oc" "answers h reg q results oc" "\<forall>x \<in> set ts. x \<le> oc_expires oc"
  shows "resubmit h reg q results ts d = replicate (length ts) (Inl (oc_err oc))"
  using assms(1,2,4)
proof (induction ts arbitrary: d)
  case (Cons now ts)
  then have "now \<le> oc_expires oc" by simp
  with resume_retired [OF Cons.prems(1,2) assms(3), of now] obtain d' where
    "resume h reg q results None now d = (Inl (oc_err oc), d')" "dstate d' = Unstarted" "outcome d' = Some oc" by auto
  with Cons.IH [of d'] Cons.prems(3) show ?case by simp
qed simp

text \<open>
  C21: When a turn that waits for results is settled by a failure, the failure answers every identical resubmission of
  the continuation for five minutes, each time the same way; after that the continuation is refused as a bad request.
\<close>

theorem retired_outcome_replayed:
  assumes "current_turn d = Some t" "\<not> dclosed d" "lastIDs t \<noteq> []"
    and "abort (turn_no t) reason deadline auth failed now d = (d1, es)"
    and "compatibility (h_sha h) q reg = Some (tcompat t)" "relayResults results \<noteq> None"
    and "sameResultIDs (lastIDs t) results" "continuationPlan (h_mac h) (pendingHistory t) q results \<noteq> None"
    and "\<forall>x \<in> set ts. x \<le> now + 300000000000" "now + 300000000000 < late"
  shows "resubmit h reg q results ts d1 = replicate (length ts) (Inl (if auth then SAuthentication else abortReason reason t deadline))
    \<and> fst (resume h reg q results None late d1) = Inl SErrRequest"
proof -
  define why where "why = (if auth then SAuthentication else abortReason reason t deadline)"
  define oc where "oc = \<lparr>oc_compat = tcompat t, oc_ids = lastIDs t, oc_pending = pendingHistory t, oc_err = why, oc_expires = now + 300000000000\<rparr>"
  have d1: "dstate d1 = Unstarted" "outcome d1 = Some oc"
    using assms(1-4) by (auto simp: abort_def Let_def oc_def why_def)
  have "answers h reg q results oc" using assms(5-8) by (simp add: answers_def oc_def)
  note resubmit_retired [OF d1 this, of ts] resume_retired [OF d1 this, of late]
  then show ?thesis using assms(9,10) by (auto simp: oc_def why_def)
qed

subsection \<open>A worked turn\<close>

text \<open>The worked session of the broker as a turn of the driver: prompted, suspended on one call, delivered.\<close>

definition ex_hashes :: hashes where
  "ex_hashes = \<lparr>h_sha = (\<lambda>_. replicate 32 (CHR ''k'')), h_mac = ex_mac, h_estimate = (\<lambda>_. replicate 32 (CHR ''k''))\<rparr>"

definition ex_tool_block :: block where
  "ex_tool_block = \<lparr>BType = ''tool_use'', BText = [], BRaw = tool_use_text ex_use, bmedia = None\<rparr>"

definition ex_result_block :: block where
  "ex_result_block = \<lparr>BType = ''tool_result'', BText = [],
     BRaw = ''{\"type\":\"tool_result\",\"tool_use_id\":\"toolu_YWJj\",\"content\":\"ok\"}'', bmedia = None\<rparr>"

definition ex_follow :: request where
  "ex_follow = ex_request\<lparr>Messages := [\<lparr>Role = ''user'', Content = [ex_text ''hi'']\<rparr>,
     \<lparr>Role = ''assistant'', Content = [ex_tool_block]\<rparr>, \<lparr>Role = ''user'', Content = [ex_result_block]\<rparr>]\<rparr>"

definition ex_outcome :: tool_outcome where
  "ex_outcome = \<lparr>ToolID = ex_id, ToolContent = [ex_text ''ok''], IsError = False\<rparr>"

definition ex_pend :: snapshot where "ex_pend = the (Complete ex_mac ex_plan [ex_tool_block])"

lemma ex_pend_eq: "Complete ex_mac ex_plan [ex_tool_block] = Some ex_pend"
  by code_simp

lemma ex_continues: "continuationPlan ex_mac ex_pend ex_follow [ex_outcome] \<noteq> None"
  by code_simp

lemma ex_compatible: "compatibility (h_sha ex_hashes) ex_follow None = Some (replicate 32 (CHR ''k''))"
  by code_simp

lemma ex_relay: "relayResults [ex_outcome] = Some [(ex_id, ex_result)]"
  by code_simp

definition ex_effort :: effort where
  "ex_effort = \<lparr>advertised = False, eavailable = False, knownUnsupported = [], rejected = [], applied = ([], []), estatus = unknown_status\<rparr>"

definition ex_turn :: "broker \<Rightarrow> turn" where
  "ex_turn b = \<lparr>turn_no = 0, session_id = ''s'', model_id = ''m'', tbroker = Some b, tcompat = replicate 32 (CHR ''k''), treuse = [],
     tpolicy = [], tplan = ex_plan, pendingHistory = empty_snapshot, lastIDs = [], started = 0, owned_deadline = 1000, recreations = 0,
     session_state = [], tmultiplier = None, teffort = unknown_status,
     tmetadata = \<lparr>ContextPercent = None, DurationMS = None, Metering = []\<rparr>, inputEstimate = no_input, previousEstimate = no_input,
     visibleOutput = no_output, progressTools = [], delivery = False\<rparr>"

definition ex_sealed :: "broker \<Rightarrow> bool \<Rightarrow> turn" where
  "ex_sealed b x = (ex_turn b)\<lparr>pendingHistory := ex_pend, lastIDs := [ex_id], delivery := x\<rparr>"

definition ex_driver :: "driver_state \<Rightarrow> turn \<Rightarrow> driver" where
  "ex_driver s t = (newDriver ex_effort None 1)\<lparr>dstate := s, current_turn := Some t, next_turn := 1\<rparr>"

definition ex_round :: "64 word \<Rightarrow> bool \<Rightarrow> bool \<Rightarrow> round" where
  "ex_round n x y = (new_round 0)\<lparr>rbatch := n, rterminal := x, rsuccess := x, rdone := y\<rparr>"

lemma ex_prompt:
  "begin_prompt None (ex_turn ex_b0) ((newDriver ex_effort None 1)\<lparr>dstate := Starting\<rparr>) = (Inr 0, ex_driver Prompting (ex_turn ex_b1))"
proof -
  have "BeginTurn ex_b0 = (None, ex_b1)" by (simp add: BeginTurn_def ex_b0_def ex_b1_simp outstanding_def)
  then show ?thesis by (simp add: begin_prompt_def newDriver_def ex_driver_def ex_turn_def)
qed

lemma ex_set_broker: "set_broker (ex_turn b) b' (ex_driver s (ex_turn b)) = ex_driver s (ex_turn b')"
  by (simp add: set_broker_def ex_driver_def ex_turn_def newDriver_def)

lemma ex_driver_turn:
  "current_turn (ex_driver s t) = Some t" "dstate (ex_driver s t) = s" "tbroker (ex_turn b) = Some b"
  by (simp_all add: ex_driver_def ex_turn_def)

lemma ex_seal: "Seal ex_b3 = (Inr \<lparr>Number = 1, Calls = [ex_use]\<rparr>, ex_b4)"
  by (simp add: ex_b4_def Seal_def ex_b3_fields Let_def MaxFrameBytes_def)

lemma ex_tools:
  "next_tools ex_mac (ex_round 0 False False) (ex_driver Prompting (ex_turn ex_b3))
   = (Inr [use_of ex_use], ex_round 1 False False, ex_driver Prompting (ex_sealed ex_b4 False))"
proof -
  have a: "assistantContent [] [ex_use] = ([ex_tool_block], [ex_id])"
    by (simp add: assistantContent_def ex_tool_block_def ex_use_def)
  show ?thesis
    using ex_pend_eq
    by (simp add: next_tools_def sealTools_def ex_driver_def ex_turn_def ex_sealed_def ex_round_def new_round_def newDriver_def ex_seal a)
qed

lemma ex_end:
  "round_end stop (ex_round 1 False False) (ex_driver Prompting (ex_sealed ex_b4 False))
   = (Inr stop, ex_round 1 True False, ex_driver Prompting (ex_sealed ex_b4 True))"
  by (simp add: round_end_def ex_driver_def ex_turn_def ex_sealed_def ex_round_def new_round_def newDriver_def)

lemma ex_finish:
  "Finish mac (ex_round 1 True False) deadline auth failed now (ex_driver Prompting (ex_sealed ex_b4 True))
   = (ex_round 1 True True, ex_driver WaitingTools (ex_sealed ex_b5 False), [])"
proof -
  have "Delivered 1 ex_b4 = (None, ex_b5)" by (simp add: Delivered_def ex_b5_simp ex_b4_simp ex_b3_fields)
  then show ?thesis
    by (simp add: Finish_def is_current_def ex_driver_def ex_turn_def ex_sealed_def ex_round_def new_round_def newDriver_def)
qed

definition ex_fresh :: system where "ex_fresh = (newDriver ex_effort None 1, new_round 0)"

lemma ex_fresh_system: "fresh_system ex_fresh"
  by (auto simp: fresh_system_def ex_fresh_def)

lemma ex_broker_ok: "broker_inv ex_b0 \<and> keyed ex_b0"
  using NewBroker_inv [OF ex_new] by (simp add: keyed_def ex_b0_def)

lemma ex_waiting: "(driver_step ex_hashes)\<^sup>*\<^sup>* ex_fresh (ex_driver WaitingTools (ex_sealed ex_b5 False), ex_round 1 True True)"
proof -
  let ?S = "driver_step ex_hashes"
  have r0: "new_round 0 = ex_round 0 False False" by (simp add: new_round_def ex_round_def)
  have s1: "?S ex_fresh ((newDriver ex_effort None 1)\<lparr>dstate := Starting\<rparr>, ex_round 0 False False)"
    using driver_step.started [of ex_hashes "newDriver ex_effort None 1" "ex_round 0 False False"]
    by (simp add: begin_setup_def newDriver_def ex_fresh_def r0)
  have s2: "?S ((newDriver ex_effort None 1)\<lparr>dstate := Starting\<rparr>, ex_round 0 False False)
      (ex_driver Prompting (ex_turn ex_b1), ex_round 0 False False)"
    using driver_step.prompted [where r = "ex_round 0 False False" and h = ex_hashes, OF _ _ ex_prompt] ex_broker_ok
    by (simp add: r0 fresh_turn_def ex_turn_def)
  have r: "?S (ex_driver Prompting (ex_turn b), r) (ex_driver Prompting (ex_turn b'), r)" if "relay_step b b'" for b b' r
    using driver_step.relayed [where d = "ex_driver Prompting (ex_turn b)" and t = "ex_turn b" and h = ex_hashes and r = r] that
    by (metis (no_types) ex_set_broker ex_driver_turn)
  have s3: "relay_step ex_b1 ex_b2" unfolding ex_b2_def by (rule relay_step.admit)
  have s4: "relay_step ex_b2 ex_b3"
    unfolding ex_b3_def by (rule relay_step.commit) (auto simp: ex_b2_simp ex_b1_simp ex_b0_def fresh_entropy_def ex_call_def)
  have h: "h_mac ex_hashes = ex_mac" by (simp add: ex_hashes_def)
  have s5: "?S (ex_driver Prompting (ex_turn ex_b3), ex_round 0 False False) (ex_driver Prompting (ex_sealed ex_b4 False), ex_round 1 False False)"
    by (rule driver_step.tools [OF _ _ ex_tools [folded h]]) (simp_all add: ex_round_def new_round_def)
  note s6 = driver_step.ended [where h = ex_hashes, OF ex_end [of "''tool_use''"]]
  note s7 = driver_step.finished [where h = ex_hashes, OF ex_finish]
  show ?thesis
    by (rule rtranclp.rtrancl_into_rtrancl [of ?S, OF _ s7], rule rtranclp.rtrancl_into_rtrancl [of ?S, OF _ s6],
        rule rtranclp.rtrancl_into_rtrancl [of ?S, OF _ s5], rule rtranclp.rtrancl_into_rtrancl [of ?S, OF _ r [OF s4]],
        rule rtranclp.rtrancl_into_rtrancl [of ?S, OF _ r [OF s3]], rule rtranclp.rtrancl_into_rtrancl [of ?S, OF _ s2],
        rule rtranclp.rtrancl_into_rtrancl [of ?S, OF _ s1], rule rtranclp.rtrancl_refl)
qed


lemma ex_resolved: "fst (Resolve ex_owner [(ex_id, ex_result)] ex_b5) = None"
proof -
  have "prepare_loop [] 0 [(ex_id, ex_result)] = Some [(ex_id, ex_result)]" by code_simp
  then show ?thesis
    by (simp add: Resolve_def prepareResults_def matchesDelivered_def ex_b5_simp ex_b4_simp ex_b3_simp suspend_def
        ex_b2_simp ex_b1_simp ex_b0_def default_limits_def ex_limits_def has_key_def Let_def)
qed

lemma ex_resumed:
  "\<exists>d'. resume ex_hashes None ex_follow [ex_outcome] None 5 (ex_driver WaitingTools (ex_sealed ex_b5 False)) = (Inr 0, d')"
proof -
  let ?d = "ex_driver WaitingTools (ex_sealed ex_b5 False)"
  obtain b' where b': "Resolve ex_owner [(ex_id, ex_result)] ex_b5 = (None, b')"
    using ex_resolved by (cases "Resolve ex_owner [(ex_id, ex_result)] ex_b5") auto
  have o: "Owner (creds ex_b5) = ex_owner"
    by (simp add: ex_b5_simp ex_b4_simp ex_b3_simp suspend_def ex_b2_simp ex_b1_simp ex_b0_def)
  have t: "tbroker (ex_sealed ex_b5 False) = Some ex_b5" "tcompat (ex_sealed ex_b5 False) = replicate 32 (CHR ''k'')"
    "pendingHistory (ex_sealed ex_b5 False) = ex_pend" "turn_no (ex_sealed ex_b5 False) = 0"
    by (simp_all add: ex_sealed_def ex_turn_def)
  have h: "h_mac ex_hashes = ex_mac" by (simp add: ex_hashes_def)
  obtain p where p: "continuationPlan ex_mac ex_pend ex_follow [ex_outcome] = Some p" using ex_continues by auto
  have w: "\<exists>d'. resume_waiting ex_hashes (replicate 32 (CHR ''k'')) [(ex_id, ex_result)] est ex_follow [ex_outcome]
      (ex_sealed ex_b5 False) d = (Inr 0, d')" for est d
    unfolding resume_waiting_def t h p o option.case b' prod.case by simp
  have m: "measured mac q ?d = (no_input, ?d)" for mac q by (simp add: measured_def ex_driver_def newDriver_def)
  show ?thesis
    unfolding resume_def ex_compatible ex_relay prod.case option.case m Let_def
    using w by (simp add: ex_driver_turn)
qed

theorem resume_answers_delivered_batch_witness:
  "\<exists>t' b'. current_turn (snd (resume ex_hashes None ex_follow [ex_outcome] None 5 (ex_driver WaitingTools (ex_sealed ex_b5 False)))) = Some t'
     \<and> lastIDs t' = [] \<and> tbroker t' = Some b' \<and> map_of (pending b') ex_id = None"
proof -
  obtain d' where r: "resume ex_hashes None ex_follow [ex_outcome] None 5 (ex_driver WaitingTools (ex_sealed ex_b5 False)) = (Inr 0, d')"
    using ex_resumed by blast
  from resume_answers_delivered_batch [OF ex_fresh_system ex_waiting r] obtain t t' b' where
    t: "current_turn (ex_driver WaitingTools (ex_sealed ex_b5 False)) = Some t" "current_turn d' = Some t'" "lastIDs t' = []"
      "tbroker t' = Some b'" "\<forall>i \<in> set (lastIDs t). map_of (pending b') i = None" by blast
  have "ex_id \<in> set (lastIDs t)" using t(1) by (auto simp: ex_driver_turn ex_sealed_def)
  with t r show ?thesis by simp
qed

theorem retired_outcome_replayed_witness:
  "resubmit ex_hashes None ex_follow [ex_outcome] [0, 7]
     (fst (abort 0 SProtocol False False False 0 (ex_driver WaitingTools (ex_sealed ex_b5 False)))) = [Inl SProtocol, Inl SProtocol]"
proof -
  let ?d = "ex_driver WaitingTools (ex_sealed ex_b5 False)"
  have s: "lastIDs (ex_sealed ex_b5 False) = [ex_id]" "turn_no (ex_sealed ex_b5 False) = 0"
    "tcompat (ex_sealed ex_b5 False) = replicate 32 (CHR ''k'')" "pendingHistory (ex_sealed ex_b5 False) = ex_pend"
    "tbroker (ex_sealed ex_b5 False) = Some ex_b5"
    by (simp_all add: ex_sealed_def ex_turn_def)
  have e: "err ex_b5 = None" by (simp add: ex_b5_simp ex_b4_simp ex_b3_fields)
  have "resubmit ex_hashes None ex_follow [ex_outcome] [0, 7] (fst (abort (turn_no (ex_sealed ex_b5 False)) SProtocol False False False 0 ?d))
      = replicate (length [0, 7 :: int]) (Inl (if False then SAuthentication else abortReason SProtocol (ex_sealed ex_b5 False) False))
      \<and> fst (resume ex_hashes None ex_follow [ex_outcome] None 300000000001 (fst (abort (turn_no (ex_sealed ex_b5 False)) SProtocol False False False 0 ?d))) = Inl SErrRequest"
    by (rule retired_outcome_replayed [where now = 0 and es = "snd (abort (turn_no (ex_sealed ex_b5 False)) SProtocol False False False 0 ?d)"])
       (use ex_continues ex_relay ex_compatible in \<open>simp_all add: s ex_driver_turn ex_outcome_def sameResultIDs_def
          ex_driver_def newDriver_def ex_hashes_def\<close>)
  then show ?thesis by (simp add: s abortReason_def e)
qed

end
