(* ===== verification/GoRegexp.thy ===== *)
theory GoRegexp
  imports GoRunes
begin

text \<open>
  The part of Go's \<open>regexp\<close> the program uses: searching a text, rune by rune, for an expression built from
  classes, sequences, alternatives, options, repetitions and the assertions \<open>^\<close>, \<open>$\<close> and \<open>\b\<close>. The meaning is an
  inductive relation; the executable search is proved to decide it.
\<close>

datatype rx =
    Cls "(nat \<times> nat) list"   \<comment> \<open>one rune in one of the ranges\<close>
  | Seq rx rx
  | Alt rx rx
  | Opt rx
  | Plus rx
  | Bol
  | Eol
  | Wordb

definition in_cls :: "nat \<Rightarrow> (nat \<times> nat) list \<Rightarrow> bool" where
  "in_cls c rs = list_ex (\<lambda>(lo, hi). lo \<le> c \<and> c \<le> hi) rs"

definition word_rune :: "nat \<Rightarrow> bool" where
  "word_rune c = in_cls c [(48, 57), (65, 90), (95, 95), (97, 122)]"

text \<open>A position of the text: the rune before it, and the runes from it on.\<close>

type_synonym rx_pos = "nat option \<times> nat list"

definition at_word_boundary :: "rx_pos \<Rightarrow> bool" where
  "at_word_boundary p =
     ((case fst p of None \<Rightarrow> False | Some c \<Rightarrow> word_rune c) \<noteq> (case snd p of [] \<Rightarrow> False | c # _ \<Rightarrow> word_rune c))"

subsection \<open>Meaning\<close>

inductive rx_rel :: "rx \<Rightarrow> rx_pos \<Rightarrow> rx_pos \<Rightarrow> bool" where
  cls: "in_cls c rs \<Longrightarrow> rx_rel (Cls rs) (p, c # xs) (Some c, xs)"
| seq: "rx_rel a s t \<Longrightarrow> rx_rel b t u \<Longrightarrow> rx_rel (Seq a b) s u"
| alt_left: "rx_rel a s t \<Longrightarrow> rx_rel (Alt a b) s t"
| alt_right: "rx_rel b s t \<Longrightarrow> rx_rel (Alt a b) s t"
| opt_none: "rx_rel (Opt a) s s"
| opt_some: "rx_rel a s t \<Longrightarrow> rx_rel (Opt a) s t"
| plus_one: "rx_rel a s t \<Longrightarrow> rx_rel (Plus a) s t"
| plus_more: "rx_rel a s t \<Longrightarrow> rx_rel (Plus a) t u \<Longrightarrow> rx_rel (Plus a) s u"
| bol: "rx_rel Bol (None, xs) (None, xs)"
| eol: "rx_rel Eol (p, []) (p, [])"
| wordb: "at_word_boundary s \<Longrightarrow> rx_rel Wordb s s"

inductive_cases rx_rel_Cls [elim!]: "rx_rel (Cls rs) s t"
inductive_cases rx_rel_Seq [elim!]: "rx_rel (Seq a b) s t"
inductive_cases rx_rel_Alt [elim!]: "rx_rel (Alt a b) s t"
inductive_cases rx_rel_Opt [elim!]: "rx_rel (Opt a) s t"
inductive_cases rx_rel_Bol [elim!]: "rx_rel Bol s t"
inductive_cases rx_rel_Eol [elim!]: "rx_rel Eol s t"
inductive_cases rx_rel_Wordb [elim!]: "rx_rel Wordb s t"

text \<open>A match consumes runes or leaves the position as it is.\<close>

lemma rx_rel_progress: "rx_rel r s t \<Longrightarrow> t = s \<or> length (snd t) < length (snd s)"
  by (induction rule: rx_rel.induct) auto

subsection \<open>Search\<close>

function rx_ends :: "rx \<Rightarrow> rx_pos \<Rightarrow> rx_pos list" where
  "rx_ends (Cls rs) s = (case snd s of [] \<Rightarrow> [] | c # xs \<Rightarrow> if in_cls c rs then [(Some c, xs)] else [])"
| "rx_ends (Seq a b) s = concat (map (rx_ends b) (rx_ends a s))"
| "rx_ends (Alt a b) s = rx_ends a s @ rx_ends b s"
| "rx_ends (Opt a) s = s # rx_ends a s"
| "rx_ends (Plus a) s =
     (let ts = rx_ends a s
      in ts @ concat (map (\<lambda>t. if length (snd t) < length (snd s) then rx_ends (Plus a) t else []) ts))"
| "rx_ends Bol s = (if fst s = None then [s] else [])"
| "rx_ends Eol s = (if snd s = [] then [s] else [])"
| "rx_ends Wordb s = (if at_word_boundary s then [s] else [])"
  by pat_completeness auto
termination
  by (relation "measures [\<lambda>(r, _). size r, \<lambda>(_, s). length (snd s)]") auto

declare rx_ends.simps [simp del]
lemmas rx_ends_simple = rx_ends.simps(1-4,6-8)

lemma rx_ends_Plus:
  "t \<in> set (rx_ends (Plus a) s) \<longleftrightarrow> t \<in> set (rx_ends a s)
     \<or> (\<exists>u \<in> set (rx_ends a s). length (snd u) < length (snd s) \<and> t \<in> set (rx_ends (Plus a) u))"
  by (subst rx_ends.simps(5)) (auto simp: Let_def split: if_splits)

lemma rx_ends_sound: "t \<in> set (rx_ends r s) \<Longrightarrow> rx_rel r s t"
proof (induction r s arbitrary: t rule: rx_ends.induct)
  case (1 rs s)
  then show ?case by (cases s) (auto simp: rx_ends_simple intro: rx_rel.intros split: list.splits if_splits)
next
  case (2 a b s)
  then obtain u where u: "u \<in> set (rx_ends a s)" "t \<in> set (rx_ends b u)" by (auto simp: rx_ends_simple)
  show ?case by (rule rx_rel.seq [OF "2.IH"(1) [OF u(1)] "2.IH"(2) [OF u]])
next
  case (3 a b s)
  from "3.prems" have "t \<in> set (rx_ends a s) \<or> t \<in> set (rx_ends b s)" by (simp add: rx_ends_simple)
  then show ?case using "3.IH" rx_rel.alt_left rx_rel.alt_right by blast
next
  case (4 a s)
  from "4.prems" have "t = s \<or> t \<in> set (rx_ends a s)" by (simp add: rx_ends_simple)
  then show ?case using "4.IH" rx_rel.opt_none rx_rel.opt_some by blast
next
  case (5 a s)
  from "5.prems" consider "t \<in> set (rx_ends a s)"
    | u where "u \<in> set (rx_ends a s)" "length (snd u) < length (snd s)" "t \<in> set (rx_ends (Plus a) u)"
    unfolding rx_ends_Plus [of t a s] by blast
  then show ?case
  proof cases
    case 1
    then show ?thesis by (intro rx_rel.plus_one "5.IH"(1))
  next
    case (2 u)
    then show ?thesis by (intro rx_rel.plus_more [OF "5.IH"(1) "5.IH"(2) [OF refl]])
  qed
next
  case (6 s)
  then show ?case by (cases s) (auto simp: rx_ends_simple intro: rx_rel.bol split: if_splits)
next
  case (7 s)
  then show ?case by (cases s) (auto simp: rx_ends_simple intro: rx_rel.eol split: if_splits)
next
  case (8 s)
  then show ?case by (auto simp: rx_ends_simple intro: rx_rel.wordb split: if_splits)
qed

lemma rx_ends_complete: "rx_rel r s t \<Longrightarrow> t \<in> set (rx_ends r s)"
proof (induction rule: rx_rel.induct)
  case (plus_one a s t)
  then show ?case unfolding rx_ends_Plus [of t a s] by blast
next
  case (plus_more a s t u)
  show ?case
  proof (cases "t = s")
    case True
    with plus_more.IH(2) show ?thesis by simp
  next
    case False
    with rx_rel_progress [OF plus_more.hyps(1)] have "length (snd t) < length (snd s)" by simp
    with plus_more.IH show ?thesis unfolding rx_ends_Plus [of u a s] by blast
  qed
next
  case (seq a s t b u)
  then show ?case by (simp add: rx_ends_simple) blast
qed (simp_all add: rx_ends_simple)

lemma rx_ends_iff: "t \<in> set (rx_ends r s) \<longleftrightarrow> rx_rel r s t"
  using rx_ends_sound rx_ends_complete by blast

lemma rx_ends_nonempty: "rx_ends r s \<noteq> [] \<longleftrightarrow> (\<exists>t. rx_rel r s t)"
  unfolding rx_ends_iff [symmetric] by (cases "rx_ends r s") auto

text \<open>\<open>Regexp.MatchString\<close>: a match that starts anywhere.\<close>

fun rx_search :: "rx \<Rightarrow> nat option \<Rightarrow> nat list \<Rightarrow> bool" where
  "rx_search r p [] = (rx_ends r (p, []) \<noteq> [])"
| "rx_search r p (c # ys) = (rx_ends r (p, c # ys) \<noteq> [] \<or> rx_search r (Some c) ys)"

definition runes_of :: "bytes \<Rightarrow> nat list" where
  "runes_of s = map rune_val (rune_pieces s)"

definition MatchString :: "rx \<Rightarrow> bytes \<Rightarrow> bool" where
  "MatchString r s = rx_search r None (runes_of s)"

lemma rx_search_iff:
  "rx_search r p xs \<longleftrightarrow> (\<exists>i \<le> length xs. \<exists>t. rx_rel r (if i = 0 then p else Some (xs ! (i - 1)), drop i xs) t)"
proof (induction xs arbitrary: p)
  case Nil
  show ?case by (simp add: rx_ends_nonempty)
next
  case (Cons c ys)
  have "(\<exists>i \<le> length ys. \<exists>t. rx_rel r (if i = 0 then Some c else Some (ys ! (i - 1)), drop i ys) t)
      \<longleftrightarrow> (\<exists>j. 0 < j \<and> j \<le> length (c # ys) \<and> (\<exists>t. rx_rel r (Some ((c # ys) ! (j - 1)), drop j (c # ys)) t))" (is "?L \<longleftrightarrow> ?R")
  proof
    assume ?L
    then obtain i t where i: "i \<le> length ys" "rx_rel r (if i = 0 then Some c else Some (ys ! (i - 1)), drop i ys) t" by blast
    moreover have "(if i = 0 then Some c else Some (ys ! (i - 1))) = Some ((c # ys) ! i)" by (cases i) auto
    ultimately have "rx_rel r (Some ((c # ys) ! (Suc i - 1)), drop (Suc i) (c # ys)) t" by simp
    with i(1) show ?R by (metis Suc_le_mono length_Cons zero_less_Suc)
  next
    assume ?R
    then obtain i t where i: "i \<le> length ys" "rx_rel r (Some ((c # ys) ! i), drop i ys) t" by (auto simp: gr0_conv_Suc)
    moreover have "(if i = 0 then Some c else Some (ys ! (i - 1))) = Some ((c # ys) ! i)" by (cases i) auto
    ultimately show ?L by metis
  qed
  moreover have "(\<exists>i \<le> length (c # ys). \<exists>t. rx_rel r (if i = 0 then p else Some ((c # ys) ! (i - 1)), drop i (c # ys)) t)
      \<longleftrightarrow> (\<exists>t. rx_rel r (p, c # ys) t) \<or> ?R" (is "?A \<longleftrightarrow> ?B \<or> ?R")
  proof
    assume ?A
    then obtain i t where i: "i \<le> length (c # ys)" "rx_rel r (if i = 0 then p else Some ((c # ys) ! (i - 1)), drop i (c # ys)) t" by blast
    show "?B \<or> ?R"
    proof (cases "i = 0")
      case True
      with i(2) have "rx_rel r (p, c # ys) t" by simp
      then show ?thesis by blast
    next
      case False
      with i(2) have "rx_rel r (Some ((c # ys) ! (i - 1)), drop i (c # ys)) t" by simp
      with False i(1) show ?thesis by blast
    qed
  next
    assume "?B \<or> ?R"
    then show ?A
    proof
      assume ?B
      then obtain t where "rx_rel r (if (0::nat) = 0 then p else Some ((c # ys) ! (0 - 1)), drop 0 (c # ys)) t" by auto
      then show ?thesis by blast
    next
      assume ?R
      then obtain j t where j: "0 < j" "j \<le> length (c # ys)" "rx_rel r (Some ((c # ys) ! (j - 1)), drop j (c # ys)) t" by blast
      then have "rx_rel r (if j = 0 then p else Some ((c # ys) ! (j - 1)), drop j (c # ys)) t" by simp
      with j(2) show ?thesis by blast
    qed
  qed
  ultimately show ?case unfolding rx_search.simps rx_ends_nonempty Cons.IH [of "Some c"] by blast
qed

subsection \<open>Case-insensitive literals\<close>

text \<open>
  Under \<open>(?i)\<close> a letter stands for all code points with the same simple folding: both cases and, for \<open>k\<close> and \<open>s\<close>, the
  Kelvin sign and the long s.
\<close>

definition ci_rune :: "nat \<Rightarrow> (nat \<times> nat) list" where
  "ci_rune c =
     (let l = (if 65 \<le> c \<and> c \<le> 90 then c + 32 else c)
      in if 97 \<le> l \<and> l \<le> 122
         then [(l, l), (l - 32, l - 32)] @ (if l = 107 then [(8490, 8490)] else if l = 115 then [(383, 383)] else [])
         else [(c, c)])"

fun ci :: "bytes \<Rightarrow> rx" where
  "ci [] = Opt (Cls [])"
| "ci [c] = Cls (ci_rune (byte c))"
| "ci (c # s) = Seq (Cls (ci_rune (byte c))) (ci s)"

fun alts :: "rx list \<Rightarrow> rx" where
  "alts [] = Cls []"
| "alts [r] = r"
| "alts (r # rs) = Alt r (alts rs)"

definition space_cls :: rx where
  "space_cls = Cls [(9, 10), (12, 13), (32, 32)]"

end
