(* ===== verification/Acp.thy ===== *)
theory Acp
  imports Pool GoRegexp "HOL-Library.Word"
begin

text \<open>
  The ACP client of \<open>internal/acp\<close> (\<open>client.go\<close>, \<open>types.go\<close>, \<open>capabilities.go\<close>, \<open>stderr.go\<close>) and the account failure
  classifier of \<open>internal/kiroauth\<close>. The client's goroutines share one mutex; every definition is one critical section
  of it, or a pure step between two. Starting, signalling and reaping the process group is done by the environment,
  which may let any section run at any time. The channel of a call is named by the call's identifier.
\<close>

datatype acp_error =
    AErrProtocol | AErrTransport | AErrFrameTooLarge | AErrTimeout | AErrAuthentication | AErrOverloaded | AErrClosed
  | AErrParameters | AErrCleanup | ACanceled

subsection \<open>kiroauth\<close>

fun contains :: "bytes \<Rightarrow> bytes \<Rightarrow> bool" where
  "contains s sub = (has_prefix s sub \<or> (case s of [] \<Rightarrow> False | _ # r \<Rightarrow> contains r sub))"

declare contains.simps [simp del]

definition unauthorized :: rx where
  "unauthorized =
     Seq (Alt Bol (Cls [(9, 10), (12, 13), (32, 32), (58, 58)]))
       (Alt
         (Seq (ci ''HTTP'') (Seq (Opt (Seq (Cls [(47, 47)]) (Plus (Cls [(46, 46), (48, 57)]))))
           (Seq (Plus space_cls) (Seq (ci ''401'') (Alt space_cls Eol)))))
         (Seq (ci ''401'') (Seq (Plus space_cls) (Seq (ci ''Unauthorized'') Wordb))))"

definition tool_prefixes :: "bytes list" where
  "tool_prefixes = [''tool returned'', ''tool error'', ''web_search:'', ''web_fetch:'']"

definition account_phrases :: "bytes list" where
  "account_phrases = [''login required'', ''login-required'', ''kiro-cli login'', ''token expired'', ''expired token'',
     ''expired-token'', ''invalid token'', ''invalid-token'', ''invalid_token'', ''invalid grant'', ''invalid-grant'',
     ''invalid_grant'', ''reauthentication required'', ''reauthentication needed'']"

definition recognized :: "unicode_tables \<Rightarrow> bytes \<Rightarrow> bool" where
  "recognized u text =
     (let lower = ToLower u text
      in if list_ex (contains lower) tool_prefixes then False
         else if list_ex (contains lower) account_phrases then True
         else MatchString unauthorized text)"

definition auth_Error :: "unicode_tables \<Rightarrow> int \<Rightarrow> bytes \<Rightarrow> bytes \<Rightarrow> bool" where
  "auth_Error u code message data =
     (if code = 401 \<or> recognized u message then True
      else case unmarshal_fields data of
          None \<Rightarrow> False
        | Some fs \<Rightarrow>
            list_ex (\<lambda>k. field fs k = ''401'') [''statusCode'', ''status'', ''httpStatus'']
            \<or> list_ex (\<lambda>k. case unmarshal_string (field fs k) of None \<Rightarrow> False | Some v \<Rightarrow> recognized u v)
                [''code'', ''error'', ''message''])"

text \<open>The classifier of a client: none, or this one.\<close>

record auth_classifier =
  AuthError :: "int \<Rightarrow> bytes \<Rightarrow> bytes \<Rightarrow> bool"
  AuthStderr :: "bytes \<Rightarrow> bool"

definition Classifier :: "unicode_tables \<Rightarrow> auth_classifier" where
  "Classifier u = \<lparr>AuthError = auth_Error u, AuthStderr = recognized u\<rparr>"

subsection \<open>Limits and capabilities\<close>

record acp_limits =
  FrameBytes :: int
  ALPending :: int
  ALEventQueue :: int
  ALEventBytes :: int
  WriteQueue :: int
  WriteBytes :: int
  RequestTimeout :: int
  WriteTimeout :: int
  CancelTimeout :: int
  GracePeriod :: int
  TermPeriod :: int
  KillPeriod :: int

definition bounded_default :: "int \<Rightarrow> int \<Rightarrow> int \<Rightarrow> int option" where
  "bounded_default v def hi = (let w = (if v = 0 then def else v) in if w < 1 \<or> hi < w then None else Some w)"

definition normalized :: "acp_limits \<Rightarrow> acp_limits option" where
  "normalized l =
     do {
       a \<leftarrow> bounded_default (FrameBytes l) 8388608 33554432;
       b \<leftarrow> bounded_default (ALPending l) 64 1024;
       c \<leftarrow> bounded_default (ALEventQueue l) 64 1024;
       d \<leftarrow> bounded_default (ALEventBytes l) 16777216 67108864;
       e \<leftarrow> bounded_default (WriteQueue l) 64 1024;
       f \<leftarrow> bounded_default (WriteBytes l) 16777216 67108864;
       g \<leftarrow> bounded_default (RequestTimeout l) 30000000000 86400000000000;
       h \<leftarrow> bounded_default (WriteTimeout l) 5000000000 30000000000;
       i \<leftarrow> bounded_default (CancelTimeout l) 500000000 5000000000;
       j \<leftarrow> bounded_default (GracePeriod l) 1000000000 5000000000;
       k \<leftarrow> bounded_default (TermPeriod l) 1000000000 5000000000;
       m \<leftarrow> bounded_default (KillPeriod l) 1000000000 5000000000;
       Some \<lparr>FrameBytes = a, ALPending = b, ALEventQueue = c, ALEventBytes = d, WriteQueue = e, WriteBytes = f,
             RequestTimeout = g, WriteTimeout = h, CancelTimeout = i, GracePeriod = j, TermPeriod = k, KillPeriod = m\<rparr>
     }"

record capabilities =
  LoadSession :: bool
  CapImage :: bool
  CapAudio :: bool
  CapEmbedded :: bool
  CapHTTP :: bool
  CapSSE :: bool

definition no_capabilities :: capabilities where
  "no_capabilities = \<lparr>LoadSession = False, CapImage = False, CapAudio = False, CapEmbedded = False, CapHTTP = False, CapSSE = False\<rparr>"

definition capabilityBool :: "(bytes \<times> bytes) list \<Rightarrow> bytes \<Rightarrow> bool option" where
  "capabilityBool fs name = (case map_of fs name of
     None \<Rightarrow> Some False
   | Some v \<Rightarrow> if v = ''true'' then Some True else if v = ''false'' then Some False else None)"

text \<open>A group of flags that is absent leaves all of them unset.\<close>

definition capability_group :: "(bytes \<times> bytes) list \<Rightarrow> bytes \<Rightarrow> (bytes \<times> bytes) list option" where
  "capability_group fs name = (case map_of fs name of None \<Rightarrow> Some [] | Some v \<Rightarrow> ndjson_Object v)"

definition decodeCapabilities :: "bytes \<Rightarrow> capabilities option" where
  "decodeCapabilities raw =
     do {
       fs \<leftarrow> ndjson_Object raw;
       load \<leftarrow> capabilityBool fs ''loadSession'';
       p \<leftarrow> capability_group fs ''promptCapabilities'';
       image \<leftarrow> capabilityBool p ''image'';
       audio \<leftarrow> capabilityBool p ''audio'';
       embedded \<leftarrow> capabilityBool p ''embeddedContext'';
       m \<leftarrow> capability_group fs ''mcpCapabilities'';
       http \<leftarrow> capabilityBool m ''http'';
       sse \<leftarrow> capabilityBool m ''sse'';
       Some \<lparr>LoadSession = load, CapImage = image, CapAudio = audio, CapEmbedded = embedded, CapHTTP = http, CapSSE = sse\<rparr>
     }"

text \<open>What \<open>Start\<close> accepts as the reply to \<open>initialize\<close>.\<close>

definition initialized :: "bytes \<Rightarrow> capabilities option" where
  "initialized reply = (case ndjson_Object reply of
     None \<Rightarrow> None
   | Some fs \<Rightarrow>
       if field fs ''protocolVersion'' \<noteq> ''1'' then None
       else case map_of fs ''agentCapabilities'' of None \<Rightarrow> Some no_capabilities | Some raw \<Rightarrow> decodeCapabilities raw)"

subsection \<open>The client's state\<close>

datatype completion =
    Result bytes
  | RemoteError int
  | Failure acp_error

record rpc =
  rpc_id :: nat
  rpc_session :: bytes

record client =
  c_limits :: acp_limits
  c_ready :: bool
  c_caps :: capabilities
  nextID :: nat
  c_pending :: "rpc list"
  c_err :: "acp_error option"
  c_events :: "(notification \<times> nat) list"   \<comment> \<open>with the size of the frame\<close>
  c_eventBytes :: int
  c_activity :: bool
  c_writes :: "bytes list"
  c_writeBytes :: int
  c_answers :: "nat \<Rightarrow> completion list"      \<comment> \<open>what is buffered in each call's channel\<close>
  stderrTail :: "bytes list"
  stderrBytes :: int
  truncated :: "64 word"

definition new_client :: "acp_limits \<Rightarrow> client" where
  "new_client l = \<lparr>c_limits = l, c_ready = False, c_caps = no_capabilities, nextID = 1, c_pending = [], c_err = None, c_events = [],
     c_eventBytes = 0, c_activity = False, c_writes = [], c_writeBytes = 0, c_answers = (\<lambda>_. []), stderrTail = [],
     stderrBytes = 0, truncated = 0\<rparr>"

definition MaxRequestID :: nat where "MaxRequestID = 9007199254740991"

definition becomes_ready :: "capabilities \<Rightarrow> client \<Rightarrow> client" where
  "becomes_ready caps c = c\<lparr>c_caps := caps, c_ready := True\<rparr>"

subsection \<open>Writing\<close>

definition enqueueLocked :: "bytes \<Rightarrow> bool \<Rightarrow> client \<Rightarrow> acp_error option \<times> client" where
  "enqueueLocked data closing c =
     (if c_err c \<noteq> None \<and> \<not> closing then (c_err c, c)
      else if WriteBytes (c_limits c) - c_writeBytes c < int (length data) then (Some AErrOverloaded, c)
      else if WriteQueue (c_limits c) \<le> int (length (c_writes c)) then (Some AErrOverloaded, c)
      else (None, c\<lparr>c_writes := c_writes c @ [data], c_writeBytes := c_writeBytes c + int (length data)\<rparr>))"

text \<open>The writer takes the oldest packet.\<close>

definition write_next :: "client \<Rightarrow> (bytes \<times> client) option" where
  "write_next c = (case c_writes c of
     [] \<Rightarrow> None
   | d # ds \<Rightarrow> Some (d, c\<lparr>c_writes := ds, c_writeBytes := c_writeBytes c - int (length d)\<rparr>))"

definition line :: "bytes \<Rightarrow> bytes" where
  "line frame = frame @ [CHR 0x0A]"

subsection \<open>Retirement\<close>

definition answer :: "nat \<Rightarrow> completion \<Rightarrow> (nat \<Rightarrow> completion list) \<Rightarrow> (nat \<Rightarrow> completion list)" where
  "answer i v ch = ch(i := ch i @ [v])"

text \<open>The first reason stays; every pending call is answered with it. The sessions are those to be cancelled.\<close>

definition retire_client :: "acp_error \<Rightarrow> client \<Rightarrow> bytes list \<times> client" where
  "retire_client reason c =
     (if c_err c \<noteq> None then ([], c)
      else (remdups (filter (\<lambda>s. s \<noteq> []) (map rpc_session (c_pending c))),
            c\<lparr>c_err := Some reason, c_answers := fold (\<lambda>p. answer (rpc_id p) (Failure reason)) (c_pending c) (c_answers c),
              c_pending := [], c_activity := True\<rparr>))"

text \<open>The end of \<open>cleanup\<close>: both queues are drained.\<close>

definition cleaned_up :: "client \<Rightarrow> client" where
  "cleaned_up c = c\<lparr>c_writes := [], c_writeBytes := c_writeBytes c - int (sum_list (map length (c_writes c))),
     c_events := [], c_eventBytes := c_eventBytes c - int (sum_list (map snd (c_events c))), stderrTail := [], stderrBytes := 0\<rparr>"

subsection \<open>Calls\<close>

definition sessionID :: "bytes \<Rightarrow> bytes" where
  "sessionID params = (case unmarshal_fields params of
     None \<Rightarrow> []
   | Some fs \<Rightarrow> (case unmarshal_string (field fs ''sessionId'') of
       None \<Rightarrow> [] | Some i \<Rightarrow> if 1024 < length i then [] else i))"

definition call_frame :: "nat \<Rightarrow> bytes \<Rightarrow> bytes \<Rightarrow> bytes" where
  "call_frame i method p =
     obj_text [(''jsonrpc'', quote ''2.0''), (''id'', digits_of i), (''method'', quote method), (''params'', compact p)]"

definition starts_value :: "bytes \<Rightarrow> bool" where
  "starts_value p \<longleftrightarrow> p \<noteq> [] \<and> (hd p = CHR 0x7B \<or> hd p = CHR 0x5B)"

datatype call_begun =
    CallFailed acp_error               \<comment> \<open>refused, nothing sent\<close>
  | CallFatal acp_error                \<comment> \<open>refused, and the client is to be retired\<close>
  | CallWaiting nat "acp_error option" \<comment> \<open>registered; an enqueue failure is to retire the client\<close>

text \<open>
  \<open>call\<close> up to its wait; \<open>p\<close> is the marshalled parameter value, \<open>None\<close> where marshalling failed, \<open>ctx\<close> the error of the
  caller's context.
\<close>

definition call_start :: "acp_error option \<Rightarrow> bool \<Rightarrow> bytes \<Rightarrow> bytes option \<Rightarrow> client \<Rightarrow> call_begun \<times> client" where
  "call_start ctx initializing method params c =
     (case ctx of
        Some e \<Rightarrow> (CallFailed e, c)
      | None \<Rightarrow>
        if method = [] \<or> 256 < length method then (CallFailed AErrParameters, c)
        else case params of
          None \<Rightarrow> (CallFailed AErrParameters, c)
        | Some p \<Rightarrow>
          if c_err c \<noteq> None then (CallFailed (the (c_err c)), c)
          else if \<not> c_ready c \<and> \<not> initializing then (CallFailed AErrProtocol, c)
          else if ALPending (c_limits c) \<le> int (length (c_pending c)) then (CallFailed AErrOverloaded, c)
          else if MaxRequestID < nextID c then (CallFatal AErrProtocol, c)
          else
            let i = nextID c; c1 = c\<lparr>nextID := nextID c + 1\<rparr>; frame = call_frame i method p
            in if FrameBytes (c_limits c) < int (length frame) then (CallFatal AErrFrameTooLarge, c1)
               else if ndjson_Object frame = None \<or> \<not> starts_value p then (CallFailed AErrParameters, c1)
               else case enqueueLocked (line frame) False
                     (c1\<lparr>c_pending := c_pending c @ [\<lparr>rpc_id = i,
                            rpc_session = (if method = ''session/prompt'' then sessionID p else [])\<rparr>]\<rparr>) of
                   (e, c2) \<Rightarrow> (CallWaiting i e, c2))"

text \<open>The waiting caller takes its answer.\<close>

definition take_answer :: "nat \<Rightarrow> client \<Rightarrow> (completion \<times> client) option" where
  "take_answer i c = (case c_answers c i of [] \<Rightarrow> None | v # r \<Rightarrow> Some (v, c\<lparr>c_answers := (c_answers c)(i := r)\<rparr>))"

text \<open>A notification of the client; \<open>frame\<close> is the marshalled message. The answer says whether to retire.\<close>

definition notify_start :: "bytes \<Rightarrow> bytes option \<Rightarrow> bool \<Rightarrow> client \<Rightarrow> (acp_error \<times> bool) option \<times> client" where
  "notify_start method frame closing c =
     (if method = [] \<or> 256 < length method then (Some (AErrParameters, False), c)
      else case frame of
        None \<Rightarrow> (Some (AErrParameters, False), c)
      | Some f \<Rightarrow>
          if FrameBytes (c_limits c) < int (length f) then (Some (AErrFrameTooLarge, True), c)
          else (case ndjson_Object f of
            None \<Rightarrow> (Some (AErrParameters, False), c)
          | Some fs \<Rightarrow>
              if \<not> starts_value (field fs ''params'') then (Some (AErrParameters, False), c)
              else (case enqueueLocked (line f) closing c of
                (None, c') \<Rightarrow> (None, c')
              | (Some e, c') \<Rightarrow> (Some (e, \<not> closing \<and> e = AErrOverloaded), c'))))"

subsection \<open>Reading\<close>

definition acp_TryNext :: "client \<Rightarrow> (acp_error + notification option) \<times> client" where
  "acp_TryNext c =
     (case c_err c of
        Some e \<Rightarrow> (Inl e, c)
      | None \<Rightarrow> (case c_events c of
          [] \<Rightarrow> (Inr None, c)
        | (n, k) # r \<Rightarrow> (Inr (Some n), c\<lparr>c_events := r, c_eventBytes := c_eventBytes c - int k\<rparr>)))"

text \<open>How a failed read of a frame retires the client.\<close>

definition read_failure :: "read_error \<Rightarrow> acp_error" where
  "read_failure e = (case e of EOF \<Rightarrow> AErrTransport | ErrTooLarge \<Rightarrow> AErrFrameTooLarge | ErrInvalid \<Rightarrow> AErrProtocol | ErrRead \<Rightarrow> AErrTransport)"

definition validAgentID :: "bytes \<Rightarrow> bool" where
  "validAgentID i = (case i of
     [] \<Rightarrow> False
   | c # _ \<Rightarrow>
       if c = CHR 0x22 then (case unmarshal_string i of None \<Rightarrow> False | Some v \<Rightarrow> length v \<le> 256)
       else parse_int64 i \<noteq> None)"

text \<open>Unmarshalling into a string that keeps its zero value on failure.\<close>

definition string_or_empty :: "bytes \<Rightarrow> bytes" where
  "string_or_empty raw = (case unmarshal_string raw of None \<Rightarrow> [] | Some v \<Rightarrow> v)"

definition reject_option :: "(bytes \<times> bytes) list \<Rightarrow> bytes option" where
  "reject_option fs =
     (let kind = string_or_empty (field fs ''kind''); i = string_or_empty (field fs ''optionId'')
      in if (kind = ''reject_once'' \<or> kind = ''reject_always'') \<and> i \<noteq> [] \<and> length i \<le> 1024 then Some i else None)"

text \<open>
  \<open>json.Unmarshal\<close> into a slice of maps with the error dropped: an element that is no object is the nil map, a value
  that is no array leaves the slice empty.
\<close>

fun object_or_nil :: "json \<Rightarrow> (bytes \<times> bytes) list" where
  "object_or_nil (JObj _ ms) = last_wins (map (\<lambda>(k, v). (k, raw_of v)) ms)"
| "object_or_nil _ = []"

definition options_of :: "bytes \<Rightarrow> (bytes \<times> bytes) list list" where
  "options_of raw = (case parse raw of Some (JArr _ vs) \<Rightarrow> map object_or_nil vs | _ \<Rightarrow> [])"

definition permission_options :: "bytes \<Rightarrow> (bytes \<times> bytes) list list" where
  "permission_options params = (case unmarshal_fields params of None \<Rightarrow> [] | Some fs \<Rightarrow> options_of (field fs ''options''))"

definition permission_outcome :: "bytes \<Rightarrow> bytes" where
  "permission_outcome params = (case List.map_filter reject_option (permission_options params) of
     i # _ \<Rightarrow> obj_text [(''optionId'', quote i), (''outcome'', quote ''selected'')]
   | [] \<Rightarrow> obj_text [(''outcome'', quote ''cancelled'')])"

text \<open>The reply to a request of the agent; maps are marshalled with sorted keys.\<close>

definition reject_frame :: "bytes \<Rightarrow> bytes \<Rightarrow> bytes \<Rightarrow> bytes" where
  "reject_frame i method params =
     (if method = ''session/request_permission''
      then obj_text [(''id'', compact i), (''jsonrpc'', quote ''2.0''), (''result'', obj_text [(''outcome'', permission_outcome params)])]
      else obj_text [(''error'', obj_text [(''code'', ''-32601''), (''message'', quote ''Agent method is disabled'')]),
                     (''id'', compact i), (''jsonrpc'', quote ''2.0'')])"

definition rejectAgent :: "bytes \<Rightarrow> bytes \<Rightarrow> bytes \<Rightarrow> client \<Rightarrow> acp_error option \<times> client" where
  "rejectAgent i method params c =
     (let frame = reject_frame i method params
      in if FrameBytes (c_limits c) < int (length frame) then (Some AErrFrameTooLarge, c) else enqueueLocked (line frame) False c)"

text \<open>\<open>strconv.ParseUint(s, 10, 64)\<close> and \<open>strconv.ParseInt(s, 10, 32)\<close>.\<close>

definition parse_uint64 :: "bytes \<Rightarrow> nat option" where
  "parse_uint64 s = (if s = [] \<or> \<not> list_all is_digit s \<or> 2 ^ 64 \<le> digits_val s then None else Some (digits_val s))"

definition parse_int32 :: "bytes \<Rightarrow> int option" where
  "parse_int32 s = (case parse_int64 s of
     None \<Rightarrow> None | Some v \<Rightarrow> if - (2 ^ 31) \<le> v \<and> v < 2 ^ 31 then Some v else None)"

definition event_received :: "notification \<Rightarrow> nat \<Rightarrow> client \<Rightarrow> acp_error option \<times> client" where
  "event_received n sz c =
     (if c_err c \<noteq> None then (c_err c, c)
      else if ALEventBytes (c_limits c) - c_eventBytes c < int sz then (Some AErrOverloaded, c)
      else if ALEventQueue (c_limits c) \<le> int (length (c_events c)) then (Some AErrOverloaded, c)
      else (None, c\<lparr>c_events := c_events c @ [(n, sz)], c_eventBytes := c_eventBytes c + int sz, c_activity := True\<rparr>))"

text \<open>What a reply says: the result, a rejection with its code, or a failure of the connection.\<close>

definition remote_answer :: "auth_classifier option \<Rightarrow> bytes \<Rightarrow> acp_error + completion" where
  "remote_answer auth remote = (case ndjson_Object remote of
     None \<Rightarrow> Inl AErrProtocol
   | Some fs \<Rightarrow> (case (parse_int32 (field fs ''code''), string_field (field fs ''message'')) of
       (Some code, Some message) \<Rightarrow>
         if (case auth of None \<Rightarrow> False | Some a \<Rightarrow> AuthError a code message (field fs ''data'')) then Inl AErrAuthentication
         else Inr (RemoteError code)
     | _ \<Rightarrow> Inl AErrProtocol))"

definition reply_received :: "nat \<Rightarrow> completion \<Rightarrow> client \<Rightarrow> acp_error option \<times> client" where
  "reply_received i v c =
     (if i \<notin> rpc_id ` set (c_pending c) then (Some AErrProtocol, c)
      else (None, c\<lparr>c_pending := filter (\<lambda>p. rpc_id p \<noteq> i) (c_pending c), c_answers := answer i v (c_answers c)\<rparr>))"

definition method_received :: "nat \<Rightarrow> (bytes \<times> bytes) list \<Rightarrow> bytes \<Rightarrow> client \<Rightarrow> acp_error option \<times> client" where
  "method_received sz obj methodRaw c =
     (case unmarshal_string methodRaw of
        None \<Rightarrow> (Some AErrProtocol, c)
      | Some method \<Rightarrow>
          if method = [] \<or> 256 < length method \<or> has_key obj ''result'' \<or> has_key obj ''error'' then (Some AErrProtocol, c)
          else if field obj ''params'' \<noteq> [] \<and> \<not> starts_value (field obj ''params'') then (Some AErrProtocol, c)
          else case map_of obj ''id'' of
              Some i \<Rightarrow> if validAgentID i then rejectAgent i method (field obj ''params'') c else (Some AErrProtocol, c)
            | None \<Rightarrow> event_received \<lparr>Method = method, SessionID = sessionID (field obj ''params''), Params = field obj ''params''\<rparr> sz c)"

definition response_received :: "auth_classifier option \<Rightarrow> (bytes \<times> bytes) list \<Rightarrow> client \<Rightarrow> acp_error option \<times> client" where
  "response_received auth obj c =
     (if \<not> has_key obj ''id'' \<or> has_key obj ''result'' = has_key obj ''error'' then (Some AErrProtocol, c)
      else case parse_uint64 (field obj ''id'') of
          None \<Rightarrow> (Some AErrProtocol, c)
        | Some i \<Rightarrow>
            if i = 0 \<or> MaxRequestID < i \<or> i \<notin> rpc_id ` set (c_pending c) then (Some AErrProtocol, c)
            else if has_key obj ''error'' then (case remote_answer auth (field obj ''error'') of
                Inl e \<Rightarrow> (Some e, c)
              | Inr v \<Rightarrow> reply_received i v c)
            else reply_received i (Result (field obj ''result'')) c)"

definition receive_frame :: "auth_classifier option \<Rightarrow> bytes \<Rightarrow> client \<Rightarrow> acp_error option \<times> client" where
  "receive_frame auth frame c = (case ndjson_Object frame of
     None \<Rightarrow> (Some AErrProtocol, c)
   | Some obj \<Rightarrow>
       if unmarshal_string (field obj ''jsonrpc'') \<noteq> Some ''2.0'' then (Some AErrProtocol, c)
       else case map_of obj ''method'' of
           Some methodRaw \<Rightarrow> method_received (length frame) obj methodRaw c
         | None \<Rightarrow> response_received auth obj c)"

subsection \<open>The error output of the process\<close>

definition token_tail :: rx where
  "token_tail = Plus (Cls [(45, 45), (48, 57), (65, 90), (95, 95), (97, 122), (383, 383), (8490, 8490)])"

definition opt_dash :: rx where
  "opt_dash = Opt (Cls [(45, 45), (95, 95)])"

definition credentialHint :: rx where
  "credentialHint = alts
     [ci ''authorization'', Seq (ci ''bearer'') space_cls, Seq (ci ''api'') (Seq opt_dash (ci ''key'')),
      Seq (ci ''access'') (Seq opt_dash (ci ''token'')), Seq (ci ''refresh'') (Seq opt_dash (ci ''token'')),
      Seq (ci ''client'') (Seq opt_dash (ci ''secret'')), ci ''password'', Seq (ci ''sk-'') token_tail,
      Seq (ci ''eyJ'') (Seq token_tail (Cls [(46, 46)]))]"

definition retainableStderr :: "bytes \<Rightarrow> bool \<Rightarrow> bytes" where
  "retainableStderr text trunc =
     (if trunc then ''[stderr line omitted: size limit]''
      else if MatchString credentialHint text then ''[credential-bearing stderr omitted]''
      else text)"

text \<open>The lines the loop assembles from the pieces of its buffered reader, each at most 4096 bytes long.\<close>

definition extend_line :: "bytes \<Rightarrow> bytes \<times> bool \<Rightarrow> bytes \<times> bool" where
  "extend_line fragment acc =
     (if 4096 - length (fst acc) < length fragment then (fst acc @ take (4096 - length (fst acc)) fragment, True)
      else (fst acc @ fragment, snd acc))"

function stderr_lines :: "bytes \<Rightarrow> bytes \<times> bool \<Rightarrow> (bytes \<times> bool) list" where
  "stderr_lines s acc =
     (case read_slice s of
        (fragment, why, rest) \<Rightarrow>
          let acc' = extend_line fragment acc; out = (if fst acc' = [] then [] else [acc'])
          in (case why of
                BufferFull \<Rightarrow> stderr_lines rest acc'
              | Delim \<Rightarrow> out @ stderr_lines rest ([], False)
              | slice_end.Failed \<Rightarrow> out))"
  by pat_completeness auto
termination
  by (relation "measure (\<lambda>(s, _). length s)") (auto simp: read_slice_def buf_size_def Let_def split: if_splits)

declare stderr_lines.simps [simp del]

fun trim_tail :: "bytes list \<Rightarrow> int \<Rightarrow> bytes list \<times> int" where
  "trim_tail [] n = ([], n)"
| "trim_tail (x # xs) n = (if 64 < length (x # xs) \<or> 65536 < n then trim_tail xs (n - int (length x)) else (x # xs, n))"

definition stderr_line :: "bytes \<times> bool \<Rightarrow> client \<Rightarrow> client" where
  "stderr_line l c =
     (let kept = retainableStderr (fst l) (snd l)
      in case trim_tail (stderrTail c @ [kept]) (stderrBytes c + int (length kept)) of
           (tail, n) \<Rightarrow> c\<lparr>stderrTail := tail, stderrBytes := n, truncated := (if snd l then truncated c + 1 else truncated c)\<rparr>)"

text \<open>Whether the line retires the client.\<close>

definition stderr_auth :: "auth_classifier option \<Rightarrow> bytes \<times> bool \<Rightarrow> bool" where
  "stderr_auth auth l = (case auth of None \<Rightarrow> False | Some a \<Rightarrow> AuthStderr a (fst l))"

record diagnostics =
  DStderrLines :: nat
  DStderrBytes :: int
  DTruncated :: "64 word"

definition Diagnostics :: "client \<Rightarrow> diagnostics" where
  "Diagnostics c = \<lparr>DStderrLines = length (stderrTail c), DStderrBytes = stderrBytes c, DTruncated = truncated c\<rparr>"

end
