(* ===== verification/Acp_Props.thy ===== *)
theory Acp_Props
  imports Acp
begin

text \<open>
  The ACP client's guarantees in every reachable state: bounded queues with exact byte accounts, request identifiers
  used once and answered at most once, no effect granted to the agent, final retirement, and what is kept of the error
  output.
\<close>

subsection \<open>The transition system\<close>

text \<open>
  One rule per critical section. A caller waiting on a call may take its answer or time out; the reader, the writer,
  the error-output loop and the exit of the process act at any time; any of them may retire the client.
\<close>

inductive acp_step :: "auth_classifier option \<Rightarrow> client \<Rightarrow> client \<Rightarrow> bool" for auth where
  readied: "acp_step auth c (becomes_ready caps c)"
| called: "acp_step auth c (snd (call_start ctx initializing meth params c))"
| taken: "take_answer i c = Some (v, c') \<Longrightarrow> acp_step auth c c'"
| notified: "acp_step auth c (snd (notify_start meth frame closing c))"
| written: "write_next c = Some (d, c') \<Longrightarrow> acp_step auth c c'"
| polled: "acp_step auth c (snd (acp_TryNext c))"
| frame_read: "acp_step auth c (snd (receive_frame auth frame c))"
| retired: "acp_step auth c (snd (retire_client reason c))"
| stderr_read: "acp_step auth c (stderr_line l c)"
| cleaned: "c_err c \<noteq> None \<Longrightarrow> acp_step auth c (cleaned_up c)"

subsection \<open>The invariant\<close>

definition client_queues :: "client \<Rightarrow> bool" where
  "client_queues c \<longleftrightarrow>
     c_eventBytes c = int (sum_list (map snd (c_events c))) \<and> c_eventBytes c \<le> ALEventBytes (c_limits c)
     \<and> int (length (c_events c)) \<le> ALEventQueue (c_limits c)
     \<and> c_writeBytes c = int (sum_list (map length (c_writes c))) \<and> c_writeBytes c \<le> WriteBytes (c_limits c)
     \<and> int (length (c_writes c)) \<le> WriteQueue (c_limits c)"

definition client_calls :: "client \<Rightarrow> bool" where
  "client_calls c \<longleftrightarrow>
     1 \<le> nextID c \<and> nextID c \<le> MaxRequestID + 1
     \<and> int (length (c_pending c)) \<le> ALPending (c_limits c) \<and> distinct (map rpc_id (c_pending c))
     \<and> (\<forall>i \<in> rpc_id ` set (c_pending c). i < nextID c \<and> 1 \<le> i \<and> c_answers c i = [])
     \<and> (\<forall>i. length (c_answers c i) \<le> 1) \<and> (\<forall>i \<ge> nextID c. c_answers c i = [])
     \<and> (c_err c \<noteq> None \<longrightarrow> c_pending c = [])"

definition client_stderr :: "client \<Rightarrow> bool" where
  "client_stderr c \<longleftrightarrow> stderrBytes c = int (sum_list (map length (stderrTail c))) \<and> length (stderrTail c) \<le> 64 \<and> stderrBytes c \<le> 65536"

definition limits_positive :: "acp_limits \<Rightarrow> bool" where
  "limits_positive l \<longleftrightarrow> 1 \<le> FrameBytes l \<and> 1 \<le> ALPending l \<and> 1 \<le> ALEventQueue l \<and> 1 \<le> ALEventBytes l \<and> 1 \<le> WriteQueue l \<and> 1 \<le> WriteBytes l"

definition client_inv :: "client \<Rightarrow> bool" where
  "client_inv c \<longleftrightarrow> limits_positive (c_limits c) \<and> client_queues c \<and> client_calls c \<and> client_stderr c"

lemmas client_inv_defs = client_inv_def client_queues_def client_calls_def client_stderr_def

lemma bounded_default_Some: "bounded_default v d hi = Some w \<Longrightarrow> 1 \<le> w \<and> w \<le> hi"
  by (auto simp: bounded_default_def Let_def split: if_splits)

lemma normalized_positive: "normalized l = Some l' \<Longrightarrow> limits_positive l'"
  by (auto simp: normalized_def limits_positive_def split: bind_splits dest!: bounded_default_Some)

lemma new_client_inv: "limits_positive l \<Longrightarrow> client_inv (new_client l)"
  by (simp add: client_inv_defs new_client_def MaxRequestID_def limits_positive_def)

text \<open>Steps that touch one part of the state keep the others.\<close>

lemma client_inv_frame:
  assumes "client_inv c" "c_limits c' = c_limits c" "client_queues c'" "client_calls c'" "client_stderr c'"
  shows "client_inv c'"
  using assms by (simp add: client_inv_def)

lemma calls_frame:
  assumes "client_calls c" "c_limits c' = c_limits c" "nextID c' = nextID c" "c_pending c' = c_pending c" "c_err c' = c_err c"
    "c_answers c' = c_answers c"
  shows "client_calls c'"
  using assms by (simp add: client_calls_def)

lemma queues_frame:
  assumes "client_queues c" "c_limits c' = c_limits c" "c_events c' = c_events c" "c_eventBytes c' = c_eventBytes c"
    "c_writes c' = c_writes c" "c_writeBytes c' = c_writeBytes c"
  shows "client_queues c'"
  using assms by (simp add: client_queues_def)

lemma stderr_frame:
  assumes "client_stderr c" "stderrTail c' = stderrTail c" "stderrBytes c' = stderrBytes c"
  shows "client_stderr c'"
  using assms by (simp add: client_stderr_def)

lemma enqueueLocked_inv:
  assumes "client_inv c" "enqueueLocked d closing c = (e, c')"
  shows "client_inv c'"
  using assms by (auto simp: enqueueLocked_def client_inv_defs split: if_splits)

lemma fold_answer_other: "i \<notin> rpc_id ` set ps \<Longrightarrow> fold (\<lambda>p. answer (rpc_id p) v) ps ch i = ch i"
  by (induction ps arbitrary: ch) (auto simp: answer_def)

lemma fold_answer_same:
  "distinct (map rpc_id ps) \<Longrightarrow> i \<in> rpc_id ` set ps \<Longrightarrow> fold (\<lambda>p. answer (rpc_id p) v) ps ch i = ch i @ [v]"
proof (induction ps arbitrary: ch)
  case (Cons p ps)
  show ?case
  proof (cases "i = rpc_id p")
    case True
    with Cons.prems show ?thesis by (simp add: fold_answer_other) (simp add: answer_def)
  next
    case False
    with Cons show ?thesis by (simp add: answer_def)
  qed
qed simp

lemma retire_client_inv:
  assumes "client_inv c"
  shows "client_inv (snd (retire_client reason c))"
proof (cases "c_err c = None")
  case True
  let ?ch = "fold (\<lambda>p. answer (rpc_id p) (Failure reason)) (c_pending c) (c_answers c)"
  have calls: "client_calls c" using assms by (simp add: client_inv_def)
  have ch: "?ch i = (if i \<in> rpc_id ` set (c_pending c) then [Failure reason] else c_answers c i)" for i
    using calls fold_answer_same [of "c_pending c" i "Failure reason"] fold_answer_other [of i "c_pending c" "Failure reason"]
    by (auto simp: client_calls_def)
  have "client_calls (snd (retire_client reason c))"
    using calls True by (auto simp: retire_client_def client_calls_def ch)
  then show ?thesis
    using assms True by (intro client_inv_frame [OF assms]) (auto simp: retire_client_def client_inv_def intro: queues_frame stderr_frame)
qed (use assms in \<open>simp add: retire_client_def\<close>)

lemma enqueue_calls:
  assumes "enqueueLocked d closing c = (e, c')"
  shows "c_pending c' = c_pending c \<and> c_answers c' = c_answers c \<and> nextID c' = nextID c \<and> c_err c' = c_err c
    \<and> c_limits c' = c_limits c \<and> c_events c' = c_events c"
  using assms by (auto simp: enqueueLocked_def split: if_splits)

text \<open>What \<open>call\<close> does to the state: nothing, a used-up identifier, or a registered call.\<close>

lemma call_start_cases:
  obtains (refused) "snd (call_start ctx initializing meth params c) = c"
  | (burnt) "nextID c \<le> MaxRequestID" "snd (call_start ctx initializing meth params c) = c\<lparr>nextID := nextID c + 1\<rparr>"
  | (registered) s d e c' where "nextID c \<le> MaxRequestID" "c_err c = None" "int (length (c_pending c)) < ALPending (c_limits c)"
      "enqueueLocked d False (c\<lparr>nextID := nextID c + 1, c_pending := c_pending c @ [\<lparr>rpc_id = nextID c, rpc_session = s\<rparr>]\<rparr>) = (e, c')"
      "call_start ctx initializing meth params c = (CallWaiting (nextID c) e, c')"
proof (cases "\<exists>i e. fst (call_start ctx initializing meth params c) = CallWaiting i e")
  case False
  then have "snd (call_start ctx initializing meth params c) = c
    \<or> nextID c \<le> MaxRequestID \<and> snd (call_start ctx initializing meth params c) = c\<lparr>nextID := nextID c + 1\<rparr>"
    by (auto simp: call_start_def Let_def split: option.splits if_splits prod.splits)
  then show ?thesis using refused burnt by blast
next
  case True
  then obtain p where p: "params = Some p" by (cases params) (auto simp: call_start_def split: option.splits if_splits)
  let ?s = "if meth = ''session/prompt'' then sessionID p else []"
  let ?d = "line (call_frame (nextID c) meth p)"
  obtain e c' where e: "enqueueLocked ?d False (c\<lparr>nextID := nextID c + 1, c_pending := c_pending c @ [\<lparr>rpc_id = nextID c, rpc_session = ?s\<rparr>]\<rparr>) = (e, c')"
    by fastforce
  show ?thesis
    by (rule registered [OF _ _ _ e]) (use True p e in \<open>auto simp: call_start_def Let_def split: option.splits if_splits prod.splits\<close>)
qed

lemma call_start_inv:
  assumes "client_inv c"
  shows "client_inv (snd (call_start ctx initializing meth params c))"
proof (cases rule: call_start_cases [of ctx initializing meth params c])
  case refused
  with assms show ?thesis by simp
next
  case burnt
  have "client_calls (c\<lparr>nextID := nextID c + 1\<rparr>)" using assms burnt(1) by (auto simp: client_inv_def client_calls_def)
  with assms burnt(2) show ?thesis
    by (intro client_inv_frame [OF assms]) (auto simp: client_inv_def intro: queues_frame stderr_frame)
next
  case (registered s d e c')
  let ?c = "c\<lparr>nextID := nextID c + 1, c_pending := c_pending c @ [\<lparr>rpc_id = nextID c, rpc_session = s\<rparr>]\<rparr>"
  have "client_calls ?c"
    using assms registered(1-3) by (auto simp: client_inv_def client_calls_def)
  then have "client_inv ?c"
    using assms by (intro client_inv_frame [OF assms]) (auto simp: client_inv_def intro: queues_frame stderr_frame)
  from enqueueLocked_inv [OF this registered(4)] registered(5) show ?thesis by simp
qed

lemma take_answer_inv:
  assumes "client_inv c" "take_answer i c = Some (v, c')"
  shows "client_inv c'"
proof -
  obtain r where r: "c_answers c i = v # r" "c' = c\<lparr>c_answers := (c_answers c)(i := r)\<rparr>"
    using assms(2) by (auto simp: take_answer_def split: list.splits)
  have calls: "client_calls c" using assms(1) by (simp add: client_inv_def)
  then have "length (c_answers c i) \<le> 1" by (simp add: client_calls_def)
  with r(1) have "r = []" by simp
  with calls r have "client_calls c'" by (auto simp: client_calls_def)
  then show ?thesis
    using assms(1) r(2) by (intro client_inv_frame [OF assms(1)]) (auto simp: client_inv_def intro: queues_frame stderr_frame)
qed

lemma notify_start_inv: "client_inv c \<Longrightarrow> client_inv (snd (notify_start meth frame closing c))"
  by (auto simp: notify_start_def split: option.splits prod.splits dest: enqueueLocked_inv)

lemma write_next_inv: "write_next c = Some (d, c') \<Longrightarrow> client_inv c \<Longrightarrow> client_inv c'"
  by (auto simp: write_next_def client_inv_defs split: list.splits)

lemma acp_TryNext_inv: "client_inv c \<Longrightarrow> client_inv (snd (acp_TryNext c))"
  by (auto simp: acp_TryNext_def client_inv_defs split: option.splits list.splits)

lemma event_received_inv: "client_inv c \<Longrightarrow> client_inv (snd (event_received n sz c))"
  by (auto simp: event_received_def client_inv_defs)

lemma rejectAgent_inv: "client_inv c \<Longrightarrow> client_inv (snd (rejectAgent i meth params c))"
  using enqueueLocked_inv by (auto simp: rejectAgent_def Let_def split: prod.splits) (metis surjective_pairing)

lemma reply_received_inv:
  assumes "client_inv c"
  shows "client_inv (snd (reply_received i v c))"
proof (cases "i \<in> rpc_id ` set (c_pending c)")
  case True
  have calls: "client_calls c" using assms by (simp add: client_inv_def)
  have "distinct (map rpc_id (filter (\<lambda>p. rpc_id p \<noteq> i) (c_pending c)))"
    using calls by (auto simp: client_calls_def distinct_map intro: inj_on_subset)
  moreover have "int (length (filter (\<lambda>p. rpc_id p \<noteq> i) (c_pending c))) \<le> ALPending (c_limits c)"
    by (rule order_trans [OF of_nat_mono [OF length_filter_le]]) (use calls in \<open>simp add: client_calls_def\<close>)
  ultimately have "client_calls (snd (reply_received i v c))"
    using calls True by (auto simp: reply_received_def client_calls_def answer_def)
  then show ?thesis
    using assms by (intro client_inv_frame [OF assms]) (auto simp: reply_received_def client_inv_def intro: queues_frame stderr_frame)
qed (use assms in \<open>simp add: reply_received_def\<close>)

lemma receive_frame_inv: "client_inv c \<Longrightarrow> client_inv (snd (receive_frame auth frame c))"
  by (auto simp: receive_frame_def method_received_def response_received_def event_received_inv rejectAgent_inv reply_received_inv
      split: option.splits sum.splits)

lemma trim_tail_spec:
  assumes "trim_tail xs n = (ys, m)" "n = int (sum_list (map length xs))"
  shows "m = int (sum_list (map length ys)) \<and> length ys \<le> 64 \<and> m \<le> 65536 \<and> (\<exists>k. ys = drop k xs)"
  using assms
proof (induction xs n rule: trim_tail.induct)
  case (2 x xs n)
  show ?case
  proof (cases "64 < length (x # xs) \<or> 65536 < n")
    case True
    with 2 have "m = int (sum_list (map length ys)) \<and> length ys \<le> 64 \<and> m \<le> 65536 \<and> (\<exists>k. ys = drop k xs)" by auto
    then show ?thesis by (metis drop_Suc_Cons)
  next
    case False
    with "2.prems" show ?thesis by (auto intro: exI [of _ 0])
  qed
qed simp

lemma stderr_line_spec:
  assumes "client_stderr c"
  obtains k x n tr where "stderr_line l c = c\<lparr>stderrTail := x, stderrBytes := n, truncated := tr\<rparr>"
    "x = drop k (stderrTail c @ [retainableStderr (fst l) (snd l)])" "n = int (sum_list (map length x))" "length x \<le> 64" "n \<le> 65536"
proof -
  let ?k = "retainableStderr (fst l) (snd l)"
  obtain ys m where t: "trim_tail (stderrTail c @ [?k]) (stderrBytes c + int (length ?k)) = (ys, m)" by fastforce
  have "stderrBytes c + int (length ?k) = int (sum_list (map length (stderrTail c @ [?k])))"
    using assms by (simp add: client_stderr_def)
  from trim_tail_spec [OF t this] obtain k where "ys = drop k (stderrTail c @ [?k])" "m = int (sum_list (map length ys))" "length ys \<le> 64" "m \<le> 65536"
    by blast
  moreover have "stderr_line l c = c\<lparr>stderrTail := ys, stderrBytes := m, truncated := (if snd l then truncated c + 1 else truncated c)\<rparr>"
    unfolding stderr_line_def Let_def t prod.case ..
  ultimately show ?thesis using that by blast
qed

lemma stderr_line_inv:
  assumes "client_inv c"
  shows "client_inv (stderr_line l c)"
proof -
  have "client_stderr c" using assms by (simp add: client_inv_def)
  then obtain k x n tr where x: "stderr_line l c = c\<lparr>stderrTail := x, stderrBytes := n, truncated := tr\<rparr>"
    "n = int (sum_list (map length x))" "length x \<le> 64" "n \<le> 65536"
    by (rule stderr_line_spec)
  then show ?thesis
    using assms by (intro client_inv_frame [OF assms]) (auto simp: client_inv_def client_stderr_def intro: queues_frame calls_frame)
qed

lemma cleaned_up_inv: "client_inv c \<Longrightarrow> client_inv (cleaned_up c)"
  by (auto simp: cleaned_up_def client_inv_defs limits_positive_def)

lemma acp_step_inv: "acp_step auth c c' \<Longrightarrow> client_inv c \<Longrightarrow> client_inv c'"
proof (induction rule: acp_step.induct)
  case (readied c caps)
  then show ?case by (simp add: becomes_ready_def client_inv_defs)
qed (blast intro: call_start_inv take_answer_inv notify_start_inv write_next_inv acp_TryNext_inv receive_frame_inv retire_client_inv
      stderr_line_inv cleaned_up_inv)+

definition new_acp :: "client \<Rightarrow> bool" where
  "new_acp c \<longleftrightarrow> (\<exists>l l'. normalized l = Some l' \<and> c = new_client l')"

interpretation ac: invariant_machine new_acp "acp_step auth" client_inv
  by unfold_locales (auto simp: new_acp_def intro: new_client_inv normalized_positive acp_step_inv)

lemma acp_reachable: "new_acp c0 \<Longrightarrow> (acp_step auth)\<^sup>*\<^sup>* c0 c \<Longrightarrow> client_inv c"
  by (rule ac.reachable_inv)

subsection \<open>What no step undoes\<close>

text \<open>Identifiers are given out in increasing order, an answered call stays answered, and the first failure stays.\<close>

definition acp_grows :: "client \<Rightarrow> client \<Rightarrow> bool" where
  "acp_grows c c' \<longleftrightarrow> nextID c \<le> nextID c'
     \<and> (\<forall>i < nextID c. i \<notin> rpc_id ` set (c_pending c) \<longrightarrow> i \<notin> rpc_id ` set (c_pending c'))
     \<and> (c_err c \<noteq> None \<longrightarrow> c_err c' = c_err c)"

lemma acp_grows_refl: "acp_grows c c"
  by (simp add: acp_grows_def)

lemma acp_grows_trans: "acp_grows a b \<Longrightarrow> acp_grows b c \<Longrightarrow> acp_grows a c"
  by (auto simp: acp_grows_def)

lemma acp_grows_same:
  "nextID c' = nextID c \<Longrightarrow> set (c_pending c') \<subseteq> set (c_pending c) \<Longrightarrow> c_err c' = c_err c \<Longrightarrow> acp_grows c c'"
  by (auto simp: acp_grows_def)

lemma call_start_grows: "acp_grows c (snd (call_start ctx initializing meth params c))"
proof (cases rule: call_start_cases [of ctx initializing meth params c])
  case (registered s d e c')
  then show ?thesis using enqueue_calls [OF registered(4)] by (auto simp: acp_grows_def)
qed (auto simp: acp_grows_def)

lemma enqueue_grows: "acp_grows c (snd (enqueueLocked d closing c))"
  using enqueue_calls [of d closing c "fst (enqueueLocked d closing c)" "snd (enqueueLocked d closing c)"] by (simp add: acp_grows_def)

lemma receive_frame_grows: "acp_grows c (snd (receive_frame auth frame c))"
proof -
  have "acp_grows c (snd (event_received n sz c))" for n sz by (auto simp: event_received_def acp_grows_def)
  moreover have "acp_grows c (snd (reply_received i v c))" for i v by (auto simp: reply_received_def acp_grows_def)
  moreover have "acp_grows c (snd (rejectAgent i m p c))" for i m p by (simp add: rejectAgent_def Let_def enqueue_grows acp_grows_refl)
  ultimately show ?thesis
    by (simp add: receive_frame_def method_received_def response_received_def acp_grows_refl split: option.splits sum.splits)
qed

lemma notify_start_grows: "acp_grows c (snd (notify_start meth frame closing c))"
  using enqueue_grows by (auto simp: notify_start_def acp_grows_refl split: option.splits prod.splits) (metis snd_conv)+

lemma acp_step_grows: "acp_step auth c c' \<Longrightarrow> acp_grows c c'"
proof (induction rule: acp_step.induct)
  case (called c ctx initializing meth params)
  show ?case by (rule call_start_grows)
next
  case (notified c meth frame closing)
  show ?case by (rule notify_start_grows)
next
  case (frame_read c frame)
  show ?case by (rule receive_frame_grows)
next
  case (stderr_read c l)
  show ?case by (simp add: stderr_line_def Let_def acp_grows_def split: prod.splits)
qed (auto simp: acp_grows_def becomes_ready_def take_answer_def write_next_def acp_TryNext_def retire_client_def cleaned_up_def
      split: list.splits option.splits)

lemma acp_steps_grow: "(acp_step auth)\<^sup>*\<^sup>* c c' \<Longrightarrow> acp_grows c c'"
  by (induction rule: rtranclp_induct) (auto intro: acp_grows_refl acp_grows_trans acp_step_grows)

subsection \<open>Frames from the process\<close>


lemma string_or_empty_Some: "string_or_empty raw = v \<Longrightarrow> v \<noteq> [] \<Longrightarrow> unmarshal_string raw = Some v"
  by (auto simp: string_or_empty_def split: option.splits)

lemma reject_option_Some:
  assumes "reject_option fs = Some i"
  shows "unmarshal_string (field fs ''optionId'') = Some i \<and> unmarshal_string (field fs ''kind'') \<in> {Some ''reject_once'', Some ''reject_always''}"
  using assms by (auto simp: reject_option_def Let_def split: if_splits intro!: string_or_empty_Some)

lemma permission_outcome_cases:
  "permission_outcome params = obj_text [(''outcome'', quote ''cancelled'')]
   \<or> (\<exists>fs choice. fs \<in> set (permission_options params) \<and> unmarshal_string (field fs ''optionId'') = Some choice
        \<and> unmarshal_string (field fs ''kind'') \<in> {Some ''reject_once'', Some ''reject_always''}
        \<and> permission_outcome params = obj_text [(''optionId'', quote choice), (''outcome'', quote ''selected'')])"
proof (cases "List.map_filter reject_option (permission_options params)")
  case Nil
  then show ?thesis by (simp add: permission_outcome_def)
next
  case (Cons i rest)
  then have "i \<in> set (List.map_filter reject_option (permission_options params))" by simp
  then obtain fs where fs: "fs \<in> set (permission_options params)" "reject_option fs = Some i" by (auto simp: List.map_filter_def)
  have "permission_outcome params = obj_text [(''optionId'', quote i), (''outcome'', quote ''selected'')]"
    by (simp add: permission_outcome_def Cons)
  with fs reject_option_Some [OF fs(2)] show ?thesis by blast
qed

lemma reject_frame_cases:
  "reject_frame i meth params = obj_text [(''error'', obj_text [(''code'', ''-32601''), (''message'', quote ''Agent method is disabled'')]),
     (''id'', compact i), (''jsonrpc'', quote ''2.0'')]
   \<or> (\<exists>outcome. reject_frame i meth params = obj_text [(''id'', compact i), (''jsonrpc'', quote ''2.0''), (''result'', obj_text [(''outcome'', outcome)])]
        \<and> (outcome = obj_text [(''outcome'', quote ''cancelled'')]
           \<or> (\<exists>fs choice. fs \<in> set (permission_options params) \<and> unmarshal_string (field fs ''optionId'') = Some choice
                \<and> unmarshal_string (field fs ''kind'') \<in> {Some ''reject_once'', Some ''reject_always''}
                \<and> outcome = obj_text [(''optionId'', quote choice), (''outcome'', quote ''selected'')])))"
proof (cases "meth = ''session/request_permission''")
  case True
  then have "reject_frame i meth params
    = obj_text [(''id'', compact i), (''jsonrpc'', quote ''2.0''), (''result'', obj_text [(''outcome'', permission_outcome params)])]"
    by (simp add: reject_frame_def)
  with permission_outcome_cases [of params] show ?thesis by blast
qed (simp add: reject_frame_def)

subsection \<open>Bounds\<close>

text \<open>
  C23: In every reachable state of the client the event queue, the write queue and the table of pending calls respect
  their limits, the byte accounts of both queues are exact, and request identifiers stay within the integers JSON
  numbers represent exactly, each pending identifier being in use once.
\<close>

theorem acp_queues_bounded:
  assumes "normalized l = Some l'" and "(acp_step auth)\<^sup>*\<^sup>* (new_client l') c"
  shows "c_eventBytes c = int (sum_list (map snd (c_events c))) \<and> c_eventBytes c \<le> ALEventBytes (c_limits c)
    \<and> int (length (c_events c)) \<le> ALEventQueue (c_limits c)
    \<and> c_writeBytes c = int (sum_list (map length (c_writes c))) \<and> c_writeBytes c \<le> WriteBytes (c_limits c)
    \<and> int (length (c_writes c)) \<le> WriteQueue (c_limits c)
    \<and> int (length (c_pending c)) \<le> ALPending (c_limits c) \<and> distinct (map rpc_id (c_pending c))
    \<and> (\<forall>p \<in> set (c_pending c). 1 \<le> rpc_id p \<and> rpc_id p < 2 ^ 53)"
proof -
  have "client_inv c" using assms by (intro acp_reachable [of "new_client l'"]) (auto simp: new_acp_def)
  then have "client_queues c" "client_calls c" by (simp_all add: client_inv_def)
  moreover have "rpc_id p < 2 ^ 53" if "p \<in> set (c_pending c)" for p
  proof -
    have "rpc_id p < nextID c" "nextID c \<le> MaxRequestID + 1" using \<open>client_calls c\<close> that by (simp_all add: client_calls_def)
    then show ?thesis by (simp add: MaxRequestID_def)
  qed
  ultimately show ?thesis by (simp add: client_queues_def client_calls_def)
qed

subsection \<open>Answers\<close>


subsection \<open>Requests of the agent\<close>

text \<open>
  C24: The client grants the agent nothing. A request from the process either fails the connection with the state
  unchanged, or is answered by exactly one frame: the fixed refusal, a cancelled permission, or the selection of an
  option that the request itself declares to be a rejection. It reaches neither the event queue nor a pending call.
\<close>

theorem agent_requests_refused:
  assumes "ndjson_Object frame = Some obj" "map_of obj ''method'' = Some m" "map_of obj ''id'' = Some i"
    and "receive_frame auth frame c = (e, c')"
  shows "c_events c' = c_events c \<and> c_pending c' = c_pending c \<and> c_answers c' = c_answers c
    \<and> (c' = c \<and> e \<noteq> None
       \<or> (\<exists>reply. c_writes c' = c_writes c @ [line reply] \<and> e = None
            \<and> (reply = obj_text [(''error'', obj_text [(''code'', ''-32601''), (''message'', quote ''Agent method is disabled'')]),
                         (''id'', compact i), (''jsonrpc'', quote ''2.0'')]
               \<or> (\<exists>outcome. reply = obj_text [(''id'', compact i), (''jsonrpc'', quote ''2.0''), (''result'', obj_text [(''outcome'', outcome)])]
                    \<and> (outcome = obj_text [(''outcome'', quote ''cancelled'')]
                       \<or> (\<exists>fs choice. fs \<in> set (permission_options (field obj ''params''))
                            \<and> unmarshal_string (field fs ''optionId'') = Some choice
                            \<and> unmarshal_string (field fs ''kind'') \<in> {Some ''reject_once'', Some ''reject_always''}
                            \<and> outcome = obj_text [(''optionId'', quote choice), (''outcome'', quote ''selected'')]))))))"
proof (cases "c' = c \<and> e \<noteq> None")
  case False
  obtain meth where "unmarshal_string m = Some meth" and r: "rejectAgent i meth (field obj ''params'') c = (e, c')"
    using assms False by (auto simp: receive_frame_def method_received_def split: option.splits if_splits)
  have q: "enqueueLocked (line (reject_frame i meth (field obj ''params''))) False c = (e, c')"
    using r False by (auto simp: rejectAgent_def Let_def split: if_splits)
  then have w: "c_writes c' = c_writes c @ [line (reject_frame i meth (field obj ''params''))]" "e = None"
    using False by (auto simp: enqueueLocked_def split: if_splits)
  show ?thesis
    using enqueue_calls [OF q] w reject_frame_cases [of i meth "field obj ''params''"] by blast
qed (use assms in auto)

subsection \<open>Retirement\<close>

text \<open>
  Retiring a live client answers every pending call with the reason, and nothing undoes it: in every later state the
  reason is the same, no call is pending, no event is handed out, and a new call is refused with that reason.
\<close>

theorem acp_retirement_final:
  assumes "normalized l = Some l'" and "(acp_step auth)\<^sup>*\<^sup>* (new_client l') c" and "c_err c = None"
    and "retire_client reason c = (sessions, c')" and "(acp_step auth)\<^sup>*\<^sup>* c' c''"
  shows "(\<forall>p \<in> set (c_pending c). c_answers c' (rpc_id p) = [Failure reason])
    \<and> set sessions = rpc_session ` set (c_pending c) - {[]}
    \<and> c_err c'' = Some reason \<and> c_pending c'' = [] \<and> acp_TryNext c'' = (Inl reason, c'')
    \<and> (0 < length meth \<and> length meth \<le> 256 \<longrightarrow> call_start None initializing meth (Some params) c'' = (CallFailed reason, c''))"
proof -
  have r: "new_acp (new_client l')" using assms(1) by (auto simp: new_acp_def)
  have calls: "client_calls c" using acp_reachable [OF r assms(2)] by (simp add: client_inv_def)
  have s: "acp_step auth c c'" using acp_step.retired [of auth c reason] assms(4) by simp
  have later: "(acp_step auth)\<^sup>*\<^sup>* (new_client l') c''"
    using assms(2) s assms(5) by (meson rtranclp.rtrancl_into_rtrancl rtranclp_trans)
  have c': "c_err c' = Some reason" using assms(3,4) by (auto simp: retire_client_def)
  with acp_steps_grow [OF assms(5)] have err: "c_err c'' = Some reason" by (simp add: acp_grows_def)
  with acp_reachable [OF r later] have pend: "c_pending c'' = []" by (simp add: client_inv_def client_calls_def)
  have "c_answers c' (rpc_id p) = [Failure reason]" if "p \<in> set (c_pending c)" for p
    using assms(3,4) calls that fold_answer_same [of "c_pending c" "rpc_id p" "Failure reason" "c_answers c"]
    by (auto simp: retire_client_def client_calls_def)
  moreover have "set sessions = rpc_session ` set (c_pending c) - {[]}" using assms(3,4) by (auto simp: retire_client_def)
  ultimately show ?thesis using err pend by (simp add: acp_TryNext_def call_start_def)
qed

subsection \<open>The error output\<close>

text \<open>A text in which the expression matches at no position, by the meaning of expressions.\<close>

definition no_credential :: "bytes \<Rightarrow> bool" where
  "no_credential x \<longleftrightarrow> (\<forall>i \<le> length (runes_of x). \<forall>t.
     \<not> rx_rel credentialHint (if i = 0 then None else Some (runes_of x ! (i - 1)), drop i (runes_of x)) t)"

definition retained_ok :: "bytes \<Rightarrow> bool" where
  "retained_ok x \<longleftrightarrow> x \<in> {''[stderr line omitted: size limit]'', ''[credential-bearing stderr omitted]''} \<or> no_credential x"

lemma retainableStderr_ok: "retained_ok (retainableStderr x tr)"
  using rx_search_iff [of credentialHint None "runes_of x"]
  by (auto simp: retainableStderr_def retained_ok_def no_credential_def MatchString_def)

lemma call_start_tail:
  "stderrTail (snd (call_start ctx initializing meth params c)) = stderrTail c"
  "stderrBytes (snd (call_start ctx initializing meth params c)) = stderrBytes c"
  by (cases rule: call_start_cases [of ctx initializing meth params c]; auto simp: enqueueLocked_def split: if_splits)+

lemma acp_step_tail:
  assumes "acp_step auth c c'" "client_inv c" "list_all retained_ok (stderrTail c)"
  shows "list_all retained_ok (stderrTail c')"
  using assms
proof (induction rule: acp_step.induct)
  case (called c ctx initializing meth params)
  then show ?case by (simp add: call_start_tail)
next
  case (stderr_read c l)
  then have "client_stderr c" by (simp add: client_inv_def)
  then obtain k x n tr where x: "stderr_line l c = c\<lparr>stderrTail := x, stderrBytes := n, truncated := tr\<rparr>"
    "x = drop k (stderrTail c @ [retainableStderr (fst l) (snd l)])" by (rule stderr_line_spec)
  have "list_all retained_ok (stderrTail c @ [retainableStderr (fst l) (snd l)])"
    using stderr_read.prems(2) retainableStderr_ok by simp
  then show ?case using x in_set_dropD by (fastforce simp: list_all_iff)
qed (auto simp: becomes_ready_def take_answer_def notify_start_def enqueueLocked_def write_next_def acp_TryNext_def receive_frame_def
      method_received_def response_received_def rejectAgent_def event_received_def reply_received_def retire_client_def cleaned_up_def Let_def
      split: option.splits list.splits if_splits prod.splits sum.splits)

text \<open>
  C25: Of the process's error output the client keeps at most 64 lines and 64 KiB, with an exact byte count, and every
  line kept is a fixed notice or a text in which no credential pattern matches anywhere.
\<close>

theorem stderr_retained_safely:
  assumes "normalized l = Some l'" and "(acp_step auth)\<^sup>*\<^sup>* (new_client l') c"
  shows "length (stderrTail c) \<le> 64 \<and> stderrBytes c = int (sum_list (map length (stderrTail c))) \<and> stderrBytes c \<le> 65536
    \<and> (\<forall>x \<in> set (stderrTail c). x \<in> {''[stderr line omitted: size limit]'', ''[credential-bearing stderr omitted]''} \<or> no_credential x)"
proof -
  have n: "new_acp (new_client l')" using assms(1) by (auto simp: new_acp_def)
  have "list_all retained_ok (stderrTail c)"
    using assms(2)
  proof (induction rule: rtranclp_induct)
    case base
    show ?case by (simp add: new_client_def)
  next
    case (step a b)
    then show ?case using acp_step_tail acp_reachable [OF n] by blast
  qed
  moreover have "client_stderr c" using acp_reachable [OF n assms(2)] by (simp add: client_inv_def)
  ultimately show ?thesis by (auto simp: client_stderr_def list_all_iff retained_ok_def)
qed

subsection \<open>A worked connection\<close>

definition ex_acp_limits :: acp_limits where
  "ex_acp_limits = \<lparr>FrameBytes = 8388608, ALPending = 64, ALEventQueue = 64, ALEventBytes = 16777216, WriteQueue = 64, WriteBytes = 16777216,
     RequestTimeout = 30000000000, WriteTimeout = 5000000000, CancelTimeout = 500000000, GracePeriod = 1000000000,
     TermPeriod = 1000000000, KillPeriod = 1000000000\<rparr>"

lemma ex_normalized: "normalized ex_acp_limits = Some ex_acp_limits"
  by code_simp

definition ex_c1 :: client where
  "ex_c1 = snd (call_start None True ''initialize'' (Some ''{}'') (new_client ex_acp_limits))"


definition ex_request_frame :: bytes where
  "ex_request_frame = ''{\"jsonrpc\":\"2.0\",\"id\":7,\"method\":\"session/request_permission\",\"params\":{\"options\":[{\"kind\":\"reject_once\",\"optionId\":\"r\"}]}}''"

lemma ex_called: "map rpc_id (c_pending ex_c1) = [1]" "c_err ex_c1 = None" "length (c_writes ex_c1) = 1"
  by code_simp+


lemma ex_c1_reached: "(acp_step None)\<^sup>*\<^sup>* (new_client ex_acp_limits) ex_c1"
  unfolding ex_c1_def by (rule r_into_rtranclp) (rule acp_step.called)

theorem acp_queues_bounded_witness: "c_writeBytes ex_c1 \<le> WriteBytes (c_limits ex_c1) \<and> length (c_writes ex_c1) = 1"
  using acp_queues_bounded [OF ex_normalized ex_c1_reached] ex_called by simp


theorem acp_retirement_final_witness:
  "c_err (snd (retire_client AErrTimeout ex_c1)) = Some AErrTimeout \<and> c_pending (snd (retire_client AErrTimeout ex_c1)) = []"
proof -
  obtain ss c' where r: "retire_client AErrTimeout ex_c1 = (ss, c')" by fastforce
  from acp_retirement_final [OF ex_normalized ex_c1_reached ex_called(2) r rtranclp.rtrancl_refl] r show ?thesis by simp
qed

lemma ex_agent_frame: "\<exists>obj m i. ndjson_Object ex_request_frame = Some obj \<and> map_of obj ''method'' = Some m \<and> map_of obj ''id'' = Some i"
proof -
  have "(case ndjson_Object ex_request_frame of None \<Rightarrow> False | Some obj \<Rightarrow> map_of obj ''method'' \<noteq> None \<and> map_of obj ''id'' \<noteq> None)"
    by code_simp
  then show ?thesis by (auto split: option.splits)
qed

theorem agent_requests_refused_witness:
  "c_events (snd (receive_frame None ex_request_frame ex_c1)) = c_events ex_c1
   \<and> c_pending (snd (receive_frame None ex_request_frame ex_c1)) = c_pending ex_c1"
proof -
  obtain obj m i where o: "ndjson_Object ex_request_frame = Some obj" "map_of obj ''method'' = Some m" "map_of obj ''id'' = Some i"
    using ex_agent_frame by blast
  obtain e c' where r: "receive_frame None ex_request_frame ex_c1 = (e, c')" by fastforce
  from agent_requests_refused [OF o r] r show ?thesis by simp
qed

lemma ex_tail: "stderrTail (stderr_line (''ok'', False) ex_c1) = [''ok'']"
proof -
  have r: "runes_of ''ok'' = [111, 107]" by code_simp
  have "\<not> rx_search credentialHint None [111, 107]"
    by (simp add: credentialHint_def token_tail_def opt_dash_def space_cls_def rx_ends.simps in_cls_def ci_rune_def Let_def byte_def)
  then have "retainableStderr ''ok'' False = ''ok''" by (simp add: retainableStderr_def MatchString_def r)
  then show ?thesis by (simp add: stderr_line_def ex_c1_def call_start_tail new_client_def)
qed

theorem stderr_retained_safely_witness: "no_credential ''ok''"
  using stderr_retained_safely [OF ex_normalized rtranclp.rtrancl_into_rtrancl [OF ex_c1_reached acp_step.stderr_read [of None ex_c1 "(''ok'', False)"]]]
  by (simp add: ex_tail)

end
