(* ===== verification/Manager.thy ===== *)
theory Manager
  imports Driver
begin

text \<open>
  The session manager, \<open>internal/session/manager.go\<close>: it binds each conversation to one driver. Bindings and drivers are
  objects shared by pointer and are named by numbers; \<open>m_entries\<close> is the manager's map in an arbitrary iteration
  order. What the drivers report as their state is an argument of the operations that ask for it. Every definition is
  one critical section of the manager's mutex or a pure part of \<open>Start\<close>.
\<close>

record binding =
  b_driver :: "nat option"
  b_gate :: bool               \<comment> \<open>a start is running\<close>
  b_users :: nat
  b_touched :: int
  b_family :: family

record manager_config =
  ProfileScope :: bytes
  Instance :: bytes
  MaxSessions :: int
  MIdleTTL :: int              \<comment> \<open>nanoseconds\<close>
  SharedMetrics :: bool        \<comment> \<open>the session configuration names metrics or a metrics scope of its own\<close>
  LaunchHook :: bool           \<comment> \<open>the session configuration prepares its launches\<close>
  Persists :: bool
  BackendVersion :: bytes

record manager =
  m_cfg :: manager_config
  m_entries :: "(bytes \<times> nat) list"
  m_bindings :: "nat \<Rightarrow> binding"
  m_next :: nat
  m_closed :: bool
  m_cleanup_failed :: bool
  m_starts :: nat

subsection \<open>Configuration\<close>

text \<open>
  The checks of \<open>NewManager\<close> up to the validation of the session configuration; \<open>entropy\<close> is what \<open>rand.Read\<close>
  delivered.
\<close>

definition checked_config :: "manager_config \<Rightarrow> bytes option \<Rightarrow> manager_config option" where
  "checked_config cfg entropy =
     (if SharedMetrics cfg then None
      else if LaunchHook cfg \<and> Persists cfg then None
      else if ProfileScope cfg = [] \<or> 256 < length (ProfileScope cfg) \<or> 128 < length (Instance cfg) then None
      else let c = cfg\<lparr>MaxSessions := (if MaxSessions cfg = 0 then 8 else MaxSessions cfg),
                       MIdleTTL := (if MIdleTTL cfg = 0 then 3600000000000 else MIdleTTL cfg)\<rparr>
           in if MaxSessions c < 1 \<or> 128 < MaxSessions c \<or> MIdleTTL c \<le> 0 \<or> 86400000000000 < MIdleTTL c then None
              else if Persists c \<and> (BackendVersion c = [] \<or> 128 < length (BackendVersion c)) then None
              else if Instance c = [] then map_option (\<lambda>e. c\<lparr>Instance := hex_encode e\<rparr>) entropy
              else Some c)"

definition new_manager :: "manager_config \<Rightarrow> manager" where
  "new_manager c = \<lparr>m_cfg = c, m_entries = [],
     m_bindings = (\<lambda>_. \<lparr>b_driver = None, b_gate = False, b_users = 0, b_touched = 0, b_family = Main\<rparr>),
     m_next = 0, m_closed = False, m_cleanup_failed = False, m_starts = 0\<rparr>"

subsection \<open>Keys\<close>

definition id_byte_ok :: "char \<Rightarrow> bool" where
  "id_byte_ok c \<longleftrightarrow> \<not> (byte c < 33 \<or> 126 < byte c \<or> c = CHR '','')"

definition id_ok :: "bytes \<Rightarrow> bool" where
  "id_ok i \<longleftrightarrow> length i \<le> 128 \<and> list_all id_byte_ok i"

definition node_text :: "node \<Rightarrow> bytes" where
  "node_text n = obj_text [(''role'', quote (NRole n)), (''digest'', quote (Digest n))]"

definition explicit_text :: "manager_config \<Rightarrow> bytes \<Rightarrow> client_identity \<Rightarrow> bytes" where
  "explicit_text cfg grp i =
     obj_text [(''Profile'', quote (ProfileScope cfg)), (''Group'', quote grp), (''Identity'', Continuation.identity_text i)]"

definition fallback_text :: "manager_config \<Rightarrow> bytes \<Rightarrow> client_identity \<Rightarrow> node \<Rightarrow> node \<Rightarrow> bytes" where
  "fallback_text cfg grp i anchor system =
     obj_text [(''Profile'', quote (ProfileScope cfg)), (''Instance'', quote (Instance cfg)), (''Group'', quote grp),
       (''Identity'', Continuation.identity_text i), (''Anchor'', node_text anchor), (''System'', node_text system)]"

definition binding_key :: "mac \<Rightarrow> manager_config \<Rightarrow> request \<Rightarrow> family \<Rightarrow> bytes option" where
  "binding_key mac cfg r kind =
     (let i = Identity r
      in if \<not> (id_ok (IdSession i) \<and> id_ok (IdAgent i) \<and> id_ok (IdParentAgent i)) then None
         else if IdSession i \<noteq> [] \<and> kind \<noteq> TitleRequest then hasher_Digest mac ''explicit-binding'' (explicit_text cfg (Group kind) i)
         else case List.find (\<lambda>m. Role m = ''user'') (Messages r) of
             None \<Rightarrow> None
           | Some first \<Rightarrow>
               do {
                 anchor \<leftarrow> hasher_Message mac first;
                 system \<leftarrow> hasher_Message mac \<lparr>Role = ''system'', Content = System r\<rparr>;
                 hasher_Digest mac ''fallback-binding'' (fallback_text cfg (Group kind) i anchor system)
               })"

subsection \<open>Bindings\<close>

definition idleBinding :: "(nat \<Rightarrow> driver_state) \<Rightarrow> binding \<Rightarrow> bool" where
  "idleBinding st e \<longleftrightarrow> b_users e = 0 \<and> (case b_driver e of None \<Rightarrow> False | Some d \<Rightarrow> st d \<in> {Idle, Unstarted, Closed})"

definition expired_binding :: "int \<Rightarrow> (nat \<Rightarrow> driver_state) \<Rightarrow> manager \<Rightarrow> nat \<Rightarrow> bool" where
  "expired_binding now st m b \<longleftrightarrow> idleBinding st (m_bindings m b) \<and> MIdleTTL (m_cfg m) \<le> now - b_touched (m_bindings m b)"

definition drivers_of :: "manager \<Rightarrow> (bytes \<times> nat) list \<Rightarrow> nat list" where
  "drivers_of m es = List.map_filter (\<lambda>(_, b). b_driver (m_bindings m b)) es"

text \<open>The drivers to be closed, and the manager without their bindings.\<close>

definition prune_bindings :: "int \<Rightarrow> (nat \<Rightarrow> driver_state) \<Rightarrow> manager \<Rightarrow> nat list \<times> manager" where
  "prune_bindings now st m =
     (drivers_of m (filter (\<lambda>(_, b). expired_binding now st m b) (m_entries m)),
      m\<lparr>m_entries := filter (\<lambda>(_, b). \<not> expired_binding now st m b) (m_entries m)\<rparr>)"

text \<open>The idle binding touched longest ago; of equals the first in iteration order.\<close>

fun oldest_idle :: "(nat \<Rightarrow> driver_state) \<Rightarrow> manager \<Rightarrow> (bytes \<times> nat) option \<Rightarrow> (bytes \<times> nat) list \<Rightarrow> (bytes \<times> nat) option" where
  "oldest_idle st m best [] = best"
| "oldest_idle st m best ((k, b) # es) =
     oldest_idle st m
       (if idleBinding st (m_bindings m b)
           \<and> (case best of None \<Rightarrow> True | Some (_, c) \<Rightarrow> b_touched (m_bindings m b) < b_touched (m_bindings m c))
        then Some (k, b) else best) es"

definition evict :: "(nat \<Rightarrow> driver_state) \<Rightarrow> bytes \<Rightarrow> manager \<Rightarrow> nat list \<times> manager" where
  "evict st key m =
     (if map_of (m_entries m) key = None \<and> MaxSessions (m_cfg m) \<le> int (length (m_entries m))
      then (case oldest_idle st m None (m_entries m) of
              None \<Rightarrow> ([], m)
            | Some (k, b) \<Rightarrow> (drivers_of m [(k, b)], m\<lparr>m_entries := adel k (m_entries m)\<rparr>))
      else ([], m))"

definition fresh_binding :: "int \<Rightarrow> family \<Rightarrow> binding" where
  "fresh_binding now kind = \<lparr>b_driver = None, b_gate = False, b_users = 0, b_touched = now, b_family = kind\<rparr>"

definition add_binding :: "int \<Rightarrow> bytes \<Rightarrow> family \<Rightarrow> manager \<Rightarrow> manager" where
  "add_binding now key kind m =
     (if map_of (m_entries m) key = None \<and> int (length (m_entries m)) < MaxSessions (m_cfg m)
      then m\<lparr>m_entries := m_entries m @ [(key, m_next m)], m_bindings := (m_bindings m)(m_next m := fresh_binding now kind),
             m_next := m_next m + 1\<rparr>
      else m)"

definition upd_binding :: "nat \<Rightarrow> (binding \<Rightarrow> binding) \<Rightarrow> manager \<Rightarrow> manager" where
  "upd_binding b f m = m\<lparr>m_bindings := (m_bindings m)(b := f (m_bindings m b))\<rparr>"

text \<open>The first critical section of \<open>Start\<close>: the binding the request uses, if there is one, and the drivers to close.\<close>

definition start_admit ::
  "int \<Rightarrow> (nat \<Rightarrow> driver_state) \<Rightarrow> bytes \<Rightarrow> family \<Rightarrow> manager \<Rightarrow> (session_error + nat option \<times> nat list) \<times> manager" where
  "start_admit now st key kind m =
     (if m_closed m \<or> m_cleanup_failed m then (Inl SClosed, m)
      else case prune_bindings now st (m\<lparr>m_starts := m_starts m + 1\<rparr>) of
          (ds, m1) \<Rightarrow> (case evict st key m1 of
            (es, m2) \<Rightarrow>
              (let m3 = add_binding now key kind m2
               in case map_of (m_entries m3) key of
                   None \<Rightarrow> (Inr (None, ds @ es), m3)
                 | Some b \<Rightarrow> (Inr (Some b, ds @ es), upd_binding b (\<lambda>e. e\<lparr>b_users := b_users e + 1\<rparr>) m3))))"

text \<open>The gate of a binding admits one start; a second one is refused.\<close>

definition enter_gate :: "nat \<Rightarrow> manager \<Rightarrow> session_error option \<times> manager" where
  "enter_gate b m = (if b_gate (m_bindings m b) then (Some SErrBusy, m) else (None, upd_binding b (\<lambda>e. e\<lparr>b_gate := True\<rparr>) m))"

definition leave_gate :: "nat \<Rightarrow> manager \<Rightarrow> manager" where
  "leave_gate b m = upd_binding b (\<lambda>e. e\<lparr>b_gate := False\<rparr>) m"

definition attach_driver :: "nat \<Rightarrow> nat \<Rightarrow> manager \<Rightarrow> manager" where
  "attach_driver b d m = (if b_driver (m_bindings m b) = None then upd_binding b (\<lambda>e. e\<lparr>b_driver := Some d\<rparr>) m else m)"

text \<open>
  The construction of a binding's driver: a conversation the client names claims its stored record first, and a record
  claimed elsewhere makes the request busy. \<open>claim\<close> is what the store answers, \<open>made\<close> what the constructor returns; a
  lease that the constructor does not take over is closed again.
\<close>

datatype claim = Claimed | Locked | ClaimFailed session_error

definition claims :: "manager_config \<Rightarrow> request \<Rightarrow> family \<Rightarrow> bool" where
  "claims cfg r kind \<longleftrightarrow> Persists cfg \<and> IdSession (Identity r) \<noteq> [] \<and> kind \<noteq> TitleRequest"

definition make_driver ::
  "request \<Rightarrow> family \<Rightarrow> claim \<Rightarrow> session_error + nat \<Rightarrow> nat \<Rightarrow> manager \<Rightarrow> (session_error \<times> bool) option \<times> manager" where
  "make_driver r kind claim made b m =
     (if b_driver (m_bindings m b) \<noteq> None then (None, m)
      else if claims (m_cfg m) r kind \<and> claim = Locked then (Some (SErrBusy, False), m)
      else case (claims (m_cfg m) r kind, claim) of
          (True, ClaimFailed e) \<Rightarrow> (Some (e, False), m)
        | _ \<Rightarrow> (case made of
            Inl e \<Rightarrow> (Some (e, claims (m_cfg m) r kind), m)
          | Inr d \<Rightarrow> (None, attach_driver b d m)))"

text \<open>The deferred end of \<open>Start\<close>.\<close>

definition start_done :: "nat option \<Rightarrow> manager \<Rightarrow> manager" where
  "start_done b m = (case b of
     None \<Rightarrow> m\<lparr>m_starts := m_starts m - 1\<rparr>
   | Some i \<Rightarrow> upd_binding i (\<lambda>e. e\<lparr>b_users := b_users e - 1\<rparr>) (m\<lparr>m_starts := m_starts m - 1\<rparr>))"

definition touch :: "int \<Rightarrow> nat \<Rightarrow> manager \<Rightarrow> manager" where
  "touch now b m = upd_binding b (\<lambda>e. e\<lparr>b_touched := now\<rparr>) m"

definition Prune_manager :: "int \<Rightarrow> (nat \<Rightarrow> driver_state) \<Rightarrow> manager \<Rightarrow> nat list \<times> manager" where
  "Prune_manager now st m = (if m_closed m \<or> m_cleanup_failed m then ([], m) else prune_bindings now st (m\<lparr>m_starts := m_starts m + 1\<rparr>))"

text \<open>The guard of \<open>Models\<close>; the discovery driver answers.\<close>

definition Models_begin :: "manager \<Rightarrow> session_error option \<times> manager" where
  "Models_begin m = (if m_closed m \<or> m_cleanup_failed m then (Some SClosed, m) else (None, m\<lparr>m_starts := m_starts m + 1\<rparr>))"

text \<open>\<open>closeExpired\<close> with the joint outcome of the closes.\<close>

definition closeExpired :: "bool \<Rightarrow> manager \<Rightarrow> bool \<times> manager" where
  "closeExpired failed m = (let m' = m\<lparr>m_cleanup_failed := (m_cleanup_failed m \<or> failed)\<rparr> in (m_cleanup_failed m', m'))"

definition Close_begin :: "manager \<Rightarrow> manager" where
  "Close_begin m = m\<lparr>m_closed := True\<rparr>"

text \<open>After the last start has left: the drivers to close.\<close>

definition Close_finish :: "manager \<Rightarrow> nat list \<times> manager" where
  "Close_finish m = (drivers_of m (m_entries m), m\<lparr>m_entries := []\<rparr>)"

text \<open>Which metrics and pool scope a new driver gets: title work has neither metrics nor the main process family.\<close>

definition driver_metrics :: "request \<Rightarrow> family \<Rightarrow> bytes \<Rightarrow> bytes option" where
  "driver_metrics r kind key =
     (if kind \<noteq> TitleRequest \<and> IdAgent (Identity r) = [] \<and> IdParentAgent (Identity r) = [] then Some key else None)"

definition driver_pool_scope :: "mac \<Rightarrow> bytes \<Rightarrow> family \<Rightarrow> bytes option" where
  "driver_pool_scope mac scope kind = hasher_Digest mac ''process-family'' (arr_text [quote scope, quote (Group kind)])"

end
