(* ===== verification/Manager_Props.thy ===== *)
theory Manager_Props
  imports Manager Messages_Props "HOL-Library.Multiset"
begin

text \<open>
  The manager with the requests that are inside it as a transition system. A request holds the binding it was given
  (or none) from its admission to its deferred end; drivers change their states as they like.
\<close>

subsection \<open>The transition system\<close>

type_synonym msystem = "manager \<times> nat option list"

definition known_drivers :: "manager \<Rightarrow> nat set" where
  "known_drivers m = {d. \<exists>b < m_next m. b_driver (m_bindings m b) = Some d}"

inductive manager_step :: "msystem \<Rightarrow> msystem \<Rightarrow> bool" where
  admitted: "start_admit now st key kind m = (Inr (b, ds), m') \<Longrightarrow> manager_step (m, fl) (m', b # fl)"
| rejected: "start_admit now st key kind m = (Inl e, m') \<Longrightarrow> manager_step (m, fl) (m', fl)"
| entered: "Some b \<in> set fl \<Longrightarrow> manager_step (m, fl) (snd (enter_gate b m), fl)"
| left: "Some b \<in> set fl \<Longrightarrow> manager_step (m, fl) (leave_gate b m, fl)"
| attached: "Some b \<in> set fl \<Longrightarrow> (\<And>d. made = Inr d \<Longrightarrow> d \<notin> known_drivers m) \<Longrightarrow>
    manager_step (m, fl) (snd (make_driver r kind claim made b m), fl)"
| finished: "x \<in> set fl \<Longrightarrow> manager_step (m, fl) (start_done x m, remove1 x fl)"
| touched: "manager_step (m, fl) (touch now b m, fl)"
| pruned: "\<not> m_closed m \<Longrightarrow> \<not> m_cleanup_failed m \<Longrightarrow> manager_step (m, fl) (snd (Prune_manager now st m), None # fl)"
| listed: "Models_begin m = (None, m') \<Longrightarrow> manager_step (m, fl) (m', None # fl)"
| closed_expired: "manager_step (m, fl) (snd (closeExpired failed m), fl)"
| closing: "manager_step (m, fl) (Close_begin m, fl)"
| closed: "m_closed m \<Longrightarrow> manager_step (m, []) (snd (Close_finish m), [])"
| reordered: "mset es = mset (m_entries m) \<Longrightarrow> manager_step (m, fl) (m\<lparr>m_entries := es\<rparr>, fl)"

subsection \<open>The invariant\<close>

definition mconfig_ok :: "manager_config \<Rightarrow> bool" where
  "mconfig_ok c \<longleftrightarrow> 1 \<le> MaxSessions c \<and> MaxSessions c \<le> 128 \<and> 0 < MIdleTTL c"

lemma checked_config_ok: "checked_config cfg entropy = Some c \<Longrightarrow> mconfig_ok c"
  by (auto simp: checked_config_def mconfig_ok_def Let_def split: if_splits option.splits)

definition entries_ok :: "manager \<Rightarrow> bool" where
  "entries_ok m \<longleftrightarrow> distinct (map fst (m_entries m)) \<and> distinct (map snd (m_entries m))
     \<and> snd ` set (m_entries m) \<subseteq> {..<m_next m} \<and> int (length (m_entries m)) \<le> MaxSessions (m_cfg m)"

definition users_ok :: "manager \<Rightarrow> nat option list \<Rightarrow> bool" where
  "users_ok m fl \<longleftrightarrow> (\<forall>b. b_users (m_bindings m b) = count_list fl (Some b))
     \<and> (\<forall>b. Some b \<in> set fl \<longrightarrow> b \<in> snd ` set (m_entries m)) \<and> m_starts m = length fl"

definition drivers_ok :: "manager \<Rightarrow> bool" where
  "drivers_ok m \<longleftrightarrow> (\<forall>b c d. b < m_next m \<and> c < m_next m \<and> b_driver (m_bindings m b) = Some d \<and> b_driver (m_bindings m c) = Some d \<longrightarrow> b = c)"

definition manager_inv :: "msystem \<Rightarrow> bool" where
  "manager_inv s \<longleftrightarrow> (case s of (m, fl) \<Rightarrow> mconfig_ok (m_cfg m) \<and> entries_ok m \<and> users_ok m fl \<and> drivers_ok m)"

lemma new_manager_inv: "mconfig_ok c \<Longrightarrow> manager_inv (new_manager c, [])"
  by (simp add: manager_inv_def entries_ok_def users_ok_def drivers_ok_def new_manager_def mconfig_ok_def)

text \<open>Keeping a part of the entries keeps everything, when the bindings left out have no users.\<close>

lemma shrink_inv:
  assumes inv: "manager_inv (m, fl)" and sub: "es = filter P (m_entries m)"
    and unused: "\<And>k b. (k, b) \<in> set (m_entries m) \<Longrightarrow> \<not> P (k, b) \<Longrightarrow> b_users (m_bindings m b) = 0"
  shows "manager_inv (m\<lparr>m_entries := es\<rparr>, fl)"
proof -
  have e: "entries_ok m" and u: "users_ok m fl" using inv by (simp_all add: manager_inv_def)
  have "distinct (map fst es)" "distinct (map snd es)"
    using e unfolding sub entries_ok_def by (simp_all add: distinct_map_filter)
  moreover have "int (length es) \<le> MaxSessions (m_cfg m)"
    using e length_filter_le [of P "m_entries m"] unfolding sub entries_ok_def by linarith
  moreover have "snd ` set es \<subseteq> {..<m_next m}" using e unfolding sub entries_ok_def by auto
  ultimately have "entries_ok (m\<lparr>m_entries := es\<rparr>)" by (simp add: entries_ok_def)
  moreover have "b \<in> snd ` set es" if held: "Some b \<in> set fl" for b
  proof -
    have "b_users (m_bindings m b) \<noteq> 0" using u held by (simp add: users_ok_def count_list_0_iff)
    moreover obtain k where "(k, b) \<in> set (m_entries m)" using u held unfolding users_ok_def by fastforce
    ultimately have "(k, b) \<in> set es" using unused [of k b] unfolding sub by auto
    then show ?thesis by force
  qed
  ultimately show ?thesis using inv by (auto simp: manager_inv_def users_ok_def drivers_ok_def)
qed

lemma idle_unused: "idleBinding st e \<Longrightarrow> b_users e = 0"
  by (simp add: idleBinding_def)

lemma prune_bindings_inv:
  assumes "manager_inv (m, fl)"
  shows "manager_inv (snd (prune_bindings now st m), fl)"
  unfolding prune_bindings_def snd_conv
  by (rule shrink_inv [OF assms refl]) (auto simp: expired_binding_def idle_unused)

lemma oldest_idle_spec:
  assumes "oldest_idle st m best es = Some (k, b)"
  shows "best = Some (k, b) \<or> (k, b) \<in> set es \<and> idleBinding st (m_bindings m b)"
  using assms by (induction st m best es rule: oldest_idle.induct) (auto split: if_splits)

lemma evict_cases:
  obtains (unchanged) "evict st key m = ([], m)"
  | (evicted) k b where "(k, b) \<in> set (m_entries m)" "idleBinding st (m_bindings m b)" "map_of (m_entries m) key = None"
      "evict st key m = (drivers_of m [(k, b)], m\<lparr>m_entries := adel k (m_entries m)\<rparr>)"
proof (cases "map_of (m_entries m) key = None \<and> MaxSessions (m_cfg m) \<le> int (length (m_entries m)) \<and> oldest_idle st m None (m_entries m) \<noteq> None")
  case True
  then obtain k b where "oldest_idle st m None (m_entries m) = Some (k, b)" by auto
  with oldest_idle_spec [OF this] True show ?thesis by (intro evicted [of k b]) (auto simp: evict_def)
next
  case False
  then have "evict st key m = ([], m)" by (auto simp: evict_def split: option.splits)
  then show ?thesis by (rule unchanged)
qed

lemma evict_inv:
  assumes "manager_inv (m, fl)"
  shows "manager_inv (snd (evict st key m), fl)"
proof (cases rule: evict_cases [of st key m])
  case unchanged
  with assms show ?thesis by simp
next
  case (evicted k b)
  have "b' = b" if "(k, b') \<in> set (m_entries m)" for b'
    using assms evicted(1) that by (auto simp: manager_inv_def entries_ok_def dest: eq_key_imp_eq_value)
  then show ?thesis
    unfolding evicted(4) snd_conv
    using idle_unused [OF evicted(2)] by (intro shrink_inv [OF assms]) (auto simp: adel_def)
qed

lemma fresh_no_users:
  assumes "manager_inv (m, fl)"
  shows "b_users (m_bindings m (m_next m)) = 0"
proof -
  have "m_next m \<notin> snd ` set (m_entries m)" using assms unfolding manager_inv_def entries_ok_def by auto
  then have "Some (m_next m) \<notin> set fl" using assms by (auto simp: manager_inv_def users_ok_def)
  then show ?thesis using assms by (simp add: manager_inv_def users_ok_def count_list_0_iff)
qed

lemma add_binding_inv:
  assumes inv: "manager_inv (m, fl)"
  shows "manager_inv (add_binding now key kind m, fl)"
proof (cases "map_of (m_entries m) key = None \<and> int (length (m_entries m)) < MaxSessions (m_cfg m)")
  case True
  have e: "entries_ok m" using inv by (simp add: manager_inv_def)
  have "entries_ok (add_binding now key kind m)"
    using e True by (auto simp: add_binding_def entries_ok_def map_of_eq_None_iff)
  moreover have "users_ok (add_binding now key kind m) fl"
    using inv True fresh_no_users [OF inv] by (auto simp: manager_inv_def users_ok_def add_binding_def fresh_binding_def)
  moreover have "drivers_ok (add_binding now key kind m)"
    using inv True by (auto simp: manager_inv_def drivers_ok_def add_binding_def fresh_binding_def less_Suc_eq)
  ultimately show ?thesis using inv True by (auto simp: manager_inv_def add_binding_def)
next
  case False
  then have "add_binding now key kind m = m" by (auto simp: add_binding_def)
  with inv show ?thesis by simp
qed

text \<open>Changes of a binding that keep what the invariant reads.\<close>

lemma upd_binding_inv:
  assumes "manager_inv (m, fl)" "\<And>e. b_users (f e) = b_users e" "\<And>e. b_driver (f e) = b_driver e"
  shows "manager_inv (upd_binding b f m, fl)"
  using assms by (auto simp: manager_inv_def upd_binding_def entries_ok_def users_ok_def drivers_ok_def)

lemma starts_entries: "entries_ok (m\<lparr>m_starts := n\<rparr>) = entries_ok m" "drivers_ok (m\<lparr>m_starts := n\<rparr>) = drivers_ok m"
  by (simp_all add: entries_ok_def drivers_ok_def)

text \<open>Admission is the composition of pruning, eviction and registration on a manager whose count of starts is one higher.\<close>

lemma start_admit_cases:
  assumes "start_admit now st key kind m = (x, m')"
  obtains (closed) "x = Inl SClosed" "m' = m" "m_closed m \<or> m_cleanup_failed m"
  | (open_manager) m1 m2 m3 where "m1 = snd (prune_bindings now st (m\<lparr>m_starts := m_starts m + 1\<rparr>))" "m2 = snd (evict st key m1)"
      "m3 = add_binding now key kind m2"
      "x = Inr (map_of (m_entries m3) key, fst (prune_bindings now st (m\<lparr>m_starts := m_starts m + 1\<rparr>)) @ fst (evict st key m1))"
      "m' = (case map_of (m_entries m3) key of None \<Rightarrow> m3 | Some b \<Rightarrow> upd_binding b (\<lambda>e. e\<lparr>b_users := b_users e + 1\<rparr>) m3)"
proof (cases "m_closed m \<or> m_cleanup_failed m")
  case True
  with assms show ?thesis by (intro closed) (auto simp: start_admit_def)
next
  case False
  let ?p = "prune_bindings now st (m\<lparr>m_starts := m_starts m + 1\<rparr>)"
  let ?e = "evict st key (snd ?p)"
  let ?a = "add_binding now key kind (snd ?e)"
  have "start_admit now st key kind m = (Inr (map_of (m_entries ?a) key, fst ?p @ fst ?e),
      case map_of (m_entries ?a) key of None \<Rightarrow> ?a | Some b \<Rightarrow> upd_binding b (\<lambda>e. e\<lparr>b_users := b_users e + 1\<rparr>) ?a)"
    using False by (simp add: start_admit_def Let_def split: prod.splits option.splits)
  then show ?thesis using assms by (intro open_manager [OF refl refl refl]) auto
qed

text \<open>Counting a start without a holder yet: the invariant but for the number of starts.\<close>

lemma start_counted:
  assumes "manager_inv (m, fl)"
  shows "manager_inv (m\<lparr>m_starts := m_starts m + 1\<rparr>, None # fl)"
  using assms by (auto simp: manager_inv_def users_ok_def entries_ok_def drivers_ok_def)

lemma start_admit_inv:
  assumes inv: "manager_inv (m, fl)" and a: "start_admit now st key kind m = (Inr (b, ds), m')"
  shows "manager_inv (m', b # fl)"
  using a
proof (cases rule: start_admit_cases)
  case (open_manager m1 m2 m3)
  have "manager_inv (m1, None # fl)" unfolding open_manager(1) by (rule prune_bindings_inv [OF start_counted [OF inv]])
  then have "manager_inv (m2, None # fl)" unfolding open_manager(2) by (rule evict_inv)
  then have m3: "manager_inv (m3, None # fl)" unfolding open_manager(3) by (rule add_binding_inv)
  show ?thesis
  proof (cases "map_of (m_entries m3) key")
    case None
    with m3 open_manager(4,5) show ?thesis by simp
  next
    case (Some i)
    then have "i \<in> snd ` set (m_entries m3)" by (force dest: map_of_SomeD)
    with Some m3 open_manager(4,5) show ?thesis
      by (auto simp: manager_inv_def upd_binding_def users_ok_def entries_ok_def drivers_ok_def)
  qed
qed simp

lemma start_done_inv:
  assumes "manager_inv (m, fl)" "x \<in> set fl"
  shows "manager_inv (start_done x m, remove1 x fl)"
proof -
  have c: "count_list (remove1 x fl) y = (if y = x then count_list fl y - 1 else count_list fl y)" for y
    using assms(2) by (induction fl) auto
  have "b \<in> snd ` set (m_entries m)" if "Some b \<in> set (remove1 x fl)" for b
    using assms that set_remove1_subset [of x fl] unfolding manager_inv_def users_ok_def by blast
  with assms have "users_ok (start_done x m) (remove1 x fl)"
    by (cases x) (auto simp: manager_inv_def users_ok_def start_done_def upd_binding_def c length_remove1)
  then show ?thesis
    using assms by (cases x) (auto simp: manager_inv_def start_done_def upd_binding_def entries_ok_def drivers_ok_def)
qed

lemma attach_driver_inv:
  assumes "manager_inv (m, fl)" "Some b \<in> set fl" "d \<notin> known_drivers m"
  shows "manager_inv (attach_driver b d m, fl)"
proof -
  have "drivers_ok (attach_driver b d m)"
    using assms unfolding manager_inv_def drivers_ok_def attach_driver_def upd_binding_def known_drivers_def by auto
  then show ?thesis
    using assms(1) by (auto simp: manager_inv_def attach_driver_def upd_binding_def entries_ok_def users_ok_def)
qed

lemma make_driver_inv:
  assumes "manager_inv (m, fl)" "Some b \<in> set fl" "\<And>d. made = Inr d \<Longrightarrow> d \<notin> known_drivers m"
  shows "manager_inv (snd (make_driver r kind claim made b m), fl)"
proof (cases "snd (make_driver r kind claim made b m) = m")
  case False
  then obtain d where "made = Inr d" "snd (make_driver r kind claim made b m) = attach_driver b d m"
    by (auto simp: make_driver_def split: if_splits claim.splits sum.splits bool.splits)
  with assms show ?thesis by (simp add: attach_driver_inv)
qed (use assms(1) in simp)

lemma reordered_inv:
  assumes "manager_inv (m, fl)" "mset es = mset (m_entries m)"
  shows "manager_inv (m\<lparr>m_entries := es\<rparr>, fl)"
proof -
  have "set es = set (m_entries m)" "length es = length (m_entries m)"
    using assms(2) by (metis set_mset_mset, metis size_mset)
  moreover have "distinct (map fst es) = distinct (map fst (m_entries m))" "distinct (map snd es) = distinct (map snd (m_entries m))"
    using assms(2) by (metis mset_eq_imp_distinct_iff mset_map)+
  ultimately show ?thesis using assms(1) by (auto simp: manager_inv_def entries_ok_def users_ok_def drivers_ok_def)
qed

lemma manager_step_inv: "manager_step s s' \<Longrightarrow> manager_inv s \<Longrightarrow> manager_inv s'"
proof (induction rule: manager_step.induct)
  case (rejected now st key kind m e m' fl)
  then show ?case by (auto elim: start_admit_cases)
next
  case (entered b fl m)
  then show ?case by (auto simp: enter_gate_def intro: upd_binding_inv)
next
  case (pruned m fl now st)
  then show ?case using prune_bindings_inv [OF start_counted] by (simp add: Prune_manager_def)
next
  case (listed m m' fl)
  then show ?case using start_counted [of m fl] by (auto simp: Models_begin_def split: if_splits)
next
  case (closed_expired m fl failed)
  then show ?case by (simp add: closeExpired_def Let_def manager_inv_def entries_ok_def users_ok_def drivers_ok_def)
next
  case (closing m fl)
  then show ?case by (simp add: Close_begin_def manager_inv_def entries_ok_def users_ok_def drivers_ok_def)
next
  case (closed m)
  then show ?case by (simp add: Close_finish_def manager_inv_def entries_ok_def users_ok_def drivers_ok_def mconfig_ok_def)
qed (auto simp: leave_gate_def touch_def intro: start_admit_inv upd_binding_inv make_driver_inv start_done_inv reordered_inv)

interpretation mg: invariant_machine "\<lambda>s. \<exists>cfg e c. checked_config cfg e = Some c \<and> s = (new_manager c, [])" manager_step manager_inv
  by unfold_locales (auto dest: checked_config_ok intro: new_manager_inv manager_step_inv)

lemma manager_reachable:
  assumes "checked_config cfg e = Some c" "manager_step\<^sup>*\<^sup>* (new_manager c, []) (m, fl)"
  shows "manager_inv (m, fl)"
  by (rule mg.reachable_inv [OF _ assms(2)]) (use assms(1) in blast)

subsection \<open>Bindings\<close>

text \<open>
  C26: In every reachable state the manager has at most its configured number of bindings, never more than 128, each
  under one key; a binding's user count is the number of requests inside it; and the binding of a request inside the
  manager is still registered, so it cannot be replaced by a second one for the same conversation.
\<close>

theorem manager_bindings_bounded:
  assumes "checked_config cfg e = Some c" and "manager_step\<^sup>*\<^sup>* (new_manager c, []) (m, fl)"
  shows "int (length (m_entries m)) \<le> MaxSessions (m_cfg m) \<and> length (m_entries m) \<le> 128
    \<and> distinct (map fst (m_entries m)) \<and> distinct (map snd (m_entries m))
    \<and> (\<forall>b. b_users (m_bindings m b) = count_list fl (Some b))
    \<and> (\<forall>b. Some b \<in> set fl \<longrightarrow> (\<exists>k. map_of (m_entries m) k = Some b))"
proof -
  have inv: "manager_inv (m, fl)" using assms by (rule manager_reachable)
  then have e: "entries_ok m" "users_ok m fl" "mconfig_ok (m_cfg m)" by (simp_all add: manager_inv_def)
  have "\<exists>k. map_of (m_entries m) k = Some b" if "Some b \<in> set fl" for b
    using e that unfolding users_ok_def entries_ok_def by (metis (no_types, lifting) imageE map_of_is_SomeI surjective_pairing)
  with e show ?thesis by (auto simp: entries_ok_def users_ok_def mconfig_ok_def)
qed

text \<open>A driver handed out for closing belonged to an unused binding that is gone.\<close>

definition retired_from :: "(nat \<Rightarrow> driver_state) \<Rightarrow> manager \<Rightarrow> manager \<Rightarrow> nat \<Rightarrow> bool" where
  "retired_from st m m' d \<longleftrightarrow> (\<exists>k b. (k, b) \<in> set (m_entries m) \<and> b_driver (m_bindings m b) = Some d \<and> b_users (m_bindings m b) = 0
     \<and> st d \<in> {Idle, Unstarted, Closed} \<and> b \<notin> snd ` set (m_entries m'))"

lemma drivers_of_mem: "d \<in> set (drivers_of m es) \<longleftrightarrow> (\<exists>k b. (k, b) \<in> set es \<and> b_driver (m_bindings m b) = Some d)"
  by (force simp: drivers_of_def List.map_filter_def)

lemma idle_driver: "idleBinding st e \<Longrightarrow> b_driver e = Some d \<Longrightarrow> b_users e = 0 \<and> st d \<in> {Idle, Unstarted, Closed}"
  by (simp add: idleBinding_def)

lemma same_value:
  assumes "distinct (map snd xs)" "(k, b) \<in> set xs" "(k', b) \<in> set xs"
  shows "k = k'"
  using assms by (metis distinct_map inj_onD prod.inject snd_conv)

lemma prune_retires:
  assumes "manager_inv (m, fl)" "d \<in> set (fst (prune_bindings now st m))"
  shows "retired_from st m (snd (prune_bindings now st m)) d"
proof -
  obtain k b where b: "(k, b) \<in> set (m_entries m)" "expired_binding now st m b" "b_driver (m_bindings m b) = Some d"
    using assms(2) by (auto simp: prune_bindings_def drivers_of_mem)
  moreover have "b \<notin> snd ` set (m_entries (snd (prune_bindings now st m)))" using b(2) by (auto simp: prune_bindings_def)
  ultimately show ?thesis using idle_driver [of st "m_bindings m b" d] by (auto simp: retired_from_def expired_binding_def)
qed

lemma evict_retires:
  assumes "manager_inv (m, fl)" "d \<in> set (fst (evict st key m))"
  shows "retired_from st m (snd (evict st key m)) d"
proof (cases rule: evict_cases [of st key m])
  case unchanged
  with assms(2) show ?thesis by simp
next
  case (evicted k b)
  have ds: "b_driver (m_bindings m b) = Some d" using assms(2) evicted(4) by (simp add: drivers_of_mem)
  have "distinct (map snd (m_entries m))" using assms(1) by (simp add: manager_inv_def entries_ok_def)
  with evicted(1) have "b \<notin> snd ` set (adel k (m_entries m))" by (auto simp: adel_def dest: same_value)
  with evicted ds idle_driver [OF evicted(2) ds] show ?thesis by (auto simp: retired_from_def)
qed

lemma oldest_idle_none:
  assumes "oldest_idle st m best es = None"
  shows "best = None \<and> (\<forall>(k, b) \<in> set es. \<not> idleBinding st (m_bindings m b))"
  using assms by (induction st m best es rule: oldest_idle.induct) (auto split: if_splits)

lemma add_binding_entries:
  "set (m_entries (add_binding now key kind m)) \<subseteq> insert (key, m_next m) (set (m_entries m))"
  by (auto simp: add_binding_def)

text \<open>No room after eviction: every binding is in use.\<close>

lemma no_room:
  assumes inv: "manager_inv (m, fl)" and n: "map_of (m_entries (add_binding now key kind (snd (evict st key m)))) key = None"
  shows "add_binding now key kind (snd (evict st key m)) = m \<and> int (length (m_entries m)) = MaxSessions (m_cfg m)
    \<and> (\<forall>(k, b) \<in> set (m_entries m). \<not> idleBinding st (m_bindings m b))"
proof (cases rule: evict_cases [of st key m])
  case unchanged
  have k: "map_of (m_entries m) key = None" using n unchanged by (auto simp: add_binding_def split: if_splits)
  have full: "\<not> int (length (m_entries m)) < MaxSessions (m_cfg m)" using n unchanged k by (auto simp: add_binding_def split: if_splits)
  have "oldest_idle st m None (m_entries m) = None"
  proof (rule ccontr)
    assume "oldest_idle st m None (m_entries m) \<noteq> None"
    then obtain i b where i: "oldest_idle st m None (m_entries m) = Some (i, b)" by auto
    then have "snd (evict st key m) = m\<lparr>m_entries := adel i (m_entries m)\<rparr>" using k full by (simp add: evict_def)
    with unchanged have "m_entries m = adel i (m_entries m)" by (metis manager.select_convs(2) manager.surjective manager.update_convs(2) snd_conv)
    moreover have "(i, b) \<in> set (m_entries m)" using oldest_idle_spec [OF i] by simp
    moreover have "(i, b) \<notin> set (adel i (m_entries m))" by (simp add: adel_def)
    ultimately show False by simp
  qed
  then show ?thesis
    using unchanged k full inv oldest_idle_none [of st m None "m_entries m"] by (auto simp: add_binding_def manager_inv_def entries_ok_def)
next
  case (evicted k b)
  have "length (adel k (m_entries m)) < length (m_entries m)"
    using evicted(1) unfolding adel_def by (intro length_filter_less [of "(k, b)"]) auto
  then have "int (length (adel k (m_entries m))) < MaxSessions (m_cfg m)" using inv by (simp add: manager_inv_def entries_ok_def)
  moreover have "map_of (adel k (m_entries m)) key = None" using evicted(3) by (simp add: map_of_adel)
  ultimately show ?thesis using n evicted(4) by (simp add: add_binding_def)
qed

lemma retired_mono:
  assumes "retired_from st m1 m2 d" "set (m_entries m1) \<subseteq> set (m_entries m)" "m_bindings m1 = m_bindings m"
    "snd ` set (m_entries m3) \<subseteq> insert n (snd ` set (m_entries m2))" "snd ` set (m_entries m) \<subseteq> {..<n}"
  shows "retired_from st m m3 d"
proof -
  obtain k b where b: "(k, b) \<in> set (m_entries m1)" "b_driver (m_bindings m1 b) = Some d" "b_users (m_bindings m1 b) = 0"
    "st d \<in> {Idle, Unstarted, Closed}" "b \<notin> snd ` set (m_entries m2)" using assms(1) unfolding retired_from_def by blast
  have "(k, b) \<in> set (m_entries m)" using assms(2) b(1) by blast
  moreover from this have "b < n" using assms(5) by force
  then have "b \<notin> snd ` set (m_entries m3)" using assms(4) b(5) by blast
  ultimately show ?thesis using b(2-4) assms(3) unfolding retired_from_def by metis
qed

lemma admit_retires:
  assumes inv: "manager_inv (m, fl)" and a: "start_admit now st key kind m = (Inr (b, ds), m')" and d: "d \<in> set ds"
  shows "retired_from st m m' d"
  using a
proof (cases rule: start_admit_cases)
  case (open_manager m1 m2 m3)
  let ?m0 = "m\<lparr>m_starts := m_starts m + 1\<rparr>"
  have inv0: "manager_inv (?m0, None # fl)" by (rule start_counted [OF inv])
  have inv1: "manager_inv (m1, None # fl)" unfolding open_manager(1) by (rule prune_bindings_inv [OF inv0])
  have e1: "set (m_entries m1) \<subseteq> set (m_entries m)" "m_bindings m1 = m_bindings m" "m_next m1 = m_next m"
    by (auto simp: open_manager(1) prune_bindings_def)
  have e2: "set (m_entries m2) \<subseteq> set (m_entries m1)" "m_next m2 = m_next m1"
    unfolding open_manager(2) by (cases rule: evict_cases [of st key m1]; auto simp: adel_def)+
  have "m_entries m' = m_entries m3" unfolding open_manager(5) by (simp add: upd_binding_def split: option.splits)
  then have e3: "snd ` set (m_entries m') \<subseteq> insert (m_next m) (snd ` set (m_entries m2))"
    using add_binding_entries [of now key kind m2] e1(3) e2(2) unfolding open_manager(3) by force
  have below: "snd ` set (m_entries m) \<subseteq> {..<m_next m}" using inv by (simp add: manager_inv_def entries_ok_def)
  from d open_manager(4) consider "d \<in> set (fst (prune_bindings now st ?m0))" | "d \<in> set (fst (evict st key m1))" by auto
  then show ?thesis
  proof cases
    case 1
    from prune_retires [OF inv0 1] have "retired_from st ?m0 m1 d" unfolding open_manager(1) .
    then show ?thesis by (rule retired_mono [OF _ _ _ _ below]) (use e2(1) e3 in auto)
  next
    case 2
    from evict_retires [OF inv1 2] have "retired_from st m1 m2 d" unfolding open_manager(2) .
    then show ?thesis by (rule retired_mono [OF _ e1(1,2) e3 below])
  qed
qed simp

text \<open>
  C27: Admitting a request closes only drivers nobody uses: each driver handed out for closing belonged to a registered
  binding that no request was inside and whose driver was idle, unstarted or closed, and that binding is no longer
  registered. The request gets the binding registered under its key, which is none of those; it gets none only when
  the limit is reached and no binding is idle.
\<close>

theorem admission_closes_only_idle:
  assumes "checked_config cfg e = Some c" and "manager_step\<^sup>*\<^sup>* (new_manager c, []) (m, fl)"
    and "start_admit now st key kind m = (Inr (b, ds), m')"
  shows "(\<forall>d \<in> set ds. \<exists>k i. (k, i) \<in> set (m_entries m) \<and> b_driver (m_bindings m i) = Some d \<and> b_users (m_bindings m i) = 0
            \<and> Some i \<notin> set fl \<and> st d \<in> {Idle, Unstarted, Closed} \<and> i \<notin> snd ` set (m_entries m'))
    \<and> map_of (m_entries m') key = b
    \<and> (b = None \<longrightarrow> int (length (m_entries m')) = MaxSessions (m_cfg m')
         \<and> (\<forall>(k, i) \<in> set (m_entries m'). \<not> idleBinding st (m_bindings m' i)))"
proof -
  have inv: "manager_inv (m, fl)" using assms(1,2) by (rule manager_reachable)
  have unused: "Some i \<notin> set fl" if "b_users (m_bindings m i) = 0" for i
    using that inv by (auto simp: manager_inv_def users_ok_def count_list_0_iff)
  have "\<exists>k i. (k, i) \<in> set (m_entries m) \<and> b_driver (m_bindings m i) = Some d \<and> b_users (m_bindings m i) = 0
      \<and> Some i \<notin> set fl \<and> st d \<in> {Idle, Unstarted, Closed} \<and> i \<notin> snd ` set (m_entries m')" if "d \<in> set ds" for d
    using admit_retires [OF inv assms(3) that] unused unfolding retired_from_def by blast
  moreover have "map_of (m_entries m') key = b \<and> (b = None \<longrightarrow> int (length (m_entries m')) = MaxSessions (m_cfg m')
      \<and> (\<forall>(k, i) \<in> set (m_entries m'). \<not> idleBinding st (m_bindings m' i)))"
    using assms(3)
  proof (cases rule: start_admit_cases)
    case (open_manager m1 m2 m3)
    have inv1: "manager_inv (m1, None # fl)"
      unfolding open_manager(1) by (rule prune_bindings_inv [OF start_counted [OF inv]])
    have e: "m_entries m' = m_entries m3" unfolding open_manager(5) by (simp add: upd_binding_def split: option.splits)
    have b: "map_of (m_entries m3) key = b" using open_manager(4) by simp
    have "int (length (m_entries m')) = MaxSessions (m_cfg m') \<and> (\<forall>(k, i) \<in> set (m_entries m'). \<not> idleBinding st (m_bindings m' i))"
      if none: "b = None"
    proof -
      have n: "map_of (m_entries (add_binding now key kind (snd (evict st key m1)))) key = None"
        using b none unfolding open_manager(2,3) by simp
      have "m3 = m1" using no_room [OF inv1 n] unfolding open_manager(2,3) by blast
      moreover have "m' = m3" using open_manager(5) b none by simp
      ultimately show ?thesis using no_room [OF inv1 n] by blast
    qed
    with e b show ?thesis by simp
  qed simp
  ultimately show ?thesis by blast
qed

subsection \<open>Keys\<close>

lemma hex_encode_inj: "hex_encode a = hex_encode b \<Longrightarrow> a = b"
  by (metis hex_decode_encode option.inject)

lemma hasher_Digest_inj:
  assumes "hasher_Digest mac d1 b1 = Some a" "hasher_Digest mac d2 b2 = Some a"
  shows "mac (''dax-history-v1'' @ [CHR 0x00] @ d1 @ [CHR 0x00] @ b1) = mac (''dax-history-v1'' @ [CHR 0x00] @ d2 @ [CHR 0x00] @ b2)"
  using assms hex_encode_inj by (auto simp: hasher_Digest_def split: if_splits)

lemma Group_quotes: "quote (Group TitleRequest) = ''\"title\"''" "kind \<noteq> TitleRequest \<Longrightarrow> quote (Group kind) = ''\"main\"''"
proof -
  have q: "quote ''title'' = ''\"title\"''" "quote ''main'' = ''\"main\"''" by code_simp+
  then show "quote (Group TitleRequest) = ''\"title\"''" "kind \<noteq> TitleRequest \<Longrightarrow> quote (Group kind) = ''\"main\"''"
    by (simp_all add: Group_def)
qed

lemma fallback_text_group:
  assumes "kind \<noteq> TitleRequest"
  shows "fallback_text cfg (Group kind) i a s \<noteq> fallback_text cfg (Group TitleRequest) i' a' s'"
  by (simp add: fallback_text_def obj_text_def Group_quotes Group_quotes(2) [OF assms])

lemma title_key:
  assumes "binding_key mac cfg r TitleRequest = Some a"
  obtains i n s where "hasher_Digest mac ''fallback-binding'' (fallback_text cfg (Group TitleRequest) i n s) = Some a"
  using assms by (auto simp: binding_key_def Let_def split: if_splits option.splits bind_splits)

lemma other_key:
  assumes "binding_key mac cfg r kind = Some a"
  obtains (explicit) i where "hasher_Digest mac ''explicit-binding'' (explicit_text cfg (Group kind) i) = Some a"
  | (fallback) i n s where "hasher_Digest mac ''fallback-binding'' (fallback_text cfg (Group kind) i n s) = Some a"
  using assms by (auto simp: binding_key_def Let_def split: if_splits option.splits bind_splits)

lemma digests_differ:
  assumes "hasher_Digest mac d1 b1 = Some a" "hasher_Digest mac d2 b2 = Some a" "d1 @ [CHR 0x00] @ b1 \<noteq> d2 @ [CHR 0x00] @ b2"
  shows "\<exists>x y. x \<noteq> y \<and> mac x = mac y"
proof (intro exI conjI)
  show "mac (''dax-history-v1'' @ [CHR 0x00] @ d1 @ [CHR 0x00] @ b1) = mac (''dax-history-v1'' @ [CHR 0x00] @ d2 @ [CHR 0x00] @ b2)"
    by (rule hasher_Digest_inj [OF assms(1,2)])
  show "''dax-history-v1'' @ [CHR 0x00] @ d1 @ [CHR 0x00] @ b1 \<noteq> ''dax-history-v1'' @ [CHR 0x00] @ d2 @ [CHR 0x00] @ b2"
    using assms(3) by (simp only: same_append_eq) simp
qed

lemma title_collision:
  assumes "binding_key mac cfg r kind = Some a" "binding_key mac cfg r' TitleRequest = Some a" "kind \<noteq> TitleRequest"
  shows "\<exists>x y. x \<noteq> y \<and> mac x = mac y"
proof -
  obtain i n s where t: "hasher_Digest mac ''fallback-binding'' (fallback_text cfg (Group TitleRequest) i n s) = Some a"
    using assms(2) by (rule title_key)
  from assms(1) show ?thesis
  proof (cases rule: other_key)
    case (explicit j)
    show ?thesis by (rule digests_differ [OF explicit t]) simp
  next
    case (fallback j n' s')
    show ?thesis
      by (rule digests_differ [OF fallback t]) (simp only: same_append_eq fallback_text_group [OF assms(3)] not_False_eq_True)
  qed
qed

text \<open>
  Requests that name the same session and agents share one binding whatever else they contain, and a title request
  never shares a binding with a conversation: equal keys would be a collision of the keyed hash.
\<close>

theorem binding_keys_follow_identity:
  assumes "kind \<noteq> TitleRequest" "kind' \<noteq> TitleRequest" "Identity r = Identity r'" "IdSession (Identity r) \<noteq> []"
  shows "binding_key mac cfg r kind = binding_key mac cfg r' kind'
    \<and> (\<forall>q a. binding_key mac cfg r kind = Some a \<and> binding_key mac cfg q TitleRequest = Some a \<longrightarrow> (\<exists>x y. x \<noteq> y \<and> mac x = mac y))"
proof (intro conjI allI impI)
  show "binding_key mac cfg r kind = binding_key mac cfg r' kind'" using assms by (simp add: binding_key_def Group_def Let_def)
next
  fix q a
  assume "binding_key mac cfg r kind = Some a \<and> binding_key mac cfg q TitleRequest = Some a"
  then show "\<exists>x y. x \<noteq> y \<and> mac x = mac y" using title_collision assms(1) by (elim conjE)
qed

subsection \<open>A worked manager\<close>

definition ex_mcfg :: manager_config where
  "ex_mcfg = \<lparr>ProfileScope = ''p'', Instance = ''i'', MaxSessions = 1, MIdleTTL = 1000, SharedMetrics = False,
     LaunchHook = False, Persists = False, BackendVersion = []\<rparr>"

lemma ex_mcfg_ok: "checked_config ex_mcfg None = Some ex_mcfg"
  by (simp add: checked_config_def ex_mcfg_def)

definition ex_m1 :: manager where "ex_m1 = snd (start_admit 5 (\<lambda>_. Idle) ''k'' Main (new_manager ex_mcfg))"

lemma ex_admit1: "start_admit 5 (\<lambda>_. Idle) ''k'' Main (new_manager ex_mcfg) = (Inr (Some 0, []), ex_m1)"
  by (simp add: ex_m1_def start_admit_def new_manager_def ex_mcfg_def prune_bindings_def evict_def add_binding_def drivers_of_def
      List.map_filter_def upd_binding_def Let_def)

lemma ex_m1_reached: "manager_step\<^sup>*\<^sup>* (new_manager ex_mcfg, []) (ex_m1, [Some 0])"
  by (rule r_into_rtranclp) (rule manager_step.admitted [OF ex_admit1])

theorem manager_bindings_bounded_witness: "length (m_entries ex_m1) \<le> 128 \<and> b_users (m_bindings ex_m1 0) = 1"
  using manager_bindings_bounded [OF ex_mcfg_ok ex_m1_reached] by simp

lemma ex_admit2: "\<exists>m'. start_admit 9 (\<lambda>_. Idle) ''l'' Main ex_m1 = (Inr (None, []), m')"
  by (simp add: ex_m1_def start_admit_def new_manager_def ex_mcfg_def prune_bindings_def evict_def add_binding_def drivers_of_def
      List.map_filter_def upd_binding_def fresh_binding_def expired_binding_def idleBinding_def Let_def)

theorem admission_closes_only_idle_witness:
  "\<exists>m'. start_admit 9 (\<lambda>_. Idle) ''l'' Main ex_m1 = (Inr (None, []), m') \<and> int (length (m_entries m')) = MaxSessions (m_cfg m')"
proof -
  obtain m' where m': "start_admit 9 (\<lambda>_. Idle) ''l'' Main ex_m1 = (Inr (None, []), m')" using ex_admit2 by blast
  from admission_closes_only_idle [OF ex_mcfg_ok ex_m1_reached m'] m' show ?thesis by blast
qed

theorem binding_keys_follow_identity_witness:
  "binding_key id ex_mcfg (ex_request\<lparr>Identity := \<lparr>IdSession = ''s'', IdAgent = [], IdParentAgent = []\<rparr>\<rparr>) Main
   = binding_key id ex_mcfg (ex_request\<lparr>Identity := \<lparr>IdSession = ''s'', IdAgent = [], IdParentAgent = []\<rparr>, Messages := []\<rparr>) Retry"
  using binding_keys_follow_identity [of Main Retry "ex_request\<lparr>Identity := \<lparr>IdSession = ''s'', IdAgent = [], IdParentAgent = []\<rparr>\<rparr>"
      "ex_request\<lparr>Identity := \<lparr>IdSession = ''s'', IdAgent = [], IdParentAgent = []\<rparr>, Messages := []\<rparr>" id ex_mcfg] by simp

end
