(* ===== verification/Gateway.thy ===== *)
theory Gateway
  imports ResponseStream Status
begin

text \<open>
  The HTTP gateway, \<open>internal/gateway/http.go\<close> and \<open>delivery.go\<close>: credentials and routes, admission of a Messages request,
  and the loop that turns the backend's events into a response. What the HTTP server, the clock, the contexts and the
  backend deliver at each round of the loop is a value of type \<open>tick\<close>; whether a write or flush succeeds is the stream's
  list of outcomes. \<open>mime.ParseMediaType\<close> and \<open>net/url\<close> are arguments. An error of the backend is the list of the sentinel
  errors it wraps, which is all that \<open>errors.Is\<close> and \<open>errors.As\<close> see.
\<close>

subsection \<open>Configuration\<close>

record tokens =
  ModelToken :: bytes
  UIToken :: bytes

record gateway_config =
  GTokens :: tokens
  HasBackend :: bool
  HasMetrics :: bool
  LaunchModel :: bytes
  FirstEventTimeout :: int     \<comment> \<open>nanoseconds\<close>
  TurnTimeout :: int
  GWriteTimeout :: int
  GReadTimeout :: int
  KeepAliveInterval :: int
  MaxActiveRequests :: int
  MaxOutputBytes :: int

definition token_byte :: "char \<Rightarrow> bool" where
  "token_byte c \<longleftrightarrow> 65 \<le> byte c \<and> byte c \<le> 90 \<or> 97 \<le> byte c \<and> byte c \<le> 122 \<or> 48 \<le> byte c \<and> byte c \<le> 57
     \<or> c = CHR ''_'' \<or> c = CHR ''-''"

definition validToken :: "bytes \<Rightarrow> bool" where
  "validToken s \<longleftrightarrow> length s = 43 \<and> list_all token_byte s"

definition or_default :: "int \<Rightarrow> int \<Rightarrow> int" where
  "or_default v d = (if v = 0 then d else v)"

definition New_gateway :: "gateway_config \<Rightarrow> gateway_config option" where
  "New_gateway cfg =
     (if LaunchModel cfg \<noteq> [] \<and> LaunchNotice (LaunchModel cfg) = None then None
      else if \<not> HasBackend cfg \<or> \<not> validToken (ModelToken (GTokens cfg)) \<or> \<not> validToken (UIToken (GTokens cfg))
          \<or> ModelToken (GTokens cfg) = UIToken (GTokens cfg) then None
      else let c = cfg\<lparr>FirstEventTimeout := or_default (FirstEventTimeout cfg) 90000000000,
                       TurnTimeout := or_default (TurnTimeout cfg) 600000000000,
                       GWriteTimeout := or_default (GWriteTimeout cfg) 5000000000,
                       GReadTimeout := or_default (GReadTimeout cfg) 15000000000,
                       KeepAliveInterval := or_default (KeepAliveInterval cfg) 15000000000,
                       MaxActiveRequests := or_default (MaxActiveRequests cfg) 16,
                       MaxOutputBytes := or_default (MaxOutputBytes cfg) 16777216\<rparr>
           in if FirstEventTimeout c \<le> 0 \<or> TurnTimeout c < FirstEventTimeout c \<or> 3600000000000 < TurnTimeout c
                 \<or> GWriteTimeout c \<le> 0 \<or> 60000000000 < GWriteTimeout c \<or> GReadTimeout c \<le> 0 \<or> 60000000000 < GReadTimeout c
                 \<or> KeepAliveInterval c \<le> 0 \<or> 60000000000 < KeepAliveInterval c
                 \<or> MaxActiveRequests c < 1 \<or> 256 < MaxActiveRequests c \<or> MaxOutputBytes c < 1024 \<or> 67108864 < MaxOutputBytes c
              then None else Some c)"

subsection \<open>Credentials and routes\<close>

definition cut_space :: "bytes \<Rightarrow> (bytes \<times> bytes) option" where
  "cut_space s = (if CHR '' '' \<in> set s then Some (takeWhile (\<lambda>c. c \<noteq> CHR '' '') s, tl (dropWhile (\<lambda>c. c \<noteq> CHR '' '') s)) else None)"

text \<open>No letter of \<open>Bearer\<close> folds to anything but its other case, so \<open>EqualFold\<close> compares in lower case.\<close>

definition bearer_value :: "bytes \<Rightarrow> bytes option" where
  "bearer_value h = (case cut_space h of
     None \<Rightarrow> None
   | Some (kind, v) \<Rightarrow>
       if map ascii_lower kind = ''bearer'' \<and> v \<noteq> [] \<and> \<not> list_ex (\<lambda>c. c \<in> {CHR '' '', CHR 0x09, CHR 0x0D, CHR 0x0A}) v
       then Some v else None)"

definition authorized :: "bytes list \<Rightarrow> bytes list \<Rightarrow> bytes \<Rightarrow> bool" where
  "authorized apikeys auth expected =
     (if 1 < length apikeys \<or> 1 < length auth then False
      else case apikeys of
          [] \<Rightarrow> (case auth of [] \<Rightarrow> expected = [] | h # _ \<Rightarrow> bearer_value h = Some expected)
        | key # _ \<Rightarrow>
            if key = [] then False
            else (case auth of
                [] \<Rightarrow> key = expected
              | h # _ \<Rightarrow> (case bearer_value h of None \<Rightarrow> False | Some v \<Rightarrow> key = v \<and> v = expected)))"

datatype route = HealthRoute | ModelRoute | UIRoute | NoRoute

definition route_of :: "bytes \<Rightarrow> bytes \<Rightarrow> route" where
  "route_of meth path =
     (let r = meth @ '' '' @ path
      in if r = ''GET /health'' then HealthRoute
         else if r \<in> {''POST /v1/messages'', ''POST /messages'', ''GET /v1/models''} then ModelRoute
         else if r \<in> {''GET /dax-kiro-proxy/status/usage'', ''POST /dax-kiro-proxy/hooks/turn-metrics'',
                       ''POST /dax-kiro-proxy/hooks/model-capabilities''} then UIRoute
         else NoRoute)"

record http_error =
  HStatus :: nat
  HKind :: bytes
  HMessage :: bytes

definition herr :: "nat \<Rightarrow> bytes \<Rightarrow> bytes \<Rightarrow> http_error" where
  "herr st kind msg = \<lparr>HStatus = st, HKind = kind, HMessage = msg\<rparr>"

definition invalid :: "bytes \<Rightarrow> http_error" where
  "invalid msg = herr 400 ''invalid_request_error'' msg"

definition api_failure :: "bytes \<Rightarrow> http_error" where
  "api_failure msg = herr 502 ''api_error'' msg"

datatype dispatch =
    Healthy
  | Rejected_with http_error
  | ServeUI                    \<comment> \<open>the status routes\<close>
  | ServeModels                \<comment> \<open>the catalogue, holding an admission slot\<close>
  | ServeMessages              \<comment> \<open>inference, holding an admission slot\<close>

text \<open>\<open>ServeHTTP\<close>; \<open>active\<close> is the number of admission slots in use.\<close>

definition ServeHTTP :: "gateway_config \<Rightarrow> int \<Rightarrow> bytes \<Rightarrow> bytes \<Rightarrow> bytes list \<Rightarrow> bytes list \<Rightarrow> dispatch" where
  "ServeHTTP cfg active meth path apikeys auth =
     (let credential = (if route_of meth path = UIRoute then UIToken (GTokens cfg) else ModelToken (GTokens cfg))
      in if route_of meth path = HealthRoute then Healthy
         else if route_of meth path = NoRoute then Rejected_with (herr 404 ''not_found_error'' ''Route not found'')
         else if \<not> authorized apikeys auth credential then Rejected_with (herr 401 ''authentication_error'' ''Invalid gateway credential'')
         else if credential = UIToken (GTokens cfg) then ServeUI
         else if MaxActiveRequests cfg \<le> active then Rejected_with (herr 429 ''overloaded_error'' ''Gateway request capacity reached'')
         else if meth = ''GET'' then ServeModels
         else ServeMessages)"

subsection \<open>Admission of a request\<close>

definition identity_header :: "bytes list \<Rightarrow> bytes option" where
  "identity_header values = (case values of
     [] \<Rightarrow> Some []
   | [v] \<Rightarrow> if v = [] \<or> 128 < length v \<or> \<not> list_all (\<lambda>c. \<not> (byte c < 33 \<or> 126 < byte c \<or> c = CHR '','')) v then None else Some v
   | _ \<Rightarrow> None)"

definition clientIdentity :: "bytes list \<Rightarrow> bytes list \<Rightarrow> bytes list \<Rightarrow> client_identity option" where
  "clientIdentity session agent parent =
     do {
       s \<leftarrow> identity_header session;
       a \<leftarrow> identity_header agent;
       p \<leftarrow> identity_header parent;
       Some \<lparr>IdSession = s, IdAgent = a, IdParentAgent = p\<rparr>
     }"

definition control_message :: "bytes \<Rightarrow> bytes" where
  "control_message c = ''Request control '' @ c @ '' is not supported by the Kiro ACP adapter''"

datatype body = Body bytes | BodyTooLarge | BodyUnreadable

record http_input =
  ContentType :: bytes
  HBody :: body
  SessionHeader :: "bytes list"
  AgentHeader :: "bytes list"
  ParentHeader :: "bytes list"

text \<open>The first part of \<open>messages\<close>, up to the start of the backend; \<open>media\<close> is the media type \<open>mime.ParseMediaType\<close> finds.\<close>

definition admit_request ::
  "unicode_tables \<Rightarrow> decode_config \<Rightarrow> (bytes \<Rightarrow> bytes option) \<Rightarrow> http_input \<Rightarrow> http_error + request" where
  "admit_request u dc media h =
     (if ContentType h \<noteq> [] \<and> media (ContentType h) \<noteq> Some ''application/json'' then Inl (invalid ''Expected application/json'')
      else case HBody h of
          BodyTooLarge \<Rightarrow> Inl (herr 413 ''request_too_large'' ''Messages body exceeds 16 MiB'')
        | BodyUnreadable \<Rightarrow> Inl (invalid ''Cannot read Messages body'')
        | Body b \<Rightarrow> (case DecodeRequest u dc b of
            Inl (UnsupportedControlError c) \<Rightarrow> Inl (invalid (control_message c))
          | Inl ErrRequest \<Rightarrow> Inl (invalid ''Invalid Messages request'')
          | Inr r \<Rightarrow> (case clientIdentity (SessionHeader h) (AgentHeader h) (ParentHeader h) of
              None \<Rightarrow> Inl (invalid ''Invalid client conversation identifier'')
            | Some i \<Rightarrow>
                if \<not> ClientContent (r\<lparr>Identity := i\<rparr>) then Inl (invalid ''Content or tools are unsupported by the current adapter'')
                else if ToolPolicy (r\<lparr>Identity := i\<rparr>) = None then Inl (invalid ''Unsupported tool choice restriction'')
                else Inr (r\<lparr>Identity := i\<rparr>))))"

subsection \<open>Failures of the backend\<close>

datatype sentinel =
    UnsupportedControl bytes
  | SchemaOverloaded | SchemaBudget | SchemaWorker | SchemaClosed
  | BackendRequest | InvalidRequest | BackendBusy
  | AcpOverloaded | AcpAuthentication
  | DeadlineExceeded | OutputLimit

type_synonym failure = "sentinel list"

definition loginMessage :: bytes where
  "loginMessage = ''Kiro authentication timed_out. Run `kiro-cli login` and retry this request.''"

definition outputLimit :: bytes where
  "outputLimit = ''response exceeds output limit''"

definition failureMessage :: "failure \<Rightarrow> bool \<Rightarrow> bool \<Rightarrow> bytes" where
  "failureMessage e first timed_out =
     (if timed_out then ''Kiro turn deadline exceeded''
      else if DeadlineExceeded \<in> set e \<and> first then ''Timed out waiting for the first model event''
      else if OutputLimit \<in> set e then outputLimit
      else ''Kiro backend failed; retry with a new session'')"

fun control_of :: "failure \<Rightarrow> bytes option" where
  "control_of [] = None"
| "control_of (UnsupportedControl c # es) = Some c"
| "control_of (_ # es) = control_of es"

text \<open>What a failed start tells the client; \<open>None\<close> is the login fallback.\<close>

definition start_failure :: "failure \<Rightarrow> bool \<Rightarrow> http_error option" where
  "start_failure e timed_out = (case control_of e of
     Some c \<Rightarrow> Some (invalid (control_message c))
   | None \<Rightarrow>
       if SchemaOverloaded \<in> set e then Some (herr 429 ''overloaded_error'' ''Tool schema validation capacity reached; retry'')
       else if SchemaBudget \<in> set e then Some (invalid ''Tool schema validation exceeded its time budget'')
       else if SchemaWorker \<in> set e \<or> SchemaClosed \<in> set e then Some (api_failure ''Tool schema validation worker failed'')
       else if BackendRequest \<in> set e \<or> InvalidRequest \<in> set e
         then Some (invalid ''Requested model or content is incompatible with the current Kiro catalog'')
       else if BackendBusy \<in> set e then Some (herr 409 ''invalid_request_error'' ''This conversation already has an active response'')
       else if AcpOverloaded \<in> set e then Some (herr 429 ''overloaded_error'' ''Kiro process or session capacity reached'')
       else if AcpAuthentication \<in> set e then None
       else Some (api_failure (failureMessage e False timed_out)))"

subsection \<open>Events of a turn\<close>

datatype event_kind = KText | KEnd | KTools | KProgress | KSearch | KOther nat

record turn_event =
  EvKind :: event_kind
  EvText :: bytes
  EvStop :: bytes
  EvTools :: "tool_use list"
  EvSearches :: "search_exchange list"

text \<open>
  The names of the declared tools: \<open>json.Unmarshal\<close> into a struct with the one field \<open>name\<close>, which matches keys
  case-insensitively and keeps the last value.
\<close>

definition declared_name :: "bytes \<Rightarrow> bytes option" where
  "declared_name raw = (case parse raw of
     Some (JObj _ ms) \<Rightarrow> header_values (map snd (filter (\<lambda>(k, _). map ascii_lower k = ''name'') ms)) []
   | Some JNull \<Rightarrow> Some [] | _ \<Rightarrow> None)"

definition validToolBatch :: "request \<Rightarrow> tool_use list \<Rightarrow> bool" where
  "validToolBatch r ts =
     (if SearchDeclaration (ReqTools r) \<noteq> None then False
      else if ToolPolicy r \<noteq> Some False \<or> ts = [] \<or> 64 < length ts then False
      else case all_some (map declared_name (ReqTools r)) of
          None \<Rightarrow> False
        | Some names \<Rightarrow> list_all (\<lambda>t. ToolUse_Valid t \<and> UName t \<in> set names) ts \<and> distinct (map UID ts))"

text \<open>The identifiers after a valid batch of searches, \<open>None\<close> for an invalid one.\<close>

fun search_ids :: "url_parser \<Rightarrow> search_exchange list \<Rightarrow> bytes list \<Rightarrow> bytes list option" where
  "search_ids url [] ids = Some ids"
| "search_ids url (x # xs) ids =
     (if \<not> Exchange_Valid url x \<or> XID x \<in> set ids then None else search_ids url xs (XID x # ids))"

definition validSearch :: "url_parser \<Rightarrow> request \<Rightarrow> turn_event \<Rightarrow> bytes list \<Rightarrow> bytes list option" where
  "validSearch url r e ids = (case SearchDeclaration (ReqTools r) of
     Some (Inr uses) \<Rightarrow>
       if EvText e \<noteq> [] \<or> EvStop e \<noteq> [] \<or> EvTools e \<noteq> [] \<or> EvSearches e = []
          \<or> int uses - int (length ids) < int (length (EvSearches e))
       then None else search_ids url (EvSearches e) ids
   | _ \<Rightarrow> None)"

subsection \<open>The loop's state\<close>

record loop_state =
  g_stream :: "text_stream option"
  g_buffered :: bytes
  g_blocks :: "response_block list"
  g_pending :: "tool_use list"
  g_searches :: "bytes list"
  g_first :: bool              \<comment> \<open>the first event has come\<close>

datatype reply =
    NoReply
  | ErrorReply http_error
  | JsonReply response bool    \<comment> \<open>and whether it was written and flushed\<close>
  | StreamReply text_stream

record delivery =
  d_reply :: reply
  d_fallback :: bool           \<comment> \<open>the authentication fallback header or trailer\<close>
  d_registered :: bool         \<comment> \<open>a terminal delivery was registered\<close>
  d_finished :: bool           \<comment> \<open>the turn is finished, otherwise cancelled\<close>

datatype progress = Running loop_state | Returned delivery

text \<open>One response: what is fixed during its loop.\<close>

record response_ctx =
  x_cfg :: gateway_config
  x_request :: request
  x_id :: bytes                \<comment> \<open>of the message\<close>
  x_model :: bytes             \<comment> \<open>the turn's model\<close>
  x_url :: url_parser
  x_outcomes :: "bool list"    \<comment> \<open>of the coming writes and flushes\<close>

definition returned :: "reply \<Rightarrow> progress" where
  "returned r = Returned \<lparr>d_reply = r, d_fallback = False, d_registered = False, d_finished = False\<rparr>"

definition begin_loop :: loop_state where
  "begin_loop = \<lparr>g_stream = None, g_buffered = [], g_blocks = [], g_pending = [], g_searches = [], g_first = False\<rparr>"

definition room_of :: "response_ctx \<Rightarrow> int" where
  "room_of x = MaxOutputBytes (x_cfg x)"

text \<open>\<open>beginStream\<close>: the stream, opened by the first use.\<close>

definition beginStream :: "response_ctx \<Rightarrow> loop_state \<Rightarrow> bool \<times> text_stream" where
  "beginStream x g = (case g_stream g of Some s \<Rightarrow> (True, s) | None \<Rightarrow> BeginStream (room_of x) (x_outcomes x) (x_id x) (x_model x))"

text \<open>A failure in the loop: an error event when the stream is open, an error response otherwise.\<close>

definition fail_with :: "bytes \<Rightarrow> loop_state \<Rightarrow> progress" where
  "fail_with msg g = (case g_stream g of
     Some s \<Rightarrow> returned (StreamReply (snd (stream_Fail msg s)))
   | None \<Rightarrow> returned (ErrorReply (api_failure msg)))"

definition stream_failed :: "bytes \<Rightarrow> text_stream \<Rightarrow> progress" where
  "stream_failed msg s = returned (StreamReply (snd (stream_Fail msg s)))"

definition flushText :: "loop_state \<Rightarrow> loop_state" where
  "flushText g = (if g_buffered g = [] then g else g\<lparr>g_blocks := g_blocks g @ [text_block (g_buffered g)], g_buffered := []\<rparr>)"

text \<open>\<open>ping\<close>, at a due heartbeat of a streaming response.\<close>

definition ping :: "response_ctx \<Rightarrow> loop_state \<Rightarrow> progress" where
  "ping x g = (case beginStream x g of
     (False, s) \<Rightarrow> returned (StreamReply s)
   | (True, s) \<Rightarrow>
       if room s < 640 then stream_failed outputLimit s
       else case stream_Ping s of
           (False, s') \<Rightarrow> returned (StreamReply s')
         | (True, s') \<Rightarrow> Running (g\<lparr>g_stream := Some s'\<rparr>))"

text \<open>\<open>responseWriter.json\<close>: the response must fit with its newline; the outcomes are the write's and the flush's.\<close>

definition write_json :: "response_ctx \<Rightarrow> response \<Rightarrow> reply" where
  "write_json x v =
     (if room_of x < int (length (response_text v)) + 1 then ErrorReply (api_failure outputLimit)
      else JsonReply v (list_all id (take 2 (x_outcomes x))))"

definition json_ok :: "reply \<Rightarrow> bool" where
  "json_ok r = (case r of JsonReply _ ok \<Rightarrow> ok | _ \<Rightarrow> False)"

subsection \<open>The authentication fallback\<close>

definition login_stream :: "bytes \<Rightarrow> bool \<times> text_stream \<Rightarrow> text_stream" where
  "login_stream text r = (case r of
     (False, s) \<Rightarrow> s
   | (True, s) \<Rightarrow> (case stream_Text text s of (False, s') \<Rightarrow> s' | (True, s') \<Rightarrow> snd (stream_End ''end_turn'' s')))"

definition newlines :: bytes where "newlines = [CHR 0x0A, CHR 0x0A]"

definition fallback :: "response_ctx \<Rightarrow> bytes \<Rightarrow> text_stream option \<Rightarrow> bytes \<Rightarrow> delivery" where
  "fallback x model stream prefix =
     \<lparr>d_reply = (case stream of
        Some s \<Rightarrow> StreamReply (login_stream (newlines @ loginMessage) (True, s))
      | None \<Rightarrow>
          let text = (if prefix = [] then loginMessage else prefix @ newlines @ loginMessage)
          in if \<not> Stream (x_request x) then write_json x (NewResponse (x_id x) model text ''end_turn'')
             else StreamReply (login_stream text (BeginTextStream (room_of x) (x_outcomes x) (x_id x) model))),
      d_fallback = True, d_registered = False, d_finished = False\<rparr>"

subsection \<open>One event\<close>

definition text_event :: "response_ctx \<Rightarrow> bytes \<Rightarrow> loop_state \<Rightarrow> progress" where
  "text_event x t g = (case g_stream g of
     Some s \<Rightarrow>
       if room s < int (length (quote t)) + 128 + 512 then stream_failed outputLimit s
       else (case stream_Text t s of
           (False, s') \<Rightarrow> returned (StreamReply s')
         | (True, s') \<Rightarrow> Running (g\<lparr>g_stream := Some s'\<rparr>))
   | None \<Rightarrow>
       if MaxOutputBytes (x_cfg x) - int (length (g_buffered g)) < int (length t) then returned (ErrorReply (api_failure outputLimit))
       else Running (g\<lparr>g_buffered := g_buffered g @ t\<rparr>))"

text \<open>Writing several blocks, stopping at the first failure.\<close>

fun write_all :: "('a \<Rightarrow> text_stream \<Rightarrow> bool \<times> text_stream) \<Rightarrow> 'a list \<Rightarrow> text_stream \<Rightarrow> bool \<times> text_stream" where
  "write_all f [] s = (True, s)"
| "write_all f (v # vs) s = (case f v s of (False, s') \<Rightarrow> (False, s') | (True, s') \<Rightarrow> write_all f vs s')"

text \<open>Reserve the bytes of all blocks and leave 512 for the end, then write them.\<close>

definition reserved_write ::
  "('a \<Rightarrow> text_stream \<Rightarrow> nat option) \<Rightarrow> ('a \<Rightarrow> text_stream \<Rightarrow> bool \<times> text_stream) \<Rightarrow> bytes \<Rightarrow> 'a list \<Rightarrow> text_stream
   \<Rightarrow> progress + text_stream" where
  "reserved_write sz put bad vs s = (case all_some (map (\<lambda>v. sz v s) vs) of
     None \<Rightarrow> Inl (stream_failed bad s)
   | Some ns \<Rightarrow>
       if room s < int (sum_list ns) + 512 then Inl (stream_failed outputLimit s)
       else (case write_all put vs s of (False, s') \<Rightarrow> Inl (returned (StreamReply s')) | (True, s') \<Rightarrow> Inr s'))"

definition search_event :: "response_ctx \<Rightarrow> search_exchange list \<Rightarrow> loop_state \<Rightarrow> progress" where
  "search_event x xs g = (case g_stream g of
     Some s \<Rightarrow> (case reserved_write (SearchBytes (x_url x)) (stream_Search (x_url x)) ''Invalid search result'' xs s of
         Inl p \<Rightarrow> p
       | Inr s' \<Rightarrow> Running (g\<lparr>g_stream := Some s'\<rparr>))
   | None \<Rightarrow> Running ((flushText g)\<lparr>g_blocks := g_blocks (flushText g) @ concat (map Exchange_Blocks xs)\<rparr>))"

definition stop_reasons :: "bytes set" where
  "stop_reasons = {''end_turn'', ''max_tokens'', ''refusal'', ''pause_turn'', ''tool_use''}"

definition final_response :: "response_ctx \<Rightarrow> bytes \<Rightarrow> loop_state \<Rightarrow> response" where
  "final_response x stop g =
     (if g_blocks g = [] then NewResponse (x_id x) (x_model x) (g_buffered g) stop
      else let v = NewBlocksResponse (x_id x) (x_model x) (g_blocks (flushText g)) stop
           in if g_searches g = [] then v
              else v\<lparr>RespUsage := (RespUsage v)\<lparr>ServerTools := Some \<lparr>WebSearchRequests = length (g_searches g)\<rparr>\<rparr>\<rparr>)"

definition registers :: "response_ctx \<Rightarrow> bytes \<Rightarrow> bool" where
  "registers x stop \<longleftrightarrow> stop \<noteq> ''tool_use'' \<and> HasMetrics (x_cfg x)"

text \<open>The end of a turn; \<open>gone\<close> says that the client had left when the last byte was written.\<close>

definition end_event :: "response_ctx \<Rightarrow> bytes \<Rightarrow> bool \<Rightarrow> loop_state \<Rightarrow> progress" where
  "end_event x stop gone g =
     (if stop \<notin> stop_reasons \<or> (stop = ''tool_use'') \<noteq> (g_pending g \<noteq> []) then fail_with ''Kiro turn did not complete'' g
      else case g_stream g of
          Some s \<Rightarrow>
            (case (if g_pending g = [] then Inr s
                   else reserved_write ToolBytes stream_Tool ''Invalid Kiro tool request'' (g_pending g) s) of
               Inl p \<Rightarrow> p
             | Inr s' \<Rightarrow> (case stream_End stop s' of
                 (ok, s'') \<Rightarrow> Returned \<lparr>d_reply = StreamReply s'', d_fallback = False, d_registered = registers x stop,
                                        d_finished = (ok \<and> \<not> gone)\<rparr>))
        | None \<Rightarrow>
            let g' = (if g_pending g = [] then g
                      else (flushText g)\<lparr>g_blocks := g_blocks (flushText g) @ map ToolUse_Block (g_pending g)\<rparr>);
                r = write_json x (final_response x stop g')
            in Returned \<lparr>d_reply = r, d_fallback = False, d_registered = registers x stop, d_finished = (json_ok r \<and> \<not> gone)\<rparr>)"

text \<open>Whether an event is acceptable, and the search identifiers after it.\<close>

definition accepted :: "response_ctx \<Rightarrow> turn_event \<Rightarrow> loop_state \<Rightarrow> bytes list option" where
  "accepted x e g =
     (if (case EvKind e of KOther _ \<Rightarrow> True | _ \<Rightarrow> False) then None
      else if EvKind e = KProgress \<and> (EvText e \<noteq> [] \<or> EvStop e \<noteq> [] \<or> EvTools e \<noteq> []) then None
      else if EvKind e \<noteq> KSearch \<and> EvSearches e \<noteq> [] then None
      else case (if EvKind e = KSearch then validSearch (x_url x) (x_request x) e (g_searches g) else Some (g_searches g)) of
          None \<Rightarrow> None
        | Some ids \<Rightarrow>
            if EvKind e = KTools \<and> \<not> validToolBatch (x_request x) (EvTools e) then None
            else if g_pending g \<noteq> [] \<and> EvKind e \<noteq> KEnd then None
            else Some ids)"

definition with_stream :: "response_ctx \<Rightarrow> loop_state \<Rightarrow> (loop_state \<Rightarrow> progress) \<Rightarrow> progress" where
  "with_stream x g k =
     (if \<not> Stream (x_request x) then k g
      else case beginStream x g of
          (False, s) \<Rightarrow> returned (StreamReply s)
        | (True, s) \<Rightarrow> k (g\<lparr>g_stream := Some s\<rparr>))"

definition on_event :: "response_ctx \<Rightarrow> turn_event \<Rightarrow> bool \<Rightarrow> loop_state \<Rightarrow> progress" where
  "on_event x e gone g =
     (if EvKind e = KText \<and> EvText e = [] then Running g
      else case accepted x e g of
          None \<Rightarrow> fail_with ''Unsupported Kiro response event'' g
        | Some ids \<Rightarrow>
            let g1 = g\<lparr>g_searches := ids, g_first := True\<rparr>
            in (case EvKind e of
                  KProgress \<Rightarrow> Running g1
                | KTools \<Rightarrow> Running (g1\<lparr>g_pending := EvTools e\<rparr>)
                | KText \<Rightarrow> with_stream x g1 (text_event x (EvText e))
                | KSearch \<Rightarrow> with_stream x g1 (search_event x (EvSearches e))
                | _ \<Rightarrow> with_stream x g1 (end_event x (EvStop e) gone)))"

definition on_failure :: "response_ctx \<Rightarrow> failure \<Rightarrow> bool \<Rightarrow> bool \<Rightarrow> loop_state \<Rightarrow> progress" where
  "on_failure x e gone timed_out g =
     (if gone then returned (case g_stream g of None \<Rightarrow> NoReply | Some s \<Rightarrow> StreamReply s)
      else if AcpAuthentication \<in> set e then Returned (fallback x (x_model x) (g_stream g) (g_buffered g))
      else fail_with (failureMessage e (\<not> g_first g) timed_out) g)"

subsection \<open>The loop\<close>

datatype tick =
    Heartbeat                  \<comment> \<open>the keep-alive interval has passed\<close>
  | Received turn_event bool   \<comment> \<open>\<open>Next\<close> delivered an event in time; the flag is for its last write\<close>
  | Raised failure bool bool   \<comment> \<open>\<open>Next\<close> or its deadline failed: the error, whether the client left, whether the turn's time is over\<close>

definition tick_step :: "response_ctx \<Rightarrow> tick \<Rightarrow> loop_state \<Rightarrow> progress" where
  "tick_step x t g = (case t of
     Heartbeat \<Rightarrow> if Stream (x_request x) then ping x g else Running g
   | Received e gone \<Rightarrow> on_event x e gone g
   | Raised e gone timed_out \<Rightarrow> on_failure x e gone timed_out g)"

fun serve_turn :: "response_ctx \<Rightarrow> tick list \<Rightarrow> loop_state \<Rightarrow> progress" where
  "serve_turn x [] g = Running g"
| "serve_turn x (t # ts) g = (case tick_step x t g of Running g' \<Rightarrow> serve_turn x ts g' | Returned d \<Rightarrow> Returned d)"

text \<open>A failed start of the backend is answered without a turn.\<close>

definition start_failed :: "response_ctx \<Rightarrow> failure \<Rightarrow> bool \<Rightarrow> delivery" where
  "start_failed x e timed_out = (case start_failure e timed_out of
     Some h \<Rightarrow> \<lparr>d_reply = ErrorReply h, d_fallback = False, d_registered = False, d_finished = False\<rparr>
   | None \<Rightarrow> fallback x (ReqModel (x_request x)) None [])"

subsection \<open>Terminal deliveries\<close>

text \<open>The registered deliveries of \<open>delivery.go\<close>; a hook waits for those registered when it looked.\<close>

definition beginDelivery :: "nat \<Rightarrow> nat set \<Rightarrow> nat set" where
  "beginDelivery i ds = insert i ds"

definition endDelivery :: "nat \<Rightarrow> nat set \<Rightarrow> nat set" where
  "endDelivery i ds = ds - {i}"

text \<open>The wait succeeds when all deliveries of its snapshot have ended and its 200 ms have not.\<close>

definition awaitDeliveries :: "nat set \<Rightarrow> nat set \<Rightarrow> bool \<Rightarrow> bool" where
  "awaitDeliveries snap pending_now lapsed \<longleftrightarrow> snap \<inter> pending_now = {} \<and> \<not> lapsed"

subsection \<open>The status routes\<close>

text \<open>
  \<open>ui.go\<close>: what a status request is answered with. The usage snapshot, the latest turn and the drained page come from
  the status components; \<open>ui_active\<close> is the number of status requests being served.
\<close>

datatype ui_reply =
    UIError http_error
  | UIUsage                    \<comment> \<open>the usage snapshot with the latest turn\<close>
  | UINotice model_notice
  | UIMetrics                  \<comment> \<open>the drained turn records\<close>

definition empty_hook :: "bytes \<Rightarrow> bool" where
  "empty_hook b \<longleftrightarrow> TrimSpace b = [] \<or> ndjson_Object b = Some []"

definition ui :: "gateway_config \<Rightarrow> bool \<Rightarrow> int \<Rightarrow> bytes \<Rightarrow> (bytes \<Rightarrow> bytes option) \<Rightarrow> bytes \<Rightarrow> body \<Rightarrow> bool \<Rightarrow> ui_reply" where
  "ui cfg native ui_active path media ctype b delivered_all =
     (if MaxActiveRequests cfg \<le> ui_active then UIError (herr 429 ''overloaded_error'' ''Status request capacity reached'')
      else if path = ''/dax-kiro-proxy/status/usage'' then UIUsage
      else if ctype \<noteq> [] \<and> media ctype \<noteq> Some ''application/json'' then UIError (invalid ''Expected application/json'')
      else case b of
          BodyTooLarge \<Rightarrow> UIError (herr 413 ''request_too_large'' ''Hook body exceeds 4 KiB'')
        | BodyUnreadable \<Rightarrow> UIError (invalid ''Cannot read hook request'')
        | Body raw \<Rightarrow>
            if \<not> empty_hook raw then UIError (invalid ''Expected an empty hook request'')
            else if path = ''/dax-kiro-proxy/hooks/model-capabilities'' then (case LaunchNotice (LaunchModel cfg) of
                None \<Rightarrow> UIError (herr 503 ''api_error'' ''Startup model information unavailable'')
              | Some n \<Rightarrow> UINotice (if native then n\<lparr>NativeWebSearch := ''limited''\<rparr> else n))
            else if \<not> delivered_all then UIError (herr 503 ''api_error'' ''Turn metrics temporarily unavailable'')
            else UIMetrics)"

end
