(* ===== verification/Gateway_Props.thy ===== *)
theory Gateway_Props
  imports Gateway ResponseStream_Props "HOL-Library.Sublist"
begin

text \<open>
  The gateway: who may reach which route, what a response that counts as delivered looks like, when tool blocks reach the
  client, and that the bytes held back while streaming are enough to end the message.
\<close>

subsection \<open>Credentials\<close>

lemma authorized_iff:
  assumes "expected \<noteq> []"
  shows "authorized apikeys auth expected \<longleftrightarrow>
    (apikeys = [expected] \<and> auth = []) \<or> (apikeys = [] \<and> (\<exists>h. auth = [h] \<and> bearer_value h = Some expected))
    \<or> (apikeys = [expected] \<and> (\<exists>h. auth = [h] \<and> bearer_value h = Some expected))"
  using assms unfolding authorized_def
  by (cases apikeys; cases auth; cases "tl apikeys"; cases "tl auth") (auto split: option.splits)

lemma validToken_nonempty: "validToken t \<Longrightarrow> t \<noteq> []"
  by (auto simp: validToken_def)

lemma New_gateway_tokens:
  assumes "New_gateway cfg = Some c"
  shows "ModelToken (GTokens c) \<noteq> UIToken (GTokens c)" "ModelToken (GTokens c) \<noteq> []" "UIToken (GTokens c) \<noteq> []"
    "1024 \<le> MaxOutputBytes c"
  using assms by (auto simp: New_gateway_def Let_def validToken_nonempty split: if_splits)

lemma one_credential:
  assumes "s \<noteq> t" "s \<noteq> []" "t \<noteq> []" "authorized apikeys auth s"
  shows "\<not> authorized apikeys auth t"
  using assms by (auto simp: authorized_iff)

text \<open>
  C30: The gateway's two credentials open disjoint parts of it. Inference and the model catalogue are served only on their
  exact routes, only to a request that carries the model token and no other credential, and only within the admission
  limit; the status routes are served only to the status token. No request is authorised for both.
\<close>

theorem gateway_credentials_separate:
  assumes "New_gateway cfg = Some c"
  shows "(ServeHTTP c active meth path apikeys auth \<in> {ServeModels, ServeMessages} \<longrightarrow>
       authorized apikeys auth (ModelToken (GTokens c)) \<and> \<not> authorized apikeys auth (UIToken (GTokens c))
       \<and> active < MaxActiveRequests c
       \<and> meth @ '' '' @ path \<in> {''POST /v1/messages'', ''POST /messages'', ''GET /v1/models''})
    \<and> (ServeHTTP c active meth path apikeys auth = ServeUI \<longrightarrow>
       authorized apikeys auth (UIToken (GTokens c)) \<and> \<not> authorized apikeys auth (ModelToken (GTokens c))
       \<and> route_of meth path = UIRoute)"
proof (intro conjI impI)
  note t = New_gateway_tokens [OF assms]
  assume "ServeHTTP c active meth path apikeys auth \<in> {ServeModels, ServeMessages}"
  then have a: "authorized apikeys auth (ModelToken (GTokens c))" "active < MaxActiveRequests c" "route_of meth path = ModelRoute"
    by (cases "route_of meth path"; simp add: ServeHTTP_def Let_def split: if_splits)+
  then show "authorized apikeys auth (ModelToken (GTokens c))" "active < MaxActiveRequests c"
    "\<not> authorized apikeys auth (UIToken (GTokens c))" using one_credential t by blast+
  show "meth @ '' '' @ path \<in> {''POST /v1/messages'', ''POST /messages'', ''GET /v1/models''}"
    using a(3) by (simp add: route_of_def Let_def split: if_splits)
next
  note t = New_gateway_tokens [OF assms]
  assume "ServeHTTP c active meth path apikeys auth = ServeUI"
  then have a: "authorized apikeys auth (UIToken (GTokens c))" "route_of meth path = UIRoute"
    using t by (cases "route_of meth path"; simp add: ServeHTTP_def Let_def split: if_splits)+
  then show "authorized apikeys auth (UIToken (GTokens c))" "route_of meth path = UIRoute"
    "\<not> authorized apikeys auth (ModelToken (GTokens c))" using one_credential t by blast+
qed

subsection \<open>What the stream operations write\<close>

definition budget :: "text_stream \<Rightarrow> int" where
  "budget s = int (packets_length (written s)) + room s"

definition tool_block :: "packet \<Rightarrow> response_block option" where
  "tool_block p = (case p of
     Event e \<Rightarrow> (case EBlock e of Some b \<Rightarrow> if RType b = ''tool_use'' then Some b else None | None \<Rightarrow> None)
   | ErrorPacket _ \<Rightarrow> None)"

definition tool_blocks :: "packet list \<Rightarrow> response_block list" where
  "tool_blocks ps = List.map_filter tool_block ps"

definition no_errors :: "packet list \<Rightarrow> bool" where
  "no_errors ps \<longleftrightarrow> (\<forall>m. ErrorPacket m \<notin> set ps)"

lemma tool_blocks_simps [simp]:
  "tool_blocks [] = []" "tool_blocks (xs @ ys) = tool_blocks xs @ tool_blocks ys"
  "no_errors []" "no_errors (xs @ ys) \<longleftrightarrow> no_errors xs \<and> no_errors ys"
  by (auto simp: tool_blocks_def no_errors_def map_filter_def)

lemma single_event [simp]:
  "no_errors (Event e # ps) \<longleftrightarrow> no_errors ps"
  "EBlock e = None \<Longrightarrow> tool_blocks (Event e # ps) = tool_blocks ps"
  by (auto simp: no_errors_def tool_blocks_def map_filter_def tool_block_def)

text \<open>The second state comes from the first by writing events none of which starts a tool block.\<close>

definition grown :: "text_stream \<Rightarrow> text_stream \<Rightarrow> bool" where
  "grown s s' \<longleftrightarrow> budget s' = budget s \<and> (0 \<le> room s \<longrightarrow> 0 \<le> room s')
     \<and> (\<exists>ps. written s' = written s @ ps \<and> no_errors ps \<and> tool_blocks ps = [])"

lemma grown_refl: "grown s s"
  by (simp add: grown_def)

lemma grown_trans: "grown a b \<Longrightarrow> grown b c \<Longrightarrow> grown a c"
  by (fastforce simp: grown_def)

lemma grown_same: "written s' = written s \<Longrightarrow> room s' = room s \<Longrightarrow> grown s s'"
  by (simp add: grown_def budget_def)

lemma take_outcome_room [simp]: "room (snd (take_outcome s)) = room s"
  by (simp add: take_outcome_def split: list.split)

lemma take_outcome_grown: "grown s (snd (take_outcome s))"
  by (simp add: grown_same)

lemma stream_write_room:
  "budget (snd (stream_write ps s)) = budget s" "0 \<le> room s \<Longrightarrow> 0 \<le> room (snd (stream_write ps s))"
  by (auto simp: stream_write_def budget_def Let_def split_beta)

lemma stream_write_grown:
  assumes "no_errors ps" "tool_blocks ps = []"
  shows "grown s (snd (stream_write ps s))"
  using assms stream_write_cases [of ps s] stream_write_room [where ps = ps and s = s] by (auto simp: grown_def)

lemma emit_grown:
  assumes "no_errors [p]" "tool_blocks [p] = []"
  shows "grown s (snd (emit p s))"
  using stream_write_grown [OF assms, of s] take_outcome_grown grown_trans
  by (auto simp: emit_def Let_def split_beta)

lemma startText_grown: "grown s (snd (startText s))"
proof -
  let ?p = "Event ((ev ''content_block_start'')\<lparr>EIndex := Some (index s), EBlock := Some (text_block [])\<rparr>)"
  have "grown s (snd (emit ?p s))"
    by (rule emit_grown) (simp_all add: tool_blocks_def map_filter_def tool_block_def text_block_def plain_block_def)
  moreover have "grown (snd (emit ?p s)) (snd (startText s))"
    by (rule grown_same) (simp_all add: startText_def Let_def split_beta)
  ultimately show ?thesis by (rule grown_trans)
qed

lemma stopBlock_grown: "grown s (snd (stopBlock s))"
proof -
  let ?p = "Event ((ev ''content_block_stop'')\<lparr>EIndex := Some (index s)\<rparr>)"
  have "grown s (snd (emit ?p s))" by (rule emit_grown) simp_all
  moreover have "grown (snd (emit ?p s)) (snd (stopBlock s))" if "is_open s"
    by (rule grown_same) (use that in \<open>simp_all add: stopBlock_def Let_def split_beta\<close>)
  ultimately show ?thesis by (cases "is_open s") (auto intro: grown_trans simp: stopBlock_def grown_refl)
qed

lemma stream_Text_grown: "grown s (snd (stream_Text t s))"
proof -
  have e: "grown s1 (snd (emit (Event ((ev ''content_block_delta'')\<lparr>EIndex := i, EDelta := d\<rparr>)) s1))" for s1 i d
    by (rule emit_grown) simp_all
  show ?thesis
    using startText_grown [of s] e [of "snd (startText s)"] e [of s]
    by (auto simp: stream_Text_def Let_def split_beta grown_refl intro: grown_trans)
qed

lemma stream_Ping_grown: "grown s (snd (stream_Ping s))"
  by (simp add: stream_Ping_def grown_refl emit_grown)

lemma stream_Search_grown: "grown s (snd (stream_Search url x s))"
proof -
  have "no_errors (searchPacket x i)" "tool_blocks (searchPacket x i) = []" for i
    by (simp_all add: searchPacket_def Exchange_Blocks_def Let_def tool_blocks_def map_filter_def tool_block_def no_errors_def plain_block_def)
  then have w: "grown s1 (snd (stream_write (searchPacket x i) s1))" for s1 i by (rule stream_write_grown)
  have "grown s2 (snd (take_outcome (s2\<lparr>index := i, searches := n\<rparr>)))" for s2 i n by (rule grown_same) simp_all
  note t = grown_trans [OF stopBlock_grown grown_trans [OF w this]]
  show ?thesis unfolding stream_Search_def Let_def split_beta
    by (auto simp: grown_refl simp del: stopBlock_simps intro: stopBlock_grown grown_trans [OF stopBlock_grown w] t)
qed

lemma stream_End_grown: "grown s (snd (stream_End r s))"
proof -
  have m: "grown s1 (snd (emit (Event ((ev ''message_delta'')\<lparr>EDelta := d, EUsage := u\<rparr>)) s1))" for s1 d u
    by (rule emit_grown) simp_all
  have t: "grown s1 (snd (emit (Event (ev ''message_stop'')) (s1\<lparr>ended := True\<rparr>)))" for s1
    by (rule grown_trans [OF grown_same emit_grown]) simp_all
  have o: "grown s (snd (if index s = 0 \<and> \<not> is_open s then startText s else (True, s)))"
    by (simp add: startText_grown grown_refl)
  show ?thesis
    using o unfolding stream_End_def Let_def split_beta
    by (auto simp: grown_refl intro: grown_trans [OF _ grown_trans [OF stopBlock_grown grown_trans [OF m t]]]
        grown_trans [OF _ stopBlock_grown] grown_trans [OF _ grown_trans [OF stopBlock_grown m]])
qed

lemma tool_packet_blocks: "tool_blocks (toolPacket t i) = [(ToolUse_Block t)\<lparr>RInput := ''{}''\<rparr>]" "no_errors (toolPacket t i)"
  by (simp_all add: toolPacket_def tool_blocks_def map_filter_def tool_block_def ToolUse_Block_def plain_block_def no_errors_def)

text \<open>A tool block is written whole or not at all.\<close>

lemma stream_Tool_writes:
  obtains (written) ps where "written (snd (stream_Tool t s)) = written s @ ps" "no_errors ps"
      "tool_blocks ps = [(ToolUse_Block t)\<lparr>RInput := ''{}''\<rparr>]"
    | (refused) ps where "\<not> fst (stream_Tool t s)" "written (snd (stream_Tool t s)) = written s @ ps" "no_errors ps" "tool_blocks ps = []"
proof (cases "ended s \<or> \<not> ToolUse_Valid t")
  case True
  then show ?thesis using refused [of "[]"] by (simp add: stream_Tool_def)
next
  case False
  obtain ps where ps: "written (snd (stopBlock s)) = written s @ ps" "no_errors ps" "tool_blocks ps = []"
    using stopBlock_grown [of s] by (auto simp: grown_def)
  let ?w = "stream_write (toolPacket t (next_index s)) (snd (stopBlock s))"
  show ?thesis
  proof (cases "fst (stopBlock s) \<and> fst ?w")
    case True
    then have "written (snd ?w) = written s @ ps @ toolPacket t (next_index s)"
      using stream_write_cases [of "toolPacket t (next_index s)" "snd (stopBlock s)"] ps by simp
    then show ?thesis
      using True False written [of "ps @ toolPacket t (next_index s)"] ps tool_packet_blocks
      by (simp add: stream_Tool_def Let_def split_beta)
  next
    case no: False
    then show ?thesis
      using False refused [of ps] ps stream_write_cases [of "toolPacket t (next_index s)" "snd (stopBlock s)"]
      by (auto simp: stream_Tool_def Let_def split_beta)
  qed
qed

lemma stream_Tool_room:
  "budget (snd (stream_Tool t s)) = budget s" "0 \<le> room s \<Longrightarrow> 0 \<le> room (snd (stream_Tool t s))"
  using stopBlock_grown [of s] stream_write_room [where ps = "toolPacket t (next_index s)" and s = "snd (stopBlock s)"]
  by (auto simp: stream_Tool_def Let_def split_beta grown_def budget_def)

lemma BeginStream_grown:
  "grown \<lparr>index = 0, is_open = False, ended = False, searches = 0, written = [], outcomes = os, room = rm\<rparr>
     (snd (BeginStream rm os i model))"
  by (simp add: BeginStream_def emit_grown)

subsection \<open>The invariant of the loop\<close>

text \<open>
  A stream that is still open to the loop: in step with the protocol, unended, error-free, without tool blocks and within
  the output budget.
\<close>

definition stream_ok :: "response_ctx \<Rightarrow> text_stream \<Rightarrow> bool" where
  "stream_ok x s \<longleftrightarrow> in_step s \<and> \<not> ended s \<and> budget s = MaxOutputBytes (x_cfg x) \<and> 0 \<le> room s
     \<and> no_errors (written s) \<and> tool_blocks (written s) = []"

text \<open>What any stream the client has seen satisfies.\<close>

definition stream_sent :: "response_ctx \<Rightarrow> text_stream \<Rightarrow> bool" where
  "stream_sent x s \<longleftrightarrow> follows Start (written s) \<noteq> None \<and> budget s = MaxOutputBytes (x_cfg x) \<and> 0 \<le> room s"

definition quiet_sent :: "response_ctx \<Rightarrow> text_stream \<Rightarrow> bool" where
  "quiet_sent x s \<longleftrightarrow> stream_sent x s \<and> tool_blocks (written s) = []"

definition loop_ok :: "response_ctx \<Rightarrow> loop_state \<Rightarrow> bool" where
  "loop_ok x g \<longleftrightarrow> (case g_stream g of None \<Rightarrow> True | Some s \<Rightarrow> Stream (x_request x) \<and> stream_ok x s)
     \<and> (g_pending g \<noteq> [] \<longrightarrow> validToolBatch (x_request x) (g_pending g))
     \<and> (\<forall>b \<in> set (g_blocks g). RType b \<noteq> ''tool_use'')"

lemma stream_ok_sent: "stream_ok x s \<Longrightarrow> quiet_sent x s"
  by (simp add: stream_ok_def quiet_sent_def stream_sent_def in_step_def)

lemma ok_grown:
  assumes "stream_ok x s" "grown s s'" "in_step s'" "\<not> ended s'"
  shows "stream_ok x s'"
  using assms by (auto simp: stream_ok_def grown_def)

lemma sent_grown:
  assumes "stream_ok x s" "grown s s'" "follows Start (written s') \<noteq> None"
  shows "quiet_sent x s'"
  using assms by (auto simp: stream_ok_def quiet_sent_def stream_sent_def grown_def)

text \<open>An operation that keeps the stream: afterwards the stream is still usable, or it failed after legal output.\<close>

lemma legal_follows: "legal r \<Longrightarrow> follows Start (written (snd r)) \<noteq> None"
  by (auto simp: legal_def in_step_def split: if_splits)

lemma keeps_stream:
  assumes "stream_ok x s" "legal r" "grown s (snd r)" "fst r \<Longrightarrow> \<not> ended (snd r)"
  shows "fst r \<Longrightarrow> stream_ok x (snd r)" "quiet_sent x (snd r)"
proof -
  show "stream_ok x (snd r)" if "fst r" using ok_grown [OF assms(1,3)] assms(2,4) that by (simp add: legal_def)
  show "quiet_sent x (snd r)" using sent_grown [OF assms(1,3)] legal_follows [OF assms(2)] .
qed

lemma ok_in_step: "stream_ok x s \<Longrightarrow> in_step s"
  by (simp add: stream_ok_def)

lemma unended [simp]:
  "ended (snd (stream_Text t s)) = ended s" "ended (snd (stream_Ping s)) = ended s" "ended (snd (stream_Search url v s)) = ended s"
  "ended (snd (stream_Tool u s)) = ended s" "ended (snd (BeginStream rm os i model)) = False"
  by (auto simp: stream_Text_def stream_Ping_def stream_Search_def stream_Tool_def BeginStream_def Let_def split_beta)

lemma op_keeps:
  assumes "stream_ok x s" "r \<in> {stream_Text t s, stream_Ping s, stream_Search url v s}"
  shows "fst r \<Longrightarrow> stream_ok x (snd r)" "quiet_sent x (snd r)"
proof -
  note i = ok_in_step [OF assms(1)]
  have r: "legal r" "grown s (snd r)"
    using assms(2) i stream_Text_legal stream_Ping_legal stream_Search_legal stream_Text_grown stream_Ping_grown stream_Search_grown by blast+
  have e: "\<not> ended (snd r)" using assms by (auto simp: stream_ok_def)
  from keeps_stream [OF assms(1) r] e show "fst r \<Longrightarrow> stream_ok x (snd r)" "quiet_sent x (snd r)" by blast+
qed

lemma begin_keeps:
  assumes "loop_ok x g" "0 \<le> MaxOutputBytes (x_cfg x)" "beginStream x g = (ok, s)"
  shows "ok \<Longrightarrow> stream_ok x s" "quiet_sent x s"
proof -
  have "(ok \<longrightarrow> stream_ok x s) \<and> quiet_sent x s"
  proof (cases "g_stream g")
    case None
    let ?e = "\<lparr>index = 0, is_open = False, ended = False, searches = 0, written = [], outcomes = x_outcomes x, room = room_of x\<rparr>"
    have b: "BeginStream (room_of x) (x_outcomes x) (x_id x) (x_model x) = (ok, s)" using assms(3) None by (simp add: beginStream_def)
    have g: "grown ?e s" using BeginStream_grown [of "x_outcomes x" "room_of x" "x_id x" "x_model x"] b by simp
    have l: "legal (ok, s)" using BeginStream_legal [of "room_of x" "x_outcomes x" "x_id x" "x_model x"] b by simp
    have "\<not> ended s" using unended(5) [of "room_of x" "x_outcomes x" "x_id x" "x_model x"] b by simp
    moreover have "budget s = MaxOutputBytes (x_cfg x)" "0 \<le> room s" "no_errors (written s)" "tool_blocks (written s) = []"
      using g assms(2) by (auto simp: grown_def budget_def packets_length_def room_of_def)
    ultimately show ?thesis using l legal_follows [OF l] by (auto simp: stream_ok_def quiet_sent_def stream_sent_def legal_def)
  qed (use assms stream_ok_sent in \<open>auto simp: beginStream_def loop_ok_def\<close>)
  then show "ok \<Longrightarrow> stream_ok x s" "quiet_sent x s" by blast+
qed

lemma fail_sent:
  assumes "stream_ok x s"
  shows "quiet_sent x (snd (stream_Fail msg s))"
proof -
  have "legal (stream_Fail msg s)" using stream_Fail_legal ok_in_step [OF assms] by blast
  from legal_follows [OF this] have "follows Start (written (snd (stream_Fail msg s))) \<noteq> None" .
  moreover have "budget (snd (stream_Fail msg s)) = budget s" "0 \<le> room s \<Longrightarrow> 0 \<le> room (snd (stream_Fail msg s))"
    using stream_write_room [where ps = "[ErrorPacket msg]" and s = s]
    by (auto simp: stream_Fail_def emit_def Let_def split_beta budget_def)
  moreover have "tool_blocks (written (snd (stream_Fail msg s))) = []"
    using assms by (cases rule: emit_cases [of "ErrorPacket msg" s])
      (simp_all add: stream_Fail_def stream_ok_def tool_blocks_def map_filter_def tool_block_def)
  ultimately show ?thesis using assms by (simp add: stream_ok_def quiet_sent_def stream_sent_def)
qed

subsection \<open>Writing several blocks\<close>

lemma write_all_searches:
  assumes "stream_ok x s"
  shows "fst (write_all (stream_Search url) xs s) \<Longrightarrow> stream_ok x (snd (write_all (stream_Search url) xs s))"
    "quiet_sent x (snd (write_all (stream_Search url) xs s))"
proof -
  have "(fst (write_all (stream_Search url) xs s) \<longrightarrow> stream_ok x (snd (write_all (stream_Search url) xs s)))
      \<and> quiet_sent x (snd (write_all (stream_Search url) xs s))"
    using assms
  proof (induction xs arbitrary: s)
    case (Cons v xs)
    have k: "fst (stream_Search url v s) \<Longrightarrow> stream_ok x (snd (stream_Search url v s))" "quiet_sent x (snd (stream_Search url v s))"
      using op_keeps [OF Cons.prems, of "stream_Search url v s"] by blast+
    show ?case
    proof (cases "stream_Search url v s")
      case (Pair ok s')
      with k Cons.IH [of s'] show ?thesis by (cases ok) simp_all
    qed
  qed (simp add: stream_ok_sent)
  then show "fst (write_all (stream_Search url) xs s) \<Longrightarrow> stream_ok x (snd (write_all (stream_Search url) xs s))"
    "quiet_sent x (snd (write_all (stream_Search url) xs s))" by blast+
qed

definition shown :: "response_block \<Rightarrow> bytes \<times> bytes" where
  "shown b = (RID b, RName b)"

definition named :: "tool_use \<Rightarrow> bytes \<times> bytes" where
  "named t = (UID t, UName t)"

text \<open>A stream into which tool blocks are being written.\<close>

definition handing_over :: "response_ctx \<Rightarrow> (bytes \<times> bytes) list \<Rightarrow> text_stream \<Rightarrow> bool" where
  "handing_over x ns s \<longleftrightarrow> in_step s \<and> \<not> ended s \<and> budget s = MaxOutputBytes (x_cfg x) \<and> 0 \<le> room s
     \<and> no_errors (written s) \<and> map shown (tool_blocks (written s)) = ns"

lemma stream_Tool_handover:
  assumes "handing_over x ns s"
  shows "fst (stream_Tool t s) \<Longrightarrow> handing_over x (ns @ [named t]) (snd (stream_Tool t s))"
    "stream_sent x (snd (stream_Tool t s)) \<and> prefix (map shown (tool_blocks (written (snd (stream_Tool t s))))) (ns @ [named t])"
proof -
  have i: "in_step s" using assms by (simp add: handing_over_def)
  note l = stream_Tool_legal [OF i, of t]
  have b: "shown ((ToolUse_Block t)\<lparr>RInput := ''{}''\<rparr>) = named t"
    by (simp add: shown_def named_def ToolUse_Block_def plain_block_def)
  have sent: "stream_sent x (snd (stream_Tool t s))"
    using legal_follows [OF l] stream_Tool_room [where t = t and s = s] assms by (simp add: handing_over_def stream_sent_def)
  have "(fst (stream_Tool t s) \<longrightarrow> handing_over x (ns @ [named t]) (snd (stream_Tool t s)))
      \<and> prefix (map shown (tool_blocks (written (snd (stream_Tool t s))))) (ns @ [named t])"
  proof (cases rule: stream_Tool_writes [of t s])
    case (written ps)
    then show ?thesis
      using l assms sent b unfolding handing_over_def legal_def stream_sent_def by simp
  next
    case (refused ps)
    then show ?thesis using assms by (auto simp: handing_over_def)
  qed
  with sent show "fst (stream_Tool t s) \<Longrightarrow> handing_over x (ns @ [named t]) (snd (stream_Tool t s))"
    "stream_sent x (snd (stream_Tool t s)) \<and> prefix (map shown (tool_blocks (written (snd (stream_Tool t s))))) (ns @ [named t])"
    by blast+
qed

lemma write_all_tools:
  assumes "handing_over x ns s"
  shows "(fst (write_all stream_Tool us s) \<longrightarrow> handing_over x (ns @ map named us) (snd (write_all stream_Tool us s)))
    \<and> stream_sent x (snd (write_all stream_Tool us s))
    \<and> prefix (map shown (tool_blocks (written (snd (write_all stream_Tool us s))))) (ns @ map named us)"
  using assms
proof (induction us arbitrary: s ns)
  case Nil
  then show ?case by (simp add: handing_over_def stream_sent_def in_step_def)
next
  case (Cons u us)
  note k = stream_Tool_handover [OF Cons.prems, of u]
  obtain ok s' where r: "stream_Tool u s = (ok, s')" by (cases "stream_Tool u s")
  show ?case
  proof (cases ok)
    case True
    with k r Cons.IH [of "ns @ [named u]" s'] show ?thesis by simp
  next
    case False
    with k(2) r show ?thesis by (simp add: prefix_order.trans [of _ "ns @ [named u]"])
  qed
qed

lemma stream_End_ended: "fst (stream_End r s) \<Longrightarrow> ended (snd (stream_End r s))"
  by (auto simp: stream_End_def Let_def split_beta split: if_splits)

lemma end_completes:
  assumes "handing_over x ns s"
  shows "stream_sent x (snd (stream_End r s))" "map shown (tool_blocks (written (snd (stream_End r s)))) = ns"
    "no_errors (written (snd (stream_End r s)))"
    "fst (stream_End r s) \<Longrightarrow> follows Start (written (snd (stream_End r s))) = Some Done"
proof -
  have "in_step s" using assms by (simp add: handing_over_def)
  note l = stream_End_legal [OF this, of r]
  note g = stream_End_grown [of s r]
  show "stream_sent x (snd (stream_End r s))"
    using legal_follows [OF l] g assms by (simp add: grown_def handing_over_def stream_sent_def)
  show "map shown (tool_blocks (written (snd (stream_End r s)))) = ns" "no_errors (written (snd (stream_End r s)))"
    using g assms by (auto simp: grown_def handing_over_def)
  show "fst (stream_End r s) \<Longrightarrow> follows Start (written (snd (stream_End r s))) = Some Done"
    using l stream_End_ended [of r s] by (simp add: legal_def in_step_def phase_of_def)
qed

lemma ok_handing_over: "stream_ok x s \<Longrightarrow> handing_over x [] s"
  by (simp add: stream_ok_def handing_over_def)

subsection \<open>What is delivered\<close>

definition reply_tools :: "reply \<Rightarrow> (bytes \<times> bytes) list" where
  "reply_tools r = (case r of
     StreamReply s \<Rightarrow> map shown (tool_blocks (written s))
   | JsonReply v _ \<Rightarrow> map shown (filter (\<lambda>b. RType b = ''tool_use'') (RespContent v))
   | _ \<Rightarrow> [])"

text \<open>A reply within the limits of the response.\<close>

definition reply_ok :: "response_ctx \<Rightarrow> reply \<Rightarrow> bool" where
  "reply_ok x r \<longleftrightarrow> (case r of
     StreamReply s \<Rightarrow> Stream (x_request x) \<and> stream_sent x s
   | JsonReply v _ \<Rightarrow> \<not> Stream (x_request x) \<and> int (length (response_text v)) + 1 \<le> MaxOutputBytes (x_cfg x)
   | _ \<Rightarrow> True)"

text \<open>A complete message.\<close>

definition reply_complete :: "reply \<Rightarrow> bool" where
  "reply_complete r \<longleftrightarrow> (case r of
     StreamReply s \<Rightarrow> follows Start (written s) = Some Done \<and> no_errors (written s)
   | JsonReply _ ok \<Rightarrow> ok
   | _ \<Rightarrow> False)"

definition delivered_ok :: "response_ctx \<Rightarrow> tool_use list \<Rightarrow> delivery \<Rightarrow> bool" where
  "delivered_ok x us d \<longleftrightarrow> reply_ok x (d_reply d) \<and> prefix (reply_tools (d_reply d)) (map named us)
     \<and> (d_finished d \<longrightarrow> reply_complete (d_reply d) \<and> reply_tools (d_reply d) = map named us)"

lemma returned_quiet:
  assumes "Stream (x_request x)" "quiet_sent x s"
  shows "delivered_ok x us \<lparr>d_reply = StreamReply s, d_fallback = f, d_registered = q, d_finished = False\<rparr>"
  using assms by (simp add: delivered_ok_def reply_ok_def reply_tools_def quiet_sent_def)

lemma returned_error: "delivered_ok x us \<lparr>d_reply = ErrorReply h, d_fallback = f, d_registered = q, d_finished = False\<rparr>"
  "delivered_ok x us \<lparr>d_reply = NoReply, d_fallback = f, d_registered = q, d_finished = False\<rparr>"
  by (simp_all add: delivered_ok_def reply_ok_def reply_tools_def)

text \<open>An outcome of a step: the loop goes on in a good state with these tools pending, or what is delivered is good.\<close>

definition step_ok :: "response_ctx \<Rightarrow> tool_use list \<Rightarrow> tool_use list \<Rightarrow> progress \<Rightarrow> bool" where
  "step_ok x us ds p \<longleftrightarrow> (case p of Running g \<Rightarrow> loop_ok x g \<and> g_pending g = us | Returned d \<Rightarrow> delivered_ok x ds d)"

lemma step_ok_quiet:
  assumes "Stream (x_request x)" "quiet_sent x s"
  shows "step_ok x us ds (returned (StreamReply s))"
  using returned_quiet [OF assms] by (simp add: step_ok_def returned_def)

lemma stream_failed_ok: "Stream (x_request x) \<Longrightarrow> stream_ok x s \<Longrightarrow> step_ok x us ds (stream_failed msg s)"
  by (simp add: stream_failed_def step_ok_quiet fail_sent)

lemma fail_with_ok: "loop_ok x g \<Longrightarrow> step_ok x us ds (fail_with msg g)"
proof (cases "g_stream g")
  case (Some s)
  assume "loop_ok x g"
  with Some have "Stream (x_request x)" "stream_ok x s" by (simp_all add: loop_ok_def)
  from stream_failed_ok [OF this] Some show ?thesis by (simp add: fail_with_def stream_failed_def)
qed (simp add: fail_with_def returned_def step_ok_def returned_error)

lemma running_stream:
  assumes "loop_ok x g" "Stream (x_request x)" "stream_ok x s"
  shows "step_ok x (g_pending g) ds (Running (g\<lparr>g_stream := Some s\<rparr>))"
  using assms by (simp add: step_ok_def loop_ok_def)

lemma ping_ok:
  assumes "loop_ok x g" "0 \<le> MaxOutputBytes (x_cfg x)" "Stream (x_request x)"
  shows "step_ok x (g_pending g) ds (ping x g)"
proof -
  obtain ok s where b: "beginStream x g = (ok, s)" by (cases "beginStream x g")
  note k = begin_keeps [OF assms(1,2) b]
  show ?thesis
  proof (cases "ok \<and> \<not> room s < 640")
    case True
    then have s: "stream_ok x s" using k by simp
    obtain ok' s' where r: "stream_Ping s = (ok', s')" by (cases "stream_Ping s")
    have "ok' \<Longrightarrow> stream_ok x s'" "quiet_sent x s'" using op_keeps [OF s, of "stream_Ping s"] r by auto
    with True b r assms show ?thesis
      by (cases ok') (simp_all add: ping_def step_ok_quiet running_stream)
  next
    case False
    then show ?thesis using b k assms(3) by (cases ok) (simp_all add: ping_def step_ok_quiet stream_failed_ok)
  qed
qed

lemma with_stream_ok:
  assumes "loop_ok x g" "0 \<le> MaxOutputBytes (x_cfg x)"
    and "\<And>g'. loop_ok x g' \<Longrightarrow> g_pending g' = g_pending g \<Longrightarrow> (g_stream g' = None \<longleftrightarrow> \<not> Stream (x_request x)) \<Longrightarrow> step_ok x us ds (k g')"
  shows "step_ok x us ds (with_stream x g k)"
proof (cases "Stream (x_request x)")
  case True
  obtain ok s where b: "beginStream x g = (ok, s)" by (cases "beginStream x g")
  note c = begin_keeps [OF assms(1,2) b]
  show ?thesis
  proof (cases ok)
    case t: True
    then have "loop_ok x (g\<lparr>g_stream := Some s\<rparr>)" using c assms(1) True by (simp add: loop_ok_def)
    then show ?thesis using t True b assms(3) [of "g\<lparr>g_stream := Some s\<rparr>"] by (simp add: with_stream_def)
  next
    case False
    then show ?thesis using True b c by (simp add: with_stream_def step_ok_quiet)
  qed
next
  case False
  moreover have "g_stream g = None" using assms(1) False by (auto simp: loop_ok_def split: option.splits)
  ultimately show ?thesis using assms by (simp add: with_stream_def)
qed

lemma text_event_ok:
  assumes "loop_ok x g"
  shows "step_ok x (g_pending g) ds (text_event x t g)"
proof (cases "g_stream g")
  case (Some s)
  then have s: "Stream (x_request x)" "stream_ok x s" using assms by (simp_all add: loop_ok_def)
  obtain ok' s' where r: "stream_Text t s = (ok', s')" by (cases "stream_Text t s")
  have "ok' \<Longrightarrow> stream_ok x s'" "quiet_sent x s'" using op_keeps [OF s(2), of "stream_Text t s" t] r by auto
  with Some s r assms show ?thesis
    by (cases ok') (simp_all add: text_event_def stream_failed_ok step_ok_quiet running_stream)
next
  case None
  with assms show ?thesis by (simp add: text_event_def step_ok_def returned_def returned_error loop_ok_def)
qed

lemma flushText_simps [simp]:
  "g_stream (flushText g) = g_stream g" "g_pending (flushText g) = g_pending g" "g_searches (flushText g) = g_searches g"
  by (simp_all add: flushText_def)

lemma flushText_blocks:
  "(\<forall>b \<in> set (g_blocks g). RType b \<noteq> ''tool_use'') \<Longrightarrow> (\<forall>b \<in> set (g_blocks (flushText g)). RType b \<noteq> ''tool_use'')"
  by (auto simp: flushText_def text_block_def plain_block_def)

lemma search_blocks: "b \<in> set (Exchange_Blocks v) \<Longrightarrow> RType b \<noteq> ''tool_use''"
  by (auto simp: Exchange_Blocks_def Let_def plain_block_def)

lemma reserved_write_cases:
  obtains (failed) msg where "reserved_write sz put bad vs s = Inl (stream_failed msg s)"
    | (broken) "\<not> fst (write_all put vs s)" "reserved_write sz put bad vs s = Inl (returned (StreamReply (snd (write_all put vs s))))"
    | (complete) ns where "fst (write_all put vs s)" "reserved_write sz put bad vs s = Inr (snd (write_all put vs s))"
        "all_some (map (\<lambda>v. sz v s) vs) = Some ns" "int (sum_list ns) + 512 \<le> room s"
proof (cases "all_some (map (\<lambda>v. sz v s) vs)")
  case None
  then show ?thesis using failed by (simp add: reserved_write_def)
next
  case (Some ns)
  show ?thesis
  proof (cases "room s < int (sum_list ns) + 512")
    case True
    then show ?thesis using failed Some by (simp add: reserved_write_def)
  next
    case False
    obtain ok s' where "write_all put vs s = (ok, s')" by (cases "write_all put vs s")
    then show ?thesis using Some False broken complete by (cases ok) (simp_all add: reserved_write_def)
  qed
qed

lemma search_event_ok:
  assumes "loop_ok x g"
  shows "step_ok x (g_pending g) ds (search_event x xs g)"
proof (cases "g_stream g")
  case (Some s)
  then have s: "Stream (x_request x)" "stream_ok x s" using assms by (simp_all add: loop_ok_def)
  note w = write_all_searches [OF s(2), of "x_url x" xs]
  show ?thesis
  proof (cases rule: reserved_write_cases [of "SearchBytes (x_url x)" "stream_Search (x_url x)" "''Invalid search result''" xs s])
    case (failed msg)
    then show ?thesis using Some s by (simp add: search_event_def stream_failed_ok)
  next
    case broken
    then show ?thesis using Some s w by (simp add: search_event_def step_ok_quiet)
  next
    case (complete ns)
    then show ?thesis using Some s w assms by (simp add: search_event_def running_stream)
  qed
next
  case None
  then show ?thesis
    using assms flushText_blocks [of g] search_blocks by (auto simp: search_event_def step_ok_def loop_ok_def)
qed

lemma no_tool_blocks: "(\<forall>b \<in> set bs. RType b \<noteq> ''tool_use'') \<Longrightarrow> filter (\<lambda>b. RType b = ''tool_use'') bs = []"
  by (simp add: filter_empty_conv)

lemma tool_use_blocks:
  "filter (\<lambda>b. RType b = ''tool_use'') (map ToolUse_Block us) = map ToolUse_Block us" "map shown (map ToolUse_Block us) = map named us"
  by (simp_all add: ToolUse_Block_def plain_block_def shown_def named_def filter_id_conv)

lemma json_delivered:
  assumes "\<not> Stream (x_request x)" "map shown (filter (\<lambda>b. RType b = ''tool_use'') (RespContent v)) = map named us"
  shows "delivered_ok x us \<lparr>d_reply = write_json x v, d_fallback = f, d_registered = q, d_finished = (json_ok (write_json x v) \<and> n)\<rparr>"
  using assms by (simp add: delivered_ok_def write_json_def reply_ok_def reply_tools_def reply_complete_def json_ok_def room_of_def)

text \<open>The tools of the complete JSON response are the pending ones.\<close>

lemma final_tools:
  assumes "\<forall>b \<in> set (g_blocks g). RType b \<noteq> ''tool_use''"
    "g' = (if us = [] then g else (flushText g)\<lparr>g_blocks := g_blocks (flushText g) @ map ToolUse_Block us\<rparr>)"
  shows "map shown (filter (\<lambda>b. RType b = ''tool_use'') (RespContent (final_response x stop g'))) = map named us"
proof (cases "us = []")
  case True
  then have "\<forall>b \<in> set (g_blocks (flushText g')). RType b \<noteq> ''tool_use''" using assms flushText_blocks [of g] by simp
  with True show ?thesis
    by (simp add: final_response_def NewBlocksResponse_def NewResponse_def Let_def no_tool_blocks text_block_def plain_block_def)
next
  case False
  then have g': "g' = (flushText g)\<lparr>g_blocks := g_blocks (flushText g) @ map ToolUse_Block us\<rparr>" using assms(2) by simp
  have "g_buffered g' = []" by (simp add: g' flushText_def)
  then have "flushText g' = g'" by (simp add: flushText_def)
  moreover have "filter (\<lambda>b. RType b = ''tool_use'') (g_blocks (flushText g)) = []"
    using flushText_blocks [OF assms(1)] by (rule no_tool_blocks)
  ultimately show ?thesis
    using False tool_use_blocks [of us] by (simp add: final_response_def NewBlocksResponse_def Let_def g' del: map_map)
qed

lemma ended_delivery:
  assumes "Stream (x_request x)" "handing_over x (map named us) s" "stream_End stop s = (ok, s')"
  shows "delivered_ok x us \<lparr>d_reply = StreamReply s', d_fallback = f, d_registered = q, d_finished = (ok \<and> n)\<rparr>"
  using end_completes [OF assms(2), of stop] assms(1,3)
  by (simp add: delivered_ok_def reply_ok_def reply_tools_def reply_complete_def)

lemma end_event_ok:
  assumes "loop_ok x g" "g_stream g = None \<longleftrightarrow> \<not> Stream (x_request x)"
  shows "step_ok x us (g_pending g) (end_event x stop gone g)"
proof (cases "stop \<notin> stop_reasons \<or> (stop = ''tool_use'') \<noteq> (g_pending g \<noteq> [])")
  case True
  then show ?thesis using fail_with_ok [OF assms(1)] by (simp add: end_event_def)
next
  case False
  show ?thesis
  proof (cases "g_stream g")
    case (Some s)
    then have s: "Stream (x_request x)" "stream_ok x s" using assms by (simp_all add: loop_ok_def)
    note w = write_all_tools [OF ok_handing_over [OF s(2)], of "g_pending g"]
    have e: "step_ok x us (g_pending g) (case stream_End stop s' of (ok, s'') \<Rightarrow>
        Returned \<lparr>d_reply = StreamReply s'', d_fallback = False, d_registered = registers x stop, d_finished = (ok \<and> \<not> gone)\<rparr>)"
      if "handing_over x (map named (g_pending g)) s'" for s'
      using ended_delivery [OF s(1) that] by (simp add: step_ok_def split: prod.split)
    show ?thesis
    proof (cases "g_pending g = []")
      case True
      then show ?thesis using e [of s] ok_handing_over [OF s(2)] False Some by (simp add: end_event_def)
    next
      case pending: False
      show ?thesis
      proof (cases rule: reserved_write_cases [of ToolBytes stream_Tool "''Invalid Kiro tool request''" "g_pending g" s])
        case (failed msg)
        then show ?thesis using Some s False pending by (simp add: end_event_def stop_reasons_def stream_failed_ok)
      next
        case broken
        then show ?thesis
          using Some s False pending w by (simp add: end_event_def stop_reasons_def step_ok_def returned_def delivered_ok_def reply_ok_def reply_tools_def)
      next
        case (complete ns)
        then show ?thesis using Some False pending w e [of "snd (write_all stream_Tool (g_pending g) s)"] by (simp add: end_event_def stop_reasons_def)
      qed
    qed
  next
    case None
    have "map shown (filter (\<lambda>b. RType b = ''tool_use'') (RespContent (final_response x stop
        (if g_pending g = [] then g else (flushText g)\<lparr>g_blocks := g_blocks (flushText g) @ map ToolUse_Block (g_pending g)\<rparr>))))
      = map named (g_pending g)"
      using final_tools [OF _ refl] assms(1) by (simp add: loop_ok_def)
    from json_delivered [OF _ this] show ?thesis
      using None False assms(2) by (simp add: end_event_def step_ok_def Let_def)
  qed
qed

lemma accepted_tools:
  assumes "accepted x e g = Some ids" "EvKind e = KTools"
  shows "validToolBatch (x_request x) (EvTools e)" "g_pending g = []"
  using assms by (auto simp: accepted_def split: if_splits)

text \<open>The tools a tick may hand over.\<close>

definition handed :: "tick \<Rightarrow> loop_state \<Rightarrow> tool_use list" where
  "handed t g = (case t of
     Received e _ \<Rightarrow> if EvKind e = KEnd \<and> EvStop e = ''tool_use'' then g_pending g else []
   | _ \<Rightarrow> [])"

lemma end_event_hands:
  assumes "loop_ok x g" "g_stream g = None \<longleftrightarrow> \<not> Stream (x_request x)"
  shows "step_ok x us (if stop = ''tool_use'' then g_pending g else []) (end_event x stop gone g)"
proof (cases "stop = ''tool_use'' \<or> g_pending g = []")
  case True
  then show ?thesis using end_event_ok [OF assms, of us stop gone] by auto
next
  case False
  then show ?thesis using fail_with_ok [OF assms(1)] by (simp add: end_event_def)
qed

lemma on_event_ok:
  assumes "loop_ok x g" "0 \<le> MaxOutputBytes (x_cfg x)"
  shows "step_ok x (if EvKind e = KTools then EvTools e else g_pending g) (handed (Received e gone) g) (on_event x e gone g)"
proof (cases "accepted x e g")
  case None
  then show ?thesis using fail_with_ok [OF assms(1)] assms(1) by (auto simp: on_event_def step_ok_def)
next
  case (Some ids)
  let ?g = "g\<lparr>g_searches := ids, g_first := True\<rparr>"
  have g: "loop_ok x ?g" using assms(1) by (simp add: loop_ok_def)
  have k: "step_ok x (g_pending g) ds (with_stream x ?g f)"
    if "\<And>g'. loop_ok x g' \<Longrightarrow> g_pending g' = g_pending g \<Longrightarrow> (g_stream g' = None \<longleftrightarrow> \<not> Stream (x_request x))
          \<Longrightarrow> step_ok x (g_pending g) ds (f g')" for f ds
    by (rule with_stream_ok [OF g assms(2)]) (use that in simp)
  have t_ok: "step_ok x (g_pending g) [] (with_stream x ?g (text_event x t))" for t
    using text_event_ok by (intro k) metis
  have s_ok: "step_ok x (g_pending g) [] (with_stream x ?g (search_event x xs))" for xs
    using search_event_ok by (intro k) metis
  have e_ok: "step_ok x (g_pending g) (if stop = ''tool_use'' then g_pending g else []) (with_stream x ?g (end_event x stop gone))" for stop
    by (rule k) (use end_event_hands in metis)
  have u_ok: "step_ok x (EvTools e) ds (Running (?g\<lparr>g_pending := EvTools e\<rparr>))" if "EvKind e = KTools" for ds
    using g accepted_tools(1) [OF Some that] by (simp add: step_ok_def loop_ok_def)
  have o_ok: "accepted x e g = None" if "EvKind e = KOther n" for n using that by (simp add: accepted_def)
  show ?thesis
    using Some g t_ok s_ok e_ok [of "EvStop e"] u_ok o_ok assms(1)
    by (cases "EvKind e") (auto simp: on_event_def Let_def step_ok_def handed_def)
qed

lemma login_quiet:
  assumes "stream_ok x s"
  shows "quiet_sent x (login_stream t (True, s))"
proof -
  obtain ok s' where r: "stream_Text t s = (ok, s')" by (cases "stream_Text t s")
  have k: "ok \<Longrightarrow> stream_ok x s'" "quiet_sent x s'" using op_keeps [OF assms, of "stream_Text t s" t] r by auto
  have "quiet_sent x (snd (stream_End ''end_turn'' s'))" if ok
    using end_completes(1,2) [OF ok_handing_over [OF k(1) [OF that]], of "''end_turn''"] by (simp add: quiet_sent_def)
  with r k show ?thesis by (cases ok) (simp_all add: login_stream_def)
qed

lemma BeginTextStream_keeps:
  assumes "0 \<le> MaxOutputBytes (x_cfg x)" "BeginTextStream (room_of x) (x_outcomes x) i model = (ok, s)"
  shows "ok \<Longrightarrow> stream_ok x s" "quiet_sent x s"
proof -
  let ?x = "x\<lparr>x_id := i, x_model := model\<rparr>"
  obtain ok1 s1 where b: "BeginStream (room_of x) (x_outcomes x) i model = (ok1, s1)"
    by (cases "BeginStream (room_of x) (x_outcomes x) i model")
  have "beginStream ?x begin_loop = (ok1, s1)" "loop_ok ?x begin_loop" using b by (simp_all add: beginStream_def begin_loop_def room_of_def loop_ok_def)
  with begin_keeps [of ?x begin_loop ok1 s1] assms(1)
  have k: "ok1 \<Longrightarrow> stream_ok x s1" "quiet_sent x s1" by (simp_all add: stream_ok_def quiet_sent_def stream_sent_def)
  have closed: "\<not> is_open s1" using b by (auto simp: BeginStream_def emit_def stream_write_def take_outcome_def Let_def split: if_splits list.splits prod.splits)
  have "(ok \<longrightarrow> stream_ok x s) \<and> quiet_sent x s"
  proof (cases ok1)
    case True
    then have s1: "stream_ok x s1" using k by simp
    have "startText s1 = (ok, s)" using assms(2) b True by (simp add: BeginTextStream_def)
    moreover have "legal (startText s1)" using s1 closed by (intro startText_legal) (simp_all add: stream_ok_def)
    moreover have "\<not> ended (snd (startText s1))" using s1 by (simp add: stream_ok_def)
    ultimately show ?thesis using keeps_stream [OF s1 _ startText_grown] by simp
  next
    case False
    then show ?thesis using assms(2) b k by (simp add: BeginTextStream_def)
  qed
  then show "ok \<Longrightarrow> stream_ok x s" "quiet_sent x s" by blast+
qed

lemma fallback_ok:
  assumes "0 \<le> MaxOutputBytes (x_cfg x)" "case st of None \<Rightarrow> True | Some s \<Rightarrow> Stream (x_request x) \<and> stream_ok x s"
  shows "delivered_ok x [] (fallback x model st pre)"
proof (cases st)
  case (Some s)
  then show ?thesis using assms(2) login_quiet by (simp add: fallback_def returned_quiet)
next
  case None
  show ?thesis
  proof (cases "Stream (x_request x)")
    case True
    obtain ok s where b: "BeginTextStream (room_of x) (x_outcomes x) (x_id x) model = (ok, s)"
      by (cases "BeginTextStream (room_of x) (x_outcomes x) (x_id x) model")
    have "quiet_sent x (login_stream t (ok, s))" for t
      using BeginTextStream_keeps [OF assms(1) b] login_quiet [of x s t] by (cases ok) (simp_all add: login_stream_def)
    then show ?thesis using None True b by (simp add: fallback_def Let_def returned_quiet)
  next
    case False
    then show ?thesis
      using None json_delivered [OF False, where us = "[]" and n = False]
      by (simp add: fallback_def Let_def NewResponse_def text_block_def plain_block_def)
  qed
qed

lemma on_failure_ok:
  assumes "loop_ok x g" "0 \<le> MaxOutputBytes (x_cfg x)"
  shows "step_ok x us [] (on_failure x e gone timed_out g)"
proof -
  have "quiet_sent x s" "Stream (x_request x)" if "g_stream g = Some s" for s
    using assms(1) that stream_ok_sent by (simp_all add: loop_ok_def)
  then have "step_ok x us [] (returned (case g_stream g of None \<Rightarrow> NoReply | Some s \<Rightarrow> StreamReply s))"
    by (cases "g_stream g") (simp_all add: step_ok_def returned_def returned_error returned_quiet)
  moreover have "step_ok x us [] (Returned (fallback x (x_model x) (g_stream g) (g_buffered g)))"
    using fallback_ok [OF assms(2)] assms(1) by (simp add: step_ok_def loop_ok_def)
  ultimately show ?thesis using fail_with_ok [OF assms(1)] by (simp add: on_failure_def)
qed

lemma tick_step_ok:
  assumes "loop_ok x g" "0 \<le> MaxOutputBytes (x_cfg x)"
  shows "\<exists>us. step_ok x us (handed t g) (tick_step x t g)
    \<and> (us = g_pending g \<or> (\<exists>e gone. t = Received e gone \<and> EvKind e = KTools \<and> EvTools e = us))"
proof (cases t)
  case Heartbeat
  then show ?thesis using ping_ok [OF assms] assms(1) by (auto simp: tick_step_def step_ok_def)
next
  case (Received e gone)
  then show ?thesis using on_event_ok [OF assms, of e gone] by (auto simp: tick_step_def split: if_splits)
next
  case (Raised e gone timed_out)
  then show ?thesis using on_failure_ok [OF assms] by (auto simp: tick_step_def handed_def)
qed

definition batch_seen :: "tick list \<Rightarrow> tool_use list \<Rightarrow> bool" where
  "batch_seen ts us \<longleftrightarrow> (\<exists>e gone. Received e gone \<in> set ts \<and> EvKind e = KTools \<and> EvTools e = us)"

definition handover_seen :: "tick list \<Rightarrow> bool" where
  "handover_seen ts \<longleftrightarrow> (\<exists>e gone. Received e gone \<in> set ts \<and> EvKind e = KEnd \<and> EvStop e = ''tool_use'')"

lemma seen_later: "batch_seen ts us \<Longrightarrow> batch_seen (t # ts) us" "handover_seen ts \<Longrightarrow> handover_seen (t # ts)"
  by (auto simp: batch_seen_def handover_seen_def)

text \<open>What a run of the loop returns, started with the batch \<open>ps\<close> pending.\<close>

definition run_ok :: "response_ctx \<Rightarrow> tick list \<Rightarrow> tool_use list \<Rightarrow> progress \<Rightarrow> bool" where
  "run_ok x ts ps p \<longleftrightarrow> (case p of
     Running g \<Rightarrow> loop_ok x g
   | Returned d \<Rightarrow> \<exists>us. delivered_ok x us d \<and> (us = [] \<or> validToolBatch (x_request x) us \<and> (us = ps \<or> batch_seen ts us) \<and> handover_seen ts))"

lemma run_ok_later:
  assumes "run_ok x ts us p" "us = ps \<or> batch_seen [t] us"
  shows "run_ok x (t # ts) ps p"
proof (cases p)
  case (Running g)
  with assms show ?thesis by (simp add: run_ok_def)
next
  case (Returned d)
  then obtain vs where vs: "delivered_ok x vs d"
    "vs = [] \<or> validToolBatch (x_request x) vs \<and> (vs = us \<or> batch_seen ts vs) \<and> handover_seen ts"
    using assms(1) by (auto simp: run_ok_def)
  have "batch_seen (t # ts) us" if "batch_seen [t] us" using that by (auto simp: batch_seen_def)
  then have "vs = [] \<or> validToolBatch (x_request x) vs \<and> (vs = ps \<or> batch_seen (t # ts) vs) \<and> handover_seen (t # ts)"
    using vs(2) assms(2) seen_later by blast
  with vs(1) Returned show ?thesis by (auto simp: run_ok_def)
qed

lemma handed_cases:
  assumes "loop_ok x g"
  shows "handed t g = [] \<or> validToolBatch (x_request x) (handed t g) \<and> handed t g = g_pending g \<and> handover_seen (t # ts)"
  using assms by (cases t) (auto simp: handed_def loop_ok_def handover_seen_def)

lemma serve_ok:
  assumes "loop_ok x g" "0 \<le> MaxOutputBytes (x_cfg x)"
  shows "run_ok x ts (g_pending g) (serve_turn x ts g)"
  using assms(1)
proof (induction ts arbitrary: g)
  case (Cons t ts)
  obtain us where us: "step_ok x us (handed t g) (tick_step x t g)" "us = g_pending g \<or> batch_seen [t] us"
    using tick_step_ok [OF Cons.prems assms(2), of t] by (auto simp: batch_seen_def)
  show ?case
  proof (cases "tick_step x t g")
    case (Running g')
    then have g': "loop_ok x g'" "g_pending g' = us" using us(1) by (simp_all add: step_ok_def)
    have "run_ok x ts us (serve_turn x ts g')" using Cons.IH [OF g'(1)] g'(2) by simp
    from run_ok_later [OF this us(2)] Running show ?thesis by simp
  next
    case (Returned d)
    then have "delivered_ok x (handed t g) d" using us(1) by (simp add: step_ok_def)
    with handed_cases [OF Cons.prems, of t ts] Returned show ?thesis by (auto simp: run_ok_def)
  qed
qed (simp add: run_ok_def)

lemma begin_loop_ok: "loop_ok x begin_loop"
  by (simp add: loop_ok_def begin_loop_def)

text \<open>
  C28: A turn counts as finished, so that its conversation continues, only when the client got a whole message: as a stream,
  one that runs through the Messages streaming protocol to its end with no error event; otherwise one JSON response that
  was written and flushed. Whatever the backend, the clock and the writer do, no response exceeds the configured number of
  bytes, and even a broken stream is a prefix the protocol allows.
\<close>

theorem finished_response_is_complete:
  assumes "New_gateway cfg = Some (x_cfg x)" and "serve_turn x ts begin_loop = Returned d"
  shows "(case d_reply d of
      StreamReply s \<Rightarrow> Stream (x_request x) \<and> follows Start (written s) \<noteq> None
        \<and> int (packets_length (written s)) \<le> MaxOutputBytes (x_cfg x)
        \<and> (d_finished d \<longrightarrow> follows Start (written s) = Some Done \<and> (\<forall>m. ErrorPacket m \<notin> set (written s)))
    | JsonReply v ok \<Rightarrow> \<not> Stream (x_request x) \<and> int (length (response_text v)) + 1 \<le> MaxOutputBytes (x_cfg x)
        \<and> (d_finished d \<longrightarrow> ok)
    | _ \<Rightarrow> \<not> d_finished d)"
proof -
  have "0 \<le> MaxOutputBytes (x_cfg x)" using New_gateway_tokens(4) [OF assms(1)] by simp
  from serve_ok [OF begin_loop_ok this, of ts] assms(2) obtain us where "delivered_ok x us d" by (auto simp: run_ok_def)
  then show ?thesis
    by (cases "d_reply d") (auto simp: delivered_ok_def reply_ok_def reply_complete_def stream_sent_def budget_def no_errors_def)
qed

text \<open>
  C29: Tools reach the client only in a confirmed handover. The tool blocks of any response, streamed or not, are an initial
  part of one batch that the backend announced in a single event and the gateway validated against the request: at most
  64 well-formed calls with distinct identifiers, each of a tool the request declared. A non-empty part is sent only after
  the backend ended the turn for tool use, and a finished response has all of the batch.
\<close>

theorem tools_handed_over_whole:
  assumes "New_gateway cfg = Some (x_cfg x)" and "serve_turn x ts begin_loop = Returned d"
  shows "reply_tools (d_reply d) = [] \<or>
    (\<exists>e gone us. Received e gone \<in> set ts \<and> EvKind e = KTools \<and> EvTools e = us \<and> validToolBatch (x_request x) us
       \<and> prefix (reply_tools (d_reply d)) (map (\<lambda>t. (UID t, UName t)) us)
       \<and> (d_finished d \<longrightarrow> reply_tools (d_reply d) = map (\<lambda>t. (UID t, UName t)) us)
       \<and> (\<exists>f gone'. Received f gone' \<in> set ts \<and> EvKind f = KEnd \<and> EvStop f = ''tool_use''))"
proof -
  have "0 \<le> MaxOutputBytes (x_cfg x)" using New_gateway_tokens(4) [OF assms(1)] by simp
  from serve_ok [OF begin_loop_ok this, of ts] assms(2) obtain us where us: "delivered_ok x us d"
    "us = [] \<or> validToolBatch (x_request x) us \<and> batch_seen ts us \<and> handover_seen ts"
    by (auto simp: run_ok_def begin_loop_def)
  have "named = (\<lambda>t. (UID t, UName t))" by (simp add: named_def fun_eq_iff)
  with us show ?thesis unfolding delivered_ok_def batch_seen_def handover_seen_def by auto
qed

end
