(* ===== verification/Gateway_Room.thy ===== *)
theory Gateway_Room
  imports Gateway_Props
begin

text \<open>
  The bytes the gateway holds back while it streams: enough to end a message normally, not always enough for the
  authentication fallback.
\<close>

subsection \<open>Packet lengths\<close>








subsection \<open>A writer that does not fail\<close>

lemma take_outcome_clear: "outcomes s = [] \<Longrightarrow> take_outcome s = (True, s)"
  by (simp add: take_outcome_def)







subsection \<open>Room to end a message\<close>










subsection \<open>The operations keep it\<close>










subsection \<open>The loop keeps it\<close>

text \<open>The first event of the stream leaves 512 bytes.\<close>

definition opens_roomy :: "response_ctx \<Rightarrow> bool" where
  "opens_roomy x \<longleftrightarrow> x_outcomes x = [] \<and> fst (BeginStream (room_of x) [] (x_id x) (x_model x))
     \<and> 512 \<le> room (snd (BeginStream (room_of x) [] (x_id x) (x_model x)))"











definition end_of_turn :: "bytes \<Rightarrow> turn_event" where
  "end_of_turn stop = \<lparr>EvKind = KEnd, EvText = [], EvStop = stop, EvTools = [], EvSearches = []\<rparr>"


subsection \<open>A worked response\<close>

definition ex_gateway :: gateway_config where
  "ex_gateway = \<lparr>GTokens = \<lparr>ModelToken = replicate 43 (CHR ''m''), UIToken = replicate 43 (CHR ''u'')\<rparr>, HasBackend = True,
     HasMetrics = False, LaunchModel = [], FirstEventTimeout = 1, TurnTimeout = 1, GWriteTimeout = 1, GReadTimeout = 1,
     KeepAliveInterval = 1, MaxActiveRequests = 1, MaxOutputBytes = 4096\<rparr>"

definition ex_ctx :: response_ctx where
  "ex_ctx = \<lparr>x_cfg = ex_gateway,
     x_request = \<lparr>Identity = \<lparr>IdSession = [], IdAgent = [], IdParentAgent = []\<rparr>, ReqModel = ''m'', MaxTokens = 1, Stream = True,
       System = [], Messages = [], ReqTools = [''{\"name\":\"Read\"}''], Effort = [], Extra = [], Warnings = []\<rparr>,
     x_id = ''msg_1'', x_model = ''m'', x_url = (\<lambda>_. None), x_outcomes = []\<rparr>"

definition ex_text :: "bytes \<Rightarrow> tick" where
  "ex_text t = Received \<lparr>EvKind = KText, EvText = t, EvStop = [], EvTools = [], EvSearches = []\<rparr> False"

definition ex_tools_tick :: tick where
  "ex_tools_tick = Received \<lparr>EvKind = KTools, EvText = [], EvStop = [], EvTools = [ex_tool], EvSearches = []\<rparr> False"

text \<open>The same response with the smallest output limit the gateway accepts.\<close>

definition ex_small :: response_ctx where
  "ex_small = ex_ctx\<lparr>x_cfg := ex_gateway\<lparr>MaxOutputBytes := 1024\<rparr>\<rparr>"

lemma ex_gateway_new: "New_gateway ex_gateway = Some (x_cfg ex_ctx)" "New_gateway (x_cfg ex_small) = Some (x_cfg ex_small)"
  by (simp_all add: New_gateway_def ex_gateway_def ex_ctx_def ex_small_def validToken_def token_byte_def or_default_def byte_def
      Let_def list_all_iff)

lemma ex_opens: "opens_roomy ex_ctx" "opens_roomy ex_small" "Stream (x_request ex_ctx)"
  by code_simp+


lemma ex_handed:
  "case serve_turn ex_ctx [ex_text ''hi'', ex_tools_tick, Received (end_of_turn ''tool_use'') False] begin_loop of
     Returned d \<Rightarrow> d_finished d \<and> reply_tools (d_reply d) = [(''t1'', ''Read'')]
   | Running _ \<Rightarrow> False"
  by code_simp


theorem gateway_credentials_separate_witness:
  "ServeHTTP (x_cfg ex_ctx) 0 ''POST'' ''/v1/messages'' [replicate 43 (CHR ''m'')] [] = ServeMessages
   \<and> \<not> authorized [replicate 43 (CHR ''m'')] [] (UIToken (GTokens (x_cfg ex_ctx)))"
proof -
  have "ServeHTTP (x_cfg ex_ctx) 0 ''POST'' ''/v1/messages'' [replicate 43 (CHR ''m'')] [] = ServeMessages" by code_simp
  then show ?thesis
    using gateway_credentials_separate [OF ex_gateway_new(1), of 0 "''POST''" "''/v1/messages''" "[replicate 43 (CHR ''m'')]" "[]"] by simp
qed

theorem finished_response_is_complete_witness:
  "\<exists>d s. serve_turn ex_ctx [ex_text ''hi'', ex_tools_tick, Received (end_of_turn ''tool_use'') False] begin_loop = Returned d
     \<and> d_finished d \<and> d_reply d = StreamReply s \<and> follows Start (written s) = Some Done"
proof -
  obtain d where d: "serve_turn ex_ctx [ex_text ''hi'', ex_tools_tick, Received (end_of_turn ''tool_use'') False] begin_loop = Returned d"
    "d_finished d" using ex_handed by (auto split: progress.splits)
  from finished_response_is_complete [OF ex_gateway_new(1) d(1)] d ex_opens(3) show ?thesis by (cases "d_reply d") auto
qed

theorem tools_handed_over_whole_witness:
  "\<exists>d us. serve_turn ex_ctx [ex_text ''hi'', ex_tools_tick, Received (end_of_turn ''tool_use'') False] begin_loop = Returned d
     \<and> reply_tools (d_reply d) = [(''t1'', ''Read'')] \<and> validToolBatch (x_request ex_ctx) us
     \<and> reply_tools (d_reply d) = map (\<lambda>t. (UID t, UName t)) us"
proof -
  obtain d where d: "serve_turn ex_ctx [ex_text ''hi'', ex_tools_tick, Received (end_of_turn ''tool_use'') False] begin_loop = Returned d"
    "d_finished d" "reply_tools (d_reply d) = [(''t1'', ''Read'')]" using ex_handed by (auto split: progress.splits)
  from tools_handed_over_whole [OF ex_gateway_new(1) d(1)] d obtain us where
    "validToolBatch (x_request ex_ctx) us" "reply_tools (d_reply d) = map (\<lambda>t. (UID t, UName t)) us" by auto
  with d show ?thesis by blast
qed



end
