(* ===== verification/Sessionstore.thy ===== *)
theory Sessionstore
  imports History Catalog
begin

text \<open>
  \<open>internal/sessionstore\<close>: one metadata record per slot of a fixed 256-slot directory, read and written under an exclusive
  lease. A slot's file is what decoding it yields; \<open>enc\<close> is the encoding of a record, whose length alone matters.
  Whether an operation of the private file system succeeds is an argument. Times are nanoseconds since Go's zero time.
\<close>

definition MaxRecordBytes :: nat where "MaxRecordBytes = 2097152"

record stored =
  SVersion :: int
  SKey :: bytes
  SProfile :: bytes
  SCompatibility :: bytes
  SLaunch :: bytes
  SSessionID :: bytes
  SCurrentModel :: bytes
  SSelector :: bytes
  SModels :: "backend list"
  SHistory :: snapshot
  SUpdated :: int
  SExpires :: int

definition digest :: "bytes \<Rightarrow> bool" where
  "digest v \<longleftrightarrow> length v = 64 \<and> (case hex_decode v of None \<Rightarrow> False | Some b \<Rightarrow> hex_encode b = v)"

definition Record_Valid :: "runtime \<Rightarrow> int \<Rightarrow> stored \<Rightarrow> bool" where
  "Record_Valid rt now r \<longleftrightarrow>
     \<not> (SVersion r \<noteq> 1 \<or> \<not> digest (SKey r) \<or> \<not> digest (SProfile r) \<or> \<not> digest (SCompatibility r) \<or> \<not> digest (SLaunch r)
        \<or> SSessionID r = [] \<or> 1024 < length (SSessionID r) \<or> 256 < length (SSelector r) \<or> SCurrentModel r = []
        \<or> \<not> Snapshot_Valid (SHistory r))
     \<and> \<not> (SUpdated r = 0 \<or> now + 60000000000 < SUpdated r \<or> SExpires r \<le> SUpdated r
          \<or> 86400000000000 < SExpires r - SUpdated r)
     \<and> New rt (SModels r) (SCurrentModel r) \<noteq> None"

datatype store_error = SErrRecord | SErrFile | SErrLocked | SNotExist

datatype slot_file = Decoded stored | Undecodable

record store =
  slots :: "bytes \<Rightarrow> slot_file option"
  locks :: "bytes set"

record store_lease =
  sl_key :: bytes
  sl_closed :: bool

definition empty_store :: store where
  "empty_store = \<lparr>slots = (\<lambda>_. None), locks = {}\<rparr>"

definition slot_of :: "store_lease \<Rightarrow> bytes" where
  "slot_of l = take 2 (sl_key l)"

definition Claim :: "bytes \<Rightarrow> bool \<Rightarrow> store \<Rightarrow> (store_error + store_lease) \<times> store" where
  "Claim key fs_ok st =
     (if \<not> digest key then (Inl SErrRecord, st)
      else if \<not> fs_ok then (Inl SErrFile, st)
      else if take 2 key \<in> locks st then (Inl SErrLocked, st)
      else (Inr \<lparr>sl_key = key, sl_closed = False\<rparr>, st\<lparr>locks := insert (take 2 key) (locks st)\<rparr>))"

text \<open>
  \<open>New\<close>: the private directory exists and its key lock was taken (\<open>ready\<close>), the key file is read (\<open>found\<close>) or, when there
  is none, written with random bytes (\<open>random\<close>, unless the source fails). The result is the key.
\<close>

definition New_store :: "bool \<Rightarrow> store_error + bytes \<Rightarrow> bytes option \<Rightarrow> bool \<Rightarrow> store_error + bytes" where
  "New_store ready found random wrote =
     (if \<not> ready then Inl SErrFile
      else case (case found of
            Inr key \<Rightarrow> if length key \<noteq> 32 then Inl SErrRecord else Inr key
          | Inl SNotExist \<Rightarrow> (case random of None \<Rightarrow> Inl SErrFile | Some key \<Rightarrow> if wrote then Inr key else Inl SErrFile)
          | Inl _ \<Rightarrow> Inl SErrRecord) of
          Inl e \<Rightarrow> Inl e
        | Inr key \<Rightarrow> if key = replicate 32 (CHR 0x00) then Inl SErrRecord else Inr key)"

text \<open>\<open>check\<close>: the lease is open and its lock file is still the one that was locked.\<close>

definition lease_check :: "bool \<Rightarrow> store_lease \<Rightarrow> bool" where
  "lease_check held l \<longleftrightarrow> \<not> sl_closed l \<and> held"

definition Read_record :: "runtime \<Rightarrow> int \<Rightarrow> bool \<Rightarrow> store_lease \<Rightarrow> store \<Rightarrow> store_error + stored" where
  "Read_record rt now held l st =
     (if \<not> lease_check held l then Inl SErrFile
      else case slots st (slot_of l) of
          None \<Rightarrow> Inl SNotExist
        | Some Undecodable \<Rightarrow> Inl SErrRecord
        | Some (Decoded r) \<Rightarrow>
            if \<not> Record_Valid rt now r then Inl SErrRecord
            else if SKey r \<noteq> sl_key l \<or> SExpires r \<le> now then Inl SNotExist
            else Inr r)"

definition Save_record ::
  "runtime \<Rightarrow> (stored \<Rightarrow> bytes option) \<Rightarrow> int \<Rightarrow> bool \<Rightarrow> bool \<Rightarrow> stored \<Rightarrow> store_lease \<Rightarrow> store \<Rightarrow> store_error option \<times> store" where
  "Save_record rt enc now held wrote r l st =
     (if \<not> lease_check held l then (Some SErrFile, st)
      else if SKey r \<noteq> sl_key l \<or> \<not> Record_Valid rt now r then (Some SErrRecord, st)
      else case enc r of
          None \<Rightarrow> (Some SErrRecord, st)
        | Some data \<Rightarrow>
            if MaxRecordBytes < length data then (Some SErrRecord, st)
            else if \<not> wrote then (Some SErrFile, st)
            else (None, st\<lparr>slots := (slots st)(slot_of l := Some (Decoded r))\<rparr>))"

definition Invalidate_record :: "bool \<Rightarrow> bool \<Rightarrow> store_lease \<Rightarrow> store \<Rightarrow> store_error option \<times> store" where
  "Invalidate_record held removed l st =
     (if \<not> lease_check held l then (Some SErrFile, st)
      else if \<not> removed then (Some SErrFile, st)
      else (None, st\<lparr>slots := (slots st)(slot_of l := None)\<rparr>))"

definition Close_lease :: "store_lease \<Rightarrow> store \<Rightarrow> store_lease \<times> store" where
  "Close_lease l st = (if sl_closed l then (l, st) else (l\<lparr>sl_closed := True\<rparr>, st\<lparr>locks := locks st - {slot_of l}\<rparr>))"

end
