(* ===== verification/Session_Setup.thy ===== *)
theory Session_Setup
  imports Driver Sessionstore Acp
begin

text \<open>
  How a driver gets its backend session: \<open>internal/session/setup.go\<close>, \<open>persistence.go\<close> and the fresh-prompt part of
  \<open>Start\<close> in \<open>driver.go\<close>. What the process replies and which notifications are queued are arguments; a failed call
  carries its error.
\<close>

subsection \<open>Configuration\<close>

record driver_config =
  CTurnTimeout :: int          \<comment> \<open>nanoseconds\<close>
  CSetupTimeout :: int
  CMaxRecreations :: int
  InitialModel :: bytes
  InitialEffort :: bytes
  UnsupportedPairs :: nat      \<comment> \<open>their number\<close>
  HasValidator :: bool
  RelayExecutable :: bytes
  HasPool :: bool
  CPoolScope :: bytes
  CMetrics :: "bytes option"   \<comment> \<open>the metrics scope, when there is a queue\<close>
  Leased :: bool               \<comment> \<open>a persistence lease is configured\<close>
  PersistenceProfile :: bytes
  PersistenceLaunch :: bytes
  PersistenceTTL :: int
  Prepares :: bool             \<comment> \<open>launches are prepared\<close>

definition lower_hex32 :: "unicode_tables \<Rightarrow> bytes \<Rightarrow> bool" where
  "lower_hex32 u s \<longleftrightarrow> (case hex_decode s of None \<Rightarrow> False | Some b \<Rightarrow> length b = 32) \<and> s = ToLower u s"

text \<open>\<open>same_process\<close> is the pool's answer to \<open>MatchesProcess\<close>, \<open>is_abs\<close> is \<open>filepath.IsAbs\<close> of the relay executable.\<close>

definition normalizeConfig :: "unicode_tables \<Rightarrow> bool \<Rightarrow> bool \<Rightarrow> driver_config \<Rightarrow> driver_config option" where
  "normalizeConfig u is_abs same_process conf =
     (let c = conf\<lparr>CTurnTimeout := (if CTurnTimeout conf = 0 then 600000000000 else CTurnTimeout conf),
                  CSetupTimeout := (if CSetupTimeout conf = 0 then 30000000000 else CSetupTimeout conf),
                  CMaxRecreations := (if CMaxRecreations conf = 0 then 16 else CMaxRecreations conf)\<rparr>
      in if CMaxRecreations c < 1 \<or> 64 < CMaxRecreations c then None
         else if CTurnTimeout c \<le> 0 \<or> 3600000000000 < CTurnTimeout c \<or> CSetupTimeout c \<le> 0 \<or> 60000000000 < CSetupTimeout c then None
         else if 256 < length (InitialModel c) \<or> (InitialEffort c \<noteq> [] \<and> Normalize u (InitialEffort c) = []) \<or> 1280 < UnsupportedPairs c
           then None
         else if HasValidator c \<noteq> (RelayExecutable c \<noteq> []) \<or> (RelayExecutable c \<noteq> [] \<and> \<not> is_abs) then None
         else if 128 < length (CPoolScope c) then None
         else if (case CMetrics c of None \<Rightarrow> False | Some scope \<Rightarrow> \<not> lower_hex32 u scope) then None
         else if Leased c \<and> (\<not> HasPool c \<or> length (PersistenceProfile c) \<noteq> 64 \<or> length (PersistenceLaunch c) \<noteq> 64) then None
         else let c' = (if Leased c \<and> PersistenceTTL c = 0 then c\<lparr>PersistenceTTL := 3600000000000\<rparr> else c)
              in if Leased c' \<and> (PersistenceTTL c' \<le> 0 \<or> 86400000000000 < PersistenceTTL c') then None
                 else if Prepares c' \<and> (\<not> HasValidator c' \<or> Leased c') then None
                 else if HasPool c' \<and> \<not> same_process then None
                 else Some c')"

definition New_config :: "unicode_tables \<Rightarrow> bool \<Rightarrow> bool \<Rightarrow> driver_config \<Rightarrow> driver_config option" where
  "New_config u is_abs same_process conf = (case normalizeConfig u is_abs same_process conf of
     None \<Rightarrow> None
   | Some c \<Rightarrow> if Prepares c \<and> \<not> HasPool c then None else Some c)"

subsection \<open>Stored sessions\<close>

text \<open>\<open>json.Marshal\<close> of a byte array: its numbers.\<close>

definition stamp_text :: "bytes \<Rightarrow> bytes" where
  "stamp_text s = arr_text (map (\<lambda>c. digits_of (byte c)) s)"

definition compat_digest :: "mac \<Rightarrow> bytes \<Rightarrow> bytes" where
  "compat_digest mac stamp = (case hasher_Digest mac ''compatibility'' (stamp_text stamp) of None \<Rightarrow> [] | Some v \<Rightarrow> v)"

text \<open>\<open>resumeRecord\<close>; \<open>live\<close> says that the driver has a healthy client, \<open>found\<close> is what the lease read.\<close>

definition resumeRecord ::
  "mac \<Rightarrow> driver_config \<Rightarrow> bool \<Rightarrow> store_error + stored \<Rightarrow> request \<Rightarrow> bytes \<Rightarrow> stored option" where
  "resumeRecord mac conf live found r stamp =
     (if \<not> Leased conf \<or> live then None
      else case found of
          Inl _ \<Rightarrow> None
        | Inr rec \<Rightarrow>
            if SProfile rec \<noteq> PersistenceProfile conf \<or> SLaunch rec \<noteq> PersistenceLaunch conf \<or> SCompatibility rec \<noteq> compat_digest mac stamp
            then None
            else case Plan mac (SHistory rec) r of
                None \<Rightarrow> None
              | Some p \<Rightarrow> if Mode p \<noteq> Extend \<or> History.Start p \<noteq> length (Nodes (SHistory rec)) then None else Some rec)"

definition loadedSession :: "runtime \<Rightarrow> bytes \<Rightarrow> stored \<Rightarrow> session_info option" where
  "loadedSession rt raw rec =
     do {
       fs \<leftarrow> (if raw = ''null'' then Some [] else ndjson_Object raw);
       (if has_key fs ''sessionId'' \<and> GoJson.string_field (field fs ''sessionId'') \<noteq> Some (SSessionID rec) then None
        else if has_key fs ''models'' \<or> has_key fs ''configOptions'' then
          (case DecodeModels rt fs of
             None \<Rightarrow> None
           | Some (c, sel) \<Rightarrow>
               if current c \<noteq> SCurrentModel rec \<or> sel \<noteq> SSelector rec then None
               else Some \<lparr>InfoID = SSessionID rec, InfoCatalog = c, ConfigID = sel\<rparr>)
        else map_option (\<lambda>c. \<lparr>InfoID = SSessionID rec, InfoCatalog = c, ConfigID = SSelector rec\<rparr>)
               (New rt (SModels rec) (SCurrentModel rec)))
     }"

text \<open>The record \<open>persistIdle\<close> saves.\<close>

definition idle_record :: "mac \<Rightarrow> driver_config \<Rightarrow> bytes \<Rightarrow> session_info \<Rightarrow> snapshot \<Rightarrow> bytes \<Rightarrow> int \<Rightarrow> stored" where
  "idle_record mac conf key info snap stamp now =
     \<lparr>SVersion = 1, SKey = key, SProfile = PersistenceProfile conf, SCompatibility = compat_digest mac stamp,
      SLaunch = PersistenceLaunch conf, SSessionID = InfoID info, SCurrentModel = current (InfoCatalog info),
      SSelector = ConfigID info, SModels = models (InfoCatalog info), SHistory = snap, SUpdated = now,
      SExpires = now + PersistenceTTL conf\<rparr>"

subsection \<open>Setting up a session\<close>

record prepared =
  p_info :: session_info
  p_current :: bytes
  p_reused :: bool
  p_loaded :: bool

text \<open>Whether \<open>prepare\<close> keeps the previous process.\<close>

definition reuses :: "driver_config \<Rightarrow> bool \<Rightarrow> bool \<Rightarrow> bytes \<Rightarrow> bytes \<Rightarrow> bytes \<Rightarrow> bytes \<Rightarrow> bool" where
  "reuses conf reuse healthy wanted previous stamp previous_stamp \<longleftrightarrow>
     reuse \<and> healthy \<and> wanted = previous \<and> (\<not> HasPool conf \<or> stamp = previous_stamp)"

text \<open>The session the process reports for \<open>session/new\<close>, or for loading a stored one.\<close>

definition opened :: "runtime \<Rightarrow> stored option \<Rightarrow> bytes \<Rightarrow> prepared option" where
  "opened rt rec raw = (case rec of
     Some s \<Rightarrow> map_option (\<lambda>i. \<lparr>p_info = i, p_current = [], p_reused = False, p_loaded = True\<rparr>) (loadedSession rt raw s)
   | None \<Rightarrow> map_option (\<lambda>i. \<lparr>p_info = i, p_current = current (InfoCatalog i), p_reused = False, p_loaded = False\<rparr>) (DecodeSession rt raw))"

text \<open>\<open>drain\<close>: the queued notifications; a failed read of the queue ends it.\<close>

fun drain :: "bytes \<Rightarrow> (acp_error + notification) list \<Rightarrow> effort \<Rightarrow> acp_error option \<times> effort" where
  "drain session [] e = (None, e)"
| "drain session (Inl why # ns) e = (Some why, e)"
| "drain session (Inr n # ns) e =
     (if SessionID n \<noteq> [] \<and> SessionID n \<noteq> session then (Some AErrProtocol, e)
      else drain session ns
        (if Method n = ''_kiro.dev/commands/available'' \<and> SessionID n = session then snd (Advertise (Params n) e) else e))"

text \<open>\<open>selectModel\<close>: the call it makes and what it accepts as the answer.\<close>

definition select_call :: "prepared \<Rightarrow> bytes \<Rightarrow> (bytes \<times> bytes) option" where
  "select_call p model =
     (if p_current p = model then None
      else if ConfigID (p_info p) \<noteq> []
        then Some (''session/set_config_option'', obj_text [(''sessionId'', quote (InfoID (p_info p))),
               (''configId'', quote (ConfigID (p_info p))), (''value'', quote model)])
      else Some (''session/set_model'', obj_text [(''sessionId'', quote (InfoID (p_info p))), (''modelId'', quote model)]))"

definition selected_catalog :: "runtime \<Rightarrow> prepared \<Rightarrow> bytes \<Rightarrow> (bytes \<times> bytes) list \<Rightarrow> catalog option" where
  "selected_catalog rt p model fs =
     (if ConfigID (p_info p) \<noteq> [] then (case DecodeModels rt fs of
          None \<Rightarrow> None
        | Some (c, sel) \<Rightarrow> if sel \<noteq> ConfigID (p_info p) \<or> current c \<noteq> model then None else Some c)
      else if has_key fs ''models'' then (case DecodeModels rt fs of
          None \<Rightarrow> None
        | Some (c, _) \<Rightarrow> if current c \<noteq> model then None else New rt (models c) model)
      else New rt (models (InfoCatalog (p_info p))) model)"

definition selectModel ::
  "runtime \<Rightarrow> prepared \<Rightarrow> bytes \<Rightarrow> acp_error + bytes \<Rightarrow> effort \<Rightarrow> acp_error option \<times> prepared \<times> effort" where
  "selectModel rt p model reply e =
     (if select_call p model = None then (None, p, e)
      else case reply of
          Inl why \<Rightarrow> (Some why, p, e)
        | Inr raw \<Rightarrow> (case Option.bind (ndjson_Object raw) (selected_catalog rt p model) of
            None \<Rightarrow> (Some AErrProtocol, p, e)
          | Some c \<Rightarrow> (None, p\<lparr>p_info := (p_info p)\<lparr>InfoCatalog := c\<rparr>, p_current := model\<rparr>, ModelChanged e)))"

subsection \<open>The prompt\<close>

text \<open>The parameters of \<open>session/prompt\<close> as the call marshals them, and the message \<open>promptFits\<close> measures.\<close>

definition prompt_params :: "bytes \<Rightarrow> part list \<Rightarrow> bytes" where
  "prompt_params session ps = obj_text [(''sessionId'', quote session), (''prompt'', arr_text (map part_MarshalJSON ps))]"

definition sized_prompt :: "bytes \<Rightarrow> part list \<Rightarrow> bytes" where
  "sized_prompt session ps = obj_text [(''id'', digits_of 9007199254740991), (''jsonrpc'', quote ''2.0''), (''method'', quote ''session/prompt''),
     (''params'', obj_text [(''prompt'', arr_text (map part_MarshalJSON ps)), (''sessionId'', quote session)])]"

definition promptFits :: "int \<Rightarrow> bytes \<Rightarrow> part list \<Rightarrow> bool" where
  "promptFits frame_limit session ps \<longleftrightarrow>
     int (length (sized_prompt session ps)) \<le> (if frame_limit = 0 then 8388608 else frame_limit)"

text \<open>
  Which part of the conversation is sent: the suffix when the session is known to hold the rest, everything with a plan
  from scratch otherwise.
\<close>

definition start_prompt ::
  "(bytes \<Rightarrow> bytes) \<Rightarrow> mac \<Rightarrow> decode_config \<Rightarrow> prompt_capabilities \<Rightarrow> plan \<Rightarrow> prepared \<Rightarrow> request \<Rightarrow> (plan \<times> part list) option" where
  "start_prompt sha mac dc caps pl p r =
     (if Mode pl = Extend \<and> (p_reused p \<or> p_loaded p)
      then map_option (\<lambda>ps. (pl, ps)) (DeltaWithCapabilities sha dc r (History.Start pl) caps)
      else do { pl' \<leftarrow> Plan mac empty_snapshot r; ps \<leftarrow> FullWithCapabilities sha dc r caps; Some (pl', ps) })"

text \<open>The plan against the driver's own conversation, which counts only under the same compatibility stamp.\<close>

definition fresh_plan :: "mac \<Rightarrow> bytes \<Rightarrow> driver \<Rightarrow> request \<Rightarrow> plan option" where
  "fresh_plan mac stamp d r = Plan mac (if stamp = dreuse d then dsnapshot d else empty_snapshot) r"

definition selected_model :: "driver_config \<Rightarrow> bool \<Rightarrow> catalog \<Rightarrow> request \<Rightarrow> backend option" where
  "selected_model conf first c r =
     (if first \<and> InitialModel conf \<noteq> [] then Backend c (InitialModel conf) else Catalog.Resolve c (ReqModel r))"

definition requested_effort :: "driver_config \<Rightarrow> bool \<Rightarrow> request \<Rightarrow> bytes" where
  "requested_effort conf first r = (if first \<and> InitialEffort conf \<noteq> [] then InitialEffort conf else Effort r)"

definition session_state_of :: "prepared \<Rightarrow> bytes" where
  "session_state_of p = (if p_loaded p then ''loaded'' else if p_reused p then ''reused'' else ''created'')"

subsection \<open>Idle drivers\<close>

text \<open>\<open>watchIdleProcess\<close>: the process of an idle driver ended.\<close>

definition process_ended :: "bool \<Rightarrow> bool \<Rightarrow> driver \<Rightarrow> driver" where
  "process_ended same failed d =
     (if \<not> same \<or> dstate d \<noteq> Idle then d
      else d\<lparr>dsnapshot := empty_snapshot, dstate := Unstarted, cleanup_failed := (cleanup_failed d \<or> failed)\<rparr>)"

text \<open>\<open>CloseIdle\<close> of a driver that is not closed: busy, or closed with the outcome of the cleanup.\<close>

definition CloseIdle :: "bool \<Rightarrow> driver \<Rightarrow> session_error option \<times> driver" where
  "CloseIdle failed d =
     (if dstate d \<in> {Starting, Prompting, WaitingTools} then (Some SErrBusy, d)
      else let d' = d\<lparr>dclosed := True, dstate := Closed, cleanup_failed := (cleanup_failed d \<or> failed)\<rparr>
           in (if cleanup_failed d' then Some SClosed else None, d'))"

text \<open>\<open>RefreshModels\<close> after its setup: the driver is idle with a session no prompt has used.\<close>

definition refreshed :: "bool \<Rightarrow> driver \<Rightarrow> session_error option \<times> driver" where
  "refreshed lapsed d = (if dclosed d \<or> lapsed then (Some SClosed, discardStart False d) else (None, d\<lparr>dstate := Idle\<rparr>))"

end
