(* ===== verification/Session_Stored.thy ===== *)
theory Session_Stored
  imports Session_Setup Driver_Props Catalog_Props
begin

text \<open>
  What the session store and the driver promise together: leases are exclusive, a saved record is read back while it is
  valid, only a record of the same conversation is resumed, and no record is on disk while a turn is running, so that
  a crash never leaves one that a later process could resume.
\<close>

subsection \<open>Leases\<close>

text \<open>The store with every lease it gave out; another process has its leases in the same list.\<close>

type_synonym store_world = "store \<times> store_lease list"

inductive store_step :: "store_world \<Rightarrow> store_world \<Rightarrow> bool" where
  claimed: "Claim key fs_ok st = (Inr l, st') \<Longrightarrow> store_step (st, ls) (st', ls @ [l])"
| closed: "i < length ls \<Longrightarrow> Close_lease (ls ! i) st = (l', st') \<Longrightarrow> store_step (st, ls) (st', ls[i := l'])"
| saved: "l \<in> set ls \<Longrightarrow> Save_record rt enc now held wrote r l st = (e, st') \<Longrightarrow> store_step (st, ls) (st', ls)"
| invalidated: "l \<in> set ls \<Longrightarrow> Invalidate_record held removed l st = (e, st') \<Longrightarrow> store_step (st, ls) (st', ls)"

definition open_slots :: "store_lease list \<Rightarrow> bytes list" where
  "open_slots ls = map slot_of (filter (\<lambda>l. \<not> sl_closed l) ls)"

definition store_inv :: "store_world \<Rightarrow> bool" where
  "store_inv w \<longleftrightarrow> (case w of (st, ls) \<Rightarrow> distinct (open_slots ls) \<and> set (open_slots ls) = locks st)"

definition fresh_world :: "store_world \<Rightarrow> bool" where
  "fresh_world w \<longleftrightarrow> locks (fst w) = {} \<and> snd w = []"

lemma open_slots_simps:
  "open_slots (ls @ ls') = open_slots ls @ open_slots ls'" "\<not> sl_closed l \<Longrightarrow> open_slots (l # ls) = slot_of l # open_slots ls"
  "sl_closed l \<Longrightarrow> open_slots (l # ls) = open_slots ls" "open_slots [] = []"
  by (simp_all add: open_slots_def)

lemma open_slots_mem: "l \<in> set ls \<Longrightarrow> \<not> sl_closed l \<Longrightarrow> slot_of l \<in> set (open_slots ls)"
  by (simp add: open_slots_def)

lemma file_ops_locks [simp]:
  "locks (snd (Save_record rt enc now held wrote r l st)) = locks st"
  "locks (snd (Invalidate_record held removed l st)) = locks st"
  by (simp_all add: Save_record_def Invalidate_record_def split: option.split)

lemma open_slots_close:
  assumes "i < length ls" "\<not> sl_closed (ls ! i)"
  shows "\<exists>xs ys. open_slots ls = xs @ slot_of (ls ! i) # ys \<and> open_slots (ls[i := (ls ! i)\<lparr>sl_closed := True\<rparr>]) = xs @ ys"
proof -
  have s: "ls = take i ls @ ls ! i # drop (Suc i) ls" using assms(1) by (rule id_take_nth_drop)
  have u: "ls[i := x] = take i ls @ x # drop (Suc i) ls" for x using assms(1) by (simp add: upd_conv_take_nth_drop)
  show ?thesis
    by (intro exI [of _ "open_slots (take i ls)"] exI [of _ "open_slots (drop (Suc i) ls)"] conjI; subst s u)
      (use assms(2) in \<open>simp_all add: open_slots_def u\<close>)
qed

lemma store_step_inv: "store_step w w' \<Longrightarrow> store_inv w \<Longrightarrow> store_inv w'"
proof (induction rule: store_step.induct)
  case (claimed key fs_ok st l st' ls)
  then have "l = \<lparr>sl_key = key, sl_closed = False\<rparr>" "slot_of l \<notin> locks st" "locks st' = insert (slot_of l) (locks st)"
    by (auto simp: Claim_def slot_of_def split: if_splits)
  with claimed.prems show ?case by (simp add: store_inv_def open_slots_simps)
next
  case (closed i ls st l' st')
  show ?case
  proof (cases "sl_closed (ls ! i)")
    case True
    with closed show ?thesis by (auto simp: Close_lease_def list_update_id)
  next
    case False
    with closed.hyps(1) obtain xs ys where "open_slots ls = xs @ slot_of (ls ! i) # ys"
      "open_slots (ls[i := (ls ! i)\<lparr>sl_closed := True\<rparr>]) = xs @ ys" using open_slots_close by blast
    with False closed show ?thesis by (auto simp: Close_lease_def store_inv_def)
  qed
next
  case (saved l ls rt enc now held wrote r st e st')
  then show ?case using file_ops_locks(1) [of rt enc now held wrote r l st] by (simp add: store_inv_def)
next
  case (invalidated l ls held removed st e st')
  then show ?case using file_ops_locks(2) [of held removed l st] by (simp add: store_inv_def)
qed

interpretation ss: invariant_machine fresh_world store_step store_inv
proof
  show "fresh_world w \<Longrightarrow> store_inv w" for w by (cases w) (simp add: fresh_world_def store_inv_def open_slots_simps)
qed (rule store_step_inv)

lemma open_leases_differ:
  assumes "distinct (open_slots ls)" "i < length ls" "j < length ls" "i \<noteq> j" "\<not> sl_closed (ls ! i)" "\<not> sl_closed (ls ! j)"
  shows "slot_of (ls ! i) \<noteq> slot_of (ls ! j)"
proof (rule ccontr)
  assume same: "\<not> slot_of (ls ! i) \<noteq> slot_of (ls ! j)"
  have *: False if "a < b" "b < length ls" "\<not> sl_closed (ls ! a)" "\<not> sl_closed (ls ! b)" "slot_of (ls ! a) = slot_of (ls ! b)" for a b
  proof -
    have "ls ! a \<in> set (take b ls)" using that(1,2) by (metis in_set_conv_nth length_take less_trans min.absorb4 nth_take)
    moreover have "ls ! b \<in> set (drop b ls)" using that(2) by (metis Cons_nth_drop_Suc list.set_intros(1))
    ultimately have "slot_of (ls ! a) \<in> set (open_slots (take b ls))" "slot_of (ls ! b) \<in> set (open_slots (drop b ls))"
      using that(3,4) by (auto intro: open_slots_mem)
    moreover have "distinct (open_slots (take b ls) @ open_slots (drop b ls))"
      using assms(1) open_slots_simps(1) [of "take b ls" "drop b ls"] by simp
    ultimately show False using that(5) by auto
  qed
  from same show False using * [of i j] * [of j i] assms(2-) by (metis linorder_neqE_nat)
qed

subsection \<open>Records\<close>



lemma New_current: "New rt ms cur = Some c \<Longrightarrow> current c = cur"
  by (simp add: New_def newWithID_ok(2))

lemma loadedSession_matches:
  assumes "loadedSession rt raw rec = Some info"
  shows "InfoID info = SSessionID rec \<and> ConfigID info = SSelector rec \<and> current (InfoCatalog info) = SCurrentModel rec"
  using assms by (auto simp: loadedSession_def Option.bind_eq_Some_conv New_current split: if_splits option.splits)

lemma resumeRecord_cases:
  assumes "resumeRecord mac conf live found q stamp = Some rec"
  obtains p where "\<not> live" "found = Inr rec" "SProfile rec = PersistenceProfile conf" "SLaunch rec = PersistenceLaunch conf"
    "SCompatibility rec = compat_digest mac stamp" "Plan mac (SHistory rec) q = Some p" "Mode p = Extend"
    "History.Start p = length (Nodes (SHistory rec))"
  using assms by (auto simp: resumeRecord_def split: if_splits sum.splits option.splits)

lemma extends_whole:
  assumes "Plan mac s q = Some p" "Mode p = Extend" "History.Start p = length (Nodes s)"
  shows "\<exists>ns. hasher_Nodes mac (Messages q) = Some ns \<and> take (length (Nodes s)) ns = Nodes s \<and> length (Nodes s) < length ns"
proof -
  from assms obtain ns where n: "hasher_Nodes mac (Messages q) = Some ns"
    and e: "Snapshot_Valid s" "plan_start (Nodes s) ns = Some (length (Nodes s))"
    by (elim Plan_cases) auto
  have b: "both_roles (Nodes s)" "2 \<le> length (Nodes s)" using valid_both_roles [OF e(1)] e(1) by (auto simp: Snapshot_Valid_def)
  from plan_start_sound [OF e(2) b] obtain pre where
    k: "length (Nodes s) < length ns" and pre: "Nodes s = pre @ take (length (Nodes s)) ns" by blast
  have "pre = []" using arg_cong [OF pre, of length] k by simp
  then show ?thesis using n k pre by simp
qed

subsection \<open>A turn and the record on disk\<close>

text \<open>
  Where a call of \<open>Start\<close> stands between taking the start gate and its prompt: before and after the checks that send
  running and waiting turns elsewhere, and after the durable invalidation.
\<close>

datatype start_phase = Free | Entered | Settled | Cleared

definition persist ::
  "runtime \<Rightarrow> (stored \<Rightarrow> bytes option) \<Rightarrow> mac \<Rightarrow> driver_config \<Rightarrow> session_info \<Rightarrow> int \<Rightarrow> bool \<Rightarrow> bool \<Rightarrow> store_lease \<Rightarrow> effect \<Rightarrow> store \<Rightarrow> store" where
  "persist rt enc mac conf info now held wrote l e st = (case e of
     PersistIdle s stamp \<Rightarrow> snd (Save_record rt enc now held wrote (idle_record mac conf (sl_key l) info s stamp now) l st)
   | _ \<Rightarrow> st)"

type_synonym stored_system = "system \<times> start_phase \<times> store"

text \<open>
  The driver with the store it has the lease \<open>l\<close> of: the phases of \<open>Start\<close>, the driver's other operations (those that
  begin no turn, which is when \<open>next_turn\<close> stays), completion with its save, and the leases of other slots.
\<close>

inductive stored_step ::
  "runtime \<Rightarrow> (stored \<Rightarrow> bytes option) \<Rightarrow> hashes \<Rightarrow> driver_config \<Rightarrow> store_lease \<Rightarrow> stored_system \<Rightarrow> stored_system \<Rightarrow> bool"
  for rt enc h conf l where
  entered: "stored_step rt enc h conf l (s, Free, st) (s, Entered, st)"
| settled: "dstate d \<notin> {Prompting, WaitingTools} \<Longrightarrow> stored_step rt enc h conf l ((d, r), Entered, st) ((d, r), Settled, st)"
| cleared: "Invalidate_record held removed l st = (None, st') \<Longrightarrow> stored_step rt enc h conf l (s, Settled, st) (s, Cleared, st')"
| prompted: "dstate d \<in> {Starting, Closed} \<Longrightarrow> fresh_turn t \<Longrightarrow> begin_prompt lapsed t d = (Inr n, d') \<Longrightarrow>
    stored_step rt enc h conf l ((d, r), Cleared, st) ((d', new_round n), Free, st)"
| left: "stored_step rt enc h conf l (s, ph, st) (s, Free, st)"
| completed: "Finish (h_mac h) r deadline auth failed now d = (r', d', es) \<Longrightarrow>
    st' = fold (persist rt enc (h_mac h) conf info now held wrote l) es st \<Longrightarrow>
    stored_step rt enc h conf l ((d, r), ph, st) ((d', r'), ph, st')"
| operated: "driver_step h s s' \<Longrightarrow> next_turn (fst s') = next_turn (fst s) \<Longrightarrow> stored_step rt enc h conf l (s, ph, st) (s', ph, st)"
| other_saved: "slot_of l' \<noteq> slot_of l \<Longrightarrow> Save_record rt enc now held wrote rec l' st = (e, st') \<Longrightarrow>
    stored_step rt enc h conf l (s, ph, st) (s, ph, st')"
| other_cleared: "slot_of l' \<noteq> slot_of l \<Longrightarrow> Invalidate_record held removed l' st = (e, st') \<Longrightarrow>
    stored_step rt enc h conf l (s, ph, st) (s, ph, st')"

definition stored_inv :: "store_lease \<Rightarrow> stored_system \<Rightarrow> bool" where
  "stored_inv l x \<longleftrightarrow> (case x of (s, ph, st) \<Rightarrow> system_inv s
     \<and> (current_turn (fst s) \<noteq> None \<longrightarrow> slots st (slot_of l) = None)
     \<and> (ph \<in> {Settled, Cleared} \<longrightarrow> current_turn (fst s) = None)
     \<and> (ph = Cleared \<longrightarrow> slots st (slot_of l) = None))"

text \<open>Only a prompt begins a turn.\<close>

lemma no_turn_results:
  assumes "current_turn d = None"
  shows "Finish mac r deadline auth failed now d = (r', d', es) \<Longrightarrow> current_turn d' = None \<and> es = []"
    and "cancel_round r deadline auth failed now d = (r', d', es) \<Longrightarrow> current_turn d' = None \<and> es = []"
    and "next_tools mac r d = (x, r', d') \<Longrightarrow> current_turn d' = None"
    and "round_end stop r d = (y, r', d') \<Longrightarrow> current_turn d' = None"
    and "restartAfterDenial h reg q results ctx deadline auth failed now d = (u, d', es) \<Longrightarrow> current_turn d' = None"
    and "restartForContinuation h reg q results fits ctx deadline auth failed now d = (v, d', es) \<Longrightarrow> current_turn d' = None"
  using assms
  by (auto simp: Finish_def cancel_round_def next_tools_def sealTools_def round_end_def restartAfterDenial_def denial_owner_def
      restartForContinuation_def settle_no_turn is_current_def split: if_splits option.splits denial.splits sum.splits prod.splits bool.splits)

lemma resume_no_turn:
  assumes "current_turn d = None" "resume h reg q results ctx now d = (z, d')"
  shows "current_turn d' = None"
proof -
  obtain est d1 where m: "measured (h_estimate h) q d = (est, d1)" by fastforce
  note f = measured_frame [OF m]
  show ?thesis using assms f by (auto simp: resume_def m Let_def split: option.splits if_splits bool.splits)
qed

lemma operated_no_turn:
  assumes "driver_step h s s'" "current_turn (fst s) = None" "next_turn (fst s') = next_turn (fst s)"
  shows "current_turn (fst s') = None"
  using assms
proof (induction rule: driver_step.induct)
  case (prompted d t lapsed n d' r)
  then show ?case by (auto simp: begin_prompt_def split: if_splits option.splits prod.splits)
next
  case (prompt_failed d t lapsed e d' r)
  then show ?case by (auto simp: begin_prompt_def discardStart_def split: if_splits option.splits prod.splits)
next
  case (closed d r deadline auth failed now)
  then show ?case by (simp add: Close_driver_def Let_def)
qed (auto simp: begin_setup_def discardStart_def settle_no_turn dest: no_turn_results resume_no_turn)

text \<open>A record is saved only by the step that ends the turn.\<close>

lemma abort_effects: "abort n reason deadline auth failed now d = (d', es) \<Longrightarrow> PersistIdle s stamp \<notin> set es"
  by (auto simp: abort_def Let_def split: option.splits if_splits)

lemma complete_turn_effects:
  "complete_turn mac n tx deadline auth failed now d = (d', es) \<Longrightarrow> PersistIdle s stamp \<in> set es \<Longrightarrow> current_turn d' = None"
  by (auto simp: complete_turn_def dest: abort_effects split: option.splits if_splits)

lemma Finish_effects:
  assumes "Finish mac r deadline auth failed now d = (r', d', es)" "PersistIdle s stamp \<in> set es"
  shows "current_turn d' = None"
  using assms
  by (auto simp: Finish_def cancel_round_def dest: abort_effects complete_turn_effects split: if_splits option.splits prod.splits)

lemma persist_quiet:
  "\<forall>s stamp. PersistIdle s stamp \<notin> set es \<Longrightarrow> fold (persist rt enc mac conf info now held wrote l) es st = st"
  by (induction es arbitrary: st) (auto simp: persist_def split: effect.splits)

lemma other_slot:
  "slot_of l' \<noteq> slot_of l \<Longrightarrow> Save_record rt enc now held wrote rec l' st = (e, st') \<Longrightarrow> slots st' (slot_of l) = slots st (slot_of l)"
  "slot_of l' \<noteq> slot_of l \<Longrightarrow> Invalidate_record held removed l' st = (e, st') \<Longrightarrow> slots st' (slot_of l) = slots st (slot_of l)"
  by (auto simp: Save_record_def Invalidate_record_def split: if_splits option.splits)

lemma invalidated_slot: "Invalidate_record held removed l st = (None, st') \<Longrightarrow> slots st' (slot_of l) = None"
  by (auto simp: Invalidate_record_def split: if_splits)

lemma stored_step_inv: "stored_step rt enc h conf l x x' \<Longrightarrow> stored_inv l x \<Longrightarrow> stored_inv l x'"
proof (induction rule: stored_step.induct)
  case (settled d r st)
  then show ?case by (auto simp: stored_inv_def system_inv_def turn_inv_def split: option.splits)
next
  case (cleared held removed st st' s)
  then show ?case by (simp add: stored_inv_def invalidated_slot)
next
  case (prompted d t lapsed n d' r st)
  then have "driver_step h (d, r) (d', new_round n)" by (intro driver_step.prompted)
  with prompted.prems show ?case by (auto simp: stored_inv_def dest: driver_step_inv)
next
  case (completed r deadline auth failed now d r' d' es st' info held wrote st ph)
  then have "driver_step h (d, r) (d', r')" by (intro driver_step.finished)
  then have s: "system_inv (d', r')" using completed.prems by (auto simp: stored_inv_def dest: driver_step_inv)
  show ?case
  proof (cases "\<exists>s stamp. PersistIdle s stamp \<in> set es")
    case True
    then have "current_turn d' = None" using Finish_effects [OF completed.hyps(1)] by blast
    moreover have "current_turn d \<noteq> None" using True no_turn_results(1) [OF _ completed.hyps(1)] by fastforce
    ultimately show ?thesis using s completed.prems by (auto simp: stored_inv_def)
  next
    case False
    then have "st' = st" using persist_quiet completed.hyps(2) by blast
    with s completed.prems show ?thesis using no_turn_results(1) [OF _ completed.hyps(1)] by (auto simp: stored_inv_def)
  qed
next
  case (operated s s' ph st)
  then have "system_inv s'" by (auto simp: stored_inv_def dest: driver_step_inv)
  with operated show ?case using operated_no_turn [OF operated.hyps(1) _ operated.hyps(2)] by (auto simp: stored_inv_def)
qed (auto simp: stored_inv_def dest: other_slot)

definition fresh_stored :: "stored_system \<Rightarrow> bool" where
  "fresh_stored x \<longleftrightarrow> (case x of (s, ph, st) \<Rightarrow> fresh_system s \<and> ph = Free)"

interpretation sd: invariant_machine fresh_stored "stored_step rt enc h conf l" "stored_inv l"
proof
  show "fresh_stored x \<Longrightarrow> stored_inv l x" for x
    using fresh_system_inv by (cases x) (auto simp: fresh_stored_def stored_inv_def fresh_system_def newDriver_def)
qed (rule stored_step_inv)

subsection \<open>Properties\<close>

text \<open>
  C36: Two leases of the session store that are open at the same time never share a slot, whatever sequence of claims,
  saves, invalidations and closings, in this and in other processes, produced them; and a slot is locked exactly while
  it has an open lease.
\<close>

theorem store_leases_exclusive:
  assumes "fresh_world w" and "store_step\<^sup>*\<^sup>* w (st, ls)"
  shows "(\<forall>i j. i < length ls \<and> j < length ls \<and> i \<noteq> j \<and> \<not> sl_closed (ls ! i) \<and> \<not> sl_closed (ls ! j) \<longrightarrow> slot_of (ls ! i) \<noteq> slot_of (ls ! j))
    \<and> locks st = slot_of ` {l \<in> set ls. \<not> sl_closed l}"
proof -
  have "store_inv (st, ls)" using assms by (rule ss.reachable_inv)
  then have "distinct (open_slots ls)" "locks st = set (open_slots ls)" by (auto simp: store_inv_def)
  then show ?thesis using open_leases_differ by (auto simp: open_slots_def)
qed


text \<open>
  C35: A stored session is resumed only for the conversation it holds: the driver had no live session, profile, launch and
  compatibility are those of the record, the request's messages begin with the whole stored history and go on, and the
  session the process loaded has the stored identifier, model selector and selected model.
\<close>

theorem only_same_conversation_resumed:
  assumes "resumeRecord mac conf live found q stamp = Some rec" and "loadedSession rt raw rec = Some info"
  shows "\<not> live \<and> found = Inr rec \<and> SProfile rec = PersistenceProfile conf \<and> SLaunch rec = PersistenceLaunch conf
    \<and> SCompatibility rec = compat_digest mac stamp
    \<and> InfoID info = SSessionID rec \<and> ConfigID info = SSelector rec \<and> current (InfoCatalog info) = SCurrentModel rec
    \<and> (\<exists>ns. hasher_Nodes mac (Messages q) = Some ns \<and> take (length (Nodes (SHistory rec))) ns = Nodes (SHistory rec)
           \<and> length (Nodes (SHistory rec)) < length ns)"
  using assms(1)
proof (cases rule: resumeRecord_cases)
  case (1 p)
  with loadedSession_matches [OF assms(2)] extends_whole [OF 1(6-8)] show ?thesis by simp
qed

text \<open>
  C33: An interrupted turn is never resumed from disk. Whatever the interleaving of requests, the relay, completions and
  other leases, and whatever was on disk when the process started: while a turn is running or suspended there is no
  record of its conversation, so that when the process dies then, a later lease of that slot reads nothing and the next
  request starts a session of its own.
\<close>

theorem interrupted_turn_never_resumed:
  assumes "fresh_stored x" and "(stored_step rt enc h conf l)\<^sup>*\<^sup>* x ((d, r), ph, st)" and "current_turn d \<noteq> None"
    and "slot_of l' = slot_of l"
  shows "Read_record rt' now held l' st \<in> {Inl SNotExist, Inl SErrFile}
    \<and> resumeRecord mac conf' live (Read_record rt' now held l' st) q stamp = None"
proof -
  have "stored_inv l ((d, r), ph, st)" using assms(1,2) by (rule sd.reachable_inv)
  then have "slots st (slot_of l') = None" using assms(3,4) by (simp add: stored_inv_def)
  then show ?thesis by (simp add: Read_record_def resumeRecord_def)
qed

subsection \<open>Witnesses\<close>

definition ex_key :: bytes where "ex_key = replicate 64 (CHR ''a'')"

definition ex_lease :: store_lease where "ex_lease = \<lparr>sl_key = ex_key, sl_closed = False\<rparr>"

definition ex_conf :: driver_config where
  "ex_conf = \<lparr>CTurnTimeout = 0, CSetupTimeout = 0, CMaxRecreations = 0, InitialModel = [], InitialEffort = [], UnsupportedPairs = 0,
     HasValidator = False, RelayExecutable = [], HasPool = True, CPoolScope = [], CMetrics = None, Leased = True,
     PersistenceProfile = ex_key, PersistenceLaunch = ex_key, PersistenceTTL = 3600000000000, Prepares = False\<rparr>"

definition ex_info :: session_info where
  "ex_info = \<lparr>InfoID = ''sess'', InfoCatalog = the (New ex_runtime ex_models ''auto''), ConfigID = []\<rparr>"

definition ex_stored :: stored where
  "ex_stored = idle_record ex_mac ex_conf ex_key ex_info ex_snap [] 1"

definition ex_disk :: store where
  "ex_disk = snd (Save_record ex_runtime (\<lambda>_. Some ''{}'') 1 True True ex_stored ex_lease empty_store)"


lemma ex_extends: "History.Start (the (Plan ex_mac ex_snap ex_second)) = length (Nodes ex_snap)"
  by code_simp

lemma ex_claimed: "Claim ex_key True empty_store = (Inr ex_lease, empty_store\<lparr>locks := {slot_of ex_lease}\<rparr>)"
proof -
  have "digest ex_key" by code_simp
  then show ?thesis by (simp add: Claim_def ex_lease_def empty_store_def slot_of_def)
qed

theorem store_leases_exclusive_witness:
  "store_step\<^sup>*\<^sup>* (empty_store, []) (empty_store\<lparr>locks := {slot_of ex_lease}\<rparr>, [ex_lease])
   \<and> locks (empty_store\<lparr>locks := {slot_of ex_lease}\<rparr>) = slot_of ` {l \<in> set [ex_lease]. \<not> sl_closed l}"
proof -
  have f: "fresh_world (empty_store, [])" by (simp add: fresh_world_def empty_store_def)
  have "store_step (empty_store, []) (empty_store\<lparr>locks := {slot_of ex_lease}\<rparr>, [] @ [ex_lease])"
    using ex_claimed by (rule store_step.claimed)
  then have s: "store_step\<^sup>*\<^sup>* (empty_store, []) (empty_store\<lparr>locks := {slot_of ex_lease}\<rparr>, [ex_lease])"
    by (simp only: append_Nil r_into_rtranclp)
  from store_leases_exclusive [OF f s, THEN conjunct2] show ?thesis by (rule conjI [OF s])
qed


theorem only_same_conversation_resumed_witness:
  "\<exists>ns. hasher_Nodes ex_mac (Messages ex_second) = Some ns \<and> take 2 ns = Nodes ex_snap"
proof -
  obtain p where "Plan ex_mac ex_snap ex_second = Some p" "Mode p = Extend" "History.Start p = length (Nodes ex_snap)"
    by (rule that [OF ex_extend ex_extends])
  then have a: "resumeRecord ex_mac ex_conf False (Inr ex_stored) ex_second [] = Some ex_stored"
    by (simp add: resumeRecord_def ex_stored_def idle_record_def ex_conf_def)
  have "loadedSession ex_runtime ''null'' ex_stored \<noteq> None" by code_simp
  then obtain info where b: "loadedSession ex_runtime ''null'' ex_stored = Some info" by blast
  show ?thesis using only_same_conversation_resumed [OF a b] ex_snap_eq(2) by (auto simp: ex_stored_def idle_record_def)
qed

theorem interrupted_turn_never_resumed_witness:
  "\<exists>x st. (stored_step ex_runtime (\<lambda>_. Some ''{}'') ex_hashes ex_conf ex_lease)\<^sup>*\<^sup>* (ex_fresh, Free, ex_disk) (x, Free, st)
     \<and> current_turn (fst x) \<noteq> None \<and> Read_record ex_runtime 5 True ex_lease st = Inl SNotExist"
proof -
  let ?S = "stored_step ex_runtime (\<lambda>_. Some ''{}'') ex_hashes ex_conf ex_lease"
  let ?d = "(newDriver ex_effort None 1)\<lparr>dstate := Starting\<rparr>"
  let ?d' = "ex_driver Prompting (ex_turn ex_b1)"
  obtain st where st: "Invalidate_record True True ex_lease ex_disk = (None, st)"
    by (simp add: Invalidate_record_def lease_check_def ex_lease_def)
  have s1: "?S (ex_fresh, Free, ex_disk) (ex_fresh, Entered, ex_disk)" by (rule stored_step.entered)
  have s2: "?S (ex_fresh, Entered, ex_disk) (ex_fresh, Settled, ex_disk)"
    unfolding ex_fresh_def by (rule stored_step.settled) (simp add: newDriver_def)
  have s3: "?S (ex_fresh, Settled, ex_disk) (ex_fresh, Cleared, st)" using st by (rule stored_step.cleared)
  have s4: "?S (ex_fresh, Cleared, st) ((?d, new_round 0), Cleared, st)"
    using driver_step.started [of ex_hashes "newDriver ex_effort None 1" "new_round 0"]
    by (intro stored_step.operated) (simp_all add: ex_fresh_def begin_setup_def newDriver_def)
  have s5: "?S ((?d, new_round 0), Cleared, st) ((?d', new_round 0), Free, st)"
    using ex_prompt ex_broker_ok by (intro stored_step.prompted) (auto simp: fresh_turn_def ex_turn_def)
  have s: "?S\<^sup>*\<^sup>* (ex_fresh, Free, ex_disk) ((?d', new_round 0), Free, st)"
    by (rule converse_rtranclp_into_rtranclp, rule s1, rule converse_rtranclp_into_rtranclp, rule s2, rule converse_rtranclp_into_rtranclp,
        rule s3, rule converse_rtranclp_into_rtranclp, rule s4, rule r_into_rtranclp, rule s5)
  have f: "fresh_stored (ex_fresh, Free, ex_disk)" by (simp add: fresh_stored_def ex_fresh_system)
  have c: "current_turn ?d' \<noteq> None" by (simp add: ex_driver_turn)
  have "Read_record ex_runtime 5 True ex_lease st \<in> {Inl SNotExist, Inl SErrFile}"
    using interrupted_turn_never_resumed [OF f s c refl] by blast
  moreover have "Read_record ex_runtime 5 True ex_lease st \<noteq> Inl SErrFile"
    by (simp add: Read_record_def lease_check_def ex_lease_def split: option.splits slot_file.splits)
  ultimately show ?thesis using s c by (intro exI [of _ "(?d', new_round 0)"] exI [of _ st]) simp
qed

end
