(* ===== verification/GoJson_Props.thy ===== *)
theory GoJson_Props
  imports GoJson
begin

text \<open>
  Compaction leaves alone what \<open>json.Marshal\<close> wrote: a raw message made of marshalled values is embedded unchanged.
\<close>

declare compact_raw.simps(2) [simp del]

definition kept :: "bytes \<Rightarrow> bool" where
  "kept t \<longleftrightarrow> (\<forall>rest. compact_raw False False (t @ rest) = t @ compact_raw False False rest)"

definition kept_inside :: "bytes \<Rightarrow> bool" where
  "kept_inside t \<longleftrightarrow> (\<forall>rest. compact_raw True False (t @ rest) = t @ compact_raw True False rest)"

lemma kept_append:
  "kept []" "kept a \<Longrightarrow> kept b \<Longrightarrow> kept (a @ b)" "kept_inside []" "kept_inside a \<Longrightarrow> kept_inside b \<Longrightarrow> kept_inside (a @ b)"
  by (simp_all add: kept_def kept_inside_def)

lemma kept_Cons: "kept [c] \<Longrightarrow> kept t \<Longrightarrow> kept (c # t)" "kept_inside [c] \<Longrightarrow> kept_inside t \<Longrightarrow> kept_inside (c # t)"
  using kept_append(2) [of "[c]" t] kept_append(4) [of "[c]" t] by simp_all

lemma compact_kept: "kept t \<Longrightarrow> compact t = t"
  unfolding compact_def kept_def by (metis append_Nil2 compact_raw.simps(1))

definition plain :: "char \<Rightarrow> bool" where
  "plain c \<longleftrightarrow> c \<noteq> CHR ''<'' \<and> c \<noteq> CHR ''>'' \<and> c \<noteq> CHR ''&'' \<and> c \<noteq> CHR 0xE2"

lemma plain_step:
  "plain c \<Longrightarrow> str \<or> \<not> is_space c \<Longrightarrow>
     compact_raw str esc (c # r) = c # compact_raw (in_string str esc c) (in_escape str esc c) r"
  by (auto simp: compact_raw.simps(2) plain_def line_separator_def)

lemma kept_char: "plain c \<Longrightarrow> \<not> is_space c \<Longrightarrow> c \<noteq> CHR 0x22 \<Longrightarrow> kept [c]"
  by (simp add: kept_def plain_step in_string_def in_escape_def)

lemma inside_char: "plain c \<Longrightarrow> c \<noteq> CHR 0x22 \<Longrightarrow> c \<noteq> CHR 0x5C \<Longrightarrow> kept_inside [c]"
  by (simp add: kept_inside_def plain_step in_string_def in_escape_def)

lemma inside_escape: "plain c \<Longrightarrow> kept_inside [CHR 0x5C, c]"
proof -
  have b: "plain (CHR 0x5C)" by (simp add: plain_def)
  assume "plain c"
  then show ?thesis by (simp add: kept_inside_def plain_step [OF b] plain_step [of c] in_string_def in_escape_def)
qed

lemma byte_marks [simp]: "byte (CHR ''<'') = 60" "byte (CHR ''>'') = 62" "byte (CHR ''&'') = 38" "byte (CHR 0xE2) = 226"
  "byte (CHR 0x22) = 34" "byte (CHR 0x5C) = 92" "byte (CHR 0x80) = 128" "byte (CHR 0xA8) = 168" "byte (CHR 0xA9) = 169"
  by (simp_all add: byte_def)

lemma plain_byte: "plain c \<longleftrightarrow> byte c \<noteq> 60 \<and> byte c \<noteq> 62 \<and> byte c \<noteq> 38 \<and> byte c \<noteq> 226"
  using byte_inject [of c "CHR ''<''"] byte_inject [of c "CHR ''>''"] byte_inject [of c "CHR ''&''"] byte_inject [of c "CHR 0xE2"]
  by (auto simp: plain_def)

lemma inside_hex: "n < 16 \<Longrightarrow> kept_inside [hex_digit n]"
proof -
  assume n: "n < 16"
  then have b: "byte (hex_digit n) = (if n < 10 then 48 + n else 87 + n)" by (simp add: hex_digit_def)
  have "hex_digit n \<noteq> CHR 0x22" "hex_digit n \<noteq> CHR 0x5C"
    using b n byte_inject [of "hex_digit n" "CHR 0x22"] byte_inject [of "hex_digit n" "CHR 0x5C"] by (auto split: if_splits)
  moreover have "plain (hex_digit n)" using b n by (auto simp: plain_byte split: if_splits)
  ultimately show ?thesis by (rule inside_char [rotated])
qed

lemma inside_u_escape: "kept_inside (u_escape n)"
proof -
  have "kept_inside [CHR 0x5C, CHR ''u'']" by (rule inside_escape) (simp add: plain_def)
  then have "kept_inside ([CHR 0x5C, CHR ''u''] @ [hex_digit (n div 4096 mod 16)] @ [hex_digit (n div 256 mod 16)]
      @ [hex_digit (n div 16 mod 16)] @ [hex_digit (n mod 16)])"
    by (intro kept_append(4) inside_hex) simp_all
  then show ?thesis by (simp add: u_escape_def)
qed

definition named_escape :: "char \<Rightarrow> bool" where
  "named_escape c \<longleftrightarrow> c = CHR 0x08 \<or> c = CHR 0x0C \<or> c = CHR 0x0A \<or> c = CHR 0x0D \<or> c = CHR 0x09"

lemma quote_byte_shape:
  "c = CHR 0x22 \<or> c = CHR 0x5C \<Longrightarrow> quote_byte c = [CHR 0x5C, c]"
  "named_escape c \<Longrightarrow> kept_inside (quote_byte c)"
  "\<not> (c = CHR 0x22 \<or> c = CHR 0x5C) \<Longrightarrow> \<not> named_escape c \<Longrightarrow>
     quote_byte c = (if byte c < 32 \<or> c = CHR ''<'' \<or> c = CHR ''>'' \<or> c = CHR ''&'' then u_escape (byte c) else [c])"
proof -
  show "quote_byte c = [CHR 0x5C, c]" if "c = CHR 0x22 \<or> c = CHR 0x5C" using that by (simp only: quote_byte_def if_True)
  show "kept_inside (quote_byte c)" if "named_escape c"
    using that unfolding named_escape_def by (elim disjE) (simp_all add: quote_byte_def inside_escape plain_def)
  show "quote_byte c = (if byte c < 32 \<or> c = CHR ''<'' \<or> c = CHR ''>'' \<or> c = CHR ''&'' then u_escape (byte c) else [c])"
    if "\<not> (c = CHR 0x22 \<or> c = CHR 0x5C)" "\<not> named_escape c"
    using that by (simp only: quote_byte_def named_escape_def de_Morgan_disj if_False simp_thms)
qed

lemma inside_quote_byte: "byte c < 128 \<Longrightarrow> kept_inside (quote_byte c)"
proof -
  assume c: "byte c < 128"
  consider (same) "c = CHR 0x22 \<or> c = CHR 0x5C" | (named) "named_escape c"
    | (other) "\<not> (c = CHR 0x22 \<or> c = CHR 0x5C)" "\<not> named_escape c" by blast
  then show ?thesis
  proof cases
    case same
    then have "plain c" by (auto simp: plain_def)
    with same show ?thesis by (simp only: quote_byte_shape(1) inside_escape)
  next
    case named
    then show ?thesis by (rule quote_byte_shape(2))
  next
    case other
    show ?thesis
    proof (cases "byte c < 32 \<or> c = CHR ''<'' \<or> c = CHR ''>'' \<or> c = CHR ''&''")
      case True
      with quote_byte_shape(3) [OF other] show ?thesis by (simp only: if_True inside_u_escape)
    next
      case False
      then have "plain c" using c by (auto simp: plain_def)
      then have "kept_inside [c]" using other(1) by (intro inside_char) blast+
      with quote_byte_shape(3) [OF other] False show ?thesis by (simp only: if_False)
    qed
  qed
qed

text \<open>A rune of several bytes other than U+2028 and U+2029.\<close>

lemma inside_high: "128 \<le> byte c \<Longrightarrow> byte c \<noteq> 226 \<Longrightarrow> kept_inside [c]"
  by (rule inside_char) (auto simp: plain_byte)

lemma inside_sep:
  assumes "128 \<le> byte b" "byte b \<le> 191" "128 \<le> byte c" "byte c \<le> 191"
    "\<not> ((byte b - 128) * 64 + (byte c - 128) = 40 \<or> (byte b - 128) * 64 + (byte c - 128) = 41)"
  shows "kept_inside [CHR 0xE2, b, c]"
proof -
  have "\<not> line_separator (CHR 0xE2) (b # c # rest)" for rest
    using assms by (auto simp: line_separator_def)
  then have "compact_raw True False (CHR 0xE2 # b # c # rest) = CHR 0xE2 # compact_raw True False (b # c # rest)" for rest
    by (simp add: compact_raw.simps(2) [of _ _ "CHR 0xE2"] in_string_def in_escape_def)
  moreover have "kept_inside ([b] @ [c])"
    by (intro kept_append(4) inside_high) (use assms in auto)
  ultimately show ?thesis by (simp add: kept_inside_def)
qed

text \<open>The bytes of a rune that takes more than one.\<close>

lemma rune_shape:
  assumes "128 \<le> byte c" "rune_len (c # r) \<noteq> 0"
  obtains (two) b where "take (rune_len (c # r)) (c # r) = [c, b]" "byte c < 224" "128 \<le> byte b"  "byte b \<le> 191"
  | (three) b d u where "r = b # d # u" "rune_len (c # r) = 3" "128 \<le> byte b" "byte b \<le> 191" "128 \<le> byte d" "byte d \<le> 191"
  | (four) b d e where "take (rune_len (c # r)) (c # r) = [c, b, d, e]" "240 \<le> byte c" "128 \<le> byte b" "byte b \<le> 191"
      "128 \<le> byte d" "byte d \<le> 191" "128 \<le> byte e" "byte e \<le> 191"
proof -
  note defs = rune_len_def in_range_def is_cont_def
  consider (a) "in_range 194 223 c" | (b) "in_range 224 239 c" | (c) "\<not> in_range 194 223 c" "\<not> in_range 224 239 c" by blast
  then show ?thesis
  proof cases
    case a
    with assms obtain x u where r: "r = x # u" "is_cont x" by (auto simp: rune_len_def split: list.splits if_splits)
    with a assms show ?thesis by (intro two [of x]) (simp_all add: defs)
  next
    case b
    then have n: "\<not> in_range 194 223 c" by (simp add: in_range_def)
    with b assms obtain x y u where r: "r = x # y # u" by (auto simp: rune_len_def split: list.splits)
    with b n assms show ?thesis by (intro three [of x y u]) (auto simp: defs split: if_splits)
  next
    case c
    with assms obtain x y z u where r: "r = x # y # z # u" by (auto simp: rune_len_def split: list.splits)
    with c assms have k: "rune_len (c # r) = 4" "240 \<le> byte c" "128 \<le> byte x" "byte x \<le> 191" "is_cont y" "is_cont z"
      by (auto simp: defs split: if_splits)
    then show ?thesis by (intro four [of x y z]) (simp_all add: r is_cont_def)
  qed
qed

lemma inside_rune:
  assumes "128 \<le> byte c" "rune_len (c # r) \<noteq> 0" "rune_val (c # r) \<noteq> 8232" "rune_val (c # r) \<noteq> 8233"
  shows "kept_inside (take (rune_len (c # r)) (c # r))"
  using assms(1,2)
proof (cases rule: rune_shape)
  case (two b)
  then show ?thesis using assms(1) by (auto intro!: kept_Cons(2) inside_high)
next
  case (three b d u)
  then have t: "take (rune_len (c # r)) (c # r) = [c, b, d]" by simp
  show ?thesis
  proof (cases "byte c = 226")
    case True
    then have c: "c = CHR 0xE2" using byte_inject [of c "CHR 0xE2"] by simp
    have "rune_val (c # r) = (byte c - 224) * 4096 + (byte b - 128) * 64 + (byte d - 128)"
      using three by (simp add: rune_val_def)
    with True assms(3,4) have "\<not> ((byte b - 128) * 64 + (byte d - 128) = 40 \<or> (byte b - 128) * 64 + (byte d - 128) = 41)" by simp
    with three show ?thesis unfolding t by (simp add: c inside_sep)
  next
    case False
    with three assms(1) show ?thesis unfolding t by (auto intro!: kept_Cons(2) inside_high)
  qed
next
  case (four b d e)
  then show ?thesis using assms(1) by (auto intro!: kept_Cons(2) inside_high)
qed

lemma inside_quote_body: "kept_inside (quote_body s)"
proof (induction s rule: quote_body.induct)
  case (2 c r)
  then show ?case
    by (subst quote_body.simps(2)) (auto intro!: kept_append(4) inside_quote_byte inside_u_escape inside_rune)
qed (simp add: kept_append)

lemma kept_quote: "kept (quote s)"
proof -
  have "compact_raw False False (CHR 0x22 # t) = CHR 0x22 # compact_raw True False t"
    "compact_raw True False (CHR 0x22 # t) = CHR 0x22 # compact_raw False False t" for t
    by (simp_all add: plain_step plain_def is_space_def in_string_def in_escape_def)
  then show ?thesis using inside_quote_body [of s] by (simp add: kept_def kept_inside_def quote_def)
qed

lemma kept_join: "kept sep \<Longrightarrow> \<forall>t \<in> set ts. kept t \<Longrightarrow> kept (join sep ts)"
  by (induction sep ts rule: join.induct) (auto intro: kept_append)

lemma kept_marks: "kept ''{''" "kept ''}''" "kept ''[''" "kept '']''" "kept '',''" "kept '':''"
  by (auto intro!: kept_char simp: plain_def is_space_def)

lemma kept_obj_text: "\<forall>m \<in> set ms. kept (snd m) \<Longrightarrow> kept (obj_text ms)"
  unfolding obj_text_def by (intro kept_append(2) kept_join kept_marks) (auto intro!: kept_append(2) kept_quote kept_Cons(1) kept_marks)

lemma kept_arr_text: "\<forall>t \<in> set ts. kept t \<Longrightarrow> kept (arr_text ts)"
  unfolding arr_text_def by (intro kept_append(2) kept_join kept_marks) auto

end
