(* ===== verification/Session_Prompt.thy ===== *)
theory Session_Prompt
  imports Session_Setup GoJson_Props Acp_Props ResponseStream_Props
begin

text \<open>
  The size of a prompt: what \<open>promptFits\<close> measures before a prompt is dispatched bounds the frame that the client writes
  for it, so that a prompt that was let through never retires the shared process for its size.
\<close>

lemma kept_part: "kept (part_MarshalJSON p)"
  by (cases p) (simp_all add: part_MarshalJSON_def kept_obj_text kept_quote)

lemma kept_prompt: "kept (prompt_params session ps)"
  by (auto simp: prompt_params_def intro!: kept_obj_text kept_quote kept_arr_text kept_part)

lemma prompt_length:
  "length (call_frame i ''session/prompt'' (prompt_params session ps)) + 16
   = length (sized_prompt session ps) + length (digits_of i)"
proof -
  have "length (digits_of 9007199254740991) = 16" by code_simp
  moreover have "GoJson.compact (prompt_params session ps) = prompt_params session ps" using kept_prompt by (rule compact_kept)
  ultimately show ?thesis
    unfolding call_frame_def sized_prompt_def by (simp add: prompt_params_def obj_text_def del: digits_of.simps)
qed

lemma request_id_digits: "i \<le> MaxRequestID \<Longrightarrow> length (digits_of i) \<le> 16"
  using digits_of_length [of 16 i] by (simp add: MaxRequestID_def)

lemma bounded_default_value: "bounded_default v d hi = Some w \<Longrightarrow> w = (if v = 0 then d else v)"
  by (simp add: bounded_default_def Let_def split: if_splits)

lemma frame_limit: "normalized l = Some l' \<Longrightarrow> FrameBytes l' = (if FrameBytes l = 0 then 8388608 else FrameBytes l)"
  by (auto simp: normalized_def split: bind_splits dest!: bounded_default_value)

text \<open>
  C37: A prompt that \<open>promptFits\<close> accepts fits the frame limit of the client under every request identifier the client can
  give it: the measured message is exactly as long as the frame with the largest identifier, and a call that sends the
  prompt is never refused, and the process never retired, for the size of its frame.
\<close>

theorem accepted_prompt_fits_frame:
  assumes "promptFits (FrameBytes l) session ps" and "normalized l = Some (c_limits c)"
  shows "length (call_frame MaxRequestID ''session/prompt'' (prompt_params session ps)) = length (sized_prompt session ps)
    \<and> (\<forall>i \<le> MaxRequestID. int (length (call_frame i ''session/prompt'' (prompt_params session ps))) \<le> FrameBytes (c_limits c))
    \<and> fst (call_start ctx ini ''session/prompt'' (Some (prompt_params session ps)) c) \<noteq> CallFatal AErrFrameTooLarge"
proof -
  have fits: "int (length (call_frame i ''session/prompt'' (prompt_params session ps))) \<le> FrameBytes (c_limits c)" if "i \<le> MaxRequestID" for i
    using assms(1) prompt_length [of i session ps] request_id_digits [OF that] by (simp add: promptFits_def frame_limit [OF assms(2)])
  have "length (digits_of MaxRequestID) = 16" unfolding MaxRequestID_def by code_simp
  then have "length (call_frame MaxRequestID ''session/prompt'' (prompt_params session ps)) = length (sized_prompt session ps)"
    using prompt_length [of MaxRequestID session ps] by simp
  moreover have "fst (call_start ctx ini ''session/prompt'' (Some (prompt_params session ps)) c) \<noteq> CallFatal AErrFrameTooLarge"
    using fits [of "nextID c"] by (auto simp: call_start_def Let_def split: option.splits prod.splits)
  ultimately show ?thesis using fits by blast
qed

theorem accepted_prompt_fits_frame_witness:
  "promptFits (FrameBytes ex_acp_limits) ''s'' [TextPart ''<hi>'']
   \<and> fst (call_start None False ''session/prompt'' (Some (prompt_params ''s'' [TextPart ''<hi>''])) (new_client ex_acp_limits))
       \<noteq> CallFatal AErrFrameTooLarge"
proof -
  have f: "promptFits (FrameBytes ex_acp_limits) ''s'' [TextPart ''<hi>'']" by code_simp
  have n: "normalized ex_acp_limits = Some (c_limits (new_client ex_acp_limits))" using ex_normalized by (simp add: new_client_def)
  show ?thesis using accepted_prompt_fits_frame [OF f n] f by blast
qed

end
