(* ===== verification/Disk.thy ===== *)
theory Disk
  imports GoText
begin

text \<open>
  A directory tree as the installer sees it: every path below one directory with its entry, and the system calls that
  change it. A system call that cannot be carried out has no result. A path is the list of its components; the empty path
  is the directory itself.
\<close>

record meta =
  ino :: nat
  owned :: bool          \<comment> \<open>the owner is the effective user\<close>
  single_link :: bool
  special_bits :: bool   \<comment> \<open>set-user-id, set-group-id or sticky\<close>
  perm :: nat
  mtime :: int

datatype entry = Regular meta bytes | Symlink meta bytes | Directory meta | Device meta

type_synonym path = "bytes list"
type_synonym tree = "(path \<times> entry) list"

fun meta_of :: "entry \<Rightarrow> meta" where
  "meta_of (Regular m _) = m"
| "meta_of (Symlink m _) = m"
| "meta_of (Directory m) = m"
| "meta_of (Device m) = m"

fun kind_of :: "entry \<Rightarrow> nat" where
  "kind_of (Regular _ _) = 0"
| "kind_of (Symlink _ _) = 1"
| "kind_of (Directory _) = 2"
| "kind_of (Device _) = 3"

fun size_of :: "entry \<Rightarrow> nat" where
  "size_of (Regular _ b) = length b"
| "size_of (Symlink _ v) = length v"
| "size_of _ = 0"

definition is_dir :: "entry \<Rightarrow> bool" where
  "is_dir e \<longleftrightarrow> kind_of e = 2"

text \<open>\<open>os.SameFile\<close>.\<close>

definition same_file :: "entry \<Rightarrow> entry \<Rightarrow> bool" where
  "same_file a b \<longleftrightarrow> ino (meta_of a) = ino (meta_of b)"

definition under :: "path \<Rightarrow> path \<Rightarrow> bool" where
  "under p q \<longleftrightarrow> take (length p) q = p"

definition occupied :: "path \<Rightarrow> tree \<Rightarrow> bool" where
  "occupied p t \<longleftrightarrow> list_ex (\<lambda>(q, _). under p q \<and> q \<noteq> p) t"

definition children :: "path \<Rightarrow> tree \<Rightarrow> bytes list" where
  "children p t = map (\<lambda>(q, _). last q) (filter (\<lambda>(q, _). q \<noteq> [] \<and> butlast q = p) t)"

text \<open>Creating exclusively, in an existing directory.\<close>

definition create_entry :: "path \<Rightarrow> entry \<Rightarrow> tree \<Rightarrow> tree option" where
  "create_entry p e t =
     (if has_key t p then None
      else case map_of t (butlast p) of Some (Directory _) \<Rightarrow> Some (aset p e t) | _ \<Rightarrow> None)"

definition rewrite_entry :: "path \<Rightarrow> (entry \<Rightarrow> entry) \<Rightarrow> tree \<Rightarrow> tree option" where
  "rewrite_entry p f t = map_option (\<lambda>e. aset p (f e) t) (map_of t p)"

definition remove_entry :: "path \<Rightarrow> tree \<Rightarrow> tree option" where
  "remove_entry p t = (if \<not> has_key t p \<or> occupied p t then None else Some (adel p t))"

text \<open>\<open>rename\<close>: a directory replaces only an empty directory, anything else only what is no directory.\<close>

definition move_entry :: "path \<Rightarrow> path \<Rightarrow> tree \<Rightarrow> tree option" where
  "move_entry a b t = (case map_of t a of
     None \<Rightarrow> None
   | Some e \<Rightarrow>
       if (case map_of t b of None \<Rightarrow> False | Some x \<Rightarrow> is_dir x \<noteq> is_dir e \<or> is_dir x \<and> occupied b t) then None
       else Some (map (\<lambda>(q, x). (if under a q then b @ drop (length a) q else q, x)) (filter (\<lambda>(q, _). \<not> under b q) t)))"

subsection \<open>What each call leaves alone\<close>

lemma under_refl [simp]: "under p p"
  by (simp add: under_def)

lemma under_append [simp]: "under p (p @ q)"
  by (simp add: under_def)

lemma under_iff: "under p q \<longleftrightarrow> (\<exists>r. q = p @ r)"
  unfolding under_def by (metis append_eq_conv_conj)

lemma under_trans: "under p q \<Longrightarrow> under q r \<Longrightarrow> under p r"
  by (auto simp: under_iff)

lemma under_same: "under p r \<Longrightarrow> under q r \<Longrightarrow> under p q \<or> under q p"
  by (auto simp: under_iff append_eq_append_conv2)

lemma create_entry_other: "create_entry p e t = Some t' \<Longrightarrow> map_of t' q = (if q = p then Some e else map_of t q) \<and> map_of t p = None"
  by (auto simp: create_entry_def has_key_def split: if_splits option.splits entry.splits)

lemma rewrite_entry_other: "rewrite_entry p f t = Some t' \<Longrightarrow> map_of t' q = (if q = p then map_option f (map_of t p) else map_of t q)"
  by (auto simp: rewrite_entry_def)

lemma remove_entry_other: "remove_entry p t = Some t' \<Longrightarrow> map_of t' q = (if q = p then None else map_of t q)"
  by (auto simp: remove_entry_def split: if_splits)

lemma entry_frames:
  "create_entry p e t = Some t' \<Longrightarrow> q \<noteq> p \<Longrightarrow> map_of t' q = map_of t q"
  "rewrite_entry p f t = Some t' \<Longrightarrow> q \<noteq> p \<Longrightarrow> map_of t' q = map_of t q"
  "remove_entry p t = Some t' \<Longrightarrow> q \<noteq> p \<Longrightarrow> map_of t' q = map_of t q"
  by (simp_all add: create_entry_other rewrite_entry_other remove_entry_other)

lemma map_of_moved:
  assumes "\<not> under b a" "\<not> under a b"
  shows "map_of (map (\<lambda>(q, x). (if under a q then b @ drop (length a) q else q, x)) (filter (\<lambda>(q, _). \<not> under b q) t)) p
     = (if under b p then map_of t (a @ drop (length b) p) else if under a p then None else map_of t p)"
proof (induction t)
  case (Cons y t)
  obtain q x where y: "y = (q, x)" by (cases y)
  have ab: "\<not> (under a r \<and> under b r)" for r using assms under_same by blast
  show ?case
  proof (cases "under b q")
    case True
    then have "q \<noteq> a @ r" "a @ r \<noteq> q" for r using ab [of q] by auto
    with True Cons show ?thesis by (auto simp: y)
  next
    case False
    show ?thesis
    proof (cases "under a q")
      case True
      then obtain r where q: "q = a @ r" by (auto simp: under_iff)
      have "(p = b @ r) = (under b p \<and> drop (length b) p = r)" by (auto simp: under_iff)
      with Cons False True q ab [of p] show ?thesis by (auto simp: y)
    next
      case n: False
      then have "q \<noteq> a @ r" "a @ r \<noteq> q" for r by auto
      with Cons False n show ?thesis by (auto simp: y)
    qed
  qed
qed simp

lemma move_entry_other:
  assumes "move_entry a b t = Some t'" "\<not> under b a" "\<not> under a b"
  shows "map_of t' p = (if under b p then map_of t (a @ drop (length b) p) else if under a p then None else map_of t p)"
  using assms map_of_moved [OF assms(2,3), of t p] by (auto simp: move_entry_def split: option.splits if_splits)

end
