(* ===== verification/Installation.thy ===== *)
theory Installation
  imports Disk Wire
begin

text \<open>
  The installer of \<open>internal/installation\<close>: \<open>files.go\<close>, \<open>platform_unix.go\<close>, \<open>store.go\<close> and \<open>installation.go\<close>. An operation is
  an action on a disk, which is the directory tree, every tree it went through (what a process that dies there leaves
  behind), the locks other processes hold on the lock file, and the local variables that a deferred function of
  \<open>install\<close> reads. Every system call, every read and every look at the context asks the next element of \<open>faults\<close> whether
  it fails; when the list is used up nothing fails any more. Nobody else changes the tree during an operation. SHA-256 and
  the embedded notice files are arguments.
\<close>

datatype install_error =
    IErrLocation | IErrSource | IErrUnmanaged | IErrExists | IErrBusy | IErrIO | IErrCleanup | IErrPublished | ICanceled | IOther

record file_record =
  rPath :: bytes
  rBytes :: int
  rSHA256 :: bytes

record manifest =
  mFormat :: int
  mProduct :: bytes
  mGeneration :: bytes
  mFiles :: "file_record list"

record generation =
  g_name :: bytes
  g_manifest :: manifest
  g_files :: "(path \<times> entry) list"
  g_dirs :: "(path \<times> entry) list"

record disk =
  tree :: tree
  past :: "tree list"
  faults :: "bool list"
  fresh :: nat
  now :: int
  sharers :: nat         \<comment> \<open>shared locks on the lock file\<close>
  locked :: bool         \<comment> \<open>an exclusive lock on it\<close>
  mine :: "bool option"  \<comment> \<open>the lock this operation holds, shared or exclusive\<close>
  staged :: "generation option"
  published :: bool

subsection \<open>Actions\<close>

type_synonym 'a action = "disk \<Rightarrow> (install_error list + 'a) \<times> disk"

definition ret :: "'a \<Rightarrow> 'a action" where "ret x d = (Inr x, d)"

definition throw :: "install_error list \<Rightarrow> 'a action" where "throw e d = (Inl e, d)"

definition bnd :: "'a action \<Rightarrow> ('a \<Rightarrow> 'b action) \<Rightarrow> 'b action" where
  "bnd m k d = (case m d of (Inl e, d') \<Rightarrow> (Inl e, d') | (Inr x, d') \<Rightarrow> k x d')"

definition andThen :: "unit action \<Rightarrow> 'b action \<Rightarrow> 'b action" where
  "andThen m k = bnd m (\<lambda>_. k)"

text \<open>The action's result, error or not, as a value: what \<open>if err := \<dots>; err \<noteq> nil\<close> looks at.\<close>

definition attempt :: "'a action \<Rightarrow> (install_error list + 'a) action" where
  "attempt m d = (case m d of (r, d') \<Rightarrow> (Inr r, d'))"

definition need :: "bool \<Rightarrow> install_error \<Rightarrow> unit action" where
  "need ok e = (if ok then ret () else throw [e])"

definition fails :: "bool action" where
  "fails d = (case faults d of [] \<Rightarrow> (Inr False, d) | b # bs \<Rightarrow> (Inr b, d\<lparr>faults := bs\<rparr>))"

definition fallible :: "install_error \<Rightarrow> unit action" where
  "fallible e = bnd fails (\<lambda>b. need (\<not> b) e)"

definition ctx_err :: "unit action" where "ctx_err = fallible ICanceled"

primrec each :: "('x \<Rightarrow> unit action) \<Rightarrow> 'x list \<Rightarrow> unit action" where
  "each f [] = ret ()"
| "each f (x # xs) = andThen (f x) (each f xs)"

primrec each_with :: "('x \<Rightarrow> 'g \<Rightarrow> 'g action) \<Rightarrow> 'x list \<Rightarrow> 'g \<Rightarrow> 'g action" where
  "each_with f [] g = ret g"
| "each_with f (x # xs) g = bnd (f x g) (each_with f xs)"

text \<open>A system call that changes the tree.\<close>

definition change :: "tree \<Rightarrow> disk \<Rightarrow> disk" where
  "change t d = d\<lparr>tree := t, past := past d @ [t], fresh := fresh d + 1, now := now d + 1\<rparr>"

definition syscall :: "(disk \<Rightarrow> tree \<Rightarrow> tree option) \<Rightarrow> bool action" where
  "syscall f = bnd fails (\<lambda>b d.
     if b then (Inr False, d)
     else case f d (tree d) of None \<Rightarrow> (Inr False, d) | Some t \<Rightarrow> (Inr True, change t d))"

definition sys :: "(disk \<Rightarrow> tree \<Rightarrow> tree option) \<Rightarrow> install_error \<Rightarrow> unit action" where
  "sys f e = bnd (syscall f) (\<lambda>ok. need ok e)"

definition new_meta :: "nat \<Rightarrow> disk \<Rightarrow> meta" where
  "new_meta mode d = \<lparr>ino = fresh d, owned = True, single_link = True, special_bits = False, perm = mode, mtime = now d\<rparr>"

definition sys_mkdir :: "path \<Rightarrow> disk \<Rightarrow> tree \<Rightarrow> tree option" where
  "sys_mkdir p d t = create_entry p (Directory (new_meta 448 d)) t"

definition sys_open :: "path \<Rightarrow> nat \<Rightarrow> disk \<Rightarrow> tree \<Rightarrow> tree option" where
  "sys_open p mode d t = create_entry p (Regular (new_meta mode d) []) t"

definition sys_symlink :: "bytes \<Rightarrow> path \<Rightarrow> disk \<Rightarrow> tree \<Rightarrow> tree option" where
  "sys_symlink target p d t = create_entry p (Symlink (new_meta 511 d) target) t"

definition sys_chmod :: "path \<Rightarrow> nat \<Rightarrow> disk \<Rightarrow> tree \<Rightarrow> tree option" where
  "sys_chmod p mode d = rewrite_entry p (\<lambda>e. case e of Regular m b \<Rightarrow> Regular (m\<lparr>perm := mode\<rparr>) b | _ \<Rightarrow> e)"

definition sys_append :: "path \<Rightarrow> bytes \<Rightarrow> disk \<Rightarrow> tree \<Rightarrow> tree option" where
  "sys_append p data d = rewrite_entry p (\<lambda>e. case e of Regular m b \<Rightarrow> Regular (m\<lparr>mtime := now d\<rparr>) (b @ data) | _ \<Rightarrow> e)"

definition sys_remove :: "path \<Rightarrow> disk \<Rightarrow> tree \<Rightarrow> tree option" where
  "sys_remove p d = remove_entry p"

definition sys_rename :: "path \<Rightarrow> path \<Rightarrow> disk \<Rightarrow> tree \<Rightarrow> tree option" where
  "sys_rename a b d = move_entry a b"

datatype stat = Found entry | Missing | Unreadable

definition lstat :: "path \<Rightarrow> stat action" where
  "lstat p = bnd fails (\<lambda>b d.
     (Inr (if b then Unreadable else case map_of (tree d) p of None \<Rightarrow> Missing | Some e \<Rightarrow> Found e), d))"

subsection \<open>files.go: names and modes\<close>

definition executableName :: bytes where "executableName = ''dax-kiro-proxy''"
definition managerName :: bytes where "managerName = ''.dax-kiro-proxy-install''"
definition marker :: bytes where "marker = ''{\"format\":1,\"product\":\"dax-kiro-proxy\"}'' @ [CHR 0x0A]"
definition MaxExecutableBytes :: int where "MaxExecutableBytes = 134217728"
definition maxManifest :: nat where "maxManifest = 16384"
definition maxFiles :: nat where "maxFiles = 16"
definition maxGenerations :: nat where "maxGenerations = 4"

definition generationName :: "bytes \<Rightarrow> bool" where
  "generationName name \<longleftrightarrow> take 11 name = ''generation-'' \<and> length name = 43
     \<and> hex_decode (drop 11 name) \<noteq> None \<and> list_all (\<lambda>c. \<not> is_upper c) name"

definition split_path :: "bytes \<Rightarrow> path" where
  "split_path s = foldr (\<lambda>c acc. if c = CHR ''/'' then [] # acc else (c # hd acc) # tl acc) s [[]]"

text \<open>\<open>Clean\<close> leaves a path alone whose components are proper names.\<close>

definition plain_names :: "path \<Rightarrow> bool" where
  "plain_names p \<longleftrightarrow> list_all (\<lambda>c. c \<noteq> [] \<and> c \<noteq> ''.'' \<and> c \<noteq> ''..'') p"

definition record_byte :: "char \<Rightarrow> bool" where
  "record_byte c \<longleftrightarrow> is_lower c \<or> is_digit c \<or> c = CHR ''-'' \<or> c = CHR ''_'' \<or> c = CHR ''.''"

definition recordPath :: "bytes \<Rightarrow> bool" where
  "recordPath name \<longleftrightarrow> name = executableName
     \<or> (case split_path name of
          [a, b, c] \<Rightarrow> a = ''notices'' \<and> (b = ''runtime'' \<or> b = ''reference'') \<and> length c \<le> 96
            \<and> drop (length c - 4) c = ''.txt'' \<and> list_all record_byte c \<and> c \<noteq> ''.txt'' \<and> plain_names [a, b, c]
        | _ \<Rightarrow> False)"

definition fileMode :: "bytes \<Rightarrow> nat" where
  "fileMode name = (if name = executableName then 448 else 384)"

definition unchanged :: "entry \<Rightarrow> entry \<Rightarrow> bool" where
  "unchanged a b \<longleftrightarrow> same_file a b \<and> (kind_of a, perm (meta_of a), special_bits (meta_of a)) = (kind_of b, perm (meta_of b), special_bits (meta_of b))
     \<and> size_of a = size_of b \<and> mtime (meta_of a) = mtime (meta_of b)"

subsection \<open>platform_unix.go\<close>

definition perm_bit :: "nat \<Rightarrow> nat \<Rightarrow> bool" where
  "perm_bit p i \<longleftrightarrow> p div 2 ^ i mod 2 = 1"

definition writable_by_others :: "nat \<Rightarrow> bool" where
  "writable_by_others p \<longleftrightarrow> perm_bit p 4 \<or> perm_bit p 1"

definition safeFile :: "entry \<Rightarrow> nat \<Rightarrow> bool" where
  "safeFile e mode = (case e of
     Regular m _ \<Rightarrow> owned m \<and> single_link m \<and> \<not> special_bits m
       \<and> (if mode = 0 then \<not> writable_by_others (perm m) \<and> perm_bit (perm m) 6 else perm m = mode)
   | _ \<Rightarrow> False)"

definition safeDirectory :: "entry \<Rightarrow> bool \<Rightarrow> bool" where
  "safeDirectory e private = (case e of
     Directory m \<Rightarrow> owned m \<and> \<not> special_bits m
       \<and> (if private then perm m = 448
          else perm_bit (perm m) 8 \<and> perm_bit (perm m) 7 \<and> perm_bit (perm m) 6 \<and> \<not> writable_by_others (perm m))
   | _ \<Rightarrow> False)"

definition safeLink :: "entry \<Rightarrow> bool" where
  "safeLink e = (case e of Symlink m _ \<Rightarrow> owned m \<and> single_link m | _ \<Rightarrow> False)"

text \<open>\<open>flock\<close> without waiting.\<close>

definition lockFile :: "bool \<Rightarrow> unit action" where
  "lockFile shared = bnd fails (\<lambda>b d.
     if b then (Inl [IErrIO], d)
     else if locked d \<or> \<not> shared \<and> 0 < sharers d then (Inl [IErrBusy], d)
     else (Inr (), if shared then d\<lparr>sharers := sharers d + 1, mine := Some True\<rparr> else d\<lparr>locked := True, mine := Some False\<rparr>))"

definition close_store :: "unit action" where
  "close_store d = (Inr (), case mine d of
     None \<Rightarrow> d
   | Some True \<Rightarrow> d\<lparr>sharers := sharers d - 1, mine := None\<rparr>
   | Some False \<Rightarrow> d\<lparr>locked := False, mine := None\<rparr>)"

subsection \<open>files.go: reading\<close>

definition content_of :: "entry \<Rightarrow> bytes" where
  "content_of e = (case e of Regular _ b \<Rightarrow> b | _ \<Rightarrow> [])"

definition openFile :: "path \<Rightarrow> nat \<Rightarrow> int \<Rightarrow> entry action" where
  "openFile p mode most = bnd (lstat p) (\<lambda>s. case s of
     Found earlier \<Rightarrow>
       if safeFile earlier mode \<and> int (size_of earlier) \<le> most
       then andThen (fallible IErrUnmanaged) (bnd (lstat p) (\<lambda>s'. case s' of
              Found opened \<Rightarrow> if safeFile opened mode \<and> unchanged earlier opened then ret opened else throw [IErrUnmanaged]
            | _ \<Rightarrow> throw [IErrUnmanaged]))
       else throw [IErrUnmanaged]
   | _ \<Rightarrow> throw [IErrUnmanaged])"

definition readFile :: "unit action \<Rightarrow> path \<Rightarrow> int \<Rightarrow> bytes action" where
  "readFile ctx p most = bnd (openFile p 384 most) (\<lambda>earlier.
     andThen ctx (andThen (fallible IOther) (bnd (lstat p) (\<lambda>s. case s of
       Found after \<Rightarrow> if unchanged earlier after \<and> length (content_of after) = size_of earlier then ret (content_of after)
                     else throw [IErrUnmanaged]
     | _ \<Rightarrow> throw [IErrUnmanaged]))))"

text \<open>The file to install, which is outside the tree; \<open>is_abs\<close> says that its name is absolute.\<close>

definition readSource :: "bool \<Rightarrow> entry option \<Rightarrow> bytes action" where
  "readSource is_abs source =
     (if \<not> is_abs then throw [IErrSource]
      else case source of
          None \<Rightarrow> throw [IErrSource]
        | Some e \<Rightarrow> andThen (fallible IErrSource) (andThen (fallible IErrSource)
            (if \<not> safeFile e 0 \<or> size_of e < 1 \<or> MaxExecutableBytes < int (size_of e) then throw [IErrSource]
             else andThen ctx_err (andThen (fallible IOther) (andThen (fallible IErrSource) (ret (content_of e)))))))"

text \<open>\<open>bundle\<close>: the embedded notice files in the order of the walk are an argument.\<close>

type_synonym payload = "bytes \<times> bytes"

fun notice_files :: "payload list \<Rightarrow> nat \<Rightarrow> payload list \<Rightarrow> payload list option" where
  "notice_files files sofar [] = Some files"
| "notice_files files sofar ((name, content) # rest) =
     (if content = [] \<or> 65536 < length content \<or> \<not> recordPath (''notices/'' @ name) then None
      else if maxFiles \<le> length files \<or> 1048576 < sofar + length content then None
      else notice_files (files @ [(''notices/'' @ name, content)]) (sofar + length content) rest)"

definition make_bundle :: "(bytes \<Rightarrow> bytes) \<Rightarrow> payload list \<Rightarrow> bytes \<Rightarrow> bytes \<Rightarrow> (payload list \<times> manifest) option" where
  "make_bundle sha notices data name = (case notice_files [(executableName, data)] 0 notices of
     None \<Rightarrow> None
   | Some fs \<Rightarrow>
       let files = sort_key fst fs
       in Some (files, \<lparr>mFormat = 1, mProduct = executableName, mGeneration = name,
            mFiles = map (\<lambda>(n, b). \<lparr>rPath = n, rBytes = int (length b), rSHA256 = hex_encode (sha b)\<rparr>) files\<rparr>))"

definition record_text :: "file_record \<Rightarrow> bytes" where
  "record_text r = obj_text [(''path'', quote (rPath r)), (''bytes'', digits_of (nat (rBytes r))), (''sha256'', quote (rSHA256 r))]"

definition manifest_text :: "manifest \<Rightarrow> bytes" where
  "manifest_text m = obj_text [(''format'', digits_of (nat (mFormat m))), (''product'', quote (mProduct m)),
     (''generation'', quote (mGeneration m)), (''files'', arr_text (map record_text (mFiles m)))]"

text \<open>
  Decoding into a struct: a key names a field exactly or, failing that, up to case, where \<open>encoding/json\<close> also folds the
  Kelvin sign and the long s; unknown keys are refused, a repeated field keeps its last value and \<open>null\<close> the zero value.
\<close>

fun fold_name :: "bytes \<Rightarrow> bytes" where
  "fold_name (a # b # c # r) =
     (if [a, b, c] = [CHR 0xE2, CHR 0x84, CHR 0xAA] then CHR ''k'' # fold_name r
      else if [a, b] = [CHR 0xC5, CHR 0xBF] then CHR ''s'' # fold_name (c # r)
      else (if is_upper a then char_of (byte a + 32) else a) # fold_name (b # c # r))"
| "fold_name [a, b] =
     (if [a, b] = [CHR 0xC5, CHR 0xBF] then [CHR ''s'']
      else (if is_upper a then char_of (byte a + 32) else a) # fold_name [b])"
| "fold_name [a] = [if is_upper a then char_of (byte a + 32) else a]"
| "fold_name [] = []"

definition match_field :: "bytes list \<Rightarrow> bytes \<Rightarrow> bytes option" where
  "match_field names k = (if k \<in> set names then Some k else List.find (\<lambda>n. fold_name n = fold_name k) names)"

definition struct_fields :: "bytes list \<Rightarrow> json \<Rightarrow> (bytes \<times> json) list option" where
  "struct_fields names v = (case v of
     JNull \<Rightarrow> Some []
   | JObj _ ms \<Rightarrow> map_option last_wins (all_some (map (\<lambda>(k, x). map_option (\<lambda>n. (n, x)) (match_field names k)) ms))
   | _ \<Rightarrow> None)"

definition string_member :: "(bytes \<times> json) list \<Rightarrow> bytes \<Rightarrow> bytes option" where
  "string_member fs k = (case map_of fs k of None \<Rightarrow> Some [] | Some v \<Rightarrow> string_elem v)"

definition int_member :: "(bytes \<times> json) list \<Rightarrow> bytes \<Rightarrow> int option" where
  "int_member fs k = (case map_of fs k of
     None \<Rightarrow> Some 0 | Some JNull \<Rightarrow> Some 0 | Some (JNum t) \<Rightarrow> parse_int64 t | _ \<Rightarrow> None)"

definition decode_record :: "json \<Rightarrow> file_record option" where
  "decode_record v =
     do {
       fs \<leftarrow> struct_fields [''path'', ''bytes'', ''sha256''] v;
       p \<leftarrow> string_member fs ''path'';
       n \<leftarrow> int_member fs ''bytes'';
       h \<leftarrow> string_member fs ''sha256'';
       Some \<lparr>rPath = p, rBytes = n, rSHA256 = h\<rparr>
     }"

definition decode_manifest :: "bytes \<Rightarrow> manifest option" where
  "decode_manifest data =
     do {
       v \<leftarrow> parse data;
       fs \<leftarrow> struct_fields [''format'', ''product'', ''generation'', ''files''] v;
       f \<leftarrow> int_member fs ''format'';
       p \<leftarrow> string_member fs ''product'';
       g \<leftarrow> string_member fs ''generation'';
       rs \<leftarrow> (case map_of fs ''files'' of
               None \<Rightarrow> Some [] | Some JNull \<Rightarrow> Some [] | Some (JArr _ vs) \<Rightarrow> all_some (map decode_record vs) | _ \<Rightarrow> None);
       Some \<lparr>mFormat = f, mProduct = p, mGeneration = g, mFiles = rs\<rparr>
     }"

fun records_ok :: "bytes list \<Rightarrow> int \<Rightarrow> file_record list \<Rightarrow> bool" where
  "records_ok known sofar [] \<longleftrightarrow> executableName \<in> set known"
| "records_ok known sofar (r # rs) \<longleftrightarrow>
     \<not> (\<not> recordPath (rPath r) \<or> rPath r \<in> set known \<or> rBytes r < 1)
     \<and> (let sum = (if rPath r = executableName then sofar else sofar + rBytes r);
            most = (if rPath r = executableName then MaxExecutableBytes else 65536)
        in \<not> (most < rBytes r \<or> 1048576 < sum \<or> (case hex_decode (rSHA256 r) of None \<Rightarrow> True | Some b \<Rightarrow> length b \<noteq> 32))
           \<and> records_ok (known @ [rPath r]) sum rs)"

definition manifest_ok :: "bytes \<Rightarrow> manifest \<Rightarrow> bool" where
  "manifest_ok name m \<longleftrightarrow>
     \<not> (mFormat m \<noteq> 1 \<or> mProduct m \<noteq> executableName \<or> mGeneration m \<noteq> name \<or> \<not> generationName name
        \<or> length (mFiles m) < 2 \<or> maxFiles < length (mFiles m))
     \<and> records_ok [] 0 (mFiles m)"

definition readManifest :: "unit action \<Rightarrow> path \<Rightarrow> bytes \<Rightarrow> manifest action" where
  "readManifest ctx root name = bnd (readFile ctx (root @ [''manifest.json'']) (int maxManifest)) (\<lambda>data.
     if ndjson_Object data = None then throw [IErrUnmanaged]
     else case decode_manifest data of
         None \<Rightarrow> throw [IErrUnmanaged]
       | Some m \<Rightarrow> if manifest_ok name m then ret m else throw [IErrUnmanaged])"

definition openDirectory :: "path \<Rightarrow> bool \<Rightarrow> entry action" where
  "openDirectory p private = bnd (lstat p) (\<lambda>s. case s of
     Found earlier \<Rightarrow>
       if safeDirectory earlier private
       then andThen (fallible IErrUnmanaged) (bnd (lstat p) (\<lambda>s'. case s' of
              Found after \<Rightarrow> if safeDirectory after private \<and> same_file earlier after then ret after else throw [IErrUnmanaged]
            | _ \<Rightarrow> throw [IErrUnmanaged]))
       else throw [IErrUnmanaged]
   | _ \<Rightarrow> throw [IErrUnmanaged])"

definition dir_names :: "path \<Rightarrow> nat \<Rightarrow> bytes list action" where
  "dir_names p most = andThen (fallible IErrIO) (andThen (fallible IErrUnmanaged) (\<lambda>d.
     let items = children p (tree d)
     in if most < length items then (Inl [IErrUnmanaged], d) else (Inr (sort items), d)))"

definition verify_file :: "(bytes \<Rightarrow> bytes) \<Rightarrow> path \<Rightarrow> file_record \<Rightarrow> generation \<Rightarrow> generation action" where
  "verify_file sha root r g =
     (let p = root @ split_path (rPath r)
      in bnd (openFile p (fileMode (rPath r)) (rBytes r)) (\<lambda>earlier.
           andThen ctx_err (andThen (fallible IOther) (bnd (lstat p) (\<lambda>s. case s of
             Found after \<Rightarrow> andThen (fallible IErrUnmanaged)
               (if int (length (content_of after)) \<noteq> rBytes r \<or> \<not> unchanged earlier after \<or> hex_encode (sha (content_of after)) \<noteq> rSHA256 r
                then throw [IErrUnmanaged]
                else ret (g\<lparr>g_files := aset (split_path (rPath r)) after (g_files g)\<rparr>))
           | _ \<Rightarrow> throw [IErrUnmanaged])))))"

text \<open>The entries a generation may have: its files, the manifest, and the directories above them.\<close>

definition expected :: "manifest \<Rightarrow> path list" where
  "expected m = [''manifest.json''] # concat (map (\<lambda>r. let p = split_path (rPath r) in map (\<lambda>n. take n p) [1..<Suc (length p)]) (mFiles m))"

text \<open>
  The walk over a directory; \<open>fuel\<close> bounds its depth, and no path of the tree is longer than the \<open>depth\<close> it starts with.
\<close>

definition depth :: "tree \<Rightarrow> nat" where
  "depth t = Suc (fold (\<lambda>(q, _) n. max (length q) n) t 0)"

definition verify_entry :: "path list \<Rightarrow> path \<Rightarrow> entry \<Rightarrow> (path \<Rightarrow> generation \<Rightarrow> generation action) \<Rightarrow> path \<Rightarrow> generation \<Rightarrow> generation action" where
  "verify_entry allowed root mbefore walk_child rel g =
     (if rel \<notin> set allowed then throw [IErrUnmanaged]
      else bnd (lstat (root @ rel)) (\<lambda>s. case s of
          Found info \<Rightarrow>
            if is_dir info then bnd (openDirectory (root @ rel) True) (\<lambda>opened. walk_child rel (g\<lparr>g_dirs := aset rel opened (g_dirs g)\<rparr>))
            else if rel = [''manifest.json''] then
              (if \<not> safeFile info 384 \<or> \<not> unchanged mbefore info then throw [IErrUnmanaged]
               else ret (g\<lparr>g_files := aset rel info (g_files g)\<rparr>))
            else (case map_of (g_files g) rel of
                None \<Rightarrow> throw [IErrUnmanaged]
              | Some earlier \<Rightarrow> if unchanged earlier info then ret g else throw [IErrUnmanaged])
        | _ \<Rightarrow> throw [IErrUnmanaged]))"

primrec verify_walk :: "nat \<Rightarrow> path list \<Rightarrow> path \<Rightarrow> entry \<Rightarrow> path \<Rightarrow> generation \<Rightarrow> generation action" where
  "verify_walk 0 allowed root mbefore rel g = throw [IErrUnmanaged]"
| "verify_walk (Suc fuel) allowed root mbefore rel g =
     bnd (dir_names (root @ rel) (maxFiles + 4))
       (\<lambda>items. each_with (\<lambda>item. verify_entry allowed root mbefore (verify_walk fuel allowed root mbefore) (rel @ [item])) items g)"

definition verifyGeneration :: "(bytes \<Rightarrow> bytes) \<Rightarrow> bytes \<Rightarrow> bytes \<Rightarrow> generation action" where
  "verifyGeneration sha name identity =
     (let root = [managerName, name]
      in bnd (openDirectory root True) (\<lambda>rootInfo.
         bnd (lstat (root @ [''manifest.json''])) (\<lambda>s. case s of
           Found mbefore \<Rightarrow>
             bnd (readManifest ctx_err root identity) (\<lambda>m.
             bnd (each_with (verify_file sha root) (mFiles m)
                    \<lparr>g_name = name, g_manifest = m, g_files = [], g_dirs = [([], rootInfo)]\<rparr>) (\<lambda>g.
             (\<lambda>d. verify_walk (depth (tree d)) (expected m) root mbefore [] g d)))
         | _ \<Rightarrow> throw [IErrUnmanaged])))"

definition writeFile :: "unit action \<Rightarrow> path \<Rightarrow> bytes \<Rightarrow> nat \<Rightarrow> unit action" where
  "writeFile ctx p data mode =
     andThen (sys (sys_open p mode) IErrIO) (andThen (sys (sys_chmod p mode) IErrIO)
       (andThen ctx (andThen (sys (sys_append p data) IOther) (andThen (fallible IErrIO) (fallible IErrIO)))))"

definition syncDirectory :: "unit action" where
  "syncDirectory = andThen (fallible IErrIO) (fallible IErrIO)"

subsection \<open>store.go\<close>

record istore =
  binInfo :: entry
  rootInfo :: entry
  lockInfo :: entry
  was_created :: bool

definition in_manager :: "bytes \<Rightarrow> path" where "in_manager name = [managerName, name]"

definition check :: "istore \<Rightarrow> unit action" where
  "check s =
     bnd (lstat []) (\<lambda>a. case a of
       Found x \<Rightarrow> if \<not> safeDirectory x False \<or> \<not> same_file x (binInfo s) then throw [IErrUnmanaged]
         else bnd (lstat [managerName]) (\<lambda>b. case b of
           Found y \<Rightarrow> if \<not> safeDirectory y True \<or> \<not> same_file y (rootInfo s) then throw [IErrUnmanaged]
             else bnd (lstat (in_manager ''lock'')) (\<lambda>c. case c of
               Found z \<Rightarrow> if \<not> safeFile z 384 \<or> size_of z \<noteq> 0 then throw [IErrUnmanaged]
                 else andThen (fallible IErrUnmanaged) (need (unchanged z (lockInfo s)) IErrUnmanaged)
             | _ \<Rightarrow> throw [IErrUnmanaged])
         | _ \<Rightarrow> throw [IErrUnmanaged])
     | _ \<Rightarrow> throw [IErrUnmanaged])"

text \<open>The directory must be absolute, clean, not the root and not too long.\<close>

definition location_ok :: "bytes \<Rightarrow> bool" where
  "location_ok p \<longleftrightarrow> p \<noteq> [] \<and> hd p = CHR ''/'' \<and> plain_names (tl (split_path p)) \<and> length p \<le> 4096"

text \<open>\<open>MkdirAll\<close> of the directory itself.\<close>

definition sys_mkdir_all :: "disk \<Rightarrow> tree \<Rightarrow> tree option" where
  "sys_mkdir_all d t = (if has_key t [] then None else Some (aset [] (Directory (new_meta 448 d)) t))"

definition stat_bin :: "bool \<Rightarrow> stat action" where
  "stat_bin create = bnd (lstat []) (\<lambda>s.
     if s = Missing \<and> create then andThen (sys sys_mkdir_all IErrLocation) (lstat []) else ret s)"

definition found :: "path \<Rightarrow> install_error \<Rightarrow> entry action" where
  "found p e = bnd (lstat p) (\<lambda>s. case s of Found x \<Rightarrow> ret x | _ \<Rightarrow> throw [e])"

text \<open>The file behind an open handle.\<close>

definition handle :: "path \<Rightarrow> entry action" where
  "handle p d = (case map_of (tree d) p of None \<Rightarrow> (Inl [IErrUnmanaged], d) | Some e \<Rightarrow> (Inr e, d))"

definition new_lock :: "unit action" where
  "new_lock =
     andThen (sys (sys_open (in_manager ''lock'') 384) IErrIO)
       (andThen (sys (sys_chmod (in_manager ''lock'') 384) IErrIO)
       (andThen (bnd (attempt (lockFile False)) (\<lambda>r. case r of Inl _ \<Rightarrow> throw [IErrIO] | Inr _ \<Rightarrow> ret ()))
       (andThen (writeFile (ret ()) (in_manager ''format.json'') marker 384)
       (andThen (fallible IErrIO) (andThen syncDirectory syncDirectory)))))"

definition old_lock :: "unit action \<Rightarrow> bool \<Rightarrow> unit action" where
  "old_lock ctx shared =
     bnd (attempt (readFile ctx (in_manager ''format.json'') 128)) (\<lambda>r.
       if r \<noteq> Inr marker then throw [IErrUnmanaged]
       else andThen (fallible IErrUnmanaged) (bnd (handle (in_manager ''lock'')) (\<lambda>info. andThen (fallible IErrUnmanaged)
         (if \<not> safeFile info 384 \<or> size_of info \<noteq> 0 then throw [IErrUnmanaged] else lockFile shared))))"

text \<open>The part of \<open>openStore\<close> after the manager directory exists, with the deferred function for failures.\<close>

definition enter_store :: "unit action \<Rightarrow> entry \<Rightarrow> bool \<Rightarrow> bool \<Rightarrow> istore action" where
  "enter_store ctx bin created shared =
     bnd (attempt (
       bnd (openDirectory [managerName] True) (\<lambda>root.
       andThen (if created then new_lock else old_lock ctx shared)
       (bnd (handle (in_manager ''lock'')) (\<lambda>lock.
        let s = \<lparr>binInfo = bin, rootInfo = root, lockInfo = lock, was_created = created\<rparr>
        in andThen (check s) (ret s))))))
     (\<lambda>r. case r of Inl e \<Rightarrow> andThen close_store (throw (if created then e @ [IErrCleanup] else e)) | Inr s \<Rightarrow> ret s)"

definition openStore :: "unit action \<Rightarrow> bytes \<Rightarrow> bool \<Rightarrow> bool \<Rightarrow> istore option action" where
  "openStore ctx bin_path create shared =
     (if \<not> location_ok bin_path then throw [IErrLocation]
      else andThen ctx (bnd (stat_bin create) (\<lambda>s. case s of
          Missing \<Rightarrow> ret None
        | Unreadable \<Rightarrow> throw [IErrLocation]
        | Found bin \<Rightarrow>
            if \<not> safeDirectory bin False then throw [IErrLocation]
            else andThen (fallible IErrLocation) (bnd (found [] IErrLocation) (\<lambda>opened.
              if \<not> same_file bin opened then throw [IErrLocation]
              else bnd (lstat [managerName]) (\<lambda>m. case m of
                  Missing \<Rightarrow> bnd (lstat [executableName]) (\<lambda>x.
                    if x \<noteq> Missing then throw [IErrUnmanaged]
                    else if \<not> create then ret None
                    else andThen (sys (sys_mkdir [managerName]) IErrIO) (bnd (enter_store ctx bin True shared) (\<lambda>st. ret (Some st))))
                | Unreadable \<Rightarrow> throw [IErrUnmanaged]
                | Found _ \<Rightarrow> bnd (enter_store ctx bin False shared) (\<lambda>st. ret (Some st))))))))"

definition link_target :: bytes where
  "link_target = managerName @ ''/current/'' @ executableName"

definition publicLink :: "entry option action" where
  "publicLink = bnd (lstat [executableName]) (\<lambda>s. case s of
     Missing \<Rightarrow> ret None
   | Found e \<Rightarrow>
       if \<not> safeLink e then throw [IErrUnmanaged]
       else andThen (fallible IErrUnmanaged)
         (case e of Symlink _ v \<Rightarrow> if v = link_target then ret (Some e) else throw [IErrUnmanaged] | _ \<Rightarrow> throw [IErrUnmanaged])
   | Unreadable \<Rightarrow> throw [IErrUnmanaged])"

definition pointer :: "bytes \<Rightarrow> bytes action" where
  "pointer name = bnd (lstat (in_manager name)) (\<lambda>s. case s of
     Missing \<Rightarrow> ret []
   | Found e \<Rightarrow>
       if \<not> safeLink e then throw [IErrUnmanaged]
       else andThen (fallible IErrUnmanaged)
         (case e of Symlink _ v \<Rightarrow> if generationName v then ret v else throw [IErrUnmanaged] | _ \<Rightarrow> throw [IErrUnmanaged])
   | Unreadable \<Rightarrow> throw [IErrUnmanaged])"

record inventory =
  i_current :: bytes
  i_next :: bytes
  i_public :: "entry option"
  i_generations :: "generation list"

definition identity_of :: "bytes \<Rightarrow> bytes" where
  "identity_of name = (if take 8 name = ''staging-'' then ''generation-'' @ drop 8 name else name)"

definition inspect_item :: "(bytes \<Rightarrow> bytes) \<Rightarrow> bytes \<Rightarrow> inventory \<Rightarrow> inventory action" where
  "inspect_item sha name v =
     (if name \<in> {''format.json'', ''lock'', ''current'', ''.next''} then ret v
      else if \<not> generationName (identity_of name) \<or> maxGenerations \<le> length (i_generations v) then throw [IErrUnmanaged]
      else bnd (verifyGeneration sha name (identity_of name)) (\<lambda>g. ret (v\<lparr>i_generations := i_generations v @ [g]\<rparr>)))"

definition inspect :: "(bytes \<Rightarrow> bytes) \<Rightarrow> inventory action" where
  "inspect sha =
     bnd publicLink (\<lambda>public.
     bnd (pointer ''current'') (\<lambda>current.
     bnd (pointer ''.next'') (\<lambda>next.
     bnd (dir_names [managerName] (maxGenerations + 4)) (\<lambda>items.
     bnd (each_with (inspect_item sha) items \<lparr>i_current = current, i_next = next, i_public = public, i_generations = []\<rparr>) (\<lambda>v.
       let known = map g_name (i_generations v)
       in if current \<noteq> [] \<and> current \<notin> set known \<or> next \<noteq> [] \<and> next \<notin> set known \<or> public \<noteq> None \<and> current = []
          then throw [IErrUnmanaged] else ret v)))))"

definition removal_entry :: "generation \<Rightarrow> path \<Rightarrow> (path \<Rightarrow> nat \<times> nat \<Rightarrow> (nat \<times> nat) action) \<Rightarrow> path \<Rightarrow> nat \<times> nat \<Rightarrow> (nat \<times> nat) action" where
  "removal_entry g root walk_child rel n = bnd (found (root @ rel) IErrUnmanaged) (\<lambda>info. case map_of (g_dirs g) rel of
     Some earlier \<Rightarrow>
       if \<not> safeDirectory info True \<or> \<not> same_file info earlier then throw [IErrUnmanaged]
       else bnd (openDirectory (root @ rel) True) (\<lambda>_. walk_child rel (fst n, snd n + 1))
   | None \<Rightarrow> (case map_of (g_files g) rel of
       None \<Rightarrow> throw [IErrUnmanaged]
     | Some earlier \<Rightarrow> if unchanged earlier info then ret (fst n + 1, snd n) else throw [IErrUnmanaged]))"

primrec removal_walk :: "nat \<Rightarrow> generation \<Rightarrow> path \<Rightarrow> path \<Rightarrow> nat \<times> nat \<Rightarrow> (nat \<times> nat) action" where
  "removal_walk 0 g root rel n = throw [IErrUnmanaged]"
| "removal_walk (Suc fuel) g root rel n = bnd (dir_names (root @ rel) (maxFiles + 4))
     (\<lambda>items. each_with (\<lambda>item. removal_entry g root (removal_walk fuel g root) (rel @ [item])) items n)"

definition removalTree :: "path \<Rightarrow> generation \<Rightarrow> unit action" where
  "removalTree root g = bnd (\<lambda>d. removal_walk (depth (tree d)) g root [] (0, 1) d)
     (\<lambda>n. need (n = (length (g_files g), length (g_dirs g))) IErrUnmanaged)"

definition remove_dir :: "path \<Rightarrow> generation \<Rightarrow> path \<Rightarrow> unit action" where
  "remove_dir root g rel = bnd (found (root @ rel) IErrIO) (\<lambda>info.
     if (case map_of (g_dirs g) rel of None \<Rightarrow> True | Some earlier \<Rightarrow> \<not> same_file info earlier) then throw [IErrIO]
     else sys (sys_remove (root @ rel)) IErrIO)"

definition removeGeneration :: "istore \<Rightarrow> generation \<Rightarrow> unit action" where
  "removeGeneration s g =
     (let root = in_manager (g_name g)
      in andThen (check s) (bnd (openDirectory root True) (\<lambda>info.
         if (case map_of (g_dirs g) [] of None \<Rightarrow> True | Some earlier \<Rightarrow> \<not> same_file info earlier) then throw [IErrUnmanaged]
         else andThen (removalTree root g)
           (andThen (each (\<lambda>f. sys (sys_remove (root @ f)) IErrIO) (sort_key (join ''/'') (map fst (g_files g))))
           (andThen (each (remove_dir root g) (rev (sort_key (\<lambda>p. length (join ''/'' p)) (filter (\<lambda>p. p \<noteq> []) (map fst (g_dirs g))))))
             (sys (sys_remove root) IErrIO))))))"

definition removeManager :: "istore \<Rightarrow> unit action" where
  "removeManager s =
     andThen (check s) (bnd (attempt (dir_names [managerName] 2)) (\<lambda>r.
       if r \<noteq> Inr [''format.json'', ''lock''] then throw [IErrUnmanaged]
       else bnd (attempt (readFile (ret ()) (in_manager ''format.json'') 128)) (\<lambda>q.
         if q \<noteq> Inr marker then throw [IErrUnmanaged]
         else andThen (sys (sys_remove (in_manager ''format.json'')) IErrIO)
             (andThen (sys (sys_remove (in_manager ''lock'')) IErrIO)
             (andThen (sys (sys_remove [managerName]) IErrIO) syncDirectory)))))"

subsection \<open>installation.go\<close>

definition on_staged :: "(generation \<Rightarrow> generation) \<Rightarrow> unit action" where
  "on_staged f d = (Inr (), d\<lparr>staged := map_option f (staged d)\<rparr>)"

definition set_staged :: "generation option \<Rightarrow> unit action" where
  "set_staged g d = (Inr (), d\<lparr>staged := g\<rparr>)"

definition set_published :: "bool \<Rightarrow> unit action" where
  "set_published b d = (Inr (), d\<lparr>published := b\<rparr>)"

function write_chunks :: "path \<Rightarrow> bytes \<Rightarrow> unit action" where
  "write_chunks p data =
     (if data = [] then ret ()
      else andThen ctx_err (andThen (sys (sys_append p (take 32768 data)) IErrIO) (write_chunks p (drop 32768 data))))"
  by pat_completeness auto
termination
  by (relation "measure (\<lambda>(_, data). length data)") auto

declare write_chunks.simps [simp del]

text \<open>The deferred function records the file in the staged generation and adds what goes wrong with closing it.\<close>

definition track :: "path \<Rightarrow> path \<Rightarrow> install_error list + unit \<Rightarrow> unit action" where
  "track p rel r = bnd (lstat p) (\<lambda>s. bnd fails (\<lambda>c.
     let extra = (case s of Found _ \<Rightarrow> [] | _ \<Rightarrow> [IErrCleanup, IErrIO]) @ (if c then [IErrIO] else [])
     in andThen (case s of Found info \<Rightarrow> on_staged (\<lambda>g. g\<lparr>g_files := aset rel info (g_files g)\<rparr>) | _ \<Rightarrow> ret ())
          (case r of Inl e \<Rightarrow> throw (e @ extra) | Inr _ \<Rightarrow> if extra = [] then ret () else throw extra)))"

definition trackedWrite :: "path \<Rightarrow> bytes \<Rightarrow> bytes \<Rightarrow> nat \<Rightarrow> unit action" where
  "trackedWrite root name data mode =
     (let rel = split_path name; p = root @ rel
      in andThen (sys (sys_open p mode) IErrIO)
           (bnd (attempt (andThen (sys (sys_chmod p mode) IErrIO) (andThen (write_chunks p data) (fallible IErrIO)))) (track p rel)))"

definition stage_dir :: "path \<Rightarrow> bytes \<Rightarrow> unit action" where
  "stage_dir root name = andThen (sys (sys_mkdir (root @ split_path name)) IErrIO) (bnd (lstat (root @ split_path name)) (\<lambda>s. case s of
     Found info \<Rightarrow> on_staged (\<lambda>g. g\<lparr>g_dirs := aset (split_path name) info (g_dirs g)\<rparr>)
   | _ \<Rightarrow> throw [IErrCleanup, IErrIO]))"

definition stage :: "(bytes \<Rightarrow> bytes) \<Rightarrow> bytes \<Rightarrow> payload list \<Rightarrow> manifest \<Rightarrow> unit action" where
  "stage sha name files m =
     (let root = in_manager name
      in andThen (sys (sys_mkdir root) IErrIO)
         (bnd (attempt (openDirectory root True)) (\<lambda>r. case r of
            Inl e \<Rightarrow> throw (IErrCleanup # e)
          | Inr info \<Rightarrow>
              andThen (set_staged (Some \<lparr>g_name = name, g_manifest = m, g_files = [], g_dirs = [([], info)]\<rparr>))
             (andThen (each (stage_dir root) [''notices'', ''notices/runtime'', ''notices/reference''])
             (andThen (each (\<lambda>(n, data). trackedWrite root n data (fileMode n)) files)
             (if maxManifest < length (manifest_text m) then throw [IErrSource]
              else andThen (trackedWrite root ''manifest.json'' (manifest_text m) 384)
                  (andThen (each (\<lambda>_. andThen (fallible IErrIO) syncDirectory) [''notices/runtime'', ''notices/reference'', ''notices'', ''.''])
                  (bnd (verifyGeneration sha name (mGeneration m)) (\<lambda>g. set_staged (Some g))))))))))"

definition samePublication :: "istore \<Rightarrow> inventory \<Rightarrow> unit action" where
  "samePublication s v =
     andThen (check s) (bnd (attempt publicLink) (\<lambda>r.
       if (case (r, i_public v) of (Inr None, None) \<Rightarrow> False | (Inr (Some e), Some e') \<Rightarrow> \<not> unchanged e e' | _ \<Rightarrow> True)
       then throw [IErrUnmanaged]
       else bnd (attempt (pointer ''current'')) (\<lambda>q. need (q = Inr (i_current v)) IErrUnmanaged)))"

definition removePointer :: "bytes \<Rightarrow> bytes \<Rightarrow> unit action" where
  "removePointer name value = bnd (attempt (pointer name)) (\<lambda>r.
     if r \<noteq> Inr value then throw [IErrUnmanaged] else sys (sys_remove (in_manager name)) IErrIO)"

definition reclaim :: "istore \<Rightarrow> inventory \<Rightarrow> unit action" where
  "reclaim s v =
     andThen (check s) (andThen (if i_next v \<noteq> [] then removePointer ''.next'' (i_next v) else ret ())
       (each (\<lambda>g. if g_name g \<noteq> i_current v then removeGeneration s g else ret ()) (i_generations v)))"

text \<open>Join an error that is wrapped as an incomplete cleanup.\<close>

definition cleanup :: "unit action \<Rightarrow> unit action" where
  "cleanup m = bnd (attempt m) (\<lambda>r. case r of Inl e \<Rightarrow> throw (IErrCleanup # e) | Inr _ \<Rightarrow> ret ())"

definition then_fail :: "unit action \<Rightarrow> install_error list \<Rightarrow> unit action" where
  "then_fail m e = bnd (attempt m) (\<lambda>r. case r of Inl c \<Rightarrow> throw (e @ IErrCleanup # c) | Inr _ \<Rightarrow> throw e)"

definition discard_new :: "istore \<Rightarrow> install_error list \<Rightarrow> unit action" where
  "discard_new s e = (if was_created s then then_fail (removeManager s) e else throw e)"

definition publish_link :: "unit action" where
  "publish_link = andThen (sys (sys_symlink link_target [executableName]) IErrIO) syncDirectory"

definition swap_pointer :: "bytes \<Rightarrow> unit action" where
  "swap_pointer identity = andThen (sys (sys_symlink identity (in_manager ''.next'')) IErrIO)
     (bnd (syscall (sys_rename (in_manager ''.next'') (in_manager ''current''))) (\<lambda>ok.
        if ok then set_published True
        else bnd (attempt (removePointer ''.next'' identity)) (\<lambda>r. case r of Inl _ \<Rightarrow> throw [IErrIO, IErrCleanup] | Inr _ \<Rightarrow> throw [IErrIO])))"

definition rename_staged :: "istore \<Rightarrow> bytes \<Rightarrow> bytes \<Rightarrow> unit action" where
  "rename_staged s name identity =
     andThen ctx_err (andThen (check s) (andThen (sys (sys_rename (in_manager name) (in_manager identity)) IErrIO)
       (andThen (on_staged (\<lambda>g. g\<lparr>g_name := identity\<rparr>)) syncDirectory)))"

definition after_publication :: "istore \<Rightarrow> inventory \<Rightarrow> unit action" where
  "after_publication s v =
     andThen syncDirectory
       (andThen (if i_public v = None then publish_link else ret ())
       (andThen (each (\<lambda>g. if g_name g = i_current v then cleanup (removeGeneration s g) else ret ()) (i_generations v))
         (cleanup syncDirectory)))"

definition install_steps ::
  "(bytes \<Rightarrow> bytes) \<Rightarrow> payload list \<Rightarrow> bytes option \<Rightarrow> bytes \<Rightarrow> istore \<Rightarrow> inventory \<Rightarrow> unit action" where
  "install_steps sha notices random data s v =
     andThen ctx_err (case random of
       None \<Rightarrow> throw [IErrIO]
     | Some i \<Rightarrow>
         let identity = ''generation-'' @ hex_encode i; name = ''staging-'' @ hex_encode i
         in (case make_bundle sha notices data identity of
              None \<Rightarrow> throw [IErrSource]
            | Some (files, m) \<Rightarrow>
                andThen (stage sha name files m)
               (andThen (rename_staged s name identity)
               (andThen ctx_err (andThen (samePublication s v)
               (andThen (swap_pointer identity) (after_publication s v)))))))"

text \<open>The deferred function of \<open>install\<close>.\<close>

definition rollback :: "istore \<Rightarrow> inventory \<Rightarrow> install_error list \<Rightarrow> unit action" where
  "rollback s v e = (\<lambda>d.
     if published d then (Inl (IErrPublished # e), d)
     else let last_step = (if was_created s \<and> i_current v = [] then then_fail (removeManager s) e else throw e)
          in case staged d of
              None \<Rightarrow> last_step d
            | Some g \<Rightarrow> bnd (attempt (removeGeneration s g)) (\<lambda>r. case r of
                Inl c \<Rightarrow> throw (e @ IErrCleanup # c) | Inr _ \<Rightarrow> last_step) d)"

definition closing :: "unit action \<Rightarrow> unit action" where
  "closing m = bnd (attempt m) (\<lambda>r. andThen close_store (case r of Inl e \<Rightarrow> throw e | Inr _ \<Rightarrow> ret ()))"

definition install_opened ::
  "(bytes \<Rightarrow> bytes) \<Rightarrow> payload list \<Rightarrow> bytes option \<Rightarrow> bytes \<Rightarrow> bool \<Rightarrow> istore \<Rightarrow> unit action" where
  "install_opened sha notices random data force s = bnd (attempt (inspect sha)) (\<lambda>r. case r of
     Inl e \<Rightarrow> discard_new s e
   | Inr v \<Rightarrow>
       if i_public v \<noteq> None \<and> \<not> force then throw [IErrExists]
       else bnd (attempt ctx_err) (\<lambda>c. case c of
           Inl e \<Rightarrow> discard_new s e
         | Inr _ \<Rightarrow> andThen (cleanup (reclaim s v)) (andThen (set_staged None) (andThen (set_published False)
             (bnd (attempt (install_steps sha notices random data s v)) (\<lambda>q. case q of Inl e \<Rightarrow> rollback s v e | Inr _ \<Rightarrow> ret ()))))))"

text \<open>\<open>Install\<close>; \<open>random\<close> are the bytes of the new identity, unless the random source fails.\<close>

definition Install ::
  "(bytes \<Rightarrow> bytes) \<Rightarrow> payload list \<Rightarrow> bytes option \<Rightarrow> bytes \<Rightarrow> bool \<Rightarrow> entry option \<Rightarrow> bool \<Rightarrow> unit action" where
  "Install sha notices random bin_path is_abs source force =
     andThen ctx_err (bnd (readSource is_abs source) (\<lambda>data.
       bnd (openStore ctx_err bin_path True False) (\<lambda>so. case so of
         None \<Rightarrow> throw [IOther]
       | Some s \<Rightarrow> closing (install_opened sha notices random data force s))))"

text \<open>\<open>Uninstall\<close>; \<open>flip\<close> is the order in which the map of the two pointers is visited.\<close>

definition uninstall_opened :: "(bytes \<Rightarrow> bytes) \<Rightarrow> bool \<Rightarrow> istore \<Rightarrow> unit action" where
  "uninstall_opened sha flip s =
     bnd (inspect sha) (\<lambda>v. andThen ctx_err (andThen (samePublication s v)
       (andThen (if i_public v = None then ret () else andThen (sys (sys_remove [executableName]) IErrIO) (cleanup syncDirectory))
       (andThen (each (\<lambda>(n, value). if value = [] then ret () else cleanup (removePointer n value))
                  ((if flip then rev else id) [(''current'', i_current v), (''.next'', i_next v)]))
       (andThen (each (\<lambda>g. cleanup (removeGeneration s g)) (i_generations v))
         (cleanup (removeManager s)))))))"

definition Uninstall :: "(bytes \<Rightarrow> bytes) \<Rightarrow> bool \<Rightarrow> bytes \<Rightarrow> unit action" where
  "Uninstall sha flip bin_path = bnd (openStore ctx_err bin_path False False) (\<lambda>so. case so of
     None \<Rightarrow> ret ()
   | Some s \<Rightarrow> closing (uninstall_opened sha flip s))"

text \<open>\<open>Lease\<close> of the installation that holds the executable whose resolved path has these components.\<close>

definition lease_file :: "bytes \<Rightarrow> file_record \<Rightarrow> unit action" where
  "lease_file identity r = (if rPath r \<noteq> executableName then ret ()
     else bnd (found (in_manager identity @ [executableName]) IErrUnmanaged) (\<lambda>info.
       need (safeFile info 448 \<and> int (size_of info) = rBytes r) IErrUnmanaged))"

definition lease_opened :: "bytes \<Rightarrow> unit action" where
  "lease_opened identity =
     bnd (attempt (pointer ''current'')) (\<lambda>r. if r \<noteq> Inr identity then throw [IErrUnmanaged]
       else bnd (attempt publicLink) (\<lambda>q. if (case q of Inr (Some _) \<Rightarrow> False | _ \<Rightarrow> True) then throw [IErrUnmanaged]
         else bnd (openDirectory (in_manager identity) True) (\<lambda>_.
           bnd (readManifest (ret ()) (in_manager identity) identity) (\<lambda>m. each (lease_file identity) (mFiles m)))))"

definition Lease_install :: "bool \<Rightarrow> path option \<Rightarrow> bool action" where
  "Lease_install is_abs resolved =
     (if \<not> is_abs then throw [IErrLocation]
      else case resolved of
          None \<Rightarrow> throw [IErrLocation]
        | Some cs \<Rightarrow>
            let n = length cs
            in if n < 3 \<or> cs ! (n - 3) \<noteq> managerName then ret False
               else if last cs \<noteq> executableName \<or> \<not> generationName (cs ! (n - 2)) then throw [IErrUnmanaged]
               else bnd (openStore (ret ()) (if n = 3 then ''/'' else concat (map (\<lambda>c. CHR ''/'' # c) (take (n - 3) cs))) False True) (\<lambda>so. case so of
                   None \<Rightarrow> throw [IErrUnmanaged]
                 | Some s \<Rightarrow> bnd (attempt (lease_opened (cs ! (n - 2)))) (\<lambda>r. case r of
                     Inl e \<Rightarrow> andThen close_store (throw e) | Inr _ \<Rightarrow> ret True)))"

end
