(* ===== verification/Installation_Logic.thy ===== *)
theory Installation_Logic
  imports Installation
begin

text \<open>
  Reasoning about the installer's actions. A triple says what an action guarantees when it returns and when it fails, and
  that every tree it leaves on the way, which is what a crash would leave, satisfies an invariant. Most of the installer
  only reads, or changes paths of its own; such actions are described by what they leave alone.
\<close>

subsection \<open>Actions that only read\<close>

type_synonym core = "tree \<times> generation option \<times> bool"

definition core :: "disk \<Rightarrow> core" where
  "core d = (tree d, staged d, published d)"

definition quiet :: "'a action \<Rightarrow> bool" where
  "quiet m \<longleftrightarrow> (\<forall>d. past (snd (m d)) = past d \<and> core (snd (m d)) = core d)"

named_theorems quiet_rules \<open>actions that only read\<close>

lemma quietD: "quiet m \<Longrightarrow> m d = (r, d') \<Longrightarrow> past d' = past d \<and> tree d' = tree d \<and> staged d' = staged d \<and> published d' = published d"
  unfolding quiet_def core_def by (metis prod.inject snd_conv)

lemma bnd_cases:
  assumes "bnd m k d = (r, d')"
  obtains (failed) e where "m d = (Inl e, d')" "r = Inl e" | (went_on) x d1 where "m d = (Inr x, d1)" "k x d1 = (r, d')"
  using assms by (auto simp: bnd_def split: prod.splits sum.splits)

lemma quiet_basic [quiet_rules]: "quiet (ret x)" "quiet (throw e)" "quiet fails" "quiet close_store" "quiet (handle p)"
  by (auto simp: quiet_def ret_def throw_def fails_def close_store_def handle_def core_def split: list.splits option.splits bool.splits)

lemma quiet_bnd [quiet_rules]: "quiet m \<Longrightarrow> (\<And>x. quiet (k x)) \<Longrightarrow> quiet (bnd m k)"
  by (simp add: quiet_def bnd_def split_beta split: sum.splits)

lemma quiet_andThen [quiet_rules]: "quiet m \<Longrightarrow> quiet k \<Longrightarrow> quiet (andThen m k)"
  unfolding andThen_def by (rule quiet_bnd)

lemma quiet_attempt [quiet_rules]: "quiet m \<Longrightarrow> quiet (attempt m)"
  by (simp add: quiet_def attempt_def split_beta)

lemma quiet_need [quiet_rules]: "quiet (need b e)"
  by (simp add: need_def quiet_rules)

lemma quiet_fallible [quiet_rules]: "quiet (fallible e)"
  by (auto simp: fallible_def intro!: quiet_rules)

lemma quiet_ctx [quiet_rules]: "quiet ctx_err"
  by (auto simp: ctx_err_def intro!: quiet_rules)

lemma quiet_reader: "(\<And>t. quiet (m t)) \<Longrightarrow> quiet (\<lambda>d. m (tree d) d)"
  by (simp add: quiet_def)

lemma quiet_each [quiet_rules]: "(\<And>x. quiet (f x)) \<Longrightarrow> quiet (each f xs)"
  by (induction xs) (auto intro!: quiet_rules)

lemma quiet_each_with [quiet_rules]: "(\<And>x g. quiet (f x g)) \<Longrightarrow> quiet (each_with f xs g)"
  by (induction xs arbitrary: g) (auto intro!: quiet_rules)

lemma quiet_pure: "quiet (\<lambda>d. (f d, d))"
  by (simp add: quiet_def)

lemma quiet_lstat [quiet_rules]: "quiet (lstat p)"
  unfolding lstat_def by (intro quiet_bnd quiet_basic quiet_pure)

lemma quiet_found [quiet_rules]: "quiet (found p e)"
  by (auto simp: found_def intro!: quiet_rules split: stat.split)

lemma quiet_openFile [quiet_rules]: "quiet (openFile p mode most)"
  by (auto simp: openFile_def intro!: quiet_rules split: stat.split)

lemma quiet_readFile [quiet_rules]: "quiet ctx \<Longrightarrow> quiet (readFile ctx p most)"
  by (auto simp: readFile_def intro!: quiet_rules split: stat.split)

lemma quiet_readSource [quiet_rules]: "quiet (readSource is_abs source)"
  by (auto simp: readSource_def intro!: quiet_rules split: option.split)

lemma quiet_readManifest [quiet_rules]: "quiet ctx \<Longrightarrow> quiet (readManifest ctx root name)"
  by (auto simp: readManifest_def intro!: quiet_rules split: option.split)

lemma quiet_openDirectory [quiet_rules]: "quiet (openDirectory p private)"
  by (auto simp: openDirectory_def intro!: quiet_rules split: stat.split)

lemma quiet_dir_names [quiet_rules]: "quiet (dir_names p most)"
proof -
  have "quiet (\<lambda>d. let items = children p (tree d) in if most < length items then (Inl [IErrUnmanaged], d) else (Inr (sort items), d))"
    by (simp add: quiet_def Let_def)
  then show ?thesis by (auto simp: dir_names_def intro!: quiet_rules)
qed

lemma quiet_verify_file [quiet_rules]: "quiet (verify_file sha root r g)"
  by (auto simp: verify_file_def Let_def intro!: quiet_rules split: stat.split)

lemma quiet_verify_entry: "(\<And>rel g. quiet (w rel g)) \<Longrightarrow> quiet (verify_entry allowed root mbefore w rel g)"
  by (auto simp: verify_entry_def intro!: quiet_rules split: stat.split option.split)

lemma quiet_verify_walk [quiet_rules]: "quiet (verify_walk n allowed root mbefore rel g)"
  by (induction n arbitrary: rel g) (auto intro!: quiet_rules quiet_verify_entry)

lemma quiet_verifyGeneration [quiet_rules]: "quiet (verifyGeneration sha name identity)"
  by (auto simp: verifyGeneration_def Let_def intro!: quiet_rules quiet_reader [where m = "\<lambda>t. verify_walk (depth t) _ _ _ _ _"] split: stat.split)

lemma quiet_check [quiet_rules]: "quiet (check s)"
  by (auto simp: check_def intro!: quiet_rules split: stat.split)

lemma quiet_links [quiet_rules]: "quiet publicLink" "quiet (pointer name)"
  by (auto simp: publicLink_def pointer_def intro!: quiet_rules split: stat.split entry.split)

lemma quiet_inspect [quiet_rules]: "quiet (inspect sha)"
proof -
  have "quiet (inspect_item sha name v)" for name v by (auto simp: inspect_item_def intro!: quiet_rules)
  then show ?thesis by (auto simp: inspect_def Let_def intro!: quiet_rules)
qed

lemma quiet_sync [quiet_rules]: "quiet syncDirectory"
  by (auto simp: syncDirectory_def intro!: quiet_rules)

lemma quiet_lockFile [quiet_rules]: "quiet (lockFile shared)"
proof -
  have "quiet (\<lambda>d. if b then (Inl [IErrIO], d) else if locked d \<or> \<not> shared \<and> 0 < sharers d then (Inl [IErrBusy], d)
      else (Inr (), if shared then d\<lparr>sharers := sharers d + 1, mine := Some True\<rparr> else d\<lparr>locked := True, mine := Some False\<rparr>))" for b
    by (simp add: quiet_def core_def)
  then show ?thesis by (auto simp: lockFile_def intro!: quiet_rules)
qed

lemma quiet_old_lock [quiet_rules]: "quiet ctx \<Longrightarrow> quiet (old_lock ctx shared)"
  by (auto simp: old_lock_def intro!: quiet_rules)

lemma quiet_samePublication [quiet_rules]: "quiet (samePublication s v)"
  by (auto simp: samePublication_def intro!: quiet_rules)

lemma quiet_removalTree [quiet_rules]: "quiet (removalTree root g)"
proof -
  have e: "(\<And>rel n. quiet (w rel n)) \<Longrightarrow> quiet (removal_entry g root w rel n)" for w rel n
    by (auto simp: removal_entry_def intro!: quiet_rules split: option.split)
  have "quiet (removal_walk n g root rel c)" for n rel c
    by (induction n arbitrary: rel c) (auto intro!: quiet_rules e)
  then show ?thesis
    unfolding removalTree_def by (intro quiet_bnd quiet_need quiet_reader [where m = "\<lambda>t. removal_walk (depth t) _ _ _ _"])
qed

subsection \<open>Actions that change some paths only\<close>

definition confined :: "path set \<Rightarrow> 'a action \<Rightarrow> bool" where
  "confined S m \<longleftrightarrow> (\<forall>d. staged (snd (m d)) = staged d \<and> published (snd (m d)) = published d
     \<and> (\<exists>new. past (snd (m d)) = past d @ new
          \<and> (\<forall>t \<in> insert (tree (snd (m d))) (set new). \<forall>p. p \<notin> S \<longrightarrow> map_of t p = map_of (tree d) p)))"

named_theorems confined_rules \<open>actions that change some paths only\<close>

lemma confinedE:
  assumes "confined S m" "m d = (r, d')"
  obtains new where "staged d' = staged d" "published d' = published d" "past d' = past d @ new"
    "\<And>t p. t = tree d' \<or> t \<in> set new \<Longrightarrow> p \<notin> S \<Longrightarrow> map_of t p = map_of (tree d) p"
  using assms unfolding confined_def by (metis insert_iff snd_conv)

lemma confinedI:
  assumes "\<And>d r d'. m d = (r, d') \<Longrightarrow> staged d' = staged d \<and> published d' = published d
    \<and> (\<exists>new. past d' = past d @ new \<and> (\<forall>t \<in> insert (tree d') (set new). \<forall>p. p \<notin> S \<longrightarrow> map_of t p = map_of (tree d) p))"
  shows "confined S m"
  using assms unfolding confined_def by (metis prod.collapse)

lemma confined_quiet: "quiet m \<Longrightarrow> confined S m"
  by (rule confinedI) (auto dest: quietD)

lemmas confined_leaves = quiet_basic(1-4) [THEN confined_quiet] quiet_need [THEN confined_quiet] quiet_fallible [THEN confined_quiet]
  quiet_ctx [THEN confined_quiet] quiet_lstat [THEN confined_quiet] quiet_found [THEN confined_quiet] quiet_openDirectory [THEN confined_quiet]
  quiet_check [THEN confined_quiet] quiet_removalTree [THEN confined_quiet] quiet_dir_names [THEN confined_quiet] quiet_links [THEN confined_quiet]
  quiet_sync [THEN confined_quiet] quiet_basic(1) [THEN quiet_readFile, THEN confined_quiet] quiet_samePublication [THEN confined_quiet]

declare confined_leaves [confined_rules]

lemma confined_mono: "confined S m \<Longrightarrow> S \<subseteq> S' \<Longrightarrow> confined S' m"
  unfolding confined_def by (meson subsetD)

lemma confined_bnd [confined_rules]:
  assumes m: "confined S m" and k: "\<And>x. confined S (k x)"
  shows "confined S (bnd m k)"
proof (rule confinedI)
  fix d r d' assume "bnd m k d = (r, d')"
  then show "staged d' = staged d \<and> published d' = published d
    \<and> (\<exists>new. past d' = past d @ new \<and> (\<forall>t \<in> insert (tree d') (set new). \<forall>p. p \<notin> S \<longrightarrow> map_of t p = map_of (tree d) p))"
  proof (cases rule: bnd_cases)
    case (failed e)
    with m show ?thesis by (elim confinedE) auto
  next
    case (went_on x d1)
    from m went_on(1) obtain n1 where 1: "staged d1 = staged d" "published d1 = published d" "past d1 = past d @ n1"
      "\<And>t p. t = tree d1 \<or> t \<in> set n1 \<Longrightarrow> p \<notin> S \<Longrightarrow> map_of t p = map_of (tree d) p" by (rule confinedE) (blast intro: that)
    from k went_on(2) obtain n2 where 2: "staged d' = staged d1" "published d' = published d1" "past d' = past d1 @ n2"
      "\<And>t p. t = tree d' \<or> t \<in> set n2 \<Longrightarrow> p \<notin> S \<Longrightarrow> map_of t p = map_of (tree d1) p" by (rule confinedE) (blast intro: that)
    from 1 2 show ?thesis by (auto intro!: exI [of _ "n1 @ n2"])
  qed
qed

lemma confined_andThen [confined_rules]: "confined S m \<Longrightarrow> confined S k \<Longrightarrow> confined S (andThen m k)"
  unfolding andThen_def by (rule confined_bnd)

lemma confined_attempt [confined_rules]: "confined S m \<Longrightarrow> confined S (attempt m)"
  by (simp add: confined_def attempt_def split_beta)

lemma confined_each [confined_rules]: "(\<And>x. x \<in> set xs \<Longrightarrow> confined S (f x)) \<Longrightarrow> confined S (each f xs)"
  by (induction xs) (auto intro!: confined_rules)

lemma confined_syscall:
  assumes "\<And>d t t' p. f d t = Some t' \<Longrightarrow> p \<notin> S \<Longrightarrow> map_of t' p = map_of t p"
  shows "confined S (syscall f)"
proof -
  have "confined S (\<lambda>d. if b then (Inr False, d) else case f d (tree d) of None \<Rightarrow> (Inr False, d) | Some t \<Rightarrow> (Inr True, change t d))" for b
    using assms by (auto simp: confined_def change_def split: option.split)
  then show ?thesis unfolding syscall_def by (intro confined_bnd confined_quiet [OF quiet_basic(3)])
qed

lemma confined_sys:
  assumes "\<And>d t t' p. f d t = Some t' \<Longrightarrow> p \<notin> S \<Longrightarrow> map_of t' p = map_of t p"
  shows "confined S (sys f e)"
  unfolding sys_def using assms by (intro confined_bnd confined_syscall confined_quiet [OF quiet_need])

lemma confined_create: "p \<in> S \<Longrightarrow> confined S (sys (sys_mkdir p) e)" "p \<in> S \<Longrightarrow> confined S (sys (sys_open p mode) e)"
    "p \<in> S \<Longrightarrow> confined S (sys (sys_symlink target p) e)"
  by (rule confined_sys, force simp: sys_mkdir_def sys_open_def sys_symlink_def intro: entry_frames(1))+

lemma confined_rewrite: "p \<in> S \<Longrightarrow> confined S (sys (sys_chmod p mode) e)" "p \<in> S \<Longrightarrow> confined S (sys (sys_append p data) e)"
  by (rule confined_sys, force simp: sys_chmod_def sys_append_def intro: entry_frames(2))+

lemma confined_remove: "p \<in> S \<Longrightarrow> confined S (sys (sys_remove p) e)"
  by (rule confined_sys, force simp: sys_remove_def intro: entry_frames(3))

lemmas confined_calls = confined_create confined_rewrite confined_remove

lemma confined_removeGeneration: "confined {p. under (in_manager (g_name g)) p} (removeGeneration s g)"
proof -
  have "confined {p. under (in_manager (g_name g)) p} (remove_dir (in_manager (g_name g)) g rel)" for rel
    by (auto simp: remove_dir_def intro!: confined_rules confined_calls split: option.split)
  then show ?thesis
    by (auto simp: removeGeneration_def Let_def intro!: confined_rules confined_calls split: option.split)
qed

lemma confined_removeManager: "confined {in_manager ''format.json'', in_manager ''lock'', [managerName]} (removeManager s)"
  by (auto simp: removeManager_def intro!: confined_rules confined_calls)

lemma confined_removePointer: "confined {in_manager name} (removePointer name value)"
  by (auto simp: removePointer_def intro!: confined_rules confined_calls)

lemma confined_cleanup [confined_rules]: "confined S m \<Longrightarrow> confined S (cleanup m)"
  by (auto simp: cleanup_def intro!: confined_rules split: sum.split)

lemma confined_then_fail: "confined S m \<Longrightarrow> confined S (then_fail m e)"
  by (auto simp: then_fail_def intro!: confined_rules split: sum.split)

subsection \<open>Triples\<close>

definition left :: "(tree \<Rightarrow> bool) \<Rightarrow> disk \<Rightarrow> disk \<Rightarrow> bool" where
  "left I d d' \<longleftrightarrow> (\<exists>new. past d' = past d @ new \<and> (\<forall>t \<in> set new. I t))"

definition outcome_ok :: "('a \<Rightarrow> core \<Rightarrow> bool) \<Rightarrow> (install_error list \<Rightarrow> core \<Rightarrow> bool) \<Rightarrow> install_error list + 'a \<Rightarrow> disk \<Rightarrow> bool" where
  "outcome_ok Q E r d = (case r of Inr x \<Rightarrow> Q x (core d) | Inl e \<Rightarrow> E e (core d))"

definition holds :: "(tree \<Rightarrow> bool) \<Rightarrow> (core \<Rightarrow> bool) \<Rightarrow> 'a action \<Rightarrow> ('a \<Rightarrow> core \<Rightarrow> bool) \<Rightarrow> (install_error list \<Rightarrow> core \<Rightarrow> bool) \<Rightarrow> bool" where
  "holds I P m Q E \<longleftrightarrow> (\<forall>d. P (core d) \<longrightarrow> left I d (snd (m d)) \<and> outcome_ok Q E (fst (m d)) (snd (m d)))"

lemma left_same: "past d' = past d \<Longrightarrow> left I d d'"
  by (simp add: left_def)

lemma left_trans: "left I d d1 \<Longrightarrow> left I d1 d2 \<Longrightarrow> left I d d2"
  unfolding left_def by (elim exE conjE) (rule exI, auto)

lemma outcome_ok_simps [simp]: "outcome_ok Q E (Inr x) d = Q x (core d)" "outcome_ok Q E (Inl e) d = E e (core d)"
  by (simp_all add: outcome_ok_def)

lemma holdsI:
  assumes "\<And>d r d'. m d = (r, d') \<Longrightarrow> P (core d) \<Longrightarrow> left I d d' \<and> outcome_ok Q E r d'"
  shows "holds I P m Q E"
  unfolding holds_def using assms [OF prod.collapse [symmetric]] by blast

lemma holdsD: "holds I P m Q E \<Longrightarrow> m d = (r, d') \<Longrightarrow> P (core d) \<Longrightarrow> left I d d' \<and> outcome_ok Q E r d'"
  by (auto simp: holds_def dest: spec [of _ d])

lemma holds_conseq:
  assumes "holds I P m Q E" "\<And>c. P' c \<Longrightarrow> P c" "\<And>x c. Q x c \<Longrightarrow> Q' x c" "\<And>e c. E e c \<Longrightarrow> E' e c"
  shows "holds I P' m Q' E'"
proof (rule holdsI)
  fix d r d' assume "m d = (r, d')" "P' (core d)"
  then have "left I d d' \<and> outcome_ok Q E r d'" using assms(2) by (intro holdsD [OF assms(1)])
  with assms(3,4) show "left I d d' \<and> outcome_ok Q' E' r d'" by (auto simp: outcome_ok_def split: sum.splits)
qed

lemma holds_ret: "(\<And>c. P c \<Longrightarrow> Q x c) \<Longrightarrow> holds I P (ret x) Q E"
  by (simp add: holds_def ret_def left_same)

lemma holds_throw: "(\<And>c. P c \<Longrightarrow> E e c) \<Longrightarrow> holds I P (throw e) Q E"
  by (simp add: holds_def throw_def left_same)

lemma holds_bnd:
  assumes m: "holds I P m R E" and k: "\<And>x. holds I (R x) (k x) Q E"
  shows "holds I P (bnd m k) Q E"
proof (rule holdsI)
  fix d r d' assume b: "bnd m k d = (r, d')" and p: "P (core d)"
  from b show "left I d d' \<and> outcome_ok Q E r d'"
  proof (cases rule: bnd_cases)
    case (failed e)
    with holdsD [OF m failed(1) p] show ?thesis by simp
  next
    case (went_on x d1)
    from holdsD [OF m went_on(1) p] have 1: "left I d d1" "R x (core d1)" by simp_all
    from holdsD [OF k went_on(2) 1(2)] left_trans [OF 1(1)] show ?thesis by blast
  qed
qed

lemma holds_andThen: "holds I P m (\<lambda>_. R) E \<Longrightarrow> holds I R k Q E \<Longrightarrow> holds I P (andThen m k) Q E"
  unfolding andThen_def by (rule holds_bnd)

lemma holds_attempt:
  assumes "holds I P m (\<lambda>x. Q (Inr x)) (\<lambda>e. Q (Inl e))"
  shows "holds I P (attempt m) Q E"
proof (rule holdsI)
  fix d r d' assume a: "attempt m d = (r, d')" and p: "P (core d)"
  then obtain q where q: "m d = (q, d')" "r = Inr q" by (auto simp: attempt_def split: prod.splits)
  with holdsD [OF assms q(1) p] show "left I d d' \<and> outcome_ok Q E r d'" by (simp add: outcome_ok_def split: sum.splits)
qed

lemma holds_quiet:
  assumes "quiet m" "\<And>e c. P c \<Longrightarrow> E e c"
  shows "holds I P m (\<lambda>_. P) E"
proof (rule holdsI)
  fix d r d' assume "m d = (r, d')" and p: "P (core d)"
  with assms(1) have "past d' = past d" "core d' = core d" by (auto simp: core_def dest: quietD)
  with p assms(2) show "left I d d' \<and> outcome_ok (\<lambda>_. P) E r d'" by (auto simp: left_same outcome_ok_def split: sum.split)
qed

lemma holds_confined:
  assumes c: "confined S m" and i: "\<And>t s b. P (t, s, b) \<Longrightarrow> I t" and e: "\<And>x c. P c \<Longrightarrow> E x c"
    and stable: "\<And>t t' s b. P (t, s, b) \<Longrightarrow> (\<And>p. p \<notin> S \<Longrightarrow> map_of t' p = map_of t p) \<Longrightarrow> P (t', s, b)"
  shows "holds I P m (\<lambda>_. P) E"
proof (rule holdsI)
  fix d r d' assume m: "m d = (r, d')" and p: "P (core d)"
  obtain new where n: "staged d' = staged d" "published d' = published d" "past d' = past d @ new"
    "\<And>t p. t = tree d' \<or> t \<in> set new \<Longrightarrow> p \<notin> S \<Longrightarrow> map_of t p = map_of (tree d) p" using c m by (rule confinedE) (blast intro: that)
  have k: "P (t, staged d, published d)" if "t = tree d' \<or> t \<in> set new" for t
    using stable [of "tree d" "staged d" "published d" t] p n(4) [OF that] by (simp add: core_def)
  then have "left I d d'" using n(3) i by (auto simp: left_def)
  moreover have "P (core d')" using k n(1,2) by (simp add: core_def)
  ultimately show "left I d d' \<and> outcome_ok (\<lambda>_. P) E r d'" using e by (auto simp: outcome_ok_def split: sum.split)
qed

lemma syscall_cases:
  assumes "syscall f d = (r, d')"
  obtains (no) "r = Inr False" "past d' = past d" "core d' = core d"
  | (yes) d1 t where "core d1 = core d" "f d1 (tree d1) = Some t" "r = Inr True" "past d' = past d @ [t]" "core d' = (t, staged d1, published d1)"
proof -
  obtain b d1 where f: "fails d = (Inr b, d1)" "core d1 = core d" "past d1 = past d"
    by (cases "faults d") (auto simp: fails_def core_def)
  with assms show ?thesis
    by (cases b) (auto simp: syscall_def bnd_def change_def core_def split: option.splits intro: no yes [of d1])
qed

lemma holds_syscall:
  assumes "\<And>d t. P (core d) \<Longrightarrow> f d (tree d) = Some t \<Longrightarrow> I t \<and> Q True (t, staged d, published d)" and "\<And>c. P c \<Longrightarrow> Q False c"
  shows "holds I P (syscall f) Q E"
proof (rule holdsI)
  fix d r d' assume s: "syscall f d = (r, d')" and p: "P (core d)"
  from s show "left I d d' \<and> outcome_ok Q E r d'"
  proof (cases rule: syscall_cases)
    case no
    with p assms(2) show ?thesis by (simp add: left_same)
  next
    case (yes d1 t)
    with p have "I t" "Q True (t, staged d1, published d1)" using assms(1) [of d1 t] by simp_all
    with yes show ?thesis by (simp add: left_def)
  qed
qed

lemma holds_sys:
  assumes "\<And>d t. P (core d) \<Longrightarrow> f d (tree d) = Some t \<Longrightarrow> I t \<and> Q () (t, staged d, published d)" and "\<And>c. P c \<Longrightarrow> E [e] c"
  shows "holds I P (sys f e) Q E"
  unfolding sys_def
proof (rule holds_bnd)
  show "holds I P (syscall f) (\<lambda>ok c. if ok then Q () c else P c) E" using assms(1) by (intro holds_syscall) auto
  show "holds I (\<lambda>c. if ok then Q () c else P c) (need ok e) Q E" for ok
    using assms(2) by (auto simp: need_def intro!: holds_ret holds_throw)
qed

end
