(* ===== verification/Installation_Props.thy ===== *)
theory Installation_Props
  imports Installation_Logic
begin

text \<open>
  What installing and uninstalling guarantee, whatever fails and wherever the process dies: the command that users run is
  at every moment the old one or the complete new one, nothing outside the installer's own files is touched, and an
  installation that a running process holds is left alone.
\<close>

subsection \<open>What reading establishes\<close>

lemma bnd_Inr: "bnd m k d = (Inr y, d') \<longleftrightarrow> (\<exists>x d1. m d = (Inr x, d1) \<and> k x d1 = (Inr y, d'))"
  by (auto simp: bnd_def split: prod.splits sum.splits)

lemma andThen_Inr: "andThen m k d = (Inr y, d') \<longleftrightarrow> (\<exists>d1. m d = (Inr (), d1) \<and> k d1 = (Inr y, d'))"
  by (simp add: andThen_def bnd_Inr)

lemma basic_Inr [simp]: "ret x d = (Inr y, d') \<longleftrightarrow> y = x \<and> d' = d" "throw e d \<noteq> (Inr y, d')"
    "attempt m d = (Inr r, d') \<longleftrightarrow> m d = (r, d')" "need b e0 d = (Inr (), d') \<longleftrightarrow> b \<and> d' = d"
  by (auto simp: ret_def throw_def attempt_def need_def split: prod.splits)

text \<open>A reading action establishes a fact about the tree and its result.\<close>

definition reads :: "'a action \<Rightarrow> (tree \<Rightarrow> 'a \<Rightarrow> bool) \<Rightarrow> bool" where
  "reads m Q \<longleftrightarrow> quiet m \<and> (\<forall>d x d'. m d = (Inr x, d') \<longrightarrow> Q (tree d) x)"

lemma readsD: "reads m Q \<Longrightarrow> m d = (Inr x, d') \<Longrightarrow> Q (tree d) x \<and> tree d' = tree d"
  by (auto simp: reads_def dest: quietD)

lemma reads_bnd:
  assumes "reads m R" "\<And>x. reads (k x) (\<lambda>t y. R t x \<longrightarrow> Q t y)"
  shows "reads (bnd m k) Q"
  unfolding reads_def
proof (intro conjI allI impI)
  show "quiet (bnd m k)" using assms by (auto simp: reads_def intro!: quiet_rules)
next
  fix d y d' assume "bnd m k d = (Inr y, d')"
  then obtain x d1 where "m d = (Inr x, d1)" "k x d1 = (Inr y, d')" by (auto simp: bnd_Inr)
  with readsD [OF assms(1)] readsD [OF assms(2)] show "Q (tree d) y" by fastforce
qed

lemma reads_quiet: "quiet m \<Longrightarrow> (\<And>t x. Q t x) \<Longrightarrow> reads m Q"
  by (simp add: reads_def)

lemma reads_andThen: "quiet m \<Longrightarrow> reads k Q \<Longrightarrow> reads (andThen m k) Q"
  unfolding andThen_def by (rule reads_bnd [where R = "\<lambda>_ _. True"]) (auto intro: reads_quiet simp: reads_def)

lemma reads_ret: "(\<And>t. Q t x) \<Longrightarrow> reads (ret x) Q" "reads (throw e) Q"
  by (simp_all add: reads_def quiet_rules)

lemma reads_unless: "(\<not> b \<Longrightarrow> reads k Q) \<Longrightarrow> reads (if b then throw e else k) Q"
  by (simp add: reads_ret)

lemma reads_conseq: "reads m R \<Longrightarrow> (\<And>t x. R t x \<Longrightarrow> Q t x) \<Longrightarrow> reads m Q"
  by (simp add: reads_def)

definition stat_of :: "tree \<Rightarrow> path \<Rightarrow> stat \<Rightarrow> bool" where
  "stat_of t p s \<longleftrightarrow> (case s of Found e \<Rightarrow> map_of t p = Some e | Missing \<Rightarrow> map_of t p = None | Unreadable \<Rightarrow> True)"

lemma reads_lstat: "reads (lstat p) (\<lambda>t s. stat_of t p s)"
  unfolding reads_def using quiet_lstat
  by (auto simp: lstat_def bnd_Inr fails_def stat_of_def split: list.splits option.splits)

lemma reads_found: "reads (found p e) (\<lambda>t x. map_of t p = Some x)"
  unfolding found_def
  by (rule reads_bnd [OF reads_lstat]) (auto simp: stat_of_def intro!: reads_ret split: stat.split)

lemma safe_kinds: "safeDirectory e private \<Longrightarrow> \<exists>m. e = Directory m" "safeFile e mode \<Longrightarrow> \<exists>m b. e = Regular m b" "safeLink e \<Longrightarrow> \<exists>m v. e = Symlink m v"
  by (auto simp: safeDirectory_def safeFile_def safeLink_def split: entry.splits)

lemma reads_openDirectory: "reads (openDirectory p private) (\<lambda>t e. map_of t p = Some e \<and> (\<exists>m. e = Directory m))"
  unfolding openDirectory_def
  by (rule reads_bnd [OF reads_lstat])
    (auto simp: stat_of_def intro!: reads_ret reads_andThen quiet_rules reads_bnd [OF reads_lstat] dest: safe_kinds split: stat.split)

lemma reads_openFile: "reads (openFile p mode most) (\<lambda>t e. map_of t p = Some e \<and> (\<exists>m b. e = Regular m b))"
  unfolding openFile_def
  by (rule reads_bnd [OF reads_lstat])
    (auto simp: stat_of_def intro!: reads_ret reads_andThen quiet_rules reads_bnd [OF reads_lstat] dest: safe_kinds split: stat.split)

lemma reads_publicLink: "reads publicLink (\<lambda>t p. map_of t [executableName] = p \<and> (\<forall>e. p = Some e \<longrightarrow> (\<exists>m. e = Symlink m link_target)))"
  unfolding publicLink_def
  by (rule reads_bnd [OF reads_lstat])
    (auto simp: stat_of_def intro!: reads_ret reads_andThen quiet_rules split: stat.split entry.splits)

lemma reads_pointer:
  "reads (pointer name) (\<lambda>t v. if v = [] then map_of t (in_manager name) = None
     else generationName v \<and> (\<exists>m. map_of t (in_manager name) = Some (Symlink m v)))"
  unfolding pointer_def
  by (rule reads_bnd [OF reads_lstat])
    (auto simp: stat_of_def generationName_def intro!: reads_ret reads_andThen quiet_rules split: stat.split entry.splits)

lemma reads_each_with:
  assumes "\<And>x g. reads (f x g) (\<lambda>t g'. R t g \<longrightarrow> R t g' \<and> S t x)"
  shows "reads (each_with f xs g) (\<lambda>t g'. R t g \<longrightarrow> R t g' \<and> (\<forall>x \<in> set xs. S t x))"
proof (induction xs arbitrary: g)
  case (Cons x xs)
  show ?case
    unfolding each_with.simps
    by (rule reads_bnd [OF assms]) (rule reads_conseq [OF Cons.IH], auto)
qed (auto intro: reads_ret)

text \<open>A verified generation is a directory with the executable in it.\<close>

definition whole_generation :: "tree \<Rightarrow> bytes \<Rightarrow> bool" where
  "whole_generation t name \<longleftrightarrow> (\<exists>m. map_of t (in_manager name) = Some (Directory m)) \<and> (\<exists>m b. map_of t (in_manager name @ [executableName]) = Some (Regular m b))"

lemma records_ok_executable: "records_ok known n rs \<Longrightarrow> executableName \<in> set known \<union> rPath ` set rs"
  by (induction known n rs rule: records_ok.induct) (auto simp: Let_def split: if_splits)

lemma split_executable: "split_path executableName = [executableName]"
  by code_simp

lemma reads_readManifest: "quiet ctx \<Longrightarrow> reads (readManifest ctx root name) (\<lambda>_ m. manifest_ok name m)"
  unfolding readManifest_def
  by (rule reads_bnd [where R = "\<lambda>_ _. True"]) (auto intro!: reads_quiet quiet_rules reads_ret split: option.split)

lemma reads_verify_file:
  "reads (verify_file sha root r g) (\<lambda>t g'. g_name g' = g_name g \<and> (\<exists>m b. map_of t (root @ split_path (rPath r)) = Some (Regular m b)))"
  unfolding verify_file_def Let_def
  by (rule reads_bnd [OF reads_openFile])
    (auto simp: stat_of_def intro!: reads_ret reads_andThen quiet_rules reads_bnd [OF reads_lstat] split: stat.split)

lemma reads_verify_walk: "reads (verify_walk n allowed root mbefore rel g) (\<lambda>_ g'. g_name g' = g_name g)"
proof (induction n arbitrary: rel g)
  case (Suc n)
  have e: "reads (verify_entry allowed root mbefore (verify_walk n allowed root mbefore) rel g) (\<lambda>_ g'. g_name g = i \<longrightarrow> g_name g' = i \<and> True)" for rel g i
    unfolding verify_entry_def
    by (auto intro!: reads_ret reads_bnd [OF reads_lstat] reads_bnd [OF reads_openDirectory] reads_conseq [OF Suc.IH] split: stat.split option.split)
  have "reads (each_with (\<lambda>item. verify_entry allowed root mbefore (verify_walk n allowed root mbefore) (rel @ [item])) items g)
      (\<lambda>_ g'. g_name g = g_name g \<longrightarrow> g_name g' = g_name g \<and> (\<forall>x \<in> set items. True))" for items
    by (rule reads_each_with [where R = "\<lambda>_ g'. g_name g' = g_name g" and S = "\<lambda>_ _. True"]) (rule e)
  then have k: "reads (each_with (\<lambda>item. verify_entry allowed root mbefore (verify_walk n allowed root mbefore) (rel @ [item])) items g)
      (\<lambda>_ g'. g_name g' = g_name g)" for items
    by (rule reads_conseq) auto
  show ?case
    unfolding verify_walk.simps
    by (rule reads_bnd [where R = "\<lambda>_ _. True"]) (auto intro!: reads_quiet quiet_rules reads_conseq [OF k])
qed (simp add: reads_ret)

lemma reads_here: "(\<And>t. reads (m t) Q) \<Longrightarrow> reads (\<lambda>d. m (tree d) d) Q"
  unfolding reads_def by (auto intro: quiet_reader)

lemma reads_verifyGeneration: "reads (verifyGeneration sha name identity) (\<lambda>t g. g_name g = name \<and> whole_generation t name)"
proof -
  have files: "reads (each_with (verify_file sha (in_manager name)) (mFiles m) g)
      (\<lambda>t g'. g_name g = name \<longrightarrow> g_name g' = name \<and> (\<forall>r \<in> set (mFiles m). \<exists>i b. map_of t (in_manager name @ split_path (rPath r)) = Some (Regular i b)))" for m g
    by (rule reads_each_with [where R = "\<lambda>_ g'. g_name g' = name"]) (rule reads_conseq [OF reads_verify_file], auto)
  have exe: "\<exists>i b. map_of t (in_manager n @ [executableName]) = Some (Regular i b)"
    if "manifest_ok identity m" "\<forall>r \<in> set (mFiles m). \<exists>i b. map_of t (in_manager n @ split_path (rPath r)) = Some (Regular i b)" for t m n
    using that records_ok_executable [of "[]" 0 "mFiles m"] split_executable by (auto simp: manifest_ok_def)
  show ?thesis
    unfolding verifyGeneration_def Let_def
    by (rule reads_bnd [OF reads_openDirectory], rule reads_bnd [OF reads_lstat])
      (auto intro!: reads_ret reads_bnd [OF reads_readManifest [OF quiet_ctx]] reads_bnd [OF files]
         reads_here [where m = "\<lambda>t. verify_walk (depth t) _ _ _ _ _"] reads_conseq [OF reads_verify_walk] exe
         simp: whole_generation_def in_manager_def [symmetric] split: stat.split)
qed

definition reserved :: "bytes set" where
  "reserved = {''format.json'', ''lock'', ''current'', ''.next''}"

definition inventory_ok :: "tree \<Rightarrow> inventory \<Rightarrow> bool" where
  "inventory_ok t v \<longleftrightarrow> map_of t [executableName] = i_public v \<and> (\<forall>e. i_public v = Some e \<longrightarrow> i_current v \<noteq> [] \<and> (\<exists>m. e = Symlink m link_target))
     \<and> (if i_current v = [] then map_of t (in_manager ''current'') = None
        else generationName (i_current v) \<and> whole_generation t (i_current v) \<and> (\<exists>m. map_of t (in_manager ''current'') = Some (Symlink m (i_current v))))
     \<and> (\<forall>g \<in> set (i_generations v). g_name g \<notin> reserved)"

definition generations_ok :: "bytes \<Rightarrow> entry option \<Rightarrow> tree \<Rightarrow> inventory \<Rightarrow> bool" where
  "generations_ok c p t v \<longleftrightarrow> i_current v = c \<and> i_public v = p \<and> (\<forall>g \<in> set (i_generations v). g_name g \<notin> reserved \<and> whole_generation t (g_name g))"

lemma reads_inspect_items:
  "reads (each_with (inspect_item sha) items v) (\<lambda>t v'. generations_ok c p t v \<longrightarrow> generations_ok c p t v')"
proof -
  have "reads (inspect_item sha name v) (\<lambda>t v'. generations_ok c p t v \<longrightarrow> generations_ok c p t v' \<and> True)" for name v
    unfolding inspect_item_def
    by (auto intro!: reads_ret reads_bnd [OF reads_verifyGeneration] simp: generations_ok_def reserved_def)
  then have "reads (each_with (inspect_item sha) items v) (\<lambda>t v'. generations_ok c p t v \<longrightarrow> generations_ok c p t v' \<and> (\<forall>x \<in> set items. True))"
    by (rule reads_each_with [where S = "\<lambda>_ _. True"])
  then show ?thesis by (rule reads_conseq) simp
qed

lemma inventory_complete:
  assumes "generations_ok c p t v" "map_of t [executableName] = p" "\<forall>e. p = Some e \<longrightarrow> (\<exists>m. e = Symlink m link_target)"
    "if c = [] then map_of t (in_manager ''current'') = None else generationName c \<and> (\<exists>m. map_of t (in_manager ''current'') = Some (Symlink m c))"
    "\<not> (c \<noteq> [] \<and> c \<notin> set (map g_name (i_generations v)))" "\<not> (p \<noteq> None \<and> c = [])"
  shows "inventory_ok t v"
  using assms by (auto simp: inventory_ok_def generations_ok_def)

lemma reads_inspect: "reads (inspect sha) inventory_ok"
proof -
  have "reads (bnd (each_with (inspect_item sha) items \<lparr>i_current = c, i_next = n, i_public = p, i_generations = []\<rparr>)
      (\<lambda>v. let known = map g_name (i_generations v)
           in if c \<noteq> [] \<and> c \<notin> set known \<or> n \<noteq> [] \<and> n \<notin> set known \<or> p \<noteq> None \<and> c = [] then throw [IErrUnmanaged] else ret v))
      (\<lambda>t v. map_of t [executableName] = p \<and> (\<forall>e. p = Some e \<longrightarrow> (\<exists>m. e = Symlink m link_target)) \<longrightarrow>
         (if c = [] then map_of t (in_manager ''current'') = None else generationName c \<and> (\<exists>m. map_of t (in_manager ''current'') = Some (Symlink m c))) \<longrightarrow>
         inventory_ok t v)" for items c n p
    unfolding Let_def
  proof (rule reads_bnd [OF reads_inspect_items [where c = c and p = p]], rule reads_unless, rule reads_ret, intro impI)
    show "inventory_ok t v"
      if "\<not> (c \<noteq> [] \<and> c \<notin> set (map g_name (i_generations v)) \<or> n \<noteq> [] \<and> n \<notin> set (map g_name (i_generations v)) \<or> p \<noteq> None \<and> c = [])"
        "generations_ok c p t \<lparr>i_current = c, i_next = n, i_public = p, i_generations = []\<rparr> \<longrightarrow> generations_ok c p t v"
        "map_of t [executableName] = p \<and> (\<forall>e. p = Some e \<longrightarrow> (\<exists>m. e = Symlink m link_target))"
        "if c = [] then map_of t (in_manager ''current'') = None else generationName c \<and> (\<exists>m. map_of t (in_manager ''current'') = Some (Symlink m c))" for t v
      using that by (intro inventory_complete [of c p]) (auto simp: generations_ok_def split del: if_split)
  qed
  then have k: "reads (bnd (each_with (inspect_item sha) items \<lparr>i_current = c, i_next = n, i_public = p, i_generations = []\<rparr>)
      (\<lambda>v. let known = map g_name (i_generations v)
           in if c \<noteq> [] \<and> c \<notin> set known \<or> n \<noteq> [] \<and> n \<notin> set known \<or> p \<noteq> None \<and> c = [] then throw [IErrUnmanaged] else ret v))
      (\<lambda>t v. A t \<longrightarrow> B t \<longrightarrow> (if c = [] then map_of t (in_manager ''current'') = None else generationName c \<and> (\<exists>m. map_of t (in_manager ''current'') = Some (Symlink m c)))
         \<longrightarrow> map_of t [executableName] = p \<and> (\<forall>e. p = Some e \<longrightarrow> (\<exists>m. e = Symlink m link_target)) \<longrightarrow> inventory_ok t v)" for items c n p A B
    by (rule reads_conseq) blast
  show ?thesis
    unfolding inspect_def
    by (rule reads_bnd [OF reads_publicLink], rule reads_bnd [OF reads_pointer], rule reads_bnd [OF reads_pointer],
        rule reads_bnd [where R = "\<lambda>_ _. True"], rule reads_quiet, rule quiet_dir_names, simp, rule k)
qed

end
