(* ===== verification/Installation_Safe.thy ===== *)
theory Installation_Safe
  imports Installation_Props
begin

text \<open>Installing, phase by phase, over the triples.\<close>

subsection \<open>What users run\<close>

text \<open>The content of the command: the public link, through the current generation, to its executable.\<close>

definition target_of :: "entry option \<Rightarrow> bytes option" where
  "target_of e = (case e of Some (Symlink _ v) \<Rightarrow> Some v | _ \<Rightarrow> None)"

definition file_of :: "entry option \<Rightarrow> bytes option" where
  "file_of e = (case e of Some (Regular _ b) \<Rightarrow> Some b | _ \<Rightarrow> None)"

definition running :: "tree \<Rightarrow> bytes option" where
  "running t =
     (if target_of (map_of t [executableName]) = Some link_target
      then (case target_of (map_of t (in_manager ''current'')) of
              None \<Rightarrow> None | Some g \<Rightarrow> file_of (map_of t (in_manager g @ [executableName])))
      else None)"

lemma target_simps [simp]: "target_of None = None" "target_of (Some (Symlink m v)) = Some v" "file_of (Some (Regular m b)) = Some b"
  by (simp_all add: target_of_def file_of_def)

text \<open>The installer's own paths.\<close>

definition own :: "path \<Rightarrow> bool" where
  "own p \<longleftrightarrow> p = [] \<or> p = [executableName] \<or> under [managerName] p"

definition vital :: "bytes \<Rightarrow> path set" where
  "vital cur = {p. \<not> own p} \<union> {[executableName], in_manager ''current''} \<union> (if cur = [] then {} else {in_manager cur, in_manager cur @ [executableName]})"

definition intact :: "tree \<Rightarrow> bytes \<Rightarrow> tree \<Rightarrow> bool" where
  "intact T cur t \<longleftrightarrow> (\<forall>p \<in> vital cur. map_of t p = map_of T p)"

definition foreign_same :: "tree \<Rightarrow> tree \<Rightarrow> bool" where
  "foreign_same T t \<longleftrightarrow> (\<forall>p. \<not> own p \<longrightarrow> map_of t p = map_of T p)
     \<and> (map_of T [executableName] \<noteq> None \<longrightarrow> map_of t [executableName] = map_of T [executableName])"

definition ok_tree :: "tree \<Rightarrow> bytes \<Rightarrow> tree \<Rightarrow> bool" where
  "ok_tree T data t \<longleftrightarrow> foreign_same T t \<and> (running t = running T \<or> running t = Some data)"

lemma executable_not_manager: "executableName \<noteq> managerName"
  by (simp add: executableName_def managerName_def)

lemma manager_simps [simp]: "in_manager a = in_manager b \<longleftrightarrow> a = b" "in_manager a \<noteq> [executableName]" "in_manager a \<noteq> []" "own (in_manager a)" "own (in_manager a @ r)"
    "under (in_manager a) (in_manager b @ r) \<longleftrightarrow> a = b" "under (in_manager a) (in_manager b) \<longleftrightarrow> a = b" "\<not> under (in_manager a) [executableName]"
    "own [managerName]" "own []" "own [executableName]" "in_manager a @ r \<noteq> [executableName]" "[managerName] \<noteq> [executableName]"
  using executable_not_manager by (auto simp: in_manager_def own_def under_def)

lemma vital_under: "g \<noteq> ''current'' \<Longrightarrow> cur \<noteq> [] \<longrightarrow> g \<noteq> cur \<Longrightarrow> under (in_manager g) p \<Longrightarrow> p \<notin> vital cur"
  by (auto simp: vital_def under_iff) (auto simp: in_manager_def)

lemma vital_own: "in_manager g \<in> vital cur \<longleftrightarrow> g = ''current'' \<or> cur \<noteq> [] \<and> g = cur" "[managerName] \<notin> vital cur"
  using executable_not_manager by (auto simp: vital_def in_manager_def own_def under_def)

lemma intact_stable: "intact T cur t \<Longrightarrow> (\<And>p. p \<notin> S \<Longrightarrow> map_of t' p = map_of t p) \<Longrightarrow> S \<inter> vital cur = {} \<Longrightarrow> intact T cur t'"
  unfolding intact_def by (metis disjoint_iff)

lemma intact_running:
  assumes v: "inventory_ok T v" and i: "intact T (i_current v) t"
  shows "running t = running T"
proof -
  have same: "map_of t p = map_of T p" if "p \<in> vital (i_current v)" for p using i that by (simp add: intact_def)
  have e: "map_of t [executableName] = map_of T [executableName]" "map_of t (in_manager ''current'') = map_of T (in_manager ''current'')"
    by (simp_all add: same vital_def)
  show ?thesis
  proof (cases "i_current v = []")
    case True
    then have "map_of T (in_manager ''current'') = None" using v by (simp add: inventory_ok_def)
    then show ?thesis using e by (simp add: running_def)
  next
    case False
    then have "map_of t (in_manager (i_current v) @ [executableName]) = map_of T (in_manager (i_current v) @ [executableName])"
      by (simp add: same vital_def)
    moreover obtain m where "map_of T (in_manager ''current'') = Some (Symlink m (i_current v))" using v False by (auto simp: inventory_ok_def)
    ultimately show ?thesis using e by (simp add: running_def)
  qed
qed

lemma intact_foreign: "intact T cur t \<Longrightarrow> foreign_same T t"
  by (auto simp: intact_def foreign_same_def vital_def)

lemma intact_ok: "inventory_ok T v \<Longrightarrow> intact T (i_current v) t \<Longrightarrow> ok_tree T data t"
  by (simp add: ok_tree_def intact_running intact_foreign)

lemma vital_current: "inventory_ok T v \<Longrightarrow> i_current v \<noteq> [] \<Longrightarrow> generationName (i_current v)"
  by (simp add: inventory_ok_def)

lemma generation_names:
  assumes "generationName c"
  shows "c \<noteq> ''staging-'' @ x" "c \<noteq> ''format.json''" "c \<noteq> ''lock''" "c \<noteq> ''current''" "c \<noteq> ''.next''"
  using assms by (auto simp: generationName_def)

subsection \<open>More rules\<close>

lemma holds_each:
  assumes "\<And>x. x \<in> set xs \<Longrightarrow> holds I P (f x) (\<lambda>_. P) E"
  shows "holds I P (each f xs) (\<lambda>_. P) E"
  using assms by (induction xs) (auto intro: holds_ret holds_andThen)

lemma holds_each_done:
  assumes "\<And>ys x zs. xs = ys @ x # zs \<Longrightarrow> holds I (P ys) (f x) (\<lambda>_. P (ys @ [x])) E"
  shows "holds I (P []) (each f xs) (\<lambda>_. P xs) E"
proof -
  have "holds I (P ys) (each f zs) (\<lambda>_. P xs) E" if "xs = ys @ zs" for ys zs
    using that
  proof (induction zs arbitrary: ys)
    case (Cons z zs)
    with assms [of ys z zs] Cons.IH [of "ys @ [z]"] show ?case by (auto intro: holds_andThen)
  qed (auto intro: holds_ret)
  from this [of "[]" xs] show ?thesis by simp
qed

lemma holds_vars:
  "(\<And>t s b. P (t, s, b) \<Longrightarrow> Q () (t, map_option f s, b)) \<Longrightarrow> holds I P (on_staged f) Q E"
  "(\<And>t s b. P (t, s, b) \<Longrightarrow> Q () (t, g, b)) \<Longrightarrow> holds I P (set_staged g) Q E"
  "(\<And>t s b. P (t, s, b) \<Longrightarrow> Q () (t, s, x)) \<Longrightarrow> holds I P (set_published x) Q E"
  by (auto simp: holds_def on_staged_def set_staged_def set_published_def core_def left_same)

lemma holds_pre: "(\<And>c. P c \<Longrightarrow> holds I (\<lambda>x. x = c) m Q E) \<Longrightarrow> holds I P m Q E"
  by (simp add: holds_def)

subsection \<open>Staging\<close>

text \<open>Before publication: what users run is untouched and the staged generation has one of its two names.\<close>

definition staged_ok :: "bytes \<Rightarrow> bytes \<Rightarrow> bytes \<Rightarrow> generation option \<Rightarrow> bool" where
  "staged_ok name identity cur s \<longleftrightarrow> (\<forall>g. s = Some g \<longrightarrow> g_name g = name \<or> g_name g = identity \<and> identity \<noteq> cur)"

definition unpublished :: "tree \<Rightarrow> inventory \<Rightarrow> bytes \<Rightarrow> bytes \<Rightarrow> core \<Rightarrow> bool" where
  "unpublished T v name identity c \<longleftrightarrow> (case c of (t, s, b) \<Rightarrow> intact T (i_current v) t \<and> staged_ok name identity (i_current v) s \<and> \<not> b)"

definition staging :: "tree \<Rightarrow> inventory \<Rightarrow> bytes \<Rightarrow> core \<Rightarrow> bool" where
  "staging T v name c \<longleftrightarrow> (case c of (t, s, b) \<Rightarrow> intact T (i_current v) t \<and> (\<forall>g. s = Some g \<longrightarrow> g_name g = name) \<and> \<not> b)"

definition has_file :: "tree \<Rightarrow> path \<Rightarrow> bytes \<Rightarrow> bool" where
  "has_file t p b \<longleftrightarrow> file_of (map_of t p) = Some b"

definition written :: "bytes \<Rightarrow> payload list \<Rightarrow> core \<Rightarrow> bool" where
  "written name fs c \<longleftrightarrow> (\<forall>(n, b) \<in> set fs. has_file (fst c) (in_manager name @ split_path n) b)"

lemma has_file_stable: "has_file t p b \<Longrightarrow> map_of t' p = map_of t p \<Longrightarrow> has_file t' p b"
  by (simp add: has_file_def)

definition run_ok :: "tree \<Rightarrow> inventory \<Rightarrow> bytes \<Rightarrow> bool" where
  "run_ok T v name \<longleftrightarrow> inventory_ok T v \<and> name \<noteq> ''current'' \<and> (i_current v \<noteq> [] \<longrightarrow> name \<noteq> i_current v)"

lemma intact_under:
  assumes "run_ok T v name" "intact T (i_current v) t" "\<And>p. \<not> under (in_manager name) p \<Longrightarrow> map_of t' p = map_of t p"
  shows "intact T (i_current v) t'"
  by (rule intact_stable [OF assms(2), where S = "{p. under (in_manager name) p}"]) (use assms vital_under in \<open>auto simp: run_ok_def\<close>)

lemma staging_intact: "staging T v name (t, s, b) \<longleftrightarrow> intact T (i_current v) t \<and> (\<forall>g. s = Some g \<longrightarrow> g_name g = name) \<and> \<not> b"
  by (simp add: staging_def)

lemma staging_ok: "run_ok T v name \<Longrightarrow> staging T v name (t, s, b) \<Longrightarrow> ok_tree T data t"
  by (auto simp: staging_def run_ok_def intro: intact_ok)

lemma holds_staging:
  assumes "run_ok T v name" "confined {p. under (in_manager name) p} m"
  shows "holds (ok_tree T data) (staging T v name) m (\<lambda>_. staging T v name) (\<lambda>_. staging T v name)"
  using assms(2)
  by (rule holds_confined) (use assms(1) in \<open>auto simp: staging_intact intro: intact_under staging_ok\<close>)

text \<open>One file being written, the earlier ones complete.\<close>

definition writing :: "tree \<Rightarrow> inventory \<Rightarrow> bytes \<Rightarrow> payload list \<Rightarrow> path \<Rightarrow> bytes \<Rightarrow> core \<Rightarrow> bool" where
  "writing T v name fs p b c \<longleftrightarrow> staging T v name c \<and> written name fs c \<and> has_file (fst c) p b
     \<and> (\<forall>(n, _) \<in> set fs. in_manager name @ split_path n \<noteq> p)"

lemma holds_open:
  assumes "run_ok T v name" "under (in_manager name) p"
  shows "holds (ok_tree T data) (\<lambda>c. staging T v name c \<and> written name fs c) (sys (sys_open p mode) e)
    (\<lambda>_. writing T v name fs p []) (\<lambda>_. staging T v name)"
proof (rule holds_sys)
  fix d t assume p: "staging T v name (core d) \<and> written name fs (core d)" and o: "sys_open p mode d (tree d) = Some t"
  have c: "map_of t q = (if q = p then Some (Regular (new_meta mode d) []) else map_of (tree d) q)" "map_of (tree d) p = None" for q
    using o create_entry_other unfolding sys_open_def by blast+
  have new: "in_manager name @ split_path n \<noteq> p" if "(n, b) \<in> set fs" for n b
    using p that c(2) by (auto simp: written_def has_file_def core_def file_of_def)
  have "map_of t q = map_of (tree d) q" if "\<not> under (in_manager name) q" for q using c(1) that assms(2) by auto
  then have i: "staging T v name (t, staged d, published d)"
    using p intact_under [OF assms(1)] by (auto simp: staging_intact core_def)
  moreover have "written name fs (t, staged d, published d)"
    using p new c(1) by (fastforce simp: written_def has_file_def core_def)
  ultimately show "ok_tree T data t \<and> writing T v name fs p [] (t, staged d, published d)"
    using staging_ok [OF assms(1) i] new c(1) by (auto simp: writing_def has_file_def)
qed simp

lemma holds_rewrite:
  assumes "run_ok T v name" "under (in_manager name) p"
    and "\<And>d t. \<exists>f. g d t = rewrite_entry p f t \<and> (\<forall>m x. \<exists>m'. f (Regular m x) = Regular m' (x @ extra))"
  shows "holds (ok_tree T data) (writing T v name fs p b) (sys g e) (\<lambda>_. writing T v name fs p (b @ extra)) (\<lambda>_. staging T v name)"
proof (rule holds_sys)
  fix d t assume w: "writing T v name fs p b (core d)" and o: "g d (tree d) = Some t"
  obtain f where f: "rewrite_entry p f (tree d) = Some t" "\<And>m x. \<exists>m'. f (Regular m x) = Regular m' (x @ extra)"
    using assms(3) [of d "tree d"] o by auto
  have c: "map_of t q = (if q = p then map_option f (map_of (tree d) p) else map_of (tree d) q)" for q
    using rewrite_entry_other [OF f(1)] by blast
  from w obtain m where m: "map_of (tree d) p = Some (Regular m b)"
    by (auto simp: writing_def has_file_def core_def file_of_def split: option.splits entry.splits)
  have "map_of t q = map_of (tree d) q" if "\<not> under (in_manager name) q" for q using c that assms(2) by auto
  then have i: "staging T v name (t, staged d, published d)"
    using w intact_under [OF assms(1)] by (auto simp: writing_def staging_intact core_def)
  moreover have "has_file t p (b @ extra)" using c [of p] m f(2) [of m b] by (auto simp: has_file_def)
  moreover have "written name fs (t, staged d, published d)"
    using w c by (fastforce simp: writing_def written_def has_file_def core_def)
  ultimately show "ok_tree T data t \<and> writing T v name fs p (b @ extra) (t, staged d, published d)"
    using staging_ok [OF assms(1) i] w by (auto simp: writing_def)
qed (simp add: writing_def)

lemma holds_chmod:
  assumes "run_ok T v name" "under (in_manager name) p"
  shows "holds (ok_tree T data) (writing T v name fs p b) (sys (sys_chmod p mode) e) (\<lambda>_. writing T v name fs p b) (\<lambda>_. staging T v name)"
proof -
  have "\<exists>f. sys_chmod p mode d t = rewrite_entry p f t \<and> (\<forall>m x. \<exists>m'. f (Regular m x) = Regular m' (x @ []))" for d t
    unfolding sys_chmod_def by (rule exI, rule conjI, rule refl) simp
  from holds_rewrite [OF assms this] show ?thesis by simp
qed

lemma holds_append:
  assumes "run_ok T v name" "under (in_manager name) p"
  shows "holds (ok_tree T data) (writing T v name fs p b) (sys (sys_append p x) e) (\<lambda>_. writing T v name fs p (b @ x)) (\<lambda>_. staging T v name)"
proof -
  have "\<exists>f. sys_append p x d t = rewrite_entry p f t \<and> (\<forall>m y. \<exists>m'. f (Regular m y) = Regular m' (y @ x))" for d t
    unfolding sys_append_def by (rule exI, rule conjI, rule refl) simp
  from holds_rewrite [OF assms this] show ?thesis .
qed

lemma holds_quiet_staging: "quiet m \<Longrightarrow> holds I (writing T v name fs p b) m (\<lambda>_. writing T v name fs p b) (\<lambda>_. staging T v name)"
  by (rule holds_quiet) (simp_all add: writing_def)

lemma holds_write_chunks:
  assumes "run_ok T v name" "under (in_manager name) p"
  shows "holds (ok_tree T data) (writing T v name fs p b) (write_chunks p x) (\<lambda>_. writing T v name fs p (b @ x)) (\<lambda>_. staging T v name)"
proof (induction "length x" arbitrary: x b rule: less_induct)
  case less
  show ?case
  proof (cases "x = []")
    case True
    then show ?thesis by (simp add: write_chunks.simps holds_ret)
  next
    case False
    then have "length (drop 32768 x) < length x" by simp
    from less [OF this, of "b @ take 32768 x"]
    have k: "holds (ok_tree T data) (writing T v name fs p (b @ take 32768 x)) (write_chunks p (drop 32768 x)) (\<lambda>_. writing T v name fs p (b @ x)) (\<lambda>_. staging T v name)"
      by simp
    have "holds (ok_tree T data) (writing T v name fs p b) (andThen ctx_err (andThen (sys (sys_append p (take 32768 x)) IErrIO) (write_chunks p (drop 32768 x))))
        (\<lambda>_. writing T v name fs p (b @ x)) (\<lambda>_. staging T v name)"
      by (rule holds_andThen [OF holds_quiet_staging [OF quiet_ctx]], rule holds_andThen [OF holds_append [OF assms]], rule k)
    with False show ?thesis by (subst write_chunks.simps) simp
  qed
qed

lemma holds_track:
  "holds I (\<lambda>c. case r of Inl e \<Rightarrow> staging T v name c | Inr _ \<Rightarrow> writing T v name fs p b c) (track q rel r)
     (\<lambda>_. writing T v name fs p b) (\<lambda>_. staging T v name)"
proof -
  let ?P = "\<lambda>c. case r of Inl e \<Rightarrow> staging T v name c | Inr _ \<Rightarrow> writing T v name fs p b c"
  have s: "staging T v name (t, map_option (\<lambda>g. g\<lparr>g_files := f g\<rparr>) s, x)" if "staging T v name (t, s, x)" for t s x f
    using that by (auto simp: staging_intact)
  have w: "writing T v name fs p b (t, map_option (\<lambda>g. g\<lparr>g_files := f g\<rparr>) s, x)" if "writing T v name fs p b (t, s, x)" for t s x f
    using that s by (auto simp: writing_def written_def)
  have st: "?P c \<Longrightarrow> staging T v name c" for c by (auto simp: writing_def split: sum.splits)
  have "holds I ?P (on_staged (\<lambda>g. g\<lparr>g_files := f g\<rparr>)) (\<lambda>_. ?P) (\<lambda>_. staging T v name)" for f
    by (rule holds_vars) (auto intro: s w split: sum.splits)
  moreover have "holds I ?P (ret ()) (\<lambda>_. ?P) (\<lambda>_. staging T v name)" by (rule holds_ret)
  ultimately show ?thesis
    unfolding track_def Let_def
    by (intro holds_bnd [where R = "\<lambda>_. ?P"] holds_quiet quiet_lstat quiet_basic st)
      (auto intro!: holds_andThen [where R = ?P] holds_throw holds_ret st split: stat.split sum.split if_splits)
qed

lemma holds_trackedWrite:
  assumes "run_ok T v name"
  shows "holds (ok_tree T data) (\<lambda>c. staging T v name c \<and> written name fs c) (trackedWrite (in_manager name) n x mode)
    (\<lambda>_ c. staging T v name c \<and> written name (fs @ [(n, x)]) c) (\<lambda>_. staging T v name)"
proof -
  let ?p = "in_manager name @ split_path n"
  have u: "under (in_manager name) ?p" by simp
  have body: "holds (ok_tree T data) (writing T v name fs ?p []) (attempt (andThen (sys (sys_chmod ?p mode) IErrIO) (andThen (write_chunks ?p x) (fallible IErrIO))))
      (\<lambda>r c. case r of Inl e \<Rightarrow> staging T v name c | Inr _ \<Rightarrow> writing T v name fs ?p x c) (\<lambda>_. staging T v name)"
    using holds_write_chunks [OF assms u, where b = "[]" and x = x and data = data and fs = fs]
    by (intro holds_attempt)
      (auto intro!: holds_andThen [OF holds_chmod [OF assms u]] intro: holds_andThen holds_quiet_staging quiet_fallible)
  have "writing T v name fs ?p x c \<Longrightarrow> staging T v name c \<and> written name (fs @ [(n, x)]) c" for c
    by (auto simp: writing_def written_def)
  then show ?thesis
    unfolding trackedWrite_def Let_def
    by (intro holds_andThen [OF holds_open [OF assms u]] holds_bnd [OF body] holds_conseq [OF holds_track]) auto
qed

lemma holds_stage_dir:
  assumes "run_ok T v name"
  shows "holds (ok_tree T data) (staging T v name) (stage_dir (in_manager name) n) (\<lambda>_. staging T v name) (\<lambda>_. staging T v name)"
proof -
  have m: "holds (ok_tree T data) (staging T v name) (sys (sys_mkdir (in_manager name @ split_path n)) IErrIO) (\<lambda>_. staging T v name) (\<lambda>_. staging T v name)"
    by (rule holds_staging [OF assms]) (rule confined_create, simp)
  show ?thesis
    unfolding stage_dir_def
    by (rule holds_andThen [OF m], rule holds_bnd [OF holds_quiet [OF quiet_lstat]], assumption)
      (auto intro!: holds_throw holds_vars simp: staging_intact split: stat.split)
qed

lemma holds_reads:
  assumes "reads m R" "\<And>e c. P c \<Longrightarrow> E e c"
  shows "holds I P m (\<lambda>x c. P c \<and> R (fst c) x) E"
proof (rule holdsI)
  fix d r d' assume m: "m d = (r, d')" and p: "P (core d)"
  have q: "past d' = past d" "core d' = core d" using assms(1) m by (auto simp: reads_def core_def dest: quietD)
  have "R (tree d) x" if "r = Inr x" for x using readsD [OF assms(1)] m that by blast
  with q p assms(2) show "left I d d' \<and> outcome_ok (\<lambda>x c. P c \<and> R (fst c) x) E r d'"
    by (cases r) (auto simp: left_same core_def)
qed

definition staged_files :: "tree \<Rightarrow> inventory \<Rightarrow> bytes \<Rightarrow> payload list \<Rightarrow> core \<Rightarrow> bool" where
  "staged_files T v name fs c \<longleftrightarrow> staging T v name c \<and> written name fs c"

lemma holds_stage_files:
  assumes "run_ok T v name"
  shows "holds (ok_tree T data) (staging T v name) (each (\<lambda>(n, x). trackedWrite (in_manager name) n x (fileMode n)) files)
    (\<lambda>_. staged_files T v name files) (\<lambda>_. staging T v name)"
proof -
  have "holds (ok_tree T data) (staged_files T v name []) (each (\<lambda>(n, x). trackedWrite (in_manager name) n x (fileMode n)) files)
    (\<lambda>_. staged_files T v name files) (\<lambda>_. staging T v name)"
    unfolding staged_files_def by (rule holds_each_done) (auto intro: holds_trackedWrite [OF assms])
  then show ?thesis by (rule holds_conseq) (simp_all add: staged_files_def written_def)
qed

lemma holds_stage_manifest:
  assumes "run_ok T v name"
  shows "holds (ok_tree T data) (staged_files T v name files) (trackedWrite (in_manager name) n x mode) (\<lambda>_. staged_files T v name files) (\<lambda>_. staging T v name)"
  unfolding staged_files_def by (rule holds_conseq [OF holds_trackedWrite [OF assms]]) (auto simp: written_def)

lemma holds_staged_quiet: "quiet m \<Longrightarrow> holds I (staged_files T v name fs) m (\<lambda>_. staged_files T v name fs) (\<lambda>_. staging T v name)"
  by (rule holds_quiet) (simp_all add: staged_files_def)

lemma holds_stage_verify:
  "holds I (staged_files T v name files) (bnd (verifyGeneration sha name i) (\<lambda>g. set_staged (Some g))) (\<lambda>_. staged_files T v name files) (\<lambda>_. staging T v name)"
proof (rule holds_bnd [OF holds_reads [OF reads_verifyGeneration]])
  show "staged_files T v name files c \<Longrightarrow> staging T v name c" for c by (simp add: staged_files_def)
  show "holds I (\<lambda>c. staged_files T v name files c \<and> g_name g = name \<and> whole_generation (fst c) name) (set_staged (Some g)) (\<lambda>_. staged_files T v name files) (\<lambda>_. staging T v name)" for g
    by (rule holds_vars) (auto simp: staged_files_def staging_intact written_def)
qed

lemma holds_stage:
  assumes "run_ok T v name"
  shows "holds (ok_tree T data) (staging T v name) (stage sha name files m) (\<lambda>_. staged_files T v name files) (\<lambda>_. staging T v name)"
proof -
  let ?S = "staging T v name"
  have mk: "holds (ok_tree T data) ?S (sys (sys_mkdir (in_manager name)) IErrIO) (\<lambda>_. ?S) (\<lambda>_. ?S)"
    by (rule holds_staging [OF assms]) (rule confined_create, simp)
  have dirs: "holds (ok_tree T data) ?S (each (stage_dir (in_manager name)) ds) (\<lambda>_. ?S) (\<lambda>_. ?S)" for ds
    by (rule holds_each) (rule holds_stage_dir [OF assms])
  have sync: "quiet (each (\<lambda>_. andThen (fallible IErrIO) syncDirectory) ds)" for ds :: "bytes list"
    by (intro quiet_rules)
  have set1: "holds (ok_tree T data) ?S (set_staged (Some \<lparr>g_name = name, g_manifest = m, g_files = [], g_dirs = [([], info)]\<rparr>)) (\<lambda>_. ?S) (\<lambda>_. ?S)" for info
    by (rule holds_vars) (auto simp: staging_intact)
  have last: "holds (ok_tree T data) (staged_files T v name files) (if maxManifest < length (manifest_text m) then throw [IErrSource]
       else andThen (trackedWrite (in_manager name) ''manifest.json'' (manifest_text m) 384)
         (andThen (each (\<lambda>_. andThen (fallible IErrIO) syncDirectory) [''notices/runtime'', ''notices/reference'', ''notices'', ''.''])
         (bnd (verifyGeneration sha name (mGeneration m)) (\<lambda>g. set_staged (Some g))))) (\<lambda>_. staged_files T v name files) (\<lambda>_. ?S)"
  proof (cases "maxManifest < length (manifest_text m)")
    case True
    then show ?thesis by (simp only: if_True) (rule holds_throw, simp add: staged_files_def)
  next
    case False
    then show ?thesis
      by (simp only: if_False) (rule holds_andThen [OF holds_stage_manifest [OF assms]], rule holds_andThen [OF holds_staged_quiet [OF sync]], rule holds_stage_verify)
  qed
  show ?thesis
    unfolding stage_def Let_def
  proof (rule holds_andThen [OF mk], rule holds_bnd [OF holds_attempt [OF holds_quiet [OF quiet_openDirectory]]])
    fix r :: "install_error list + entry"
    show "holds (ok_tree T data) ?S (case r of Inl e \<Rightarrow> throw (IErrCleanup # e)
        | Inr info \<Rightarrow> andThen (set_staged (Some \<lparr>g_name = name, g_manifest = m, g_files = [], g_dirs = [([], info)]\<rparr>))
             (andThen (each (stage_dir (in_manager name)) [''notices'', ''notices/runtime'', ''notices/reference''])
             (andThen (each (\<lambda>(n, data). trackedWrite (in_manager name) n data (fileMode n)) files)
             (if maxManifest < length (manifest_text m) then throw [IErrSource]
              else andThen (trackedWrite (in_manager name) ''manifest.json'' (manifest_text m) 384)
                  (andThen (each (\<lambda>_. andThen (fallible IErrIO) syncDirectory) [''notices/runtime'', ''notices/reference'', ''notices'', ''.''])
                  (bnd (verifyGeneration sha name (mGeneration m)) (\<lambda>g. set_staged (Some g))))))))
        (\<lambda>_. staged_files T v name files) (\<lambda>_. ?S)"
    proof (cases r)
      case (Inl e)
      then show ?thesis by (simp add: holds_throw)
    next
      case (Inr info)
      show ?thesis
        unfolding Inr sum.case
        by (rule holds_andThen [OF set1], rule holds_andThen [OF dirs], rule holds_andThen [OF holds_stage_files [OF assms]], rule last)
    qed
  qed
qed

subsection \<open>Publishing\<close>

definition ids_ok :: "tree \<Rightarrow> inventory \<Rightarrow> bytes \<Rightarrow> bytes \<Rightarrow> bool" where
  "ids_ok T v name identity \<longleftrightarrow> run_ok T v name \<and> identity \<notin> reserved \<and> identity \<noteq> [] \<and> identity \<noteq> name"

definition ready :: "tree \<Rightarrow> inventory \<Rightarrow> bytes \<Rightarrow> bytes \<Rightarrow> bytes \<Rightarrow> core \<Rightarrow> bool" where
  "ready T v name identity data c \<longleftrightarrow> unpublished T v name identity c \<and> identity \<noteq> i_current v
     \<and> has_file (fst c) (in_manager identity @ [executableName]) data"

lemma staging_unpublished: "staging T v name c \<Longrightarrow> unpublished T v name identity c"
  by (auto simp: staging_def unpublished_def staged_ok_def split: prod.splits)

lemma unpublished_ok: "inventory_ok T v \<Longrightarrow> unpublished T v name identity (t, s, b) \<Longrightarrow> ok_tree T data t \<and> running t = running T"
  by (auto simp: unpublished_def intro: intact_ok intact_running)

lemma notice_files_mem: "notice_files fs n ns = Some fs' \<Longrightarrow> set fs \<subseteq> set fs'"
  by (induction fs n ns rule: notice_files.induct) (auto split: if_splits)

lemma bundle_has_executable: "make_bundle sha notices data i = Some (files, m) \<Longrightarrow> (executableName, data) \<in> set files"
  by (auto simp: make_bundle_def Let_def dest: notice_files_mem split: option.splits)

text \<open>A rename never replaces the current generation, which is a directory with something in it.\<close>

lemma move_not_current:
  assumes "inventory_ok T v" "intact T (i_current v) t" "move_entry (in_manager name) (in_manager identity) t = Some t'" "identity \<noteq> []"
  shows "identity \<noteq> i_current v"
proof
  assume i: "identity = i_current v"
  then have "in_manager identity \<in> vital (i_current v)" "in_manager identity @ [executableName] \<in> vital (i_current v)" using assms(4) by (auto simp: vital_def)
  with assms(1,2,4) i obtain m m' b where d: "map_of t (in_manager identity) = Some (Directory m)"
    "map_of t (in_manager identity @ [executableName]) = Some (Regular m' b)"
    by (auto simp: inventory_ok_def intact_def whole_generation_def)
  then have "occupied (in_manager identity) t"
    unfolding occupied_def list_ex_iff
    by (intro bexI [of _ "(in_manager identity @ [executableName], Regular m' b)"]) (auto dest: map_of_SomeD)
  with d assms(3) show False by (auto simp: move_entry_def is_dir_def split: option.splits if_splits)
qed

lemma holds_rename:
  assumes ids: "ids_ok T v name identity"
  shows "holds (ok_tree T data) (\<lambda>c. staging T v name c \<and> has_file (fst c) (in_manager name @ [executableName]) data)
    (sys (sys_rename (in_manager name) (in_manager identity)) e)
    (\<lambda>_. ready T v name identity data) (\<lambda>_. unpublished T v name identity)"
proof (rule holds_sys)
  fix d t assume p: "staging T v name (core d) \<and> has_file (fst (core d)) (in_manager name @ [executableName]) data"
    and m: "sys_rename (in_manager name) (in_manager identity) d (tree d) = Some t"
  have inv: "inventory_ok T v" "run_ok T v name" and i: "intact T (i_current v) (tree d)" and ne: "identity \<noteq> name" "identity \<noteq> []" "identity \<noteq> ''current''"
    using ids p by (auto simp: ids_ok_def run_ok_def staging_intact core_def reserved_def)
  have cur: "identity \<noteq> i_current v" using move_not_current [OF inv(1) i _ ne(2)] m by (simp add: sys_rename_def)
  have mv: "map_of t p = (if under (in_manager identity) p then map_of (tree d) (in_manager name @ drop (length (in_manager identity)) p)
      else if under (in_manager name) p then None else map_of (tree d) p)" for p
    using move_entry_other [of "in_manager name" "in_manager identity" "tree d" t] m ne(1) by (simp add: sys_rename_def)
  have it: "intact T (i_current v) t"
    using i mv vital_under [of identity "i_current v"] vital_under [of name "i_current v"] cur ne inv(2) by (auto simp: intact_def run_ok_def)
  have "map_of t (in_manager identity @ [executableName]) = map_of (tree d) (in_manager name @ [executableName])"
    by (simp add: mv)
  with p it cur have "ready T v name identity data (t, staged d, published d)"
    by (auto simp: ready_def unpublished_def staging_intact staged_ok_def core_def has_file_def)
  with intact_ok [OF inv(1) it] show "ok_tree T data t \<and> ready T v name identity data (t, staged d, published d)" by simp
qed (auto intro: staging_unpublished)

lemma holds_ready_quiet: "quiet m \<Longrightarrow> holds I (ready T v name identity data) m (\<lambda>_. ready T v name identity data) (\<lambda>_. unpublished T v name identity)"
  by (rule holds_quiet) (simp_all add: ready_def)

lemma holds_rename_staged:
  assumes "ids_ok T v name identity" "(executableName, data) \<in> set files"
  shows "holds (ok_tree T data) (staged_files T v name files) (rename_staged s name identity)
    (\<lambda>_. ready T v name identity data) (\<lambda>_. unpublished T v name identity)"
proof -
  let ?P = "\<lambda>c. staging T v name c \<and> has_file (fst c) (in_manager name @ [executableName]) data"
  have pre: "staged_files T v name files c \<Longrightarrow> ?P c" for c
    using assms(2) split_executable by (fastforce simp: staged_files_def written_def)
  have q: "holds (ok_tree T data) ?P m (\<lambda>_. ?P) (\<lambda>_. unpublished T v name identity)" if "quiet m" for m :: "unit action"
    using that by (rule holds_quiet) (auto intro: staging_unpublished)
  have on: "holds (ok_tree T data) (ready T v name identity data) (on_staged (\<lambda>g. g\<lparr>g_name := identity\<rparr>)) (\<lambda>_. ready T v name identity data) (\<lambda>_. unpublished T v name identity)"
    by (rule holds_vars) (auto simp: ready_def unpublished_def staged_ok_def)
  have "holds (ok_tree T data) ?P (rename_staged s name identity) (\<lambda>_. ready T v name identity data) (\<lambda>_. unpublished T v name identity)"
    unfolding rename_staged_def
    by (rule holds_andThen [OF q [OF quiet_ctx]], rule holds_andThen [OF q [OF quiet_check]], rule holds_andThen [OF holds_rename [OF assms(1)]],
        rule holds_andThen [OF on], rule holds_ready_quiet [OF quiet_sync])
  then show ?thesis by (rule holds_conseq) (auto dest: pre)
qed

end
