(* ===== verification/Installation_Atomic.thy ===== *)
theory Installation_Atomic
  imports Installation_Safe
begin

text \<open>Installing from the pointer's swap to the end, and the whole of \<open>Install\<close>.\<close>

subsection \<open>After publication\<close>

definition live :: "tree \<Rightarrow> bytes \<Rightarrow> bytes \<Rightarrow> tree \<Rightarrow> bool" where
  "live T identity data t \<longleftrightarrow> (\<forall>p. \<not> own p \<longrightarrow> map_of t p = map_of T p)
     \<and> target_of (map_of t (in_manager ''current'')) = Some identity \<and> has_file t (in_manager identity @ [executableName]) data
     \<and> (map_of t [executableName] = map_of T [executableName]
        \<or> map_of T [executableName] = None \<and> target_of (map_of t [executableName]) = Some link_target)"

definition now_live :: "tree \<Rightarrow> bytes \<Rightarrow> bytes \<Rightarrow> core \<Rightarrow> bool" where
  "now_live T identity data c \<longleftrightarrow> live T identity data (fst c) \<and> snd (snd c)"

definition settled :: "tree \<Rightarrow> inventory \<Rightarrow> bytes \<Rightarrow> bytes \<Rightarrow> bytes \<Rightarrow> core \<Rightarrow> bool" where
  "settled T v name identity data c \<longleftrightarrow> unpublished T v name identity c \<or> now_live T identity data c"

definition linked :: "tree \<Rightarrow> bool" where
  "linked t \<longleftrightarrow> target_of (map_of t [executableName]) = Some link_target"

lemma live_running: "live T identity data t \<Longrightarrow> linked t \<Longrightarrow> running t = Some data"
  by (simp add: live_def running_def linked_def has_file_def)

lemma live_ok:
  assumes "inventory_ok T v" "live T identity data t"
  shows "ok_tree T data t"
proof -
  have "running t = running T \<or> running t = Some data"
  proof (cases "linked t")
    case True
    with assms(2) show ?thesis by (simp add: live_running)
  next
    case False
    with assms(2) have e: "map_of t [executableName] = map_of T [executableName]" by (auto simp: live_def linked_def)
    with False have "running t = None" "running T = None" by (auto simp: running_def linked_def)
    then show ?thesis by simp
  qed
  with assms(2) show ?thesis by (auto simp: ok_tree_def foreign_same_def live_def)
qed

lemma live_stable:
  assumes "live T identity data t" "\<And>p. p \<notin> S \<Longrightarrow> map_of t' p = map_of t p"
    and "S \<inter> ({p. \<not> own p} \<union> {[executableName], in_manager ''current'', in_manager identity @ [executableName]}) = {}"
  shows "live T identity data t'"
proof -
  have "map_of t' p = map_of t p" if "\<not> own p \<or> p \<in> {[executableName], in_manager ''current'', in_manager identity @ [executableName]}" for p
    using assms(2,3) that by blast
  with assms(1) show ?thesis by (simp add: live_def has_file_def)
qed

subsection \<open>Swapping the pointer\<close>

lemma manager_reserved_vital: "inventory_ok T v \<Longrightarrow> g \<in> {''.next'', ''lock'', ''format.json''} \<Longrightarrow> in_manager g \<notin> vital (i_current v)"
  using generation_names by (fastforce simp: vital_own dest: vital_current)

lemma ready_stable:
  assumes "ids_ok T v name identity" "ready T v name identity data (t, s, b)" "\<And>p. p \<notin> {in_manager ''.next''} \<Longrightarrow> map_of t' p = map_of t p"
  shows "ready T v name identity data (t', s, b)"
proof -
  have "intact T (i_current v) t'"
    by (rule intact_stable [where S = "{in_manager ''.next''}" and t = t])
      (use assms manager_reserved_vital in \<open>auto simp: ready_def unpublished_def ids_ok_def run_ok_def\<close>)
  moreover have "map_of t' (in_manager identity @ [executableName]) = map_of t (in_manager identity @ [executableName])"
    by (rule assms(3)) (simp add: in_manager_def)
  ultimately show ?thesis using assms(2) by (simp add: ready_def unpublished_def has_file_def)
qed

lemma ready_ok: "ids_ok T v name identity \<Longrightarrow> ready T v name identity data (t, s, b) \<Longrightarrow> ok_tree T data t"
  using unpublished_ok by (auto simp: ready_def ids_ok_def run_ok_def)

lemma ready_settled: "ready T v name identity data c \<Longrightarrow> settled T v name identity data c"
  by (simp add: ready_def settled_def)

lemma holds_ready_confined:
  assumes "ids_ok T v name identity" "confined {in_manager ''.next''} m"
  shows "holds (ok_tree T data) (ready T v name identity data) m (\<lambda>_. ready T v name identity data) (\<lambda>_. settled T v name identity data)"
  by (rule holds_confined [OF assms(2)]) (use assms(1) in \<open>auto intro: ready_ok ready_settled ready_stable\<close>)

text \<open>The moment of publication.\<close>

lemma swap_live:
  assumes ids: "ids_ok T v name identity" and r: "ready T v name identity data (t, s, b)"
    and n: "target_of (map_of t (in_manager ''.next'')) = Some identity" and m: "move_entry (in_manager ''.next'') (in_manager ''current'') t = Some t'"
  shows "live T identity data t'"
proof -
  have mv: "map_of t' p = (if under (in_manager ''current'') p then map_of t (in_manager ''.next'' @ drop (length (in_manager ''current'')) p)
      else if under (in_manager ''.next'') p then None else map_of t p)" for p
    using move_entry_other [OF m] by simp
  have i: "intact T (i_current v) t" and f: "has_file t (in_manager identity @ [executableName]) data" and ne: "identity \<notin> reserved"
    using r ids by (auto simp: ready_def unpublished_def ids_ok_def)
  have "map_of t' p = map_of T p" if "\<not> own p" for p
  proof -
    have "\<not> under (in_manager g) p" for g using that by (auto simp: under_iff)
    with mv i that show ?thesis by (simp add: intact_def vital_def)
  qed
  moreover have "map_of t' [executableName] = map_of T [executableName]" using mv i by (simp add: intact_def vital_def)
  moreover have "map_of t' (in_manager ''current'') = map_of t (in_manager ''.next'')" using mv [of "in_manager ''current''"] by simp
  moreover have "map_of t' (in_manager identity @ [executableName]) = map_of t (in_manager identity @ [executableName])"
    using mv [of "in_manager identity @ [executableName]"] ne by (auto simp: reserved_def)
  ultimately show ?thesis using n f by (simp add: live_def has_file_def)
qed

lemma holds_swap_pointer:
  assumes ids: "ids_ok T v name identity"
  shows "holds (ok_tree T data) (ready T v name identity data) (swap_pointer identity) (\<lambda>_. now_live T identity data) (\<lambda>_. settled T v name identity data)"
proof -
  let ?R = "ready T v name identity data" and ?E = "\<lambda>_. settled T v name identity data"
  let ?N = "\<lambda>c. ?R c \<and> target_of (map_of (fst c) (in_manager ''.next'')) = Some identity"
  have inv: "inventory_ok T v" using ids by (simp add: ids_ok_def run_ok_def)
  have link: "holds (ok_tree T data) ?R (sys (sys_symlink identity (in_manager ''.next'')) IErrIO) (\<lambda>_. ?N) ?E"
  proof (rule holds_sys)
    fix d t assume p: "?R (core d)" and o: "sys_symlink identity (in_manager ''.next'') d (tree d) = Some t"
    have c: "map_of t q = (if q = in_manager ''.next'' then Some (Symlink (new_meta 511 d) identity) else map_of (tree d) q)" for q
      using o create_entry_other unfolding sys_symlink_def by blast
    have "?R (t, staged d, published d)"
      by (rule ready_stable [OF ids, where t = "tree d"]) (use p c in \<open>simp_all add: core_def\<close>)
    with ready_ok [OF ids this] c show "ok_tree T data t \<and> ?N (t, staged d, published d)" by simp
  qed (rule ready_settled)
  have swap: "holds (ok_tree T data) ?N (syscall (sys_rename (in_manager ''.next'') (in_manager ''current'')))
      (\<lambda>ok c. if ok then live T identity data (fst c) else ?R c) ?E"
  proof (rule holds_syscall)
    fix d t assume p: "?N (core d)" and m: "sys_rename (in_manager ''.next'') (in_manager ''current'') d (tree d) = Some t"
    have "live T identity data t"
      by (rule swap_live [OF ids, where t = "tree d" and s = "staged d" and b = "published d"]) (use p m in \<open>simp_all add: core_def sys_rename_def\<close>)
    with live_ok [OF inv this] show "ok_tree T data t \<and> (if True then live T identity data (fst (t, staged d, published d)) else ?R (t, staged d, published d))" by simp
  qed simp
  have set: "holds (ok_tree T data) (\<lambda>c. live T identity data (fst c)) (set_published True) (\<lambda>_. now_live T identity data) ?E"
    by (rule holds_vars) (simp add: now_live_def)
  have undo: "holds (ok_tree T data) ?R (bnd (attempt (removePointer ''.next'' identity))
      (\<lambda>r. case r of Inl _ \<Rightarrow> throw [IErrIO, IErrCleanup] | Inr _ \<Rightarrow> throw [IErrIO])) (\<lambda>_. now_live T identity data) ?E"
    by (rule holds_bnd [OF holds_ready_confined [OF ids confined_attempt [OF confined_removePointer]]])
      (auto intro!: holds_throw ready_settled split: sum.split)
  show ?thesis
    unfolding swap_pointer_def
  proof (rule holds_andThen [OF link], rule holds_bnd [OF swap])
    fix ok
    show "holds (ok_tree T data) (\<lambda>c. if ok then live T identity data (fst c) else ?R c)
        (if ok then set_published True else bnd (attempt (removePointer ''.next'' identity)) (\<lambda>r. case r of Inl _ \<Rightarrow> throw [IErrIO, IErrCleanup] | Inr _ \<Rightarrow> throw [IErrIO]))
        (\<lambda>_. now_live T identity data) ?E"
      using set undo by (cases ok) simp_all
  qed
qed

subsection \<open>After the swap\<close>

lemma holds_live_confined:
  assumes "inventory_ok T v" "confined {p. under (in_manager g) p} m" "g \<noteq> identity" "g \<noteq> ''current''"
  shows "holds (ok_tree T data) (\<lambda>c. now_live T identity data c \<and> linked (fst c)) m (\<lambda>_ c. now_live T identity data c \<and> linked (fst c)) (\<lambda>_. now_live T identity data)"
proof (rule holds_confined [OF assms(2)])
  show "ok_tree T data t" if "now_live T identity data (t, s, b) \<and> linked (fst (t, s, b))" for t s b
    using that live_ok [OF assms(1), of identity data t] by (simp add: now_live_def)
  show "now_live T identity data (t', s, b) \<and> linked (fst (t', s, b))"
    if "now_live T identity data (t, s, b) \<and> linked (fst (t, s, b))" and same: "\<And>p. p \<notin> {p. under (in_manager g) p} \<Longrightarrow> map_of t' p = map_of t p" for t t' s b
  proof -
    have disj: "{p. under (in_manager g) p} \<inter> ({p. \<not> own p} \<union> {[executableName], in_manager ''current'', in_manager identity @ [executableName]}) = {}"
      using assms(3,4) by (auto simp: under_iff) (auto simp: in_manager_def)
    have "live T identity data t'" by (rule live_stable [OF _ same disj]) (use that(1) in \<open>simp add: now_live_def\<close>)
    moreover have "map_of t' [executableName] = map_of t [executableName]" by (rule same) simp
    ultimately show ?thesis using that(1) by (simp add: now_live_def linked_def)
  qed
qed simp

lemma holds_publish_link:
  assumes "inventory_ok T v" "i_public v = None"
  shows "holds (ok_tree T data) (now_live T identity data) publish_link (\<lambda>_ c. now_live T identity data c \<and> linked (fst c)) (\<lambda>_. now_live T identity data)"
  unfolding publish_link_def
proof (rule holds_andThen)
  show "holds (ok_tree T data) (now_live T identity data) (sys (sys_symlink link_target [executableName]) IErrIO)
      (\<lambda>_ c. now_live T identity data c \<and> linked (fst c)) (\<lambda>_. now_live T identity data)"
  proof (rule holds_sys)
    fix d t assume p: "now_live T identity data (core d)" and o: "sys_symlink link_target [executableName] d (tree d) = Some t"
    have c: "map_of t q = (if q = [executableName] then Some (Symlink (new_meta 511 d) link_target) else map_of (tree d) q)" for q
      using o create_entry_other unfolding sys_symlink_def by blast
    have "map_of T [executableName] = None" using assms by (simp add: inventory_ok_def)
    moreover have "q \<noteq> [executableName]" if "\<not> own q" for q using that by auto
    ultimately have "live T identity data t" using p by (auto simp: now_live_def live_def core_def c has_file_def)
    with live_ok [OF assms(1) this] p show "ok_tree T data t \<and> now_live T identity data (t, staged d, published d) \<and> linked (fst (t, staged d, published d))"
      by (simp add: now_live_def linked_def c core_def)
  qed
  show "holds (ok_tree T data) (\<lambda>c. now_live T identity data c \<and> linked (fst c)) syncDirectory (\<lambda>_ c. now_live T identity data c \<and> linked (fst c)) (\<lambda>_. now_live T identity data)"
    by (rule holds_quiet [OF quiet_sync]) simp
qed

lemma live_linked:
  assumes "inventory_ok T v" "i_public v \<noteq> None" "live T identity data t"
  shows "linked t"
  using assms by (auto simp: inventory_ok_def live_def linked_def)

lemma holds_after_publication:
  assumes "inventory_ok T v" "identity \<noteq> i_current v"
  shows "holds (ok_tree T data) (now_live T identity data) (after_publication s v)
    (\<lambda>_ c. now_live T identity data c \<and> linked (fst c)) (\<lambda>_. now_live T identity data)"
proof -
  let ?L = "\<lambda>c. now_live T identity data c \<and> linked (fst c)" and ?E = "\<lambda>_. now_live T identity data"
  have pub: "holds (ok_tree T data) (now_live T identity data) (if i_public v = None then publish_link else ret ()) (\<lambda>_. ?L) ?E"
    using holds_publish_link [OF assms(1)] live_linked [OF assms(1)]
    by (cases "i_public v = None") (auto intro!: holds_ret simp: now_live_def)
  have old: "holds (ok_tree T data) ?L (if g_name g = i_current v then cleanup (removeGeneration s g) else ret ()) (\<lambda>_. ?L) ?E"
    if "g \<in> set (i_generations v)" for g
  proof (cases "g_name g = i_current v")
    case True
    have "g_name g \<noteq> ''current''" using assms(1) that by (auto simp: inventory_ok_def reserved_def)
    with True assms(2) holds_live_confined [OF assms(1) confined_cleanup [OF confined_removeGeneration [of g s]], of identity data]
    show ?thesis by simp
  qed (auto intro: holds_ret)
  have sync: "holds (ok_tree T data) ?L (cleanup syncDirectory) (\<lambda>_. ?L) ?E"
    by (rule holds_quiet) (auto simp: cleanup_def intro!: quiet_rules split: sum.split)
  show ?thesis
    unfolding after_publication_def
    by (rule holds_andThen [OF holds_quiet [OF quiet_sync]], assumption, rule holds_andThen [OF pub],
        rule holds_andThen [OF holds_each [OF old]], assumption, rule sync)
qed

subsection \<open>The steps of an installation\<close>

lemma holds_fact: "(\<And>c. P c \<Longrightarrow> A) \<Longrightarrow> (A \<Longrightarrow> holds I P m Q E) \<Longrightarrow> holds I P m Q E"
  by (auto simp: holds_def)

lemma holds_if: "holds I P a Q E \<Longrightarrow> holds I P b Q E \<Longrightarrow> holds I P (if c then a else b) Q E"
  by simp

lemma holds_sum: "(\<And>e. holds I P (f e) Q E) \<Longrightarrow> (\<And>y. holds I P (g y) Q E) \<Longrightarrow> holds I P (case x of Inl e \<Rightarrow> f e | Inr y \<Rightarrow> g y) Q E"
  by (cases x) simp_all

lemma holds_mono: "holds I P m Q E \<Longrightarrow> (\<And>t. I t \<Longrightarrow> I' t) \<Longrightarrow> holds I' P m Q E"
  unfolding holds_def left_def by metis

lemma fresh_ids:
  assumes "inventory_ok T v"
  shows "ids_ok T v (''staging-'' @ x) (''generation-'' @ x)"
proof -
  have "''staging-'' @ x \<noteq> i_current v" if "i_current v \<noteq> []"
    using generation_names(1) [OF vital_current [OF assms that], of x] by (rule not_sym)
  with assms show ?thesis by (auto simp: ids_ok_def run_ok_def reserved_def)
qed

definition clear :: "tree \<Rightarrow> inventory \<Rightarrow> core \<Rightarrow> bool" where
  "clear T v c \<longleftrightarrow> intact T (i_current v) (fst c) \<and> fst (snd c) = None \<and> \<not> snd (snd c)"

lemma clear_staging: "clear T v c \<Longrightarrow> staging T v name c"
  by (cases c) (simp add: clear_def staging_def)

lemma clear_settled: "clear T v c \<Longrightarrow> settled T v name identity data c"
  by (simp add: settled_def staging_unpublished [OF clear_staging])

lemma holds_publication:
  assumes "ids_ok T v name identity"
  shows "holds (ok_tree T data) (ready T v name identity data)
    (andThen ctx_err (andThen (samePublication s v) (andThen (swap_pointer identity) (after_publication s v))))
    (\<lambda>_ c. now_live T identity data c \<and> linked (fst c)) (\<lambda>_. settled T v name identity data)"
proof (rule holds_fact [where A = "identity \<noteq> i_current v"])
  assume ne: "identity \<noteq> i_current v"
  have q: "holds (ok_tree T data) (ready T v name identity data) m (\<lambda>_. ready T v name identity data) (\<lambda>_. settled T v name identity data)" if "quiet m" for m :: "unit action"
    using that by (rule holds_quiet) (rule ready_settled)
  have inv: "inventory_ok T v" using assms by (simp add: ids_ok_def run_ok_def)
  have last: "holds (ok_tree T data) (now_live T identity data) (after_publication s v)
      (\<lambda>_ c. now_live T identity data c \<and> linked (fst c)) (\<lambda>_. settled T v name identity data)"
    by (rule holds_conseq [OF holds_after_publication [OF inv ne]]) (simp_all add: settled_def)
  show ?thesis
    by (rule holds_andThen [OF q [OF quiet_ctx]], rule holds_andThen [OF q [OF quiet_samePublication]],
        rule holds_andThen [OF holds_swap_pointer [OF assms]], rule last)
qed (simp add: ready_def)

lemma holds_install_steps:
  assumes inv: "inventory_ok T v" and i: "random = None \<or> random = Some i"
  defines "name \<equiv> ''staging-'' @ hex_encode i" and "identity \<equiv> ''generation-'' @ hex_encode i"
  shows "holds (ok_tree T data) (clear T v) (install_steps sha notices random data s v)
    (\<lambda>_ c. now_live T identity data c \<and> linked (fst c)) (\<lambda>_. settled T v name identity data)"
proof -
  let ?E = "\<lambda>_. settled T v name identity data"
  have ids: "ids_ok T v name identity" unfolding name_def identity_def by (rule fresh_ids [OF inv])
  then have run: "run_ok T v name" by (simp add: ids_ok_def)
  have stage: "holds (ok_tree T data) (clear T v) (stage sha name files m) (\<lambda>_. staged_files T v name files) ?E" for files m
    by (rule holds_conseq [OF holds_stage [OF run]]) (auto simp: settled_def intro: clear_staging staging_unpublished)
  have rename: "holds (ok_tree T data) (staged_files T v name files) (rename_staged s name identity) (\<lambda>_. ready T v name identity data) ?E"
    if "make_bundle sha notices data identity = Some (files, m)" for files m
    by (rule holds_conseq [OF holds_rename_staged [OF ids bundle_has_executable [OF that]]]) (simp_all add: settled_def)
  have some: "holds (ok_tree T data) (clear T v) (case make_bundle sha notices data identity of None \<Rightarrow> throw [IErrSource]
      | Some (files, m) \<Rightarrow> andThen (stage sha name files m) (andThen (rename_staged s name identity)
          (andThen ctx_err (andThen (samePublication s v) (andThen (swap_pointer identity) (after_publication s v))))))
      (\<lambda>_ c. now_live T identity data c \<and> linked (fst c)) ?E"
  proof (cases "make_bundle sha notices data identity")
    case None
    then show ?thesis by (simp add: holds_throw clear_settled)
  next
    case (Some fm)
    obtain files m where fm: "fm = (files, m)" by (cases fm)
    show ?thesis
      unfolding Some fm option.case prod.case
      by (rule holds_andThen [OF stage], rule holds_andThen [OF rename [OF Some [unfolded fm]]], rule holds_publication [OF ids])
  qed
  have "holds (ok_tree T data) (clear T v) (case random of None \<Rightarrow> throw [IErrIO]
      | Some i \<Rightarrow> let identity = ''generation-'' @ hex_encode i; name = ''staging-'' @ hex_encode i in (case make_bundle sha notices data identity of None \<Rightarrow> throw [IErrSource]
          | Some (files, m) \<Rightarrow> andThen (stage sha name files m) (andThen (rename_staged s name identity)
              (andThen ctx_err (andThen (samePublication s v) (andThen (swap_pointer identity) (after_publication s v)))))))
      (\<lambda>_ c. now_live T identity data c \<and> linked (fst c)) ?E"
    using i
  proof
    assume "random = None"
    then show ?thesis by (simp only: option.case) (rule holds_throw, rule clear_settled)
  next
    assume "random = Some i"
    with some show ?thesis by (simp only: option.case Let_def name_def identity_def)
  qed
  with holds_quiet [OF quiet_ctx, of "clear T v" ?E] clear_settled show ?thesis
    unfolding install_steps_def by (blast intro: holds_andThen)
qed

subsection \<open>Undoing\<close>

definition ended :: "tree \<Rightarrow> bytes \<Rightarrow> install_error list \<Rightarrow> core \<Rightarrow> bool" where
  "ended T data e c \<longleftrightarrow> ok_tree T data (fst c) \<and> (IErrPublished \<in> set e \<or> running (fst c) = running T)"

lemma intact_ended: "inventory_ok T v \<Longrightarrow> intact T (i_current v) (fst c) \<Longrightarrow> ended T data e c"
  by (simp add: ended_def intact_ok intact_running)

lemma holds_intact:
  assumes "inventory_ok T v" "confined S m" "S \<inter> vital (i_current v) = {}"
  shows "holds (ok_tree T data) (\<lambda>c. intact T (i_current v) (fst c)) m (\<lambda>_ c. intact T (i_current v) (fst c)) (\<lambda>_ c. intact T (i_current v) (fst c))"
  using assms(2) by (rule holds_confined) (use assms(1) in \<open>auto intro: intact_ok intact_stable [OF _ _ assms(3)]\<close>)

lemma holds_then_fail:
  assumes "holds I P m (\<lambda>_. R) (\<lambda>_. R)" "\<And>c e. R c \<Longrightarrow> E e c"
  shows "holds I P (then_fail m e) (\<lambda>_ _. False) E"
  unfolding then_fail_def
  by (rule holds_bnd [OF holds_attempt [where Q = "\<lambda>_. R"], OF assms(1)]) (auto intro!: holds_throw assms(2) split: sum.split)

lemma manager_files_disjoint: "inventory_ok T v \<Longrightarrow> {in_manager ''format.json'', in_manager ''lock'', [managerName]} \<inter> vital (i_current v) = {}"
  using manager_reserved_vital [of T v] vital_own(2) by auto

lemma generation_disjoint: "g \<noteq> ''current'' \<Longrightarrow> i_current v \<noteq> [] \<longrightarrow> g \<noteq> i_current v \<Longrightarrow> {p. under (in_manager g) p} \<inter> vital (i_current v) = {}"
  using vital_under by blast

lemma holds_rollback:
  assumes inv: "inventory_ok T v" and ids: "ids_ok T v name identity"
  shows "holds (ok_tree T data) (settled T v name identity data) (rollback s v e) (\<lambda>_ _. False) (ended T data)"
proof (rule holdsI)
  let ?P = "\<lambda>c. intact T (i_current v) (fst c)"
  let ?last = "if was_created s \<and> i_current v = [] then then_fail (removeManager s) e else throw e"
  fix d r d' assume r: "rollback s v e d = (r, d')" and p: "settled T v name identity data (core d)"
  show "left (ok_tree T data) d d' \<and> outcome_ok (\<lambda>_ _. False) (ended T data) r d'"
  proof (cases "published d")
    case True
    with r p have "r = Inl (IErrPublished # e)" "d' = d" "live T identity data (tree d)"
      by (auto simp: rollback_def settled_def unpublished_def now_live_def core_def)
    with live_ok [OF inv this(3)] show ?thesis by (simp add: left_same ended_def core_def)
  next
    case False
    with p have u: "unpublished T v name identity (core d)" by (simp add: settled_def now_live_def core_def)
    have "holds (ok_tree T data) ?P (then_fail (removeManager s) e) (\<lambda>_ _. False) (ended T data)"
      by (rule holds_then_fail [OF holds_intact [OF inv confined_removeManager manager_files_disjoint [OF inv]]]) (rule intact_ended [OF inv])
    moreover have "holds (ok_tree T data) ?P (throw e) (\<lambda>_ _. False) (ended T data)" by (rule holds_throw) (rule intact_ended [OF inv])
    ultimately have last: "holds (ok_tree T data) ?P ?last (\<lambda>_ _. False) (ended T data)" by (rule holds_if)
    have "holds (ok_tree T data) ?P (case staged d of None \<Rightarrow> ?last
      | Some g \<Rightarrow> bnd (attempt (removeGeneration s g)) (\<lambda>r. case r of Inl c \<Rightarrow> throw (e @ IErrCleanup # c) | Inr _ \<Rightarrow> ?last)) (\<lambda>_ _. False) (ended T data)"
    proof (cases "staged d")
      case None
      with last show ?thesis by simp
    next
      case (Some g)
      with u ids have "g_name g \<noteq> ''current''" "i_current v \<noteq> [] \<longrightarrow> g_name g \<noteq> i_current v"
        by (auto simp: unpublished_def staged_ok_def core_def ids_ok_def run_ok_def reserved_def)
      note gone = holds_intact [OF inv confined_removeGeneration generation_disjoint [OF this]]
      show ?thesis
        unfolding Some option.case
      proof (rule holds_bnd [OF holds_attempt [where Q = "\<lambda>_. ?P"], OF gone])
        fix q :: "install_error list + unit"
        have "holds (ok_tree T data) ?P (throw (e @ IErrCleanup # c)) (\<lambda>_ _. False) (ended T data)" for c :: "install_error list"
          by (rule holds_throw) (rule intact_ended [OF inv])
        with last show "holds (ok_tree T data) ?P (case q of Inl c \<Rightarrow> throw (e @ IErrCleanup # c) | Inr _ \<Rightarrow> ?last) (\<lambda>_ _. False) (ended T data)"
          by (cases q) (simp_all only: sum.case)
      qed
    qed
    from holdsD [OF this] r False u show ?thesis
      by (auto simp: rollback_def Let_def unpublished_def core_def split: option.splits)
  qed
qed

lemma holds_reclaim:
  assumes inv: "inventory_ok T v"
  shows "holds (ok_tree T data) (\<lambda>c. intact T (i_current v) (fst c)) (cleanup (reclaim s v)) (\<lambda>_ c. intact T (i_current v) (fst c)) (ended T data)"
proof -
  let ?P = "\<lambda>c. intact T (i_current v) (fst c)"
  have n: "holds (ok_tree T data) ?P (if i_next v \<noteq> [] then removePointer ''.next'' (i_next v) else ret ()) (\<lambda>_. ?P) (\<lambda>_. ?P)"
    using holds_intact [OF inv confined_removePointer, of "''.next''"] manager_reserved_vital [OF inv, of "''.next''"] by (auto intro: holds_ret)
  have g: "holds (ok_tree T data) ?P (if g_name g \<noteq> i_current v then removeGeneration s g else ret ()) (\<lambda>_. ?P) (\<lambda>_. ?P)"
    if "g \<in> set (i_generations v)" for g
    using that inv holds_intact [OF inv confined_removeGeneration generation_disjoint, of g data s]
    by (cases "g_name g = i_current v") (auto simp: inventory_ok_def reserved_def intro: holds_ret)
  have "holds (ok_tree T data) ?P (reclaim s v) (\<lambda>_. ?P) (\<lambda>_. ?P)"
    unfolding reclaim_def
    by (rule holds_andThen [OF holds_quiet [OF quiet_check]], assumption, rule holds_andThen [OF n], rule holds_each, rule g)
  then show ?thesis
    unfolding cleanup_def
    by (intro holds_bnd [OF holds_attempt [where Q = "\<lambda>_. ?P"]]) (auto intro!: holds_throw holds_ret intact_ended [OF inv] split: sum.split)
qed

subsection \<open>The opened store\<close>

text \<open>Opening the store creates the two directories, the lock and the marker, and discarding a new store removes the last three.\<close>

definition base :: "tree \<Rightarrow> tree \<Rightarrow> bool" where
  "base T t \<longleftrightarrow> (\<forall>p. p \<notin> {[], [managerName], in_manager ''lock'', in_manager ''format.json''} \<longrightarrow> map_of t p = map_of T p)"

lemma base_running:
  assumes "base T t"
  shows "running t = running T"
proof -
  have same: "map_of t [executableName] = map_of T [executableName]" "map_of t (in_manager ''current'') = map_of T (in_manager ''current'')"
      "map_of t (in_manager g @ [executableName]) = map_of T (in_manager g @ [executableName])" for g
    using assms executable_not_manager by (auto simp: base_def in_manager_def)
  show ?thesis unfolding running_def same ..
qed

lemma base_exe: "base T t \<Longrightarrow> map_of t [executableName] = map_of T [executableName]"
  by (simp add: base_def executable_not_manager in_manager_def)

lemma base_foreign:
  assumes "base T t"
  shows "foreign_same T t"
proof -
  have "map_of t p = map_of T p" if "\<not> own p" for p
  proof -
    have "p \<notin> {[], [managerName], in_manager ''lock'', in_manager ''format.json''}" using that by auto
    with assms show ?thesis unfolding base_def by blast
  qed
  with base_exe [OF assms] show ?thesis by (simp add: foreign_same_def)
qed

lemma base_ended: "base T (fst c) \<Longrightarrow> ended T data e c"
  by (simp add: ended_def ok_tree_def base_running base_foreign)

lemma base_ok: "base T t \<Longrightarrow> ok_tree T data t"
  by (simp add: ok_tree_def base_running base_foreign)

lemma base_ok_tree: "base T0 T \<Longrightarrow> ok_tree T data t \<Longrightarrow> ok_tree T0 data t"
  using base_running [of T0 T] base_exe [of T0 T] base_foreign [of T0 T] by (auto simp: ok_tree_def foreign_same_def)

lemma base_ended_from: "base T0 T \<Longrightarrow> ended T data e c \<Longrightarrow> ended T0 data e c"
  using base_running [of T0 T] by (auto simp: ended_def intro: base_ok_tree)

lemma holds_base:
  assumes "confined {[], [managerName], in_manager ''lock'', in_manager ''format.json''} m"
  shows "holds (ok_tree T data) (\<lambda>c. base T (fst c)) m (\<lambda>_ c. base T (fst c)) (\<lambda>_ c. base T (fst c))"
  using assms by (rule holds_confined) (auto intro: base_ok simp: base_def)

lemma confined_enter_store: "confined {[], [managerName], in_manager ''lock'', in_manager ''format.json''} (enter_store ctx_err bin created shared)"
proof -
  have h: "confined S (handle p)" "confined S (lockFile shared)" "confined S (old_lock ctx_err shared)" for S p shared
    by (intro confined_quiet quiet_rules)+
  show ?thesis
    by (auto simp: enter_store_def new_lock_def writeFile_def Let_def intro!: confined_rules confined_calls h split: sum.split)
qed

lemma confined_openStore: "confined {[], [managerName], in_manager ''lock'', in_manager ''format.json''} (openStore ctx_err bin_path new shared)"
proof -
  have "confined {[], [managerName], in_manager ''lock'', in_manager ''format.json''} (sys sys_mkdir_all IErrLocation)"
    by (rule confined_sys) (auto simp: sys_mkdir_all_def split: if_splits)
  then show ?thesis
    by (auto simp: openStore_def stat_bin_def intro!: confined_rules confined_calls confined_enter_store split: stat.split)
qed

subsection \<open>Installing\<close>

lemma holds_discard_new:
  "holds (ok_tree T data) (\<lambda>c. fst c = T) (discard_new s e) (\<lambda>_ _. False) (ended T data)"
proof -
  have p: "holds (ok_tree T data) (\<lambda>c. base T (fst c)) (discard_new s e) (\<lambda>_ _. False) (ended T data)"
    unfolding discard_new_def
    by (intro holds_if holds_throw base_ended
        holds_then_fail [OF holds_base [OF confined_mono [OF confined_removeManager]]]) auto
  show ?thesis by (rule holds_conseq [OF p]) (simp_all add: base_def)
qed

lemma holds_install_body:
  assumes inv: "inventory_ok T v"
  shows "holds (ok_tree T data) (clear T v)
    (bnd (attempt (install_steps sha notices random data s v)) (\<lambda>q. case q of Inl e \<Rightarrow> rollback s v e | Inr _ \<Rightarrow> ret ()))
    (\<lambda>_ c. ok_tree T data (fst c) \<and> running (fst c) = Some data) (ended T data)"
proof -
  define i where "i = (case random of None \<Rightarrow> [] | Some i \<Rightarrow> i)"
  let ?name = "''staging-'' @ hex_encode i" and ?identity = "''generation-'' @ hex_encode i"
  have i: "random = None \<or> random = Some i" by (simp add: i_def split: option.split)
  let ?Q = "\<lambda>q c. case q of Inl e \<Rightarrow> settled T v ?name ?identity data c | Inr _ \<Rightarrow> now_live T ?identity data c \<and> linked (fst c)"
  have a: "holds (ok_tree T data) (clear T v) (attempt (install_steps sha notices random data s v)) ?Q (ended T data)"
    by (rule holds_attempt) (use holds_install_steps [OF inv i] in simp)
  show ?thesis
  proof (rule holds_bnd [OF a])
    fix q :: "install_error list + unit"
    show "holds (ok_tree T data) (?Q q) (case q of Inl e \<Rightarrow> rollback s v e | Inr _ \<Rightarrow> ret ())
        (\<lambda>_ c. ok_tree T data (fst c) \<and> running (fst c) = Some data) (ended T data)"
    proof (cases q)
      case (Inl e)
      show ?thesis unfolding Inl sum.case by (rule holds_conseq [OF holds_rollback [OF inv fresh_ids [OF inv]]]) simp_all
    next
      case (Inr u)
      show ?thesis unfolding Inr sum.case by (rule holds_ret) (auto simp: now_live_def live_running live_ok [OF inv])
    qed
  qed
qed

lemma holds_install_opened:
  "holds (ok_tree T data) (\<lambda>c. fst c = T) (install_opened sha notices random data force s)
    (\<lambda>_ c. ok_tree T data (fst c) \<and> running (fst c) = Some data) (ended T data)"
proof -
  let ?Q = "\<lambda>_ c. ok_tree T data (fst c) \<and> running (fst c) = Some data" and ?E = "ended T data"
  have here: "fst c = T \<Longrightarrow> ?E e c" for e c by (rule base_ended) (simp add: base_def)
  have drop: "holds (ok_tree T data) (\<lambda>c. fst c = T) (discard_new s e) ?Q ?E" for e
    by (rule holds_conseq [OF holds_discard_new]) simp_all
  have go: "holds (ok_tree T data) (\<lambda>c. fst c = T) (andThen (cleanup (reclaim s v)) (andThen (set_staged None) (andThen (set_published False)
      (bnd (attempt (install_steps sha notices random data s v)) (\<lambda>q. case q of Inl e \<Rightarrow> rollback s v e | Inr _ \<Rightarrow> ret ()))))) ?Q ?E"
    if inv: "inventory_ok T v" for v
  proof (rule holds_andThen)
    show "holds (ok_tree T data) (\<lambda>c. fst c = T) (cleanup (reclaim s v)) (\<lambda>_ c. intact T (i_current v) (fst c)) ?E"
      by (rule holds_conseq [OF holds_reclaim [OF inv]]) (simp_all add: intact_def)
    show "holds (ok_tree T data) (\<lambda>c. intact T (i_current v) (fst c)) (andThen (set_staged None) (andThen (set_published False)
      (bnd (attempt (install_steps sha notices random data s v)) (\<lambda>q. case q of Inl e \<Rightarrow> rollback s v e | Inr _ \<Rightarrow> ret ())))) ?Q ?E"
      by (rule holds_andThen [OF holds_vars(2) [where Q = "\<lambda>_ c. intact T (i_current v) (fst c) \<and> fst (snd c) = None"]], simp,
          rule holds_andThen [OF holds_vars(3) [where Q = "\<lambda>_. clear T v"]], simp add: clear_def, rule holds_install_body [OF inv])
  qed
  have then_go: "holds (ok_tree T data) (\<lambda>c. fst c = T) (bnd (attempt ctx_err) (\<lambda>c. case c of Inl e \<Rightarrow> discard_new s e
      | Inr _ \<Rightarrow> andThen (cleanup (reclaim s v)) (andThen (set_staged None) (andThen (set_published False)
      (bnd (attempt (install_steps sha notices random data s v)) (\<lambda>q. case q of Inl e \<Rightarrow> rollback s v e | Inr _ \<Rightarrow> ret ())))))) ?Q ?E"
    if inv: "inventory_ok T v" for v
    by (rule holds_bnd [OF holds_quiet [OF quiet_attempt [OF quiet_ctx] here]], assumption, rule holds_sum [OF drop go [OF inv]])
  let ?R = "\<lambda>r c. fst c = T \<and> (case r of Inl e \<Rightarrow> True | Inr v \<Rightarrow> inventory_ok T v)"
  have a: "holds (ok_tree T data) (\<lambda>c. fst c = T) (attempt (inspect sha)) ?R ?E"
    by (rule holds_attempt) (rule holds_conseq [OF holds_reads [OF reads_inspect, where P = "\<lambda>c. fst c = T" and E = "\<lambda>_ c. fst c = T"]], auto)
  show ?thesis
    unfolding install_opened_def
  proof (rule holds_bnd [OF a])
    fix r
    show "holds (ok_tree T data) (?R r) (case r of Inl e \<Rightarrow> discard_new s e
      | Inr v \<Rightarrow> if i_public v \<noteq> None \<and> \<not> force then throw [IErrExists]
          else bnd (attempt ctx_err) (\<lambda>c. case c of Inl e \<Rightarrow> discard_new s e
            | Inr _ \<Rightarrow> andThen (cleanup (reclaim s v)) (andThen (set_staged None) (andThen (set_published False)
              (bnd (attempt (install_steps sha notices random data s v)) (\<lambda>q. case q of Inl e \<Rightarrow> rollback s v e | Inr _ \<Rightarrow> ret ())))))) ?Q ?E"
    proof (cases r)
      case (Inl e)
      show ?thesis unfolding Inl sum.case using drop [of e] by simp
    next
      case (Inr v)
      have t: "holds (ok_tree T data) (\<lambda>c. fst c = T \<and> inventory_ok T v) (throw [IErrExists]) ?Q ?E" by (rule holds_throw) (simp add: here)
      show ?thesis
        unfolding Inr sum.case
        by (rule holds_fact [where A = "inventory_ok T v"], simp, rule holds_if [OF t], rule holds_conseq [OF then_go]) auto
    qed
  qed
qed

lemma holds_closing:
  assumes "holds I P m Q E"
  shows "holds I P (closing m) Q E"
proof -
  let ?R = "\<lambda>r c. case r of Inl e \<Rightarrow> E e c | Inr x \<Rightarrow> Q x c"
  have a: "holds I P (attempt m) ?R E" by (rule holds_attempt) (simp add: assms)
  show ?thesis
    unfolding closing_def
  proof (rule holds_bnd [OF a])
    fix r :: "install_error list + unit"
    have f: "holds I (?R r) (case r of Inl e \<Rightarrow> throw e | Inr _ \<Rightarrow> ret ()) Q E"
      by (cases r) (auto intro: holds_throw holds_ret)
    have "holds I (?R r) close_store (\<lambda>_. ?R r) E"
    proof (rule holdsI)
      fix d q d' assume "close_store d = (q, d')" and p: "?R r (core d)"
      then have "q = Inr ()" "past d' = past d" "core d' = core d"
        by (auto simp: close_store_def core_def split: option.splits bool.splits)
      with p show "left I d d' \<and> outcome_ok (\<lambda>_. ?R r) E q d'" by (simp add: left_same)
    qed
    from holds_andThen [OF this f] show "holds I (?R r) (andThen close_store (case r of Inl e \<Rightarrow> throw e | Inr _ \<Rightarrow> ret ())) Q E" .
  qed
qed

lemma reads_readSource: "reads (readSource is_abs (Some src)) (\<lambda>_ x. x = content_of src)"
  by (auto simp: readSource_def intro!: reads_ret reads_andThen quiet_rules)

lemma holds_Install:
  "holds (ok_tree T (content_of src)) (\<lambda>c. fst c = T) (Install sha notices random bin_path is_abs (Some src) force)
     (\<lambda>_ c. ok_tree T (content_of src) (fst c) \<and> running (fst c) = Some (content_of src)) (ended T (content_of src))"
proof -
  let ?d = "content_of src"
  let ?Q = "\<lambda>_ c. ok_tree T ?d (fst c) \<and> running (fst c) = Some ?d" and ?E = "ended T ?d"
  have here: "fst c = T \<Longrightarrow> ?E e c" for e c by (rule base_ended) (simp add: base_def)
  have opened: "holds (ok_tree T ?d) (\<lambda>c. base T (fst c)) (closing (install_opened sha notices random ?d force s)) ?Q ?E" for s
  proof (rule holds_pre)
    fix c :: core assume b: "base T (fst c)"
    have "holds (ok_tree T ?d) (\<lambda>x. fst x = fst c) (closing (install_opened sha notices random ?d force s))
        (\<lambda>_ x. ok_tree (fst c) ?d (fst x) \<and> running (fst x) = Some ?d) (ended (fst c) ?d)"
      by (rule holds_mono [OF holds_closing [OF holds_install_opened]]) (rule base_ok_tree [OF b])
    then show "holds (ok_tree T ?d) (\<lambda>x. x = c) (closing (install_opened sha notices random ?d force s)) ?Q ?E"
      by (rule holds_conseq) (auto intro: base_ok_tree [OF b] base_ended_from [OF b])
  qed
  have store: "holds (ok_tree T ?d) (\<lambda>c. fst c = T) (openStore ctx_err bin_path True False) (\<lambda>_ c. base T (fst c)) ?E"
    by (rule holds_conseq [OF holds_base [OF confined_openStore]]) (auto simp: base_def intro: base_ended [unfolded base_def])
  have rest: "holds (ok_tree T ?d) (\<lambda>c. base T (fst c)) (case so of None \<Rightarrow> throw [IOther] | Some s \<Rightarrow> closing (install_opened sha notices random ?d force s)) ?Q ?E" for so
    using opened by (cases so) (auto intro: holds_throw base_ended)
  show ?thesis
    unfolding Install_def
  proof (rule holds_andThen [OF holds_quiet [OF quiet_ctx here]], assumption, rule holds_bnd [OF holds_reads [OF reads_readSource]])
    fix data
    show "holds (ok_tree T ?d) (\<lambda>c. fst c = T \<and> data = ?d) (bnd (openStore ctx_err bin_path True False)
        (\<lambda>so. case so of None \<Rightarrow> throw [IOther] | Some s \<Rightarrow> closing (install_opened sha notices random data force s))) ?Q ?E"
      using holds_bnd [OF store rest] by (cases "data = ?d") (simp_all add: holds_def)
  qed (rule here)
qed

text \<open>
  C38: Installing is atomic. Whatever system call fails and wherever the process dies, every tree it leaves has the old
  command, complete, or the new one, complete, behind the public link; a public entry that is there already is never
  replaced and nothing outside the installer's own paths changes. After success users run the new file, and after an error
  that does not say that the new version was published they run exactly what they ran.
\<close>

theorem install_is_atomic:
  assumes "Install sha notices random bin_path is_abs (Some src) force d = (r, d')"
  shows "\<exists>new. past d' = past d @ new
     \<and> (\<forall>t \<in> insert (tree d') (set new). foreign_same (tree d) t \<and> (running t = running (tree d) \<or> running t = Some (content_of src)))
     \<and> (case r of Inr _ \<Rightarrow> running (tree d') = Some (content_of src)
         | Inl e \<Rightarrow> IErrPublished \<in> set e \<or> running (tree d') = running (tree d))"
proof -
  have "left (ok_tree (tree d) (content_of src)) d d'
      \<and> outcome_ok (\<lambda>_ c. ok_tree (tree d) (content_of src) (fst c) \<and> running (fst c) = Some (content_of src)) (ended (tree d) (content_of src)) r d'"
    by (rule holdsD [OF holds_Install assms]) (simp add: core_def)
  then show ?thesis
    by (cases r) (auto simp: left_def ended_def ok_tree_def core_def)
qed

text \<open>A first installation whose random source fails: nine trees later the directory is as it was.\<close>

definition plain_meta :: "nat \<Rightarrow> nat \<Rightarrow> meta" where
  "plain_meta i p = \<lparr>ino = i, owned = True, single_link = True, special_bits = False, perm = p, mtime = 0\<rparr>"

definition disk_with :: "tree \<Rightarrow> disk" where
  "disk_with t = \<lparr>tree = t, past = [], faults = [], fresh = 100, now = 1, sharers = 0, locked = False, mine = None, staged = None, published = False\<rparr>"

definition failed_install :: "(install_error list + unit) \<times> disk" where
  "failed_install = Install (\<lambda>_. []) [] None ''/b'' True (Some (Regular (plain_meta 12 493) ''v2'')) False (disk_with [([], Directory (plain_meta 11 493))])"

theorem install_is_atomic_witness:
  "fst failed_install = Inl [IErrIO] \<and> length (past (snd failed_install)) = 9 \<and> map fst (tree (snd failed_install)) = [[]]
     \<and> running (tree (snd failed_install)) = None"
proof -
  have r: "fst failed_install = Inl [IErrIO]" "length (past (snd failed_install)) = 9" "map fst (tree (snd failed_install)) = [[]]" by code_simp+
  have "running [([], Directory (plain_meta 11 493))] = None" by code_simp
  then have "running (tree (snd failed_install)) = None"
    using install_is_atomic [OF prod.collapse [symmetric], of "\<lambda>_. []" "[]" None "''/b''" True "Regular (plain_meta 12 493) ''v2''" False "disk_with [([], Directory (plain_meta 11 493))]"]
    unfolding failed_install_def [symmetric] r(1) by (simp add: disk_with_def)
  with r show ?thesis by simp
qed

subsection \<open>Uninstalling\<close>

text \<open>Until the public link is removed everything is as it was; afterwards there is no command.\<close>

definition uninstalling :: "tree \<Rightarrow> tree \<Rightarrow> bool" where
  "uninstalling T t \<longleftrightarrow> (\<forall>p. \<not> own p \<longrightarrow> map_of t p = map_of T p)
     \<and> (map_of t [executableName] = None \<or> map_of t [executableName] = map_of T [executableName] \<and> running t = running T)"

definition unlinked :: "tree \<Rightarrow> core \<Rightarrow> bool" where
  "unlinked T c \<longleftrightarrow> (\<forall>p. \<not> own p \<longrightarrow> map_of (fst c) p = map_of T p) \<and> map_of (fst c) [executableName] = None"

lemma unlinked_uninstalling: "unlinked T c \<Longrightarrow> uninstalling T (fst c)"
  by (simp add: unlinked_def uninstalling_def)

lemma holds_unlinked:
  assumes "confined S m" "\<And>p. p \<in> S \<Longrightarrow> under [managerName] p"
  shows "holds (uninstalling T) (unlinked T) m (\<lambda>_. unlinked T) (\<lambda>_. unlinked T)"
proof (rule holds_confined [OF assms(1)])
  show "unlinked T (t', s, b)" if "unlinked T (t, s, b)" "\<And>p. p \<notin> S \<Longrightarrow> map_of t' p = map_of t p" for t t' s b
  proof -
    have "p \<notin> S" if "\<not> own p \<or> p = [executableName]" for p
      using assms(2) [of p] that executable_not_manager by (auto simp: own_def under_def)
    with that show ?thesis by (auto simp: unlinked_def)
  qed
qed (auto dest: unlinked_uninstalling)

lemma holds_removeManager:
  "holds (uninstalling T) (unlinked T) (removeManager s) (\<lambda>_ c. unlinked T c \<and> map_of (fst c) [managerName] = None) (\<lambda>_. unlinked T)"
proof -
  have q: "holds (uninstalling T) P m (\<lambda>_. P) (\<lambda>_. P)" if "quiet m" for P and m :: "'x action"
    using that by (rule holds_quiet)
  have f: "holds (uninstalling T) (unlinked T) (sys (sys_remove p) IErrIO) (\<lambda>_. unlinked T) (\<lambda>_. unlinked T)" if "under [managerName] p" for p
    by (rule holds_unlinked [OF confined_remove, of p "{p}"]) (use that in auto)
  have l: "holds (uninstalling T) (unlinked T) (sys (sys_remove [managerName]) IErrIO) (\<lambda>_ c. unlinked T c \<and> map_of (fst c) [managerName] = None) (\<lambda>_. unlinked T)"
  proof (rule holds_sys)
    fix d t assume p: "unlinked T (core d)" and m: "sys_remove [managerName] d (tree d) = Some t"
    have c: "map_of t p = (if p = [managerName] then None else map_of (tree d) p)" for p
      using remove_entry_other m by (simp add: sys_remove_def)
    have "unlinked T (t, staged d, published d)" using p c by (auto simp: unlinked_def core_def)
    with c show "uninstalling T t \<and> unlinked T (t, staged d, published d) \<and> map_of (fst (t, staged d, published d)) [managerName] = None"
      by (auto dest: unlinked_uninstalling)
  qed
  have s: "holds (uninstalling T) (\<lambda>c. unlinked T c \<and> map_of (fst c) [managerName] = None) syncDirectory (\<lambda>_ c. unlinked T c \<and> map_of (fst c) [managerName] = None) (\<lambda>_. unlinked T)"
    by (rule holds_quiet [OF quiet_sync]) simp
  have t: "holds (uninstalling T) (unlinked T) (throw e) Q (\<lambda>_. unlinked T)" for e and Q :: "unit \<Rightarrow> core \<Rightarrow> bool" by (rule holds_throw)
  have all: "holds (uninstalling T) (unlinked T) (andThen (sys (sys_remove (in_manager ''format.json'')) IErrIO)
      (andThen (sys (sys_remove (in_manager ''lock'')) IErrIO) (andThen (sys (sys_remove [managerName]) IErrIO) syncDirectory)))
      (\<lambda>_ c. unlinked T c \<and> map_of (fst c) [managerName] = None) (\<lambda>_. unlinked T)"
    by (rule holds_andThen [OF f], simp add: in_manager_def under_def, rule holds_andThen [OF f], simp add: in_manager_def under_def, rule holds_andThen [OF l], rule s)
  show ?thesis
    unfolding removeManager_def
    by (rule holds_andThen [OF q [OF quiet_check]], rule holds_bnd [OF q [OF quiet_attempt [OF quiet_dir_names]]], rule holds_if [OF t],
        rule holds_bnd [OF q [OF quiet_attempt [OF quiet_readFile [OF quiet_basic(1)]]]], rule holds_if [OF t all])
qed

lemma holds_cleanup:
  assumes "holds I P m Q (\<lambda>_. R)"
  shows "holds I P (cleanup m) Q (\<lambda>_. R)"
proof -
  let ?R = "\<lambda>r c. case r of Inl e \<Rightarrow> R c | Inr x \<Rightarrow> Q x c"
  have a: "holds I P (attempt m) ?R (\<lambda>_. R)" by (rule holds_attempt) (simp add: assms)
  show ?thesis
    unfolding cleanup_def
  proof (rule holds_bnd [OF a])
    fix r :: "install_error list + unit"
    show "holds I (?R r) (case r of Inl e \<Rightarrow> throw (IErrCleanup # e) | Inr _ \<Rightarrow> ret ()) Q (\<lambda>_. R)"
      by (cases r) (auto intro: holds_throw holds_ret)
  qed
qed

lemma holds_unlink:
  assumes "inventory_ok T v"
  shows "holds (uninstalling T) (\<lambda>c. fst c = T)
    (if i_public v = None then ret () else andThen (sys (sys_remove [executableName]) IErrIO) (cleanup syncDirectory))
    (\<lambda>_. unlinked T) (\<lambda>_ c. uninstalling T (fst c))"
proof (cases "i_public v = None")
  case True
  with assms show ?thesis by (auto intro!: holds_ret simp: unlinked_def inventory_ok_def)
next
  case False
  have r: "holds (uninstalling T) (\<lambda>c. fst c = T) (sys (sys_remove [executableName]) IErrIO) (\<lambda>_. unlinked T) (\<lambda>_ c. uninstalling T (fst c))"
  proof (rule holds_sys)
    fix d t assume p: "fst (core d) = T" and m: "sys_remove [executableName] d (tree d) = Some t"
    have "map_of t p = (if p = [executableName] then None else map_of (tree d) p)" for p
      using remove_entry_other m by (simp add: sys_remove_def)
    with p have "unlinked T (t, staged d, published d)" by (auto simp: unlinked_def core_def)
    then show "uninstalling T t \<and> unlinked T (t, staged d, published d)" by (auto dest: unlinked_uninstalling)
  qed (simp add: uninstalling_def)
  have "holds (uninstalling T) (unlinked T) (cleanup syncDirectory) (\<lambda>_. unlinked T) (\<lambda>_ c. uninstalling T (fst c))"
    by (rule holds_conseq [OF holds_cleanup [OF holds_quiet [OF quiet_sync]]]) (auto intro: unlinked_uninstalling)
  with holds_andThen [OF r this] False show ?thesis by (simp only: if_False)
qed

lemma holds_remaining:
  "holds (uninstalling T) (unlinked T)
     (andThen (each (\<lambda>(n, value). if value = [] then ret () else cleanup (removePointer n value)) pointers)
       (andThen (each (\<lambda>g. cleanup (removeGeneration s g)) gs) (cleanup (removeManager s))))
     (\<lambda>_ c. unlinked T c \<and> map_of (fst c) [managerName] = None) (\<lambda>_. unlinked T)"
proof -
  have m: "under [managerName] (in_manager n)" for n by (simp add: in_manager_def under_def)
  have p: "holds (uninstalling T) (unlinked T) ((\<lambda>(n, value). if value = [] then ret () else cleanup (removePointer n value)) x) (\<lambda>_. unlinked T) (\<lambda>_. unlinked T)" for x
    using holds_unlinked [OF confined_cleanup [OF confined_removePointer]] m by (cases x) (auto intro: holds_ret)
  have g: "holds (uninstalling T) (unlinked T) (cleanup (removeGeneration s g)) (\<lambda>_. unlinked T) (\<lambda>_. unlinked T)" for g
    using holds_unlinked [OF confined_cleanup [OF confined_removeGeneration]] under_trans [OF m] by blast
  show ?thesis
    by (rule holds_andThen [OF holds_each [OF p]], rule holds_andThen [OF holds_each [OF g]], rule holds_cleanup [OF holds_removeManager])
qed

lemma holds_uninstall_opened:
  "holds (uninstalling T) (\<lambda>c. fst c = T) (uninstall_opened sha flip s)
     (\<lambda>_ c. unlinked T c \<and> map_of (fst c) [managerName] = None) (\<lambda>_ c. uninstalling T (fst c))"
proof -
  let ?P = "\<lambda>v c. fst c = T \<and> inventory_ok (fst c) v" and ?E = "\<lambda>_ c. uninstalling T (fst c)"
  have here: "fst c = T \<Longrightarrow> ?E e c" for e c by (simp add: uninstalling_def)
  have q: "holds (uninstalling T) (?P v) m (\<lambda>_. ?P v) ?E" if "quiet m" for v and m :: "unit action"
    using that by (rule holds_quiet) (simp add: uninstalling_def)
  have rest: "holds (uninstalling T) (unlinked T)
     (andThen (each (\<lambda>(n, value). if value = [] then ret () else cleanup (removePointer n value)) pointers)
       (andThen (each (\<lambda>g. cleanup (removeGeneration s g)) gs) (cleanup (removeManager s))))
     (\<lambda>_ c. unlinked T c \<and> map_of (fst c) [managerName] = None) ?E" for pointers gs
    by (rule holds_conseq [OF holds_remaining]) (auto intro: unlinked_uninstalling)
  have un: "holds (uninstalling T) (?P v)
    (if i_public v = None then ret () else andThen (sys (sys_remove [executableName]) IErrIO) (cleanup syncDirectory)) (\<lambda>_. unlinked T) ?E" for v
    by (rule holds_fact [where A = "inventory_ok T v"], blast, rule holds_conseq [OF holds_unlink]) auto
  show ?thesis
    unfolding uninstall_opened_def
    by (rule holds_bnd [OF holds_reads [OF reads_inspect here]], assumption, rule holds_andThen [OF q [OF quiet_ctx]],
        rule holds_andThen [OF q [OF quiet_samePublication]], rule holds_andThen [OF un], rule rest)
qed

text \<open>Opening without creating only reads, and says when there is nothing to open.\<close>

definition absent :: "tree \<Rightarrow> bool" where
  "absent t \<longleftrightarrow> map_of t [] = None \<or> map_of t [executableName] = None \<and> map_of t [managerName] = None"

lemma reads_openStore:
  assumes "quiet ctx"
  shows "reads (openStore ctx bin_path False shared) (\<lambda>t so. so = None \<longrightarrow> absent t)"
proof -
  have e: "quiet (enter_store ctx bin False shared)" for bin
    using assms by (auto simp: enter_store_def Let_def intro!: quiet_rules split: sum.split)
  have k: "reads (bnd (enter_store ctx bin False shared) (\<lambda>st. ret (Some st))) (\<lambda>_ so. so \<noteq> None)" for bin
    by (rule reads_bnd [OF reads_quiet [OF e, of "\<lambda>_ _. True"]]) (auto intro: reads_ret)
  have m: "reads (case m of Missing \<Rightarrow> bnd (lstat [executableName]) (\<lambda>x. if x \<noteq> Missing then throw [IErrUnmanaged] else if \<not> False then ret None
          else andThen (sys (sys_mkdir [managerName]) IErrIO) (bnd (enter_store ctx bin True shared) (\<lambda>st. ret (Some st))))
     | Unreadable \<Rightarrow> throw [IErrUnmanaged]
     | Found _ \<Rightarrow> bnd (enter_store ctx bin False shared) (\<lambda>st. ret (Some st))) (\<lambda>t so. stat_of t [managerName] m \<longrightarrow> so = None \<longrightarrow> absent t)" for m bin
    by (cases m) (auto intro!: reads_ret reads_bnd [OF reads_lstat] reads_conseq [OF k] simp: stat_of_def absent_def)
  have s: "reads (stat_bin False) (\<lambda>t s. stat_of t [] s)"
    unfolding stat_bin_def by (rule reads_bnd [OF reads_lstat]) (auto intro: reads_ret)
  have "reads (case s of
          Missing \<Rightarrow> ret None
        | Unreadable \<Rightarrow> throw [IErrLocation]
        | Found bin \<Rightarrow>
            if \<not> safeDirectory bin False then throw [IErrLocation]
            else andThen (fallible IErrLocation) (bnd (found [] IErrLocation) (\<lambda>opened.
              if \<not> same_file bin opened then throw [IErrLocation]
              else bnd (lstat [managerName]) (\<lambda>m. case m of
       Missing \<Rightarrow> bnd (lstat [executableName]) (\<lambda>x. if x \<noteq> Missing then throw [IErrUnmanaged] else if \<not> False then ret None
          else andThen (sys (sys_mkdir [managerName]) IErrIO) (bnd (enter_store ctx bin True shared) (\<lambda>st. ret (Some st))))
     | Unreadable \<Rightarrow> throw [IErrUnmanaged]
     | Found _ \<Rightarrow> bnd (enter_store ctx bin False shared) (\<lambda>st. ret (Some st)))))) (\<lambda>t so. stat_of t [] s \<longrightarrow> so = None \<longrightarrow> absent t)" for s
  proof (cases s)
    case (Found bin)
    show ?thesis
      unfolding Found stat.case
      by (rule reads_unless, rule reads_andThen, rule quiet_fallible, rule reads_bnd [OF reads_found], rule reads_unless,
          rule reads_bnd [OF reads_lstat], rule reads_conseq [OF m], blast)
  qed (auto intro!: reads_ret simp: stat_of_def absent_def)
  then show ?thesis
    unfolding openStore_def using assms by (auto intro!: reads_ret reads_andThen reads_bnd [OF s])
qed

lemma holds_Uninstall:
  "holds (uninstalling T) (\<lambda>c. fst c = T) (Uninstall sha flip bin_path) (\<lambda>_ c. uninstalling T (fst c) \<and> absent (fst c)) (\<lambda>_ c. uninstalling T (fst c))"
proof -
  let ?Q = "\<lambda>_ c. uninstalling T (fst c) \<and> absent (fst c)" and ?E = "\<lambda>_ c. uninstalling T (fst c)"
  have here: "fst c = T \<Longrightarrow> ?E e c" for e c by (simp add: uninstalling_def)
  have k: "holds (uninstalling T) (\<lambda>c. fst c = T) (closing (uninstall_opened sha flip s)) ?Q ?E" for s
    by (rule holds_conseq [OF holds_closing [OF holds_uninstall_opened]]) (auto simp: absent_def unlinked_def intro: unlinked_uninstalling [unfolded unlinked_def])
  show ?thesis
    unfolding Uninstall_def
  proof (rule holds_bnd [OF holds_reads [OF reads_openStore [OF quiet_ctx] here]], assumption)
    fix so
    show "holds (uninstalling T) (\<lambda>c. fst c = T \<and> (so = None \<longrightarrow> absent (fst c))) (case so of None \<Rightarrow> ret () | Some s \<Rightarrow> closing (uninstall_opened sha flip s)) ?Q ?E"
      using k by (cases so) (auto intro!: holds_ret simp: uninstalling_def)
  qed
qed

text \<open>
  C39: Uninstalling takes the command away in one step. Whatever fails and wherever the process dies, every tree it leaves
  either runs what it ran before or has no public entry at all, never a link to something that is no longer there, and
  nothing outside the installer's own paths changes. After success neither the entry nor the manager directory is left.
\<close>

theorem uninstall_is_atomic:
  assumes "Uninstall sha flip bin_path d = (r, d')"
  shows "\<exists>new. past d' = past d @ new
     \<and> (\<forall>t \<in> insert (tree d') (set new). (\<forall>p. \<not> own p \<longrightarrow> map_of t p = map_of (tree d) p)
         \<and> (map_of t [executableName] = None \<or> map_of t [executableName] = map_of (tree d) [executableName] \<and> running t = running (tree d)))
     \<and> (r = Inr () \<longrightarrow> map_of (tree d') [] = None \<or> map_of (tree d') [executableName] = None \<and> map_of (tree d') [managerName] = None)"
proof -
  have "left (uninstalling (tree d)) d d' \<and> outcome_ok (\<lambda>_ c. uninstalling (tree d) (fst c) \<and> absent (fst c)) (\<lambda>_ c. uninstalling (tree d) (fst c)) r d'"
    by (rule holdsD [OF holds_Uninstall assms]) (simp add: core_def)
  then show ?thesis
    by (cases r) (auto simp: left_def uninstalling_def absent_def core_def)
qed

text \<open>Removing a manager directory that has no generation.\<close>

definition idle_tree :: tree where
  "idle_tree = [([], Directory (plain_meta 11 493)), ([''readme''], Regular (plain_meta 15 420) ''hi''), ([managerName], Directory (plain_meta 12 448)),
     (in_manager ''lock'', Regular (plain_meta 13 384) []), (in_manager ''format.json'', Regular (plain_meta 14 384) marker)]"

definition removed :: "(install_error list + unit) \<times> disk" where
  "removed = Uninstall (\<lambda>_. []) False ''/b'' (disk_with idle_tree)"

theorem uninstall_is_atomic_witness:
  "fst removed = Inr () \<and> map_of (tree (snd removed)) [''readme''] = Some (Regular (plain_meta 15 420) ''hi'') \<and> map_of (tree (snd removed)) [managerName] = None"
proof -
  have r: "fst removed = Inr ()" by code_simp
  have there: "map_of (tree (snd removed)) [] \<noteq> None" by code_simp
  have i: "map_of idle_tree [''readme''] = Some (Regular (plain_meta 15 420) ''hi'')" by (simp add: idle_tree_def)
  have o: "\<not> own [''readme'']" by (simp add: own_def under_def executableName_def managerName_def)
  have p: "past (disk_with idle_tree) = []" "tree (disk_with idle_tree) = idle_tree" by (simp_all add: disk_with_def)
  from uninstall_is_atomic [OF prod.collapse [symmetric], of "\<lambda>_. []" False "''/b''" "disk_with idle_tree"]
  have "map_of (tree (snd removed)) [''readme''] = map_of idle_tree [''readme'']"
    "map_of (tree (snd removed)) [] = None \<or> map_of (tree (snd removed)) [executableName] = None \<and> map_of (tree (snd removed)) [managerName] = None"
    unfolding removed_def [symmetric] r p using o by auto
  with r there i show ?thesis by auto
qed

end
