(* ===== verification/Installation_Lease.thy ===== *)
theory Installation_Lease
  imports Installation_Atomic
begin

text \<open>A running process holds a lease: as long as it does, no installation and no removal changes anything.\<close>

subsection \<open>Actions that only meet faults\<close>

definition steady :: "disk \<Rightarrow> disk \<Rightarrow> bool" where
  "steady d d' \<longleftrightarrow> d' = d\<lparr>faults := faults d'\<rparr>"

definition plain :: "'a action \<Rightarrow> bool" where
  "plain m \<longleftrightarrow> (\<forall>d. steady d (snd (m d)))"

named_theorems plain_rules \<open>actions that change nothing but the faults to come\<close>

lemma steady_refl [simp]: "steady d d"
  by (simp add: steady_def)

lemma steady_trans: "steady d d1 \<Longrightarrow> steady d1 d2 \<Longrightarrow> steady d d2"
  unfolding steady_def by (metis disk.surjective disk.update_convs(3))

lemma steady_fields: "steady d d' \<Longrightarrow> tree d' = tree d \<and> past d' = past d \<and> sharers d' = sharers d \<and> mine d' = mine d \<and> locked d' = locked d \<and> staged d' = staged d \<and> published d' = published d"
  by (cases d'; cases d) (simp add: steady_def)

lemma plainD: "plain m \<Longrightarrow> m d = (r, d') \<Longrightarrow> steady d d'"
  unfolding plain_def by (metis snd_conv)

lemma plain_basic [plain_rules]: "plain (ret x)" "plain (throw e)" "plain fails" "plain (handle p)"
  by (auto simp: plain_def steady_def ret_def throw_def fails_def handle_def split: list.splits option.splits)

lemma plain_bnd [plain_rules]: "plain m \<Longrightarrow> (\<And>x. plain (k x)) \<Longrightarrow> plain (bnd m k)"
  unfolding plain_def bnd_def by (auto split: prod.splits sum.splits) (metis snd_conv steady_trans)+

lemma plain_andThen [plain_rules]: "plain m \<Longrightarrow> plain k \<Longrightarrow> plain (andThen m k)"
  unfolding andThen_def by (rule plain_bnd)

lemma plain_attempt [plain_rules]: "plain m \<Longrightarrow> plain (attempt m)"
  by (simp add: plain_def attempt_def split_beta)

lemma plain_need [plain_rules]: "plain (need b e)" "plain (fallible e)" "plain ctx_err"
  by (auto simp: need_def fallible_def ctx_err_def intro!: plain_rules)

lemma plain_lstat [plain_rules]: "plain (lstat p)"
proof -
  have "plain (\<lambda>d. (f d, d))" for f :: "disk \<Rightarrow> install_error list + stat" by (simp add: plain_def)
  then show ?thesis unfolding lstat_def by (intro plain_bnd plain_basic)
qed

lemma plain_each [plain_rules]: "(\<And>x. plain (f x)) \<Longrightarrow> plain (each f xs)"
  by (induction xs) (auto intro!: plain_rules)

lemma plain_reading [plain_rules]: "plain (found p e)" "plain (openFile p mode most)" "plain (openDirectory p private)" "plain (check s)"
    "plain publicLink" "plain (pointer name)" "plain (readSource is_abs source)"
  by (auto simp: found_def openFile_def openDirectory_def check_def publicLink_def pointer_def readSource_def
      intro!: plain_rules split: stat.split entry.split option.split)

lemma plain_readFile [plain_rules]: "plain ctx \<Longrightarrow> plain (readFile ctx p most)"
  by (auto simp: readFile_def intro!: plain_rules split: stat.split)

lemma plain_readManifest [plain_rules]: "plain ctx \<Longrightarrow> plain (readManifest ctx root name)"
  by (auto simp: readManifest_def intro!: plain_rules split: option.split)

lemma plain_lease_opened: "plain (lease_opened identity)"
proof -
  have "plain (lease_file identity r)" for r by (auto simp: lease_file_def intro!: plain_rules)
  then show ?thesis by (auto simp: lease_opened_def intro!: plain_rules)
qed

subsection \<open>Operations that find the installation in use\<close>

definition present :: "disk \<Rightarrow> bool" where
  "present d \<longleftrightarrow> map_of (tree d) [] \<noteq> None \<and> map_of (tree d) [managerName] \<noteq> None"

definition in_use :: "disk \<Rightarrow> bool" where
  "in_use d \<longleftrightarrow> present d \<and> 0 < sharers d \<and> mine d = None"

definition refuses :: "'a action \<Rightarrow> bool" where
  "refuses m \<longleftrightarrow> (\<forall>d. in_use d \<longrightarrow> steady d (snd (m d)) \<and> isl (fst (m d)))"

lemma in_use_steady: "steady d d' \<Longrightarrow> in_use d' = in_use d"
  by (auto simp: in_use_def present_def dest: steady_fields)

lemma refusesI: "(\<And>d r d'. in_use d \<Longrightarrow> m d = (r, d') \<Longrightarrow> steady d d' \<and> isl r) \<Longrightarrow> refuses m"
  unfolding refuses_def by (metis prod.collapse)

lemma refusesD: "refuses m \<Longrightarrow> in_use d \<Longrightarrow> m d = (r, d') \<Longrightarrow> steady d d' \<and> isl r"
  unfolding refuses_def by (metis fst_conv snd_conv)

lemma refuses_throw: "refuses (throw e)"
  by (simp add: refuses_def throw_def)

lemma refuses_if: "(b \<Longrightarrow> refuses m) \<Longrightarrow> (\<not> b \<Longrightarrow> refuses k) \<Longrightarrow> refuses (if b then m else k)"
  by simp

lemma refuses_first: "refuses m \<Longrightarrow> refuses (bnd m k)"
  by (rule refusesI, erule bnd_cases) (auto dest: refusesD)

lemma refuses_later:
  assumes "plain m" "\<And>x. refuses (k x)"
  shows "refuses (bnd m k)"
proof (rule refusesI)
  fix d r d' assume u: "in_use d" and b: "bnd m k d = (r, d')"
  from b show "steady d d' \<and> isl r"
  proof (cases rule: bnd_cases)
    case (failed e)
    with plainD [OF assms(1)] show ?thesis by simp
  next
    case (went_on x d1)
    have s: "steady d d1" using plainD [OF assms(1) went_on(1)] .
    with refusesD [OF assms(2) _ went_on(2)] u in_use_steady steady_trans show ?thesis by blast
  qed
qed

lemma refuses_andThen: "refuses m \<Longrightarrow> refuses (andThen m k)" "plain m \<Longrightarrow> refuses k \<Longrightarrow> refuses (andThen m k)"
  by (simp_all add: andThen_def refuses_first refuses_later)

lemma refuses_lstat:
  assumes "p = [] \<or> p = [managerName]" "\<And>s. s \<noteq> Missing \<Longrightarrow> refuses (k s)"
  shows "refuses (bnd (lstat p) k)"
proof (rule refusesI)
  fix d r d' assume u: "in_use d" and b: "bnd (lstat p) k d = (r, d')"
  from b show "steady d d' \<and> isl r"
  proof (cases rule: bnd_cases)
    case (failed e)
    with plainD [OF plain_lstat] show ?thesis by simp
  next
    case (went_on s d1)
    have s: "steady d d1" using plainD [OF plain_lstat went_on(1)] .
    have "s \<noteq> Missing" using readsD [OF reads_lstat went_on(1)] u assms(1) by (auto simp: stat_of_def in_use_def present_def)
    with s refusesD [OF assms(2) _ went_on(2)] u in_use_steady steady_trans show ?thesis by blast
  qed
qed

lemma refuses_lock: "refuses (lockFile False)"
  unfolding lockFile_def
proof (rule refuses_later [OF plain_basic(3)])
  show "refuses (\<lambda>d. if b then (Inl [IErrIO], d) else if locked d \<or> \<not> False \<and> 0 < sharers d then (Inl [IErrBusy], d)
     else (Inr (), if False then d\<lparr>sharers := sharers d + 1, mine := Some True\<rparr> else d\<lparr>locked := True, mine := Some False\<rparr>))" for b
    by (simp add: refuses_def in_use_def)
qed

lemma refuses_enter_store: "refuses (enter_store ctx_err bin False False)"
  unfolding enter_store_def
proof (rule refusesI)
  let ?m = "bnd (openDirectory [managerName] True) (\<lambda>root. andThen (if False then new_lock else old_lock ctx_err False)
       (bnd (handle (in_manager ''lock'')) (\<lambda>lock. let s = \<lparr>binInfo = bin, rootInfo = root, lockInfo = lock, was_created = False\<rparr> in andThen (check s) (ret s))))"
  have "refuses (old_lock ctx_err False)"
    by (auto simp: old_lock_def intro!: refuses_later refuses_throw refuses_andThen(2) plain_rules refuses_lock)
  then have m: "refuses ?m" by (auto intro!: refuses_later refuses_andThen(1) plain_rules)
  fix d r d' assume u: "in_use d"
    and b: "bnd (attempt ?m) (\<lambda>r. case r of Inl e \<Rightarrow> andThen close_store (throw (if False then e @ [IErrCleanup] else e)) | Inr s \<Rightarrow> ret s) d = (r, d')"
  obtain q d1 where q: "?m d = (q, d1)" by (cases "?m d")
  with refusesD [OF m u q] obtain e where e: "q = Inl e" "steady d d1" by (cases q) auto
  with u have "mine d1 = None" using steady_fields [OF e(2)] by (simp add: in_use_def)
  with b q e show "steady d d' \<and> isl r"
    by (auto simp: bnd_def attempt_def andThen_def close_store_def throw_def)
qed

lemma bnd_laws: "bnd (bnd m f) k = bnd m (\<lambda>x. bnd (f x) k)" "bnd (ret x) k = k x"
  by (auto simp: bnd_def ret_def fun_eq_iff split: prod.splits sum.splits)

lemma refuses_stat_bin:
  assumes "\<And>s. s \<noteq> Missing \<Longrightarrow> refuses (k s)"
  shows "refuses (bnd (stat_bin new) k)"
  unfolding stat_bin_def bnd_laws(1) by (rule refuses_lstat) (simp_all add: bnd_laws(2) assms)

lemma refuses_openStore: "refuses (openStore ctx_err bin_path new False)"
  unfolding openStore_def
proof (intro refuses_if refuses_throw refuses_andThen(2) plain_rules refuses_stat_bin)
  fix s assume "s \<noteq> Missing"
  then show "refuses (case s of
          Missing \<Rightarrow> ret None
        | Unreadable \<Rightarrow> throw [IErrLocation]
        | Found bin \<Rightarrow>
            if \<not> safeDirectory bin False then throw [IErrLocation]
            else andThen (fallible IErrLocation) (bnd (found [] IErrLocation) (\<lambda>opened.
              if \<not> same_file bin opened then throw [IErrLocation]
              else bnd (lstat [managerName]) (\<lambda>m. case m of
                  Missing \<Rightarrow> bnd (lstat [executableName]) (\<lambda>x.
                    if x \<noteq> Missing then throw [IErrUnmanaged]
                    else if \<not> new then ret None
                    else andThen (sys (sys_mkdir [managerName]) IErrIO) (bnd (enter_store ctx_err bin True False) (\<lambda>st. ret (Some st))))
                | Unreadable \<Rightarrow> throw [IErrUnmanaged]
                | Found _ \<Rightarrow> bnd (enter_store ctx_err bin False False) (\<lambda>st. ret (Some st))))))"
  proof (cases s)
    case (Found bin)
    have "refuses (case m of
                  Missing \<Rightarrow> bnd (lstat [executableName]) (\<lambda>x.
                    if x \<noteq> Missing then throw [IErrUnmanaged]
                    else if \<not> new then ret None
                    else andThen (sys (sys_mkdir [managerName]) IErrIO) (bnd (enter_store ctx_err bin True False) (\<lambda>st. ret (Some st))))
                | Unreadable \<Rightarrow> throw [IErrUnmanaged]
                | Found _ \<Rightarrow> bnd (enter_store ctx_err bin False False) (\<lambda>st. ret (Some st)))" if "m \<noteq> Missing" for m
      using that by (cases m) (auto intro: refuses_first refuses_enter_store refuses_throw)
    then show ?thesis
      unfolding Found stat.case
      by (intro refuses_if refuses_throw refuses_andThen(2) plain_need refuses_later [OF plain_reading(1)] refuses_lstat) auto
  qed (auto intro: refuses_throw)
qed

lemma refuses_Install: "refuses (Install sha notices random bin_path is_abs source force)"
  unfolding Install_def by (intro refuses_andThen(2) refuses_later refuses_first refuses_openStore plain_rules)

lemma refuses_Uninstall: "refuses (Uninstall sha flip bin_path)"
  unfolding Uninstall_def by (intro refuses_first refuses_openStore)

subsection \<open>Taking a lease\<close>

definition taken :: "disk \<Rightarrow> disk \<Rightarrow> bool" where
  "taken d d' \<longleftrightarrow> d' = d\<lparr>faults := faults d', sharers := sharers d + 1, mine := Some True\<rparr>"

lemma taken_steady: "taken d d1 \<Longrightarrow> steady d1 d2 \<Longrightarrow> taken d d2" "steady d d1 \<Longrightarrow> taken d1 d2 \<Longrightarrow> taken d d2"
  by (cases d; cases d1; cases d2; simp add: taken_def steady_def)+

lemma taken_fields: "taken d d' \<Longrightarrow> tree d' = tree d \<and> past d' = past d \<and> sharers d' = sharers d + 1"
  by (cases d'; cases d) (simp add: taken_def)

lemma close_taken: "taken d d1 \<Longrightarrow> mine d = None \<Longrightarrow> close_store d1 = (Inr (), d2) \<Longrightarrow> steady d d2"
  by (cases d; cases d1; cases d2) (simp add: taken_def steady_def close_store_def)

text \<open>An action that takes the lease when it returns, and leaves it taken or not when it fails.\<close>

definition takes :: "'a action \<Rightarrow> bool" where
  "takes m \<longleftrightarrow> (\<forall>d. taken d (snd (m d)) \<or> steady d (snd (m d)) \<and> isl (fst (m d)))"

lemma takesI: "(\<And>d r d'. m d = (r, d') \<Longrightarrow> taken d d' \<or> steady d d' \<and> isl r) \<Longrightarrow> takes m"
  unfolding takes_def by (metis prod.collapse)

lemma takesD: "takes m \<Longrightarrow> m d = (r, d') \<Longrightarrow> taken d d' \<or> steady d d' \<and> isl r"
  unfolding takes_def by (metis fst_conv snd_conv)

lemma takes_later:
  assumes "plain m" "\<And>x. takes (k x)"
  shows "takes (bnd m k)"
proof (rule takesI)
  fix d r d' assume b: "bnd m k d = (r, d')"
  from b show "taken d d' \<or> steady d d' \<and> isl r"
  proof (cases rule: bnd_cases)
    case (failed e)
    with plainD [OF assms(1)] show ?thesis by simp
  next
    case (went_on x d1)
    with plainD [OF assms(1)] have "steady d d1" by blast
    with takesD [OF assms(2) went_on(2)] taken_steady(2) steady_trans show ?thesis by blast
  qed
qed

lemma takes_first:
  assumes "takes m" "\<And>x. plain (k x)"
  shows "takes (bnd m k)"
proof (rule takesI)
  fix d r d' assume b: "bnd m k d = (r, d')"
  from b show "taken d d' \<or> steady d d' \<and> isl r"
  proof (cases rule: bnd_cases)
    case (failed e)
    with takesD [OF assms(1) failed(1)] show ?thesis by simp
  next
    case (went_on x d1)
    have "taken d d1" using takesD [OF assms(1) went_on(1)] by simp
    with plainD [OF assms(2) went_on(2)] taken_steady(1) show ?thesis by blast
  qed
qed

lemma takes_throw: "takes (throw e)"
  by (simp add: takes_def throw_def)

lemma takes_andThen: "plain m \<Longrightarrow> takes k \<Longrightarrow> takes (andThen m k)" "takes m \<Longrightarrow> plain k \<Longrightarrow> takes (andThen m k)"
  by (simp_all add: andThen_def takes_later takes_first)

lemma takes_lock: "takes (lockFile True)"
  unfolding lockFile_def
proof (rule takes_later [OF plain_basic(3)])
  show "takes (\<lambda>d. if b then (Inl [IErrIO], d) else if locked d \<or> \<not> True \<and> 0 < sharers d then (Inl [IErrBusy], d)
     else (Inr (), if True then d\<lparr>sharers := sharers d + 1, mine := Some True\<rparr> else d\<lparr>locked := True, mine := Some False\<rparr>))" for b
    by (simp add: takes_def taken_def)
qed

lemma enter_shared:
  assumes "mine d = None" "enter_store (ret ()) bin False True d = (r, d')"
  shows "case r of Inl _ \<Rightarrow> steady d d' | Inr _ \<Rightarrow> taken d d'"
proof -
  let ?m = "bnd (openDirectory [managerName] True) (\<lambda>root. andThen (if False then new_lock else old_lock (ret ()) True)
       (bnd (handle (in_manager ''lock'')) (\<lambda>lock. let s = \<lparr>binInfo = bin, rootInfo = root, lockInfo = lock, was_created = False\<rparr> in andThen (check s) (ret s))))"
  have "takes (old_lock (ret ()) True)"
    by (auto simp: old_lock_def intro!: takes_later takes_throw takes_andThen(1) plain_rules takes_lock)
  then have m: "takes ?m" by (auto simp: Let_def intro!: takes_later takes_andThen(2) plain_rules)
  obtain q d1 where q: "?m d = (q, d1)" by (cases "?m d")
  have b: "bnd (attempt ?m) (\<lambda>r. case r of Inl e \<Rightarrow> andThen close_store (throw (if False then e @ [IErrCleanup] else e)) | Inr s \<Rightarrow> ret s) d = (r, d')"
    using assms(2) by (simp add: enter_store_def)
  show ?thesis
  proof (cases q)
    case (Inr s)
    with b q takesD [OF m q] show ?thesis by (auto simp: bnd_def attempt_def ret_def)
  next
    case (Inl e)
    have c: "close_store d1 = (Inr (), d')" "r = Inl e"
      using b q Inl by (auto simp: bnd_def attempt_def andThen_def throw_def close_store_def)
    from takesD [OF m q] have "steady d d'"
    proof
      assume "taken d d1"
      then show ?thesis using close_taken assms(1) c(1) by blast
    next
      assume s: "steady d d1 \<and> isl q"
      then have "mine d1 = None" using steady_fields [of d d1] assms(1) by simp
      with c(1) have "d' = d1" by (simp add: close_store_def)
      with s show ?thesis by simp
    qed
    with c show ?thesis by simp
  qed
qed

text \<open>Opening shared: nothing, an error, or the lease.\<close>

definition open_ok :: "disk \<Rightarrow> install_error list + 'a option \<Rightarrow> disk \<Rightarrow> bool" where
  "open_ok d r d' = (case r of Inr (Some _) \<Rightarrow> taken d d' \<and> present d | _ \<Rightarrow> steady d d')"

definition opens :: "(tree \<Rightarrow> bool) \<Rightarrow> 'a option action \<Rightarrow> bool" where
  "opens A m \<longleftrightarrow> (\<forall>d r d'. mine d = None \<longrightarrow> A (tree d) \<longrightarrow> m d = (r, d') \<longrightarrow> open_ok d r d')"

lemma opens_none: "opens A (throw e)" "opens A (ret None)"
  by (auto simp: opens_def open_ok_def throw_def ret_def)

lemma opens_later:
  assumes "plain m" "reads m R" "\<And>x. opens (\<lambda>t. A t \<and> R t x) (k x)"
  shows "opens A (bnd m k)"
  unfolding opens_def
proof (intro allI impI)
  fix d r d' assume u: "mine d = None" "A (tree d)" and b: "bnd m k d = (r, d')"
  from b show "open_ok d r d'"
  proof (cases rule: bnd_cases)
    case (failed e)
    with plainD [OF assms(1)] show ?thesis by (simp add: open_ok_def)
  next
    case (went_on x d1)
    have s: "steady d d1" using plainD [OF assms(1) went_on(1)] .
    have "R (tree d) x" using readsD [OF assms(2) went_on(1)] by blast
    with u steady_fields [OF s] have "mine d1 = None" "A (tree d1) \<and> R (tree d1) x" by simp_all
    with assms(3) [of x] went_on(2) have "open_ok d1 r d'" unfolding opens_def by blast
    with s steady_trans [OF s] taken_steady(2) [OF s] steady_fields [OF s] show ?thesis
      by (auto simp: open_ok_def present_def split: sum.splits option.splits)
  qed
qed

lemma opens_andThen: "plain m \<Longrightarrow> opens A k \<Longrightarrow> opens A (andThen m k)"
  unfolding andThen_def
  by (rule opens_later [where R = "\<lambda>_ _. True"]) (auto simp: reads_def quiet_def plain_def core_def dest: steady_fields)

lemma opens_if: "opens A m \<Longrightarrow> opens A k \<Longrightarrow> opens A (if b then m else k)"
  by simp

lemma opens_enter:
  assumes "\<And>t. A t \<Longrightarrow> map_of t [] \<noteq> None \<and> map_of t [managerName] \<noteq> None"
  shows "opens A (bnd (enter_store (ret ()) bin False True) (\<lambda>st. ret (Some st)))"
  unfolding opens_def
proof (intro allI impI)
  fix d r d' assume u: "mine d = None" "A (tree d)" and b: "bnd (enter_store (ret ()) bin False True) (\<lambda>st. ret (Some st)) d = (r, d')"
  from b show "open_ok d r d'"
  proof (cases rule: bnd_cases)
    case (failed e)
    with enter_shared [OF u(1)] show ?thesis by (fastforce simp: open_ok_def)
  next
    case (went_on x d1)
    with enter_shared [OF u(1) went_on(1)] assms [OF u(2)] show ?thesis by (auto simp: open_ok_def ret_def present_def)
  qed
qed

lemma opens_openStore: "opens (\<lambda>_. True) (openStore (ret ()) bin_path False True)"
proof -
  have m: "opens (\<lambda>t. ((True \<and> stat_of t [] s) \<and> map_of t [] = Some x) \<and> stat_of t [managerName] m) (case m of
       Missing \<Rightarrow> bnd (lstat [executableName]) (\<lambda>x. if x \<noteq> Missing then throw [IErrUnmanaged] else if \<not> False then ret None
          else andThen (sys (sys_mkdir [managerName]) IErrIO) (bnd (enter_store (ret ()) bin True True) (\<lambda>st. ret (Some st))))
     | Unreadable \<Rightarrow> throw [IErrUnmanaged]
     | Found _ \<Rightarrow> bnd (enter_store (ret ()) bin False True) (\<lambda>st. ret (Some st)))" for s x m bin
  proof (cases m)
    case Missing
    show ?thesis unfolding Missing stat.case
      by (rule opens_later [OF plain_lstat reads_lstat]) (simp add: opens_none)
  qed (auto intro: opens_none opens_enter simp: stat_of_def)
  have s: "plain (stat_bin False)" "reads (stat_bin False) (\<lambda>t s. stat_of t [] s)"
    unfolding stat_bin_def by (auto intro!: plain_rules reads_bnd [OF reads_lstat] reads_ret)
  have k: "opens (\<lambda>t. True \<and> stat_of t [] s) (case s of
          Missing \<Rightarrow> ret None
        | Unreadable \<Rightarrow> throw [IErrLocation]
        | Found bin \<Rightarrow>
            if \<not> safeDirectory bin False then throw [IErrLocation]
            else andThen (fallible IErrLocation) (bnd (found [] IErrLocation) (\<lambda>opened.
              if \<not> same_file bin opened then throw [IErrLocation]
              else bnd (lstat [managerName]) (\<lambda>m. case m of
       Missing \<Rightarrow> bnd (lstat [executableName]) (\<lambda>x. if x \<noteq> Missing then throw [IErrUnmanaged] else if \<not> False then ret None
          else andThen (sys (sys_mkdir [managerName]) IErrIO) (bnd (enter_store (ret ()) bin True True) (\<lambda>st. ret (Some st))))
     | Unreadable \<Rightarrow> throw [IErrUnmanaged]
     | Found _ \<Rightarrow> bnd (enter_store (ret ()) bin False True) (\<lambda>st. ret (Some st))))))" for s
  proof (cases s)
    case (Found bin)
    show ?thesis
      unfolding Found stat.case
      by (intro opens_if opens_none opens_andThen plain_need opens_later [OF plain_reading(1) reads_found] opens_later [OF plain_lstat reads_lstat] m)
  qed (simp_all add: opens_none)
  show ?thesis
    unfolding openStore_def
    by (intro opens_if opens_none opens_andThen plain_basic opens_later [OF s] k)
qed

definition lease_result :: "disk \<Rightarrow> install_error list + bool \<Rightarrow> disk \<Rightarrow> bool" where
  "lease_result d r d' = (if r = Inr True then taken d d' \<and> present d else steady d d')"

lemma lease_taken:
  assumes "mine d = None" "Lease_install is_abs resolved d = (r, d')"
  shows "lease_result d r d'"
proof -
  let ?go = "\<lambda>i p. bnd (openStore (ret ()) p False True) (\<lambda>so. case so of None \<Rightarrow> throw [IErrUnmanaged]
       | Some s \<Rightarrow> bnd (attempt (lease_opened i)) (\<lambda>r. case r of Inl e \<Rightarrow> andThen close_store (throw e) | Inr _ \<Rightarrow> ret True))"
  have go: "lease_result d r d'" if "?go i p d = (r, d')" for i p
    using that
  proof (cases rule: bnd_cases)
    case (failed e)
    with opens_openStore assms(1) have "open_ok d (Inl e :: install_error list + istore option) d'" unfolding opens_def by blast
    with failed show ?thesis by (simp add: open_ok_def lease_result_def)
  next
    case (went_on so d1)
    with opens_openStore assms(1) have o: "open_ok d (Inr so) d1" unfolding opens_def by blast
    show ?thesis
    proof (cases so)
      case None
      with o went_on(2) show ?thesis by (auto simp: open_ok_def throw_def lease_result_def)
    next
      case (Some s)
      with o have t: "taken d d1" "present d" by (simp_all add: open_ok_def)
      obtain q d2 where q: "lease_opened i d1 = (q, d2)" by (cases "lease_opened i d1")
      have t2: "taken d d2" using taken_steady(1) [OF t(1)] plainD [OF plain_lease_opened q] .
      show ?thesis
      proof (cases q)
        case (Inl e)
        obtain d3 where c: "close_store d2 = (Inr (), d3)" by (simp add: close_store_def)
        with close_taken [OF t2 assms(1) c] went_on(2) Some q Inl show ?thesis
          by (auto simp: bnd_def attempt_def andThen_def throw_def lease_result_def)
      next
        case (Inr u)
        with t2 t(2) went_on(2) Some q show ?thesis by (auto simp: bnd_def attempt_def ret_def lease_result_def)
      qed
    qed
  qed
  have quick: "throw e d = (r, d') \<Longrightarrow> lease_result d r d'" "ret False d = (r, d') \<Longrightarrow> lease_result d r d'" for e
    by (auto simp: throw_def ret_def lease_result_def)
  from assms(2) show ?thesis
    unfolding Lease_install_def Let_def by (auto split: option.splits if_splits intro: go quick)
qed

subsection \<open>The lease protects\<close>

text \<open>What other processes may do, one whole operation after the other, each with its own faults.\<close>

definition newcomer :: "bool list \<Rightarrow> disk \<Rightarrow> disk" where
  "newcomer fs d = d\<lparr>mine := None, faults := fs\<rparr>"

inductive others :: "disk \<Rightarrow> disk \<Rightarrow> bool" where
  others_none: "others d d"
| others_install: "others d d1 \<Longrightarrow> others d (snd (Install sha notices random bin_path is_abs source force (newcomer fs d1)))"
| others_uninstall: "others d d1 \<Longrightarrow> others d (snd (Uninstall sha flip bin_path (newcomer fs d1)))"
| others_lease: "others d d1 \<Longrightarrow> others d (snd (Lease_install is_abs resolved (newcomer fs d1)))"

definition held :: "disk \<Rightarrow> disk \<Rightarrow> bool" where
  "held d d' \<longleftrightarrow> tree d' = tree d \<and> past d' = past d \<and> sharers d \<le> sharers d'"

lemma held_steady: "held d d1 \<Longrightarrow> steady (newcomer fs d1) d2 \<Longrightarrow> held d d2"
  by (auto simp: held_def newcomer_def dest: steady_fields)

lemma held_taken: "held d d1 \<Longrightarrow> taken (newcomer fs d1) d2 \<Longrightarrow> held d d2"
  by (auto simp: held_def newcomer_def dest: taken_fields)

lemma others_held:
  assumes "others d d'" "present d" "0 < sharers d"
  shows "held d d'"
  using assms
proof induction
  case (others_none d)
  show ?case by (simp add: held_def)
next
  case (others_install d d1 sha notices random bin_path is_abs source force fs)
  then have h: "held d d1" by blast
  with others_install have "in_use (newcomer fs d1)" by (auto simp: in_use_def newcomer_def held_def present_def)
  then show ?case using refusesD [OF refuses_Install _ prod.collapse [symmetric]] held_steady [OF h] by blast
next
  case (others_uninstall d d1 sha flip bin_path fs)
  then have h: "held d d1" by blast
  with others_uninstall have "in_use (newcomer fs d1)" by (auto simp: in_use_def newcomer_def held_def present_def)
  then show ?case using refusesD [OF refuses_Uninstall _ prod.collapse [symmetric]] held_steady [OF h] by blast
next
  case (others_lease d d1 is_abs resolved fs)
  then have h: "held d d1" by blast
  have "lease_result (newcomer fs d1) (fst (Lease_install is_abs resolved (newcomer fs d1))) (snd (Lease_install is_abs resolved (newcomer fs d1)))"
    by (rule lease_taken) (simp_all add: newcomer_def)
  then show ?case
    using held_steady [OF h] held_taken [OF h] by (auto simp: lease_result_def split: if_splits)
qed

text \<open>
  C40: A lease keeps the installation it was taken on. From the moment a starting process has its lease, whatever other
  processes do with the installer, any number of installations, removals and leases with any failures, the tree stays
  exactly as it is, so that the executable and its helpers stay where they are, and the lock stays shared. An installation
  or removal tried meanwhile ends with an error.
\<close>

theorem lease_protects_installation:
  assumes "Lease_install is_abs resolved (newcomer fs d) = (Inr True, d1)" and "others d1 d2"
  shows "tree d2 = tree d \<and> past d2 = past d \<and> 0 < sharers d2
    \<and> isl (fst (Install sha notices random bin_path is_abs' source force (newcomer fs' d2)))
    \<and> isl (fst (Uninstall sha flip bin_path (newcomer fs' d2)))"
proof -
  have "lease_result (newcomer fs d) (Inr True) d1" by (rule lease_taken [OF _ assms(1)]) (simp add: newcomer_def)
  then have t: "tree d1 = tree d" "past d1 = past d" "0 < sharers d1" "present d1"
    using taken_fields [of "newcomer fs d" d1] by (auto simp: lease_result_def newcomer_def present_def)
  from others_held [OF assms(2) t(4,3)] have h: "held d1 d2" .
  with t have "in_use (newcomer fs' d2)" by (auto simp: in_use_def newcomer_def held_def present_def)
  with refusesD [OF refuses_Install _ prod.collapse [symmetric]] refusesD [OF refuses_Uninstall _ prod.collapse [symmetric]] h t
  show ?thesis by (auto simp: held_def)
qed

subsection \<open>Runs without faults\<close>

lemma same_refl [simp]: "same_file e e" "unchanged e e"
  by (simp_all add: same_file_def unchanged_def)

lemma calm_basic:
  assumes "faults d = []"
  shows "fails d = (Inr False, d)" "fallible e d = (Inr (), d)" "lstat p d = (Inr (case map_of (tree d) p of None \<Rightarrow> Missing | Some e \<Rightarrow> Found e), d)"
  using assms by (simp_all add: fails_def fallible_def lstat_def bnd_def need_def ret_def)

lemma calm_openFile:
  assumes "faults d = []" "map_of (tree d) p = Some e" "safeFile e mode" "int (size_of e) \<le> most"
  shows "openFile p mode most d = (Inr e, d)"
  using assms by (simp add: openFile_def bnd_def andThen_def calm_basic ret_def)

lemma calm_readFile:
  assumes "faults d = []" "map_of (tree d) p = Some (Regular m b)" "safeFile (Regular m b) 384" "int (length b) \<le> most"
  shows "readFile (ret ()) p most d = (Inr b, d)"
  using assms calm_openFile [OF assms(1,2,3)] by (simp add: readFile_def bnd_def andThen_def calm_basic ret_def content_of_def)

lemma calm_openDirectory:
  assumes "faults d = []" "map_of (tree d) p = Some e" "safeDirectory e private"
  shows "openDirectory p private d = (Inr e, d)"
  using assms by (simp add: openDirectory_def bnd_def andThen_def calm_basic ret_def)

lemma calm_links:
  assumes "faults d = []"
  shows "map_of (tree d) [executableName] = Some (Symlink m link_target) \<Longrightarrow> safeLink (Symlink m link_target) \<Longrightarrow> publicLink d = (Inr (Some (Symlink m link_target)), d)"
    "map_of (tree d) (in_manager n) = Some (Symlink m v) \<Longrightarrow> safeLink (Symlink m v) \<Longrightarrow> generationName v \<Longrightarrow> pointer n d = (Inr v, d)"
  using assms by (simp_all add: publicLink_def pointer_def bnd_def andThen_def calm_basic ret_def)

lemma calm_readManifest:
  assumes "readFile (ret ()) (root @ [''manifest.json'']) (int maxManifest) d = (Inr b, d)" "ndjson_Object b \<noteq> None" "decode_manifest b = Some m" "manifest_ok name m"
  shows "readManifest (ret ()) root name d = (Inr m, d)"
  using assms by (auto simp: readManifest_def bnd_def ret_def)

definition leased_name :: bytes where
  "leased_name = ''generation-00000000000000000000000000000000''"

definition zero_sum :: bytes where
  "zero_sum = ''0000000000000000000000000000000000000000000000000000000000000000''"

definition leased_manifest :: manifest where
  "leased_manifest = \<lparr>mFormat = 1, mProduct = executableName, mGeneration = leased_name, mFiles = [\<lparr>rPath = executableName, rBytes = 2, rSHA256 = zero_sum\<rparr>, \<lparr>rPath = ''notices/runtime/a.txt'', rBytes = 1, rSHA256 = zero_sum\<rparr>]\<rparr>"

definition leased_text :: bytes where
  "leased_text = manifest_text leased_manifest"

definition leased_tree :: tree where
  "leased_tree = [([], Directory (plain_meta 11 493)), ([managerName], Directory (plain_meta 12 448)), (in_manager ''lock'', Regular (plain_meta 13 384) []),
  (in_manager ''format.json'', Regular (plain_meta 14 384) marker), (in_manager ''current'', Symlink (plain_meta 15 511) leased_name), ([executableName], Symlink (plain_meta 16 511) link_target),
  (in_manager leased_name, Directory (plain_meta 17 448)), (in_manager leased_name @ [executableName], Regular (plain_meta 18 448) ''v1''), (in_manager leased_name @ [''manifest.json''], Regular (plain_meta 19 384) leased_text)]"

lemma leased_decode: "decode_manifest leased_text = Some leased_manifest"
  by code_simp

lemma leased_object: "ndjson_Object leased_text \<noteq> None"
  by code_simp

lemma leased_manifest_ok: "manifest_ok leased_name leased_manifest"
  by code_simp

lemma leased_name_ok: "generationName leased_name"
  by code_simp

lemma leased_text_fits: "length leased_text \<le> maxManifest"
  by code_simp

lemma marker_fits: "length marker \<le> 128"
  by code_simp

lemma leased_location: "location_ok ''/b''"
  by code_simp


lemma leased_entries:
  "map_of leased_tree [] = Some (Directory (plain_meta 11 493))" "map_of leased_tree [managerName] = Some (Directory (plain_meta 12 448))"
  "map_of leased_tree (in_manager ''lock'') = Some (Regular (plain_meta 13 384) [])" "map_of leased_tree (in_manager ''format.json'') = Some (Regular (plain_meta 14 384) marker)"
  "map_of leased_tree (in_manager ''current'') = Some (Symlink (plain_meta 15 511) leased_name)" "map_of leased_tree [executableName] = Some (Symlink (plain_meta 16 511) link_target)"
  "map_of leased_tree (in_manager leased_name) = Some (Directory (plain_meta 17 448))" "map_of leased_tree (in_manager leased_name @ [executableName]) = Some (Regular (plain_meta 18 448) ''v1'')"
  "map_of leased_tree (in_manager leased_name @ [''manifest.json'']) = Some (Regular (plain_meta 19 384) leased_text)"
  by (simp_all add: leased_tree_def in_manager_def leased_name_def executableName_def managerName_def)

lemma leased_modes:
  "safeDirectory (Directory (plain_meta i 493)) False" "safeDirectory (Directory (plain_meta i 448)) True" "safeFile (Regular (plain_meta i 384) b) 384" "safeFile (Regular (plain_meta i 448) b) 448"
  "safeLink (Symlink (plain_meta i 511) v)"
  by (simp_all add: safeDirectory_def safeFile_def safeLink_def plain_meta_def perm_bit_def writable_by_others_def)

lemma leased_open:
  assumes "tree d = leased_tree" "faults d = []" "mine d = None" "\<not> locked d"
  shows "\<exists>s. openStore (ret ()) ''/b'' False True d = (Inr (Some s), d\<lparr>sharers := sharers d + 1, mine := Some True\<rparr>)"
proof -
  have f: "readFile (ret ()) (in_manager ''format.json'') 128 d = (Inr marker, d)"
    by (rule calm_readFile [where m = "plain_meta 14 384"]) (simp_all add: assms leased_entries leased_modes marker_fits)
  have r: "openDirectory [managerName] True d = (Inr (Directory (plain_meta 12 448)), d)"
    by (rule calm_openDirectory) (simp_all add: assms leased_entries leased_modes)
  have l: "old_lock (ret ()) True d = (Inr (), d\<lparr>sharers := sharers d + 1, mine := Some True\<rparr>)"
    using f by (simp add: old_lock_def bnd_def andThen_def attempt_def calm_basic assms handle_def leased_entries leased_modes lockFile_def)
  define s where "s = \<lparr>binInfo = Directory (plain_meta 11 493), rootInfo = Directory (plain_meta 12 448), lockInfo = Regular (plain_meta 13 384) [], was_created = False\<rparr>"
  have c: "check s (d\<lparr>sharers := sharers d + 1, mine := Some True\<rparr>) = (Inr (), d\<lparr>sharers := sharers d + 1, mine := Some True\<rparr>)"
    by (simp add: check_def bnd_def andThen_def calm_basic assms leased_entries leased_modes s_def need_def ret_def)
  have e: "enter_store (ret ()) (Directory (plain_meta 11 493)) False True d = (Inr s, d\<lparr>sharers := sharers d + 1, mine := Some True\<rparr>)"
    using r l c by (simp add: enter_store_def bnd_def andThen_def attempt_def handle_def assms leased_entries Let_def s_def [symmetric] ret_def)
  have "openStore (ret ()) ''/b'' False True d = (Inr (Some s), d\<lparr>sharers := sharers d + 1, mine := Some True\<rparr>)"
    using e leased_location by (simp add: openStore_def stat_bin_def bnd_def andThen_def calm_basic assms leased_entries leased_modes found_def ret_def)
  then show ?thesis ..
qed

lemma leased_run:
  assumes "tree d = leased_tree" "faults d = []" "mine d = None" "\<not> locked d"
  shows "Lease_install True (Some [''b'', managerName, leased_name, executableName]) d = (Inr True, d\<lparr>sharers := sharers d + 1, mine := Some True\<rparr>)"
proof -
  define d1 where "d1 = d\<lparr>sharers := sharers d + 1, mine := Some True\<rparr>"
  have a: "tree d1 = leased_tree" "faults d1 = []" using assms by (simp_all add: d1_def)
  have p: "pointer ''current'' d1 = (Inr leased_name, d1)" by (rule calm_links(2) [where m = "plain_meta 15 511"]) (simp_all add: a leased_entries leased_modes leased_name_ok)
  have l: "publicLink d1 = (Inr (Some (Symlink (plain_meta 16 511) link_target)), d1)" by (rule calm_links(1)) (simp_all add: a leased_entries leased_modes)
  have r: "openDirectory (in_manager leased_name) True d1 = (Inr (Directory (plain_meta 17 448)), d1)"
    by (rule calm_openDirectory) (simp_all add: a leased_entries leased_modes)
  have m: "readManifest (ret ()) (in_manager leased_name) leased_name d1 = (Inr leased_manifest, d1)"
    by (rule calm_readManifest [OF calm_readFile [where m = "plain_meta 19 384"] leased_object leased_decode leased_manifest_ok]) (simp_all add: a leased_entries leased_modes leased_text_fits)
  have f: "each (lease_file leased_name) (mFiles leased_manifest) d1 = (Inr (), d1)"
    by (simp add: leased_manifest_def lease_file_def bnd_def andThen_def found_def calm_basic a leased_entries leased_modes need_def ret_def executableName_def [symmetric])
      (simp add: executableName_def)
  have o: "lease_opened leased_name d1 = (Inr (), d1)"
    using p l r m f by (simp add: lease_opened_def bnd_def attempt_def)
  obtain s where "openStore (ret ()) ''/b'' False True d = (Inr (Some s), d1)" using leased_open [OF assms] by (auto simp: d1_def)
  with o leased_name_ok show ?thesis
    by (simp add: Lease_install_def Let_def bnd_def attempt_def ret_def) (simp add: d1_def)
qed

theorem lease_protects_installation_witness:
  "tree (snd (Install (\<lambda>_. []) [] None ''/b'' True None True (newcomer [] (snd (Lease_install True (Some [''b'', managerName, leased_name, executableName]) (newcomer [] (disk_with leased_tree))))))) = leased_tree"
proof -
  let ?d = "disk_with leased_tree"
  let ?d1 = "snd (Lease_install True (Some [''b'', managerName, leased_name, executableName]) (newcomer [] ?d))"
  have "fst (Lease_install True (Some [''b'', managerName, leased_name, executableName]) (newcomer [] ?d)) = Inr True"
    by (subst leased_run) (simp_all add: newcomer_def disk_with_def)
  then have l: "Lease_install True (Some [''b'', managerName, leased_name, executableName]) (newcomer [] ?d) = (Inr True, ?d1)"
    by (metis prod.collapse)
  have "others ?d1 (snd (Install (\<lambda>_. []) [] None ''/b'' True None True (newcomer [] ?d1)))"
    by (rule others_install [OF others_none])
  from lease_protects_installation [OF l this] show ?thesis by (simp add: disk_with_def)
qed

end
