(* ===== verification/Spec2Isabelle.thy ===== *)
theory Spec2Isabelle
  imports Broker_Props Pool_Props Messages_Props History_Props ResponseStream_Props Projection_Props Kirofeature_Props
    Estimate_Props Status_Props Catalog_Props Websearch_Props Driver_Props Acp_Props Manager_Props Gateway_Room Session_Stored Session_Prompt Installation_Lease
begin

text \<open>Verification development of the proxy.\<close>

end
